(* ===== verification/Prelude.thy ===== *)
theory Prelude
  imports Main "HOL-Library.Word"
begin

text \<open>
  Shared vocabulary of the development: the machine integers of the Rust sources as words, the
  result type of a contract call, arithmetic that traps on overflow (the release profile sets
  \<open>overflow-checks = true\<close>, so every \<open>+\<close>, \<open>-\<close> and \<open>*\<close> of the sources is a checked operation),
  the big-endian byte encodings of words, and the generic lemmas the components rest on.
  The collection \<open>res_simps\<close> holds the rules that turn "this call returned that value" into the
  guards that were passed; \<open>chk_simps\<close> turns checked word arithmetic into arithmetic on \<open>nat\<close>.
\<close>

section \<open>Types\<close>

type_synonym u8 = "8 word"
type_synonym u32 = "32 word"
type_synonym u64 = "64 word"
type_synonym u128 = "128 word"

text \<open>\<open>BytesN<32>\<close> (and \<open>U256\<close>): 256 bits, read big-endian; \<open>Bytes\<close> is a list of bytes.\<close>

type_synonym bytes32 = "256 word"
type_synonym bytes = "u8 list"

text \<open>
  A call stops with one of the source's own errors (an \<open>Err\<close>, or a contract error of a callee), or
  it traps (a panic, an arithmetic overflow, a refused authorization). In both cases the host
  rolls the invocation back, so an error carries no state.
\<close>

datatype 'e stop = Err 'e | Trap

type_synonym ('e, 'a) res = "'e stop + 'a"

abbreviation Ok :: "'a \<Rightarrow> ('e, 'a) res" where
  "Ok x \<equiv> Inr x"

abbreviation Fail :: "'e \<Rightarrow> ('e, 'a) res" where
  "Fail e \<equiv> Inl (Err e)"

abbreviation Trapped :: "('e, 'a) res" where
  "Trapped \<equiv> Inl Trap"

named_theorems res_simps "when a fallible computation returned a value"
named_theorems chk_simps "checked word arithmetic in terms of nat"

section \<open>Fallible computations\<close>

text \<open>\<open>attempt m k\<close> is \<open>k (m?)\<close>: the question-mark operator of the sources.\<close>

definition attempt :: "('e, 'a) res \<Rightarrow> ('a \<Rightarrow> ('e, 'b) res) \<Rightarrow> ('e, 'b) res" where
  "attempt m k = (case m of Inl e \<Rightarrow> Inl e | Inr x \<Rightarrow> k x)"

definition ensure :: "bool \<Rightarrow> 'e \<Rightarrow> ('e, unit) res" where
  "ensure b e = (if b then Ok () else Fail e)"

text \<open>\<open>guarded b\<close> traps unless \<open>b\<close>: an \<open>assert!\<close> or a \<open>require_auth\<close>.\<close>

definition guarded :: "bool \<Rightarrow> ('e, unit) res" where
  "guarded b = (if b then Ok () else Trapped)"

definition ok_or :: "'a option \<Rightarrow> 'e \<Rightarrow> ('e, 'a) res" where
  "ok_or x e = (case x of None \<Rightarrow> Fail e | Some y \<Rightarrow> Ok y)"

definition ok_or_trap :: "'a option \<Rightarrow> ('e, 'a) res" where
  "ok_or_trap x = (case x of None \<Rightarrow> Trapped | Some y \<Rightarrow> Ok y)"

text \<open>\<open>map_err\<close> renames the error and keeps a trap a trap (\<open>From<Fault>\<close> at a \<open>?\<close>).\<close>

definition map_err :: "('e \<Rightarrow> 'f) \<Rightarrow> ('e, 'a) res \<Rightarrow> ('f, 'a) res" where
  "map_err f m = (case m of Inl (Err e) \<Rightarrow> Fail (f e) | Inl Trap \<Rightarrow> Trapped | Inr x \<Rightarrow> Ok x)"

lemma attempt_simps [simp]:
  "attempt (Inr x) k = k x"
  "attempt (Inl e) k = Inl e"
  by (simp_all add: attempt_def)

lemma attempt_Ok [res_simps]: "attempt m k = Inr y \<longleftrightarrow> (\<exists>x. m = Inr x \<and> k x = Inr y)"
  by (cases m) auto

lemma ensure_Ok [res_simps]: "ensure b e = Inr u \<longleftrightarrow> b"
  by (simp add: ensure_def)

lemma ensure_simps [simp]: "ensure True e = Ok ()" "ensure False e = Fail e"
  by (simp_all add: ensure_def)

lemma guarded_Ok [res_simps]: "guarded b = Inr u \<longleftrightarrow> b"
  by (simp add: guarded_def)

lemma guarded_simps [simp]: "guarded True = Ok ()" "guarded False = Trapped"
  by (simp_all add: guarded_def)

lemma ok_or_Ok [res_simps]: "ok_or x e = Inr y \<longleftrightarrow> x = Some y"
  by (simp add: ok_or_def split: option.splits)

lemma ok_or_simps [simp]: "ok_or (Some y) e = Ok y" "ok_or None e = Fail e"
  by (simp_all add: ok_or_def)

lemma ok_or_trap_Ok [res_simps]: "ok_or_trap x = Inr y \<longleftrightarrow> x = Some y"
  by (simp add: ok_or_trap_def split: option.splits)

lemma ok_or_trap_simps [simp]: "ok_or_trap (Some y) = Ok y" "ok_or_trap None = Trapped"
  by (simp_all add: ok_or_trap_def)

lemma map_err_Ok [res_simps]: "map_err f m = Inr y \<longleftrightarrow> m = Inr y"
  by (auto simp: map_err_def split: sum.splits stop.splits)

lemma map_err_simps [simp]:
  "map_err f (Inr x) = Ok x" "map_err f (Fail e) = Fail (f e)" "map_err f Trapped = Trapped"
  by (simp_all add: map_err_def)

lemma attempt_cong [fundef_cong]:
  assumes "m = m'" and "\<And>x. m' = Inr x \<Longrightarrow> k x = k' x"
  shows "attempt m k = attempt m' k'"
  using assms by (cases m') auto

lemma attempt_assoc: "attempt (attempt m k) l = attempt m (\<lambda>x. attempt (k x) l)"
  by (cases m) auto

section \<open>Checked arithmetic on words\<close>

definition cadd :: "'a::len word \<Rightarrow> 'a word \<Rightarrow> ('e, 'a word) res" where
  "cadd a b = (if unat a + unat b < 2 ^ LENGTH('a) then Ok (a + b) else Trapped)"

definition csub :: "'a::len word \<Rightarrow> 'a word \<Rightarrow> ('e, 'a word) res" where
  "csub a b = (if b \<le> a then Ok (a - b) else Trapped)"

definition cmul :: "'a::len word \<Rightarrow> 'a word \<Rightarrow> ('e, 'a word) res" where
  "cmul a b = (if unat a * unat b < 2 ^ LENGTH('a) then Ok (a * b) else Trapped)"

text \<open>\<open>checked_add\<close>, \<open>checked_mul\<close>: the overflow as \<open>None\<close>; the saturating forms clamp.\<close>

definition checked_add :: "'a::len word \<Rightarrow> 'a word \<Rightarrow> 'a word option" where
  "checked_add a b = (if unat a + unat b < 2 ^ LENGTH('a) then Some (a + b) else None)"

definition checked_mul :: "'a::len word \<Rightarrow> 'a word \<Rightarrow> 'a word option" where
  "checked_mul a b = (if unat a * unat b < 2 ^ LENGTH('a) then Some (a * b) else None)"

definition saturating_add :: "'a::len word \<Rightarrow> 'a word \<Rightarrow> 'a word" where
  "saturating_add a b = (if unat a + unat b < 2 ^ LENGTH('a) then a + b else - 1)"

definition saturating_sub :: "'a::len word \<Rightarrow> 'a word \<Rightarrow> 'a word" where
  "saturating_sub a b = (if b \<le> a then a - b else 0)"

lemma unat_add_small: "unat a + unat b < 2 ^ LENGTH('a) \<Longrightarrow> unat (a + b) = unat a + unat b"
  for a b :: "'a::len word"
  by (simp add: unat_word_ariths)

lemma unat_mul_small: "unat a * unat b < 2 ^ LENGTH('a) \<Longrightarrow> unat (a * b) = unat a * unat b"
  for a b :: "'a::len word"
  by (simp add: unat_word_ariths)

lemma unat_less_len: "unat a < 2 ^ LENGTH('a)" for a :: "'a::len word"
  by (rule unsigned_less)

lemma cadd_Ok [chk_simps]: "cadd a b = Inr c \<longleftrightarrow> unat c = unat a + unat b" for a b c :: "'a::len word"
proof
  assume "cadd a b = Inr c"
  then show "unat c = unat a + unat b"
    by (auto simp: cadd_def unat_add_small split: if_splits)
next
  assume c: "unat c = unat a + unat b"
  then have small: "unat a + unat b < 2 ^ LENGTH('a)" by (metis unat_less_len)
  then have "a + b = c" by (metis c unat_add_small word_unat_eq_iff)
  then show "cadd a b = Inr c" using small by (simp add: cadd_def)
qed

lemma csub_Ok [chk_simps]: "csub a b = Inr c \<longleftrightarrow> unat a = unat b + unat c"
proof
  assume "csub a b = Inr c"
  then show "unat a = unat b + unat c"
    by (auto simp: csub_def unat_sub word_le_nat_alt split: if_splits)
next
  assume c: "unat a = unat b + unat c"
  then have le: "b \<le> a" by (simp add: word_le_nat_alt)
  then have "a - b = c" using c by (simp add: unat_sub word_unat_eq_iff)
  then show "csub a b = Inr c" using le by (simp add: csub_def)
qed

lemma cmul_Ok [chk_simps]: "cmul a b = Inr c \<longleftrightarrow> unat c = unat a * unat b" for a b c :: "'a::len word"
proof
  assume "cmul a b = Inr c"
  then show "unat c = unat a * unat b"
    by (auto simp: cmul_def unat_mul_small split: if_splits)
next
  assume c: "unat c = unat a * unat b"
  then have small: "unat a * unat b < 2 ^ LENGTH('a)" by (metis unat_less_len)
  then have "a * b = c" by (metis c unat_mul_small word_unat_eq_iff)
  then show "cmul a b = Inr c" using small by (simp add: cmul_def)
qed

lemma checked_add_Some [chk_simps]: "checked_add a b = Some c \<longleftrightarrow> unat c = unat a + unat b"
  using cadd_Ok [of a b c] by (auto simp: checked_add_def cadd_def split: if_splits)

lemma checked_add_None [chk_simps]:
  "checked_add a b = None \<longleftrightarrow> 2 ^ LENGTH('a) \<le> unat a + unat b" for a b :: "'a::len word"
  by (simp add: checked_add_def not_less)

lemma checked_mul_Some [chk_simps]: "checked_mul a b = Some c \<longleftrightarrow> unat c = unat a * unat b"
  using cmul_Ok [of a b c] by (auto simp: checked_mul_def cmul_def split: if_splits)

lemma checked_mul_None [chk_simps]:
  "checked_mul a b = None \<longleftrightarrow> 2 ^ LENGTH('a) \<le> unat a * unat b" for a b :: "'a::len word"
  by (simp add: checked_mul_def not_less)

lemma unat_minus_one_word: "unat (- 1 :: 'a::len word) = 2 ^ LENGTH('a) - 1"
  by (simp add: unsigned_minus_1_eq_mask mask_eq_exp_minus_1)

lemma unat_saturating_add [chk_simps]:
  "unat (saturating_add a b) = min (unat a + unat b) (2 ^ LENGTH('a) - 1)" for a b :: "'a::len word"
  by (auto simp: saturating_add_def unat_add_small unat_minus_one_word min_def)

lemma unat_saturating_sub [chk_simps]: "unat (saturating_sub a b) = unat a - unat b"
  by (simp add: saturating_sub_def unat_sub word_le_nat_alt not_le)

lemma le_saturating_add: "a \<le> saturating_add a b" for a b :: "'a::len word"
proof -
  have "unat a \<le> 2 ^ LENGTH('a) - 1" using unat_less_len [of a] by linarith
  then show ?thesis by (simp add: word_le_nat_alt unat_saturating_add)
qed

lemmas word_nat_simps = word_le_nat_alt word_less_nat_alt word_unat_eq_iff

section \<open>Bytes\<close>

text \<open>\<open>to_be_bytes\<close>: \<open>n\<close> bytes, most significant first; \<open>from_be_bytes\<close> reads them back.\<close>

fun be_bytes_nat :: "nat \<Rightarrow> nat \<Rightarrow> bytes" where
  "be_bytes_nat 0 x = []"
| "be_bytes_nat (Suc n) x = be_bytes_nat n (x div 256) @ [of_nat (x mod 256)]"

definition be_nat :: "bytes \<Rightarrow> nat" where
  "be_nat bs = foldl (\<lambda>acc b. acc * 256 + unat b) 0 bs"

definition be_bytes :: "nat \<Rightarrow> 'a::len word \<Rightarrow> bytes" where
  "be_bytes n w = be_bytes_nat n (unat w)"

definition from_be :: "bytes \<Rightarrow> 'a::len word" where
  "from_be bs = of_nat (be_nat bs)"

lemma length_be_bytes_nat [simp]: "length (be_bytes_nat n x) = n"
  by (induction n arbitrary: x) auto

lemma length_be_bytes [simp]: "length (be_bytes n w) = n"
  by (simp add: be_bytes_def)

lemma be_nat_snoc: "be_nat (bs @ [b]) = be_nat bs * 256 + unat b"
  by (simp add: be_nat_def)

lemma be_nat_be_bytes_nat: "x < 256 ^ n \<Longrightarrow> be_nat (be_bytes_nat n x) = x"
proof (induction n arbitrary: x)
  case 0
  then show ?case by (simp add: be_nat_def)
next
  case (Suc n)
  then have "x div 256 < 256 ^ n" by (simp add: less_mult_imp_div_less mult.commute)
  moreover have "unat (of_nat (x mod 256) :: u8) = x mod 256"
    by (simp add: unat_of_nat)
  ultimately show ?case by (simp add: be_nat_snoc Suc.IH)
qed

lemma from_be_be_bytes [simp]:
  assumes "LENGTH('a) \<le> 8 * n"
  shows "from_be (be_bytes n (w :: 'a::len word)) = w"
proof -
  have "unat w < 2 ^ LENGTH('a)" by (rule unat_less_len)
  also have "(2::nat) ^ LENGTH('a) \<le> 2 ^ (8 * n)" using assms by (simp add: power_increasing)
  also have "(2::nat) ^ (8 * n) = 256 ^ n" by (simp add: power_mult)
  finally show ?thesis by (simp add: from_be_def be_bytes_def be_nat_be_bytes_nat)
qed

lemma be_bytes_inject:
  assumes "LENGTH('a) \<le> 8 * n"
  shows "be_bytes n (v :: 'a::len word) = be_bytes n w \<longleftrightarrow> v = w"
  by (metis assms from_be_be_bytes)

section \<open>Sums over finite maps\<close>

text \<open>A sum over the keys that satisfy a predicate, when one entry changes.\<close>

lemma sum_update_in:
  fixes f :: "'k \<Rightarrow> nat"
  assumes "finite A" "k \<in> A"
  shows "(\<Sum>x\<in>A. (f(k := v)) x) + f k = (\<Sum>x\<in>A. f x) + v"
proof -
  have "(\<Sum>x\<in>A. (f(k := v)) x) = v + (\<Sum>x\<in>A - {k}. f x)"
    by (simp add: sum.remove [OF assms])
  moreover have "(\<Sum>x\<in>A. f x) = f k + (\<Sum>x\<in>A - {k}. f x)"
    by (rule sum.remove [OF assms])
  ultimately show ?thesis by simp
qed

lemma sum_update_notin:
  assumes "k \<notin> A"
  shows "(\<Sum>x\<in>A. (f(k := v)) x) = (\<Sum>x\<in>A. f x)"
  using assms by (intro sum.cong) auto

end
