(* ===== verification/Core_Types.thy ===== *)
theory Core_Types
  imports Prelude
begin

text \<open>
  The data types both escrows and the modules around them share
  (\<open>lib/proofbridge-core/src/types.rs\<close>), the host's addresses and dynamically typed values, and
  the reasons a shared check refuses (\<open>Fault\<close>, \<open>escrow_ops.rs\<close>).
\<close>

section \<open>Addresses and values of the host\<close>

text \<open>
  An \<open>Address\<close> is an account (\<open>G...\<close>, an ed25519 key) or a contract (\<open>C...\<close>); both carry 32 bytes,
  and \<open>stellar_strkey\<close>'s encoding of either kind is a bijection, so it is left out here.
\<close>

datatype address = AccountAddr bytes32 | ContractAddr bytes32

text \<open>
  \<open>Val\<close>: what the argument list of a call may hold. A structure is the map of its fields, by field name
  in the host's order; a timelocked setter commits it as the list of the fields' values.
\<close>

datatype val =
    VBool bool
  | VU32 u32
  | VU64 u64
  | VU128 u128
  | VBytes32 bytes32
  | VAddr address
  | VI128 int
  | VStr string
  | VSym string
  | VVec "val list"
  | VMap "(string \<times> val) list"
  | VVoid

section \<open>Order lifecycle and termination clocks\<close>

datatype status = StNone | Open | Filled | Claimed | Cancelled | Disputed | Resolved

record route_timing =
  min_window :: u64
  buffer :: u64
  margin :: u64
  claim_stagger :: u64

datatype dispute_outcome =
  NoOutcome | MutualRefund | TradeProceeds | BridgerForfeit | MakerForfeit

record dispute_params =
  challenge_period :: u64
  bond_floor :: u128

record bond_config =
  min_bond :: u128
  bond_bps :: u32

record dispute_record =
  initiator :: address
  bond :: u128
  challenge_deadline :: u64
  initiator_evidence :: bytes32
  responder_evidence :: bytes32
  ruling :: dispute_outcome
  dr_escrow :: address
  order_deadline :: u64
  dr_buffer :: u64
  bond_token :: address

record order_record =
  status :: status
  locked_at :: u64
  registry_epoch :: u32
  timing_version :: u32
  anchor_delay :: u32
  pinned_slot :: u32
  repinned :: bool

record claim_record =
  opened_at :: u64
  finalize_at :: u64

record contract_config =
  admin :: address
  verifier :: address
  merkle_manager :: address
  w_native_token :: address
  chain_id :: u128

section \<open>Refusals\<close>

text \<open>\<open>Fault\<close>: each escrow maps it onto its own error enum.\<close>

datatype fault =
    ContractPaused | NoRouteTiming | DeadlineTooSoon | DeadlineTooFar | TooEarly | NotClaimable
  | NotClaimed | NoRootAnchor | RootNotAnchored | NotFilled | SettledRecorded | NothingToClaim
  | InvalidTiming | NotPendingAdmin | NoDisputeManager | NotDisputable | DisputeNotResolved
  | DisputeWindowClosed | DisputeModuleRejected | DisputeNoParams | DisputeNotEscrow
  | DisputeExists | DisputeWrongEscrow | DisputeNotResponder | DisputeBondTransferFailed
  | DisputeResponseWindowClosed | DisputeAlreadyResponded | DisputeZeroResponse
  | DisputeAlreadyRuled | NonCanonicalInput | TokenZeroAddress | MerkleAppendFailed
  | InvalidProof | DecimalsOutOfRange | NonExactDownscale | DecimalOverflow
  | InvalidAccountAddress | TransferShort | TimelockAlreadyActive | TimelockAlreadyProposed
  | TimelockNotProposed | TimelockTooEarly | TimelockBadArgs | TimelockExpired
  | TimelockCancelledByBrake

text \<open>An order that still holds its funds, and one that has ended.\<close>

definition live :: "status \<Rightarrow> bool" where
  "live st \<longleftrightarrow> st \<in> {Open, Claimed, Disputed}"

definition terminal :: "status \<Rightarrow> bool" where
  "terminal st \<longleftrightarrow> st \<in> {Filled, Cancelled, Resolved}"

lemma live_simps [simp]:
  "\<not> live StNone" "live Open" "\<not> live Filled" "live Claimed" "\<not> live Cancelled" "live Disputed"
  "\<not> live Resolved"
  by (simp_all add: live_def)

lemma terminal_simps [simp]:
  "\<not> terminal StNone" "\<not> terminal Open" "terminal Filled" "\<not> terminal Claimed"
  "terminal Cancelled" "\<not> terminal Disputed" "terminal Resolved"
  by (simp_all add: terminal_def)

lemma live_not_terminal: "live st \<Longrightarrow> \<not> terminal st"
  by (cases st) auto

lemma status_trichotomy: "st = StNone \<or> live st \<or> terminal st"
  by (cases st) auto

end
