(* ===== verification/Host.thy ===== *)
theory Host
  imports Core_Types
begin

text \<open>
  What the host gives an invocation: its timestamp, the contract's own address, which addresses
  authorize it (\<open>require_auth\<close> traps for every other), and the hash primitives. The primitives
  are code outside the repository and stay parameters: \<open>keccak256\<close>; \<open>xdr_hash f v\<close> for
  \<open>sha256(xdr((f, v)))\<close>; \<open>xdr_args\<close> for \<open>Vec::<Val>::from_xdr\<close>; \<open>fr_reduce\<close> for the reduction modulo
  the BN254 scalar prime; \<open>poseidon\<close> for the Poseidon2 sponge (T = 4) on field elements.
\<close>

record crypto =
  keccak256 :: "bytes \<Rightarrow> bytes32"
  xdr_hash :: "string \<Rightarrow> val \<Rightarrow> bytes32"
  xdr_args :: "bytes \<Rightarrow> val list option"
  fr_reduce :: "bytes32 \<Rightarrow> bytes32"
  poseidon :: "bytes32 list \<Rightarrow> bytes32"

record env =
  now :: u64
  self :: address
  authed :: "address \<Rightarrow> bool"
  prims :: crypto

definition require_auth :: "env \<Rightarrow> address \<Rightarrow> ('e, unit) res" where
  "require_auth E a = guarded (authed E a)"

text \<open>
  A contract that calls another authorizes that call as itself, and the callee runs under its own
  address at the same timestamp.
\<close>

definition sub_env :: "env \<Rightarrow> address \<Rightarrow> env" where
  "sub_env E callee = E\<lparr>self := callee, authed := (\<lambda>a. authed E a \<or> a = self E)\<rparr>"

definition is_zero_bytes32 :: "bytes32 \<Rightarrow> bool" where
  "is_zero_bytes32 b \<longleftrightarrow> b = 0"

lemma require_auth_Ok [res_simps]: "require_auth E a = Inr u \<longleftrightarrow> authed E a"
  by (simp add: require_auth_def res_simps)

lemma sub_env_simps [simp]:
  "now (sub_env E c) = now E" "self (sub_env E c) = c" "prims (sub_env E c) = prims E"
  "authed (sub_env E c) a \<longleftrightarrow> authed E a \<or> a = self E"
  by (simp_all add: sub_env_def)

end
