(* ===== verification/Timelock.thy ===== *)
theory Timelock
  imports Host
begin

text \<open>
  The 24-hour delay on admin setters (\<open>lib/proofbridge-core/src/timelock.rs\<close>), carried by every
  contract that has timelocked setters: its state, the operations, the log of a run, and the
  safety argument that a gated call after activation was proposed, unchanged, a day before, in the
  same admin epoch, and not braked since.
\<close>

definition DELAY :: u64 where
  "DELAY = 24 * 60 * 60"

definition GRACE :: u64 where
  "GRACE = 14 * 24 * 60 * 60"

record timelock =
  tl_active :: bool
  tl_epoch :: u32
  tl_proposals :: "bytes32 \<rightharpoonup> u64 \<times> u32"
  tl_brakes :: "bytes32 \<rightharpoonup> u64"

definition tl_init :: timelock where
  "tl_init = \<lparr>tl_active = False, tl_epoch = 0, tl_proposals = Map.empty, tl_brakes = Map.empty\<rparr>"

definition is_active :: "timelock \<Rightarrow> bool" where
  "is_active tlk = tl_active tlk"

definition bump_epoch :: "timelock \<Rightarrow> (fault, timelock) res" where
  "bump_epoch tlk = attempt (cadd (tl_epoch tlk) 1) (\<lambda>e. Ok (tlk\<lparr>tl_epoch := e\<rparr>))"

definition proposal :: "timelock \<Rightarrow> bytes32 \<Rightarrow> (u64 \<times> u32) option" where
  "proposal tlk ident = tl_proposals tlk ident"

text \<open>The earliest execution time of a proposal that can still run; 0 if there is none.\<close>

definition eta :: "env \<Rightarrow> timelock \<Rightarrow> bytes32 \<Rightarrow> (fault, u64) res" where
  "eta E tlk ident =
     (case proposal tlk ident of
        Some (at, e) \<Rightarrow>
          if e = tl_epoch tlk then attempt (cadd at GRACE) (\<lambda>last. Ok (if now E \<le> last then at else 0))
          else Ok 0
      | None \<Rightarrow> Ok 0)"

definition action_id :: "env \<Rightarrow> string \<Rightarrow> val list \<Rightarrow> bytes32" where
  "action_id E fn_name args = xdr_hash (prims E) fn_name (VVec args)"

definition brake_key :: "env \<Rightarrow> string \<Rightarrow> val \<Rightarrow> bytes32" where
  "brake_key E fn_name what = xdr_hash (prims E) fn_name what"

definition set_active :: "timelock \<Rightarrow> timelock" where
  "set_active tlk = tlk\<lparr>tl_active := True\<rparr>"

definition activate :: "timelock \<Rightarrow> (fault, timelock) res" where
  "activate tlk = (if is_active tlk then Fail TimelockAlreadyActive else Ok (set_active tlk))"

definition propose :: "env \<Rightarrow> string \<Rightarrow> bytes \<Rightarrow> timelock \<Rightarrow> (fault, bytes32 \<times> timelock) res" where
  "propose E fn_name args_xdr tlk =
     attempt (ok_or (xdr_args (prims E) args_xdr) TimelockBadArgs) (\<lambda>args.
     let tlk1 = (if is_active tlk then tlk else set_active tlk);
         ident = action_id E fn_name args in
     attempt (eta E tlk1 ident) (\<lambda>pending.
     if pending \<noteq> 0 then Fail TimelockAlreadyProposed
     else attempt (cadd (now E) DELAY) (\<lambda>at.
       Ok (ident, tlk1\<lparr>tl_proposals := (tl_proposals tlk1)(ident \<mapsto> (at, tl_epoch tlk1))\<rparr>))))"

definition cancel_proposal :: "bytes32 \<Rightarrow> timelock \<Rightarrow> (fault, timelock) res" where
  "cancel_proposal ident tlk =
     (if proposal tlk ident = None then Fail TimelockNotProposed
      else Ok (tlk\<lparr>tl_proposals := (tl_proposals tlk)(ident := None)\<rparr>))"

definition gate_keyed ::
  "env \<Rightarrow> address \<Rightarrow> string \<Rightarrow> val list \<Rightarrow> bytes32 option \<Rightarrow> timelock \<Rightarrow> (fault, timelock) res" where
  "gate_keyed E adm fn_name args key tlk =
     (if \<not> is_active tlk then attempt (require_auth E adm) (\<lambda>_. Ok tlk)
      else
        let ident = action_id E fn_name args in
        attempt (ok_or (proposal tlk ident) TimelockNotProposed) (\<lambda>(at, e).
        if e \<noteq> tl_epoch tlk then Fail TimelockNotProposed
        else if now E < at then Fail TimelockTooEarly
        else attempt (cadd at GRACE) (\<lambda>last.
          if now E > last then Fail TimelockExpired
          else attempt
            (case key of
               None \<Rightarrow> Ok ()
             | Some k \<Rightarrow>
                 let braked = (case tl_brakes tlk k of None \<Rightarrow> 0 | Some b \<Rightarrow> b) in
                 if braked \<noteq> 0 then
                   attempt (csub at DELAY) (\<lambda>made.
                   if made \<le> braked then Fail TimelockCancelledByBrake else Ok ())
                 else Ok ())
            (\<lambda>_. Ok (tlk\<lparr>tl_proposals := (tl_proposals tlk)(ident := None)\<rparr>)))))"

definition gate :: "env \<Rightarrow> address \<Rightarrow> string \<Rightarrow> val list \<Rightarrow> timelock \<Rightarrow> (fault, timelock) res" where
  "gate E adm fn_name args tlk = gate_keyed E adm fn_name args None tlk"

definition gate_unless ::
  "env \<Rightarrow> address \<Rightarrow> bool \<Rightarrow> string \<Rightarrow> val list \<Rightarrow> bytes32 \<Rightarrow> timelock \<Rightarrow> (fault, timelock) res" where
  "gate_unless E adm brake fn_name args key tlk =
     (if brake then
        attempt (require_auth E adm) (\<lambda>_. Ok (tlk\<lparr>tl_brakes := (tl_brakes tlk)(key \<mapsto> now E)\<rparr>))
      else gate_keyed E adm fn_name args (Some key) tlk)"

section \<open>What a gate that let a call through has checked\<close>

lemma unat_DELAY: "unat DELAY = 86400" and unat_GRACE: "unat GRACE = 1209600"
  by (simp_all add: DELAY_def GRACE_def)

lemma gate_keyed_inactive:
  "\<not> tl_active tlk \<Longrightarrow> gate_keyed E adm f args key tlk = Inr tlk' \<longleftrightarrow> authed E adm \<and> tlk' = tlk"
  by (auto simp: gate_keyed_def is_active_def res_simps)

lemma gate_keyed_active:
  assumes "tl_active tlk" "gate_keyed E adm f args key tlk = Inr tlk'"
  obtains at where "tl_proposals tlk (action_id E f args) = Some (at, tl_epoch tlk)"
    "unat at \<le> unat (now E)" "unat (now E) \<le> unat at + unat GRACE"
    "tlk' = tlk\<lparr>tl_proposals := (tl_proposals tlk)(action_id E f args := None)\<rparr>"
    "\<And>k b. key = Some k \<Longrightarrow> tl_brakes tlk k = Some b \<Longrightarrow> b \<noteq> 0 \<Longrightarrow>
       unat b + unat DELAY < unat at"
proof -
  from assms obtain at last where
    p: "tl_proposals tlk (action_id E f args) = Some (at, tl_epoch tlk)" and
    t: "\<not> now E < at" "unat last = unat at + unat GRACE" "\<not> last < now E" and
    tlk': "tlk' = tlk\<lparr>tl_proposals := (tl_proposals tlk)(action_id E f args := None)\<rparr>" and
    k: "(case key of None \<Rightarrow> Ok ()
         | Some k \<Rightarrow> let braked = (case tl_brakes tlk k of None \<Rightarrow> 0 | Some b \<Rightarrow> b) in
             if braked \<noteq> 0 then attempt (csub at DELAY)
               (\<lambda>made. if made \<le> braked then Fail TimelockCancelledByBrake else Ok ())
             else Ok ()) = (Inr () :: (fault, unit) res)"
    by (auto simp: gate_keyed_def is_active_def Let_def proposal_def res_simps chk_simps
        split: if_splits)
  have "unat b + unat DELAY < unat at"
    if "key = Some k" "tl_brakes tlk k = Some b" "b \<noteq> 0" for k b
    using k that by (auto simp: res_simps chk_simps word_le_nat_alt split: if_splits)
  with p t tlk' show ?thesis by (intro that) (auto simp: word_less_nat_alt)
qed

text \<open>A gate never closes or opens the bypass, never moves the epoch and never adds a proposal.\<close>

lemma gate_keyed_frame:
  assumes "gate_keyed E adm f args key tlk = Inr tlk'"
  shows "tl_active tlk' = tl_active tlk" "tl_epoch tlk' = tl_epoch tlk" "tl_brakes tlk' = tl_brakes tlk"
    "tl_proposals tlk' = tl_proposals tlk \<or>
     tl_proposals tlk' = (tl_proposals tlk)(action_id E f args := None)"
proof -
  have "tlk' = tlk \<or> tlk' = tlk\<lparr>tl_proposals := (tl_proposals tlk)(action_id E f args := None)\<rparr>"
  proof (cases "tl_active tlk")
    case True
    then show ?thesis using assms by (rule gate_keyed_active) simp
  next
    case False
    then show ?thesis using assms by (simp add: gate_keyed_inactive)
  qed
  then show "tl_active tlk' = tl_active tlk" "tl_epoch tlk' = tl_epoch tlk" "tl_brakes tlk' = tl_brakes tlk"
    "tl_proposals tlk' = tl_proposals tlk \<or>
     tl_proposals tlk' = (tl_proposals tlk)(action_id E f args := None)"
    by auto
qed

section \<open>Runs and their logs\<close>

text \<open>
  What happened, newest first, each entry with its timestamp. A gated call is logged as
  \<open>LExecuted\<close> when the timelock is active and as \<open>LBypassed\<close> before (the setup bypass).
\<close>

datatype tl_log = LActivated | LProposed bytes32 | LCancelled bytes32 | LExecuted bytes32
  | LBypassed | LBraked bytes32 | LEpoch

type_synonym tl_history = "(u64 \<times> tl_log) list"

definition not_before :: "tl_history \<Rightarrow> u64 \<Rightarrow> bool" where
  "not_before h t \<longleftrightarrow> (\<forall>x \<in> set h. unat (fst x) \<le> unat t)"

inductive tl_run :: "crypto \<Rightarrow> tl_history \<Rightarrow> timelock \<Rightarrow> bool" for C :: crypto where
  run_init: "tl_run C [] tl_init"
| run_activate: "tl_run C h tlk \<Longrightarrow> not_before h t \<Longrightarrow> activate tlk = Inr tlk' \<Longrightarrow>
    tl_run C ((t, LActivated) # h) tlk'"
| run_propose: "tl_run C h tlk \<Longrightarrow> not_before h (now E) \<Longrightarrow> prims E = C \<Longrightarrow>
    propose E f bs tlk = Inr (ident, tlk') \<Longrightarrow> tl_run C ((now E, LProposed ident) # h) tlk'"
| run_cancel: "tl_run C h tlk \<Longrightarrow> not_before h t \<Longrightarrow> cancel_proposal ident tlk = Inr tlk' \<Longrightarrow>
    tl_run C ((t, LCancelled ident) # h) tlk'"
| run_gate: "tl_run C h tlk \<Longrightarrow> not_before h (now E) \<Longrightarrow> prims E = C \<Longrightarrow>
    gate_keyed E adm f args key tlk = Inr tlk' \<Longrightarrow>
    tl_run C ((now E, if tl_active tlk then LExecuted (action_id E f args) else LBypassed) # h) tlk'"
| run_brake: "tl_run C h tlk \<Longrightarrow> not_before h (now E) \<Longrightarrow> prims E = C \<Longrightarrow>
    gate_unless E adm True f args key tlk = Inr tlk' \<Longrightarrow> tl_run C ((now E, LBraked key) # h) tlk'"
| run_epoch: "tl_run C h tlk \<Longrightarrow> not_before h t \<Longrightarrow> bump_epoch tlk = Inr tlk' \<Longrightarrow>
    tl_run C ((t, LEpoch) # h) tlk'"

definition epochs :: "tl_history \<Rightarrow> nat" where
  "epochs h = length (filter (\<lambda>x. snd x = LEpoch) h)"

text \<open>
  A proposal that stands is backed by the log: proposed a delay before its time, in the epoch it
  names, and neither proposed again, dropped nor executed since.
\<close>

definition backed :: "tl_history \<Rightarrow> bytes32 \<Rightarrow> u64 \<Rightarrow> u32 \<Rightarrow> bool" where
  "backed h ident at e \<longleftrightarrow>
     (\<exists>h1 h2 t. h = h2 @ (t, LProposed ident) # h1 \<and> unat at = unat t + unat DELAY \<and>
        unat e = epochs h1 \<and>
        (\<forall>x \<in> set h2. snd x \<notin> {LProposed ident, LCancelled ident, LExecuted ident}))"

definition tl_inv :: "tl_history \<Rightarrow> timelock \<Rightarrow> bool" where
  "tl_inv h tlk \<longleftrightarrow>
     unat (tl_epoch tlk) = epochs h \<and>
     (\<forall>ident at e. tl_proposals tlk ident = Some (at, e) \<longrightarrow> backed h ident at e) \<and>
     (\<forall>k b. tl_brakes tlk k = Some b \<longrightarrow> (b, LBraked k) \<in> set h) \<and>
     (\<forall>t k. (t, LBraked k) \<in> set h \<longrightarrow> (\<exists>b. tl_brakes tlk k = Some b \<and> unat t \<le> unat b)) \<and>
     (tl_active tlk \<longleftrightarrow> (\<exists>x \<in> set h. snd x = LActivated \<or> (\<exists>i. snd x = LProposed i)))"

lemma backed_Cons:
  "backed h ident at e \<Longrightarrow> l \<notin> {LProposed ident, LCancelled ident, LExecuted ident} \<Longrightarrow>
   backed ((t, l) # h) ident at e"
  unfolding backed_def by (metis append_Cons set_ConsD snd_conv)

lemma epochs_Cons [simp]: "epochs ((t, l) # h) = epochs h + (if l = LEpoch then 1 else 0)"
  by (simp add: epochs_def)

lemma epochs_append [simp]: "epochs (h2 @ h1) = epochs h2 + epochs h1"
  by (simp add: epochs_def)

lemma propose_Ok:
  assumes "propose E f bs tlk = Inr (ident, tlk')"
  obtains args at where "xdr_args (prims E) bs = Some args" "ident = action_id E f args"
    "unat at = unat (now E) + unat DELAY"
    "tlk' = tlk\<lparr>tl_active := True, tl_proposals := (tl_proposals tlk)(ident \<mapsto> (at, tl_epoch tlk))\<rparr>"
  using assms
  by (auto simp: propose_def Let_def res_simps chk_simps is_active_def set_active_def
      split: if_splits)

lemma tl_inv_run: "tl_run C h tlk \<Longrightarrow> tl_inv h tlk"
proof (induction rule: tl_run.induct)
  case run_init
  then show ?case by (simp add: tl_inv_def tl_init_def epochs_def)
next
  case (run_activate h tlk t tlk')
  then show ?case
    by (auto simp: tl_inv_def activate_def set_active_def intro!: backed_Cons split: if_splits)
next
  case (run_propose h tlk E f bs ident tlk')
  from run_propose.hyps(4) obtain at where
    at: "unat at = unat (now E) + unat DELAY" and
    tlk': "tlk' = tlk\<lparr>tl_active := True, tl_proposals := (tl_proposals tlk)(ident \<mapsto> (at, tl_epoch tlk))\<rparr>"
    by (rule propose_Ok) simp
  have "backed ((now E, LProposed ident) # h) ident at (tl_epoch tlk)"
    unfolding backed_def using at run_propose.IH
    by (intro exI [of _ h] exI [of _ "[]"] exI [of _ "now E"]) (simp add: tl_inv_def)
  then show ?case
    using run_propose.IH tlk' by (auto simp: tl_inv_def intro!: backed_Cons split: if_splits)
next
  case (run_cancel h tlk t ident tlk')
  then show ?case
    by (auto simp: tl_inv_def cancel_proposal_def intro!: backed_Cons split: if_splits)
next
  case (run_gate h tlk E adm f args key tlk')
  show ?case
  proof (cases "tl_active tlk")
    case True
    from True run_gate.hyps(4)
    have "tlk' = tlk\<lparr>tl_proposals := (tl_proposals tlk)(action_id E f args := None)\<rparr>"
      by (rule gate_keyed_active) simp
    then show ?thesis
      using run_gate.IH True by (auto simp: tl_inv_def intro!: backed_Cons split: if_splits)
  next
    case False
    then have "tlk' = tlk" using run_gate.hyps(4) by (simp add: gate_keyed_inactive)
    then show ?thesis using run_gate.IH False by (auto simp: tl_inv_def intro!: backed_Cons)
  qed
next
  case (run_brake h tlk E adm f args key tlk')
  then have tlk': "tlk' = tlk\<lparr>tl_brakes := (tl_brakes tlk)(key \<mapsto> now E)\<rparr>"
    by (auto simp: gate_unless_def res_simps)
  then show ?case
    using run_brake.IH run_brake.hyps(2)
    by (force simp: tl_inv_def not_before_def intro!: backed_Cons split: if_splits)
next
  case (run_epoch h tlk t tlk')
  then show ?case
    by (auto simp: tl_inv_def bump_epoch_def res_simps chk_simps intro!: backed_Cons)
qed

text \<open>
  The safety of the delay. After activation a gated call runs only if exactly this call (its name
  and arguments, through the hash) was proposed between a day and fifteen days ago, the admin has
  not changed since, the proposal was neither dropped nor used since, and no brake on its key was
  pulled at or after the proposal.
\<close>

lemma gate_backed:
  assumes run: "tl_run C h tlk" "prims E = C"
    and active: "tl_active tlk" and gate: "gate_keyed E adm f args key tlk = Inr tlk'"
  obtains h1 h2 t where "h = h2 @ (t, LProposed (action_id E f args)) # h1"
    "unat t + unat DELAY \<le> unat (now E)" "unat (now E) \<le> unat t + unat DELAY + unat GRACE"
    "\<forall>x \<in> set h2. snd x \<notin> {LEpoch, LCancelled (action_id E f args), LExecuted (action_id E f args)}"
    "\<forall>k b. key = Some k \<longrightarrow> (b, LBraked k) \<in> set h \<longrightarrow> 0 < unat b \<longrightarrow> unat b < unat t"
    "tl_proposals tlk' (action_id E f args) = None"
proof -
  let ?i = "action_id E f args"
  from run(1) have inv: "tl_inv h tlk" by (rule tl_inv_run)
  from active gate obtain at where p: "tl_proposals tlk ?i = Some (at, tl_epoch tlk)"
    and t: "unat at \<le> unat (now E)" "unat (now E) \<le> unat at + unat GRACE"
    and tlk': "tlk' = tlk\<lparr>tl_proposals := (tl_proposals tlk)(?i := None)\<rparr>"
    and br: "\<And>k b. key = Some k \<Longrightarrow> tl_brakes tlk k = Some b \<Longrightarrow> b \<noteq> 0 \<Longrightarrow>
        unat b + unat DELAY < unat at"
    by (rule gate_keyed_active) blast
  from inv p obtain h1 h2 s where h: "h = h2 @ (s, LProposed ?i) # h1"
    and at: "unat at = unat s + unat DELAY" and ep: "unat (tl_epoch tlk) = epochs h1"
    and h2: "\<forall>x \<in> set h2. snd x \<notin> {LProposed ?i, LCancelled ?i, LExecuted ?i}"
    unfolding tl_inv_def backed_def by blast
  have "epochs h2 = 0" using inv ep h by (simp add: tl_inv_def)
  then have noep: "\<forall>x \<in> set h2. snd x \<noteq> LEpoch" by (auto simp: epochs_def filter_empty_conv)
  have brakes: "unat b < unat s" if k: "key = Some k" and b: "(b, LBraked k) \<in> set h" "0 < unat b" for k b
  proof -
    from inv b obtain b' where b': "tl_brakes tlk k = Some b'" "unat b \<le> unat b'"
      unfolding tl_inv_def by blast
    then have "b' \<noteq> 0" using b by auto
    with br [OF k b'(1)] at b' show ?thesis by simp
  qed
  show ?thesis
    by (rule that [of h2 s h1]) (use h at t h2 noep brakes tlk' in auto)
qed

end
