(* ===== verification/Escrow_Storage.thy ===== *)
theory Escrow_Storage
  imports Core_Types Timelock
begin

text \<open>
  The storage both escrows share (\<open>lib/proofbridge-core/src/escrow_storage.rs\<close>). The ad-manager and
  the order-portal extend the record with what is theirs, so every operation here and in
  \<open>Escrow_Ops\<close> is stated once, for any extension. A ledger entry is a map entry; a missing one
  reads as the default the source gives it. Time-to-live extensions are not modelled: an archived
  entry is restored on access.
\<close>

record escrow_store =
  st_config :: "contract_config option"
  st_initialized :: bool
  st_paused :: bool
  st_pending_admin :: "address option"
  st_root_anchor :: "address option"
  st_dispute_manager :: "address option"
  st_routes :: "bytes32 \<times> u128 \<rightharpoonup> bytes32"
  st_orders :: "bytes32 \<rightharpoonup> order_record"
  st_nullifiers :: "bytes32 \<rightharpoonup> bool"
  st_root_verifiers :: "u128 \<rightharpoonup> address"
  st_rv_changed :: "u128 \<rightharpoonup> u64"
  st_wired_chains :: "u128 list"
  st_in_flight :: "bytes32 \<rightharpoonup> u64"
  st_claimables :: "bytes32 \<times> bytes32 \<rightharpoonup> u128"
  st_timings :: "u128 \<times> u32 \<rightharpoonup> route_timing"
  st_timing_versions :: "u128 \<rightharpoonup> u32"
  st_claims :: "bytes32 \<rightharpoonup> claim_record"
  st_settled :: "bytes32 \<rightharpoonup> bool"
  st_order_dispute :: "bytes32 \<rightharpoonup> address"
  st_timelock :: timelock

text \<open>\<open>unwrap_or\<close>.\<close>

definition or_default :: "'v option \<Rightarrow> 'v \<Rightarrow> 'v" where
  "or_default x d = (case x of None \<Rightarrow> d | Some v \<Rightarrow> v)"

lemma or_default_simps [simp]: "or_default None d = d" "or_default (Some v) d = v"
  by (simp_all add: or_default_def)

section \<open>Orders\<close>

definition no_order :: order_record where
  "no_order = \<lparr>status = StNone, locked_at = 0, registry_epoch = 0, timing_version = 0,
     anchor_delay = 0, pinned_slot = 0, repinned = False\<rparr>"

definition get_order :: "'a escrow_store_scheme \<Rightarrow> bytes32 \<Rightarrow> order_record" where
  "get_order s h = or_default (st_orders s h) no_order"

definition get_order_status :: "'a escrow_store_scheme \<Rightarrow> bytes32 \<Rightarrow> status" where
  "get_order_status s h = status (get_order s h)"

definition set_order :: "bytes32 \<Rightarrow> order_record \<Rightarrow> 'a escrow_store_scheme \<Rightarrow> 'a escrow_store_scheme" where
  "set_order h rec s = s\<lparr>st_orders := (st_orders s)(h \<mapsto> rec)\<rparr>"

definition open_order ::
  "env \<Rightarrow> bytes32 \<Rightarrow> u32 \<Rightarrow> u32 \<Rightarrow> u32 \<Rightarrow> u32 \<Rightarrow> 'a escrow_store_scheme \<Rightarrow> 'a escrow_store_scheme" where
  "open_order E h tv epoch delay slot s =
     set_order h \<lparr>status = Open, locked_at = now E, registry_epoch = epoch, timing_version = tv,
       anchor_delay = delay, pinned_slot = slot, repinned = False\<rparr> s"

definition set_order_status ::
  "bytes32 \<Rightarrow> status \<Rightarrow> 'a escrow_store_scheme \<Rightarrow> 'a escrow_store_scheme" where
  "set_order_status h st s = set_order h ((get_order s h)\<lparr>status := st\<rparr>) s"

definition set_pinned_slot ::
  "bytes32 \<Rightarrow> u32 \<Rightarrow> 'a escrow_store_scheme \<Rightarrow> 'a escrow_store_scheme" where
  "set_pinned_slot h slot s =
     set_order h ((get_order s h)\<lparr>pinned_slot := slot, repinned := True\<rparr>) s"

section \<open>Termination clocks\<close>

definition get_timing_version :: "'a escrow_store_scheme \<Rightarrow> u128 \<Rightarrow> u32" where
  "get_timing_version s c = or_default (st_timing_versions s c) 0"

definition get_route_timing_at :: "'a escrow_store_scheme \<Rightarrow> u128 \<Rightarrow> u32 \<Rightarrow> route_timing option" where
  "get_route_timing_at s c v = st_timings s (c, v)"

definition push_route_timing ::
  "u128 \<Rightarrow> route_timing \<Rightarrow> 'a escrow_store_scheme \<Rightarrow> ('e, u32 \<times> 'a escrow_store_scheme) res" where
  "push_route_timing c t s =
     attempt (cadd (get_timing_version s c) 1) (\<lambda>version.
     Ok (version, s\<lparr>st_timings := (st_timings s)((c, version) \<mapsto> t),
                    st_timing_versions := (st_timing_versions s)(c \<mapsto> version)\<rparr>))"

definition get_claim :: "'a escrow_store_scheme \<Rightarrow> bytes32 \<Rightarrow> claim_record option" where
  "get_claim s h = st_claims s h"

definition set_claim ::
  "bytes32 \<Rightarrow> claim_record \<Rightarrow> 'a escrow_store_scheme \<Rightarrow> 'a escrow_store_scheme" where
  "set_claim h c s = s\<lparr>st_claims := (st_claims s)(h \<mapsto> c)\<rparr>"

definition remove_claim :: "bytes32 \<Rightarrow> 'a escrow_store_scheme \<Rightarrow> 'a escrow_store_scheme" where
  "remove_claim h s = s\<lparr>st_claims := (st_claims s)(h := None)\<rparr>"

definition is_settled_recorded :: "'a escrow_store_scheme \<Rightarrow> bytes32 \<Rightarrow> bool" where
  "is_settled_recorded s h = or_default (st_settled s h) False"

definition set_settled_recorded :: "bytes32 \<Rightarrow> 'a escrow_store_scheme \<Rightarrow> 'a escrow_store_scheme" where
  "set_settled_recorded h s = s\<lparr>st_settled := (st_settled s)(h \<mapsto> True)\<rparr>"

section \<open>Nullifiers, root verifiers, disputes\<close>

definition is_nullifier_used :: "'a escrow_store_scheme \<Rightarrow> bytes32 \<Rightarrow> bool" where
  "is_nullifier_used s n = or_default (st_nullifiers s n) False"

definition set_nullifier_used :: "bytes32 \<Rightarrow> 'a escrow_store_scheme \<Rightarrow> 'a escrow_store_scheme" where
  "set_nullifier_used n s = s\<lparr>st_nullifiers := (st_nullifiers s)(n \<mapsto> True)\<rparr>"

definition store_root_verifier ::
  "env \<Rightarrow> u128 \<Rightarrow> address \<Rightarrow> 'a escrow_store_scheme \<Rightarrow> 'a escrow_store_scheme" where
  "store_root_verifier E c m s =
     s\<lparr>st_root_verifiers := (st_root_verifiers s)(c \<mapsto> m),
       st_rv_changed := (st_rv_changed s)(c \<mapsto> now E)\<rparr>"

definition remove_root_verifier ::
  "env \<Rightarrow> u128 \<Rightarrow> 'a escrow_store_scheme \<Rightarrow> 'a escrow_store_scheme" where
  "remove_root_verifier E c s =
     s\<lparr>st_root_verifiers := (st_root_verifiers s)(c := None),
       st_rv_changed := (st_rv_changed s)(c \<mapsto> now E)\<rparr>"

definition get_root_verifier_changed_at :: "'a escrow_store_scheme \<Rightarrow> u128 \<Rightarrow> u64" where
  "get_root_verifier_changed_at s c = or_default (st_rv_changed s c) 0"

definition add_wired_chain :: "u128 \<Rightarrow> 'a escrow_store_scheme \<Rightarrow> 'a escrow_store_scheme" where
  "add_wired_chain c s =
     (if c \<in> set (st_wired_chains s) then s
      else s\<lparr>st_wired_chains := st_wired_chains s @ [c]\<rparr>)"

definition set_order_dispute_manager ::
  "bytes32 \<Rightarrow> address \<Rightarrow> 'a escrow_store_scheme \<Rightarrow> 'a escrow_store_scheme" where
  "set_order_dispute_manager h m s = s\<lparr>st_order_dispute := (st_order_dispute s)(h \<mapsto> m)\<rparr>"

section \<open>Token routes\<close>

definition get_token_route :: "'a escrow_store_scheme \<Rightarrow> bytes32 \<Rightarrow> u128 \<Rightarrow> bytes32 option" where
  "get_token_route s t c = st_routes s (t, c)"

definition store_token_route ::
  "bytes32 \<Rightarrow> u128 \<Rightarrow> bytes32 \<Rightarrow> 'a escrow_store_scheme \<Rightarrow> 'a escrow_store_scheme" where
  "store_token_route t c peer s = s\<lparr>st_routes := (st_routes s)((t, c) \<mapsto> peer)\<rparr>"

definition erase_token_route ::
  "bytes32 \<Rightarrow> u128 \<Rightarrow> 'a escrow_store_scheme \<Rightarrow> 'a escrow_store_scheme" where
  "erase_token_route t c s = s\<lparr>st_routes := (st_routes s)((t, c) := None)\<rparr>"

section \<open>Open positions and credited balances\<close>

definition get_in_flight :: "'a escrow_store_scheme \<Rightarrow> bytes32 \<Rightarrow> u64" where
  "get_in_flight s a = or_default (st_in_flight s a) 0"

definition set_in_flight :: "bytes32 \<Rightarrow> u64 \<Rightarrow> 'a escrow_store_scheme \<Rightarrow> 'a escrow_store_scheme" where
  "set_in_flight a n s =
     (if n = 0 then s\<lparr>st_in_flight := (st_in_flight s)(a := None)\<rparr>
      else s\<lparr>st_in_flight := (st_in_flight s)(a \<mapsto> n)\<rparr>)"

definition get_claimable :: "'a escrow_store_scheme \<Rightarrow> bytes32 \<Rightarrow> bytes32 \<Rightarrow> u128" where
  "get_claimable s r t = or_default (st_claimables s (r, t)) 0"

definition set_claimable ::
  "bytes32 \<Rightarrow> bytes32 \<Rightarrow> u128 \<Rightarrow> 'a escrow_store_scheme \<Rightarrow> 'a escrow_store_scheme" where
  "set_claimable r t n s =
     (if n = 0 then s\<lparr>st_claimables := (st_claimables s)((r, t) := None)\<rparr>
      else s\<lparr>st_claimables := (st_claimables s)((r, t) \<mapsto> n)\<rparr>)"

section \<open>Properties\<close>

text \<open>Reads after writes, collected as \<open>store_simps\<close>.\<close>

named_theorems store_simps "reads of the shared store after its writes"

lemma get_order_set_order [store_simps]:
  "get_order (set_order h r s) k = (if k = h then r else get_order s k)"
  by (simp add: get_order_def set_order_def)

lemma get_order_open_order [store_simps]:
  "get_order (open_order E h tv ep d sl s) k =
     (if k = h then \<lparr>status = Open, locked_at = now E, registry_epoch = ep, timing_version = tv,
        anchor_delay = d, pinned_slot = sl, repinned = False\<rparr> else get_order s k)"
  by (simp add: open_order_def store_simps)

lemma get_order_set_status [store_simps]:
  "get_order (set_order_status h st s) k =
     (if k = h then (get_order s h)\<lparr>status := st\<rparr> else get_order s k)"
  by (simp add: set_order_status_def store_simps)

lemma get_order_set_pin [store_simps]:
  "get_order (set_pinned_slot h sl s) k =
     (if k = h then (get_order s h)\<lparr>pinned_slot := sl, repinned := True\<rparr> else get_order s k)"
  by (simp add: set_pinned_slot_def store_simps)

lemma get_in_flight_set [store_simps]:
  "get_in_flight (set_in_flight a n s) b = (if b = a then n else get_in_flight s b)"
  by (simp add: get_in_flight_def set_in_flight_def)

lemma get_claimable_set [store_simps]:
  "get_claimable (set_claimable r t n s) r' t' = (if (r', t') = (r, t) then n else get_claimable s r' t')"
  by (simp add: get_claimable_def set_claimable_def)

lemma push_route_timing_Ok [res_simps]:
  "push_route_timing c t s = Inr (v, s') \<longleftrightarrow> unat v = unat (get_timing_version s c) + 1 \<and>
     s' = s\<lparr>st_timings := (st_timings s)((c, v) \<mapsto> t),
            st_timing_versions := (st_timing_versions s)(c \<mapsto> v)\<rparr>"
  by (auto simp: push_route_timing_def res_simps chk_simps)

text \<open>What each write leaves alone: one equation per written field.\<close>

lemma set_order_frame [store_simps]:
  "st_in_flight (set_order h r s) = st_in_flight s"
  "st_claimables (set_order h r s) = st_claimables s"
  "st_nullifiers (set_order h r s) = st_nullifiers s"
  "st_claims (set_order h r s) = st_claims s"
  "st_settled (set_order h r s) = st_settled s"
  "st_config (set_order h r s) = st_config s"
  "st_timings (set_order h r s) = st_timings s"
  "st_timing_versions (set_order h r s) = st_timing_versions s"
  "st_timelock (set_order h r s) = st_timelock s"
  "st_order_dispute (set_order h r s) = st_order_dispute s"
  "st_paused (set_order h r s) = st_paused s"
  "escrow_store.more (set_order h r s) = escrow_store.more s"
  by (simp_all add: set_order_def)

lemma store_writes_orders [store_simps]:
  "st_orders (set_claim h c s) = st_orders s"
  "st_orders (remove_claim h s) = st_orders s"
  "st_orders (set_settled_recorded h s) = st_orders s"
  "st_orders (set_nullifier_used n s) = st_orders s"
  "st_orders (set_order_dispute_manager h m s) = st_orders s"
  "st_orders (set_in_flight a k s) = st_orders s"
  "st_orders (set_claimable r t u s) = st_orders s"
  by (simp_all add: set_claim_def remove_claim_def set_settled_recorded_def set_nullifier_used_def
      set_order_dispute_manager_def set_in_flight_def set_claimable_def)

end
