(* ===== verification/External.thy ===== *)
theory External
  imports Host
begin

text \<open>
  The contracts an escrow calls, as one record of functions over the state \<open>'w\<close> of everything
  outside the calling contract. Each function takes the address that is called, so the caller's
  wiring stays part of the model. A plain client call that fails traps the caller (\<open>None\<close>); a
  \<open>try_\<close> call hands the failure to the caller as a value. A failed call leaves \<open>'w\<close> as it was (the
  host rolls the callee back), and the host forbids re-entry, so no call changes the caller's state.
\<close>

text \<open>The failure of a \<open>try_\<close> call: the callee's own error code, or a host failure.\<close>

datatype call_failure = ContractError nat | HostFailure

record 'w ext =
  tok_transfer :: "env \<Rightarrow> address \<Rightarrow> address \<Rightarrow> address \<Rightarrow> int \<Rightarrow> 'w \<Rightarrow> 'w option"
  tok_balance :: "address \<Rightarrow> address \<Rightarrow> 'w \<Rightarrow> int"
  tok_decimals :: "address \<Rightarrow> 'w \<Rightarrow> u32 option"
  mm_append :: "env \<Rightarrow> address \<Rightarrow> address \<Rightarrow> bytes32 \<Rightarrow> u32 \<Rightarrow> 'w \<Rightarrow> 'w option"
  zk_verify :: "address \<Rightarrow> bytes \<Rightarrow> bytes \<Rightarrow> 'w \<Rightarrow> bool"
  rv_root_valid :: "env \<Rightarrow> address \<Rightarrow> u128 \<Rightarrow> bytes32 \<Rightarrow> bytes \<Rightarrow> 'w \<Rightarrow> bool option"
  rv_registry :: "address \<Rightarrow> 'w \<Rightarrow> address option"
  ra_is_anchored :: "env \<Rightarrow> address \<Rightarrow> u128 \<Rightarrow> bytes32 \<Rightarrow> 'w \<Rightarrow> bool"
  ra_anchor_delay :: "address \<Rightarrow> u128 \<Rightarrow> 'w \<Rightarrow> u64 option"
  kr_has_usable_slot :: "env \<Rightarrow> address \<Rightarrow> bytes32 \<Rightarrow> 'w \<Rightarrow> bool option"
  kr_is_approved_maker :: "env \<Rightarrow> address \<Rightarrow> bytes32 \<Rightarrow> bytes32 \<Rightarrow> 'w \<Rightarrow> bool"
  kr_commitment_at :: "env \<Rightarrow> address \<Rightarrow> bytes32 \<Rightarrow> u32 \<Rightarrow> 'w \<Rightarrow> bytes32 option"
  kr_expired_at :: "address \<Rightarrow> bytes32 \<Rightarrow> u32 \<Rightarrow> 'w \<Rightarrow> u64 option"
  kr_repin_approval :: "address \<Rightarrow> bytes32 \<Rightarrow> bytes32 \<Rightarrow> 'w \<Rightarrow> (u32 \<times> u32 \<times> u64) option"
  dm_open_dispute :: "env \<Rightarrow> address \<Rightarrow> address \<Rightarrow> bytes32 \<Rightarrow> u128 \<Rightarrow> address \<Rightarrow> bytes32 \<Rightarrow> u64 \<Rightarrow> u64 \<Rightarrow>
    address \<Rightarrow> u128 \<Rightarrow> 'w \<Rightarrow> call_failure + (u128 \<times> 'w)"
  dm_settle_bond :: "env \<Rightarrow> address \<Rightarrow> address \<Rightarrow> bytes32 \<Rightarrow> dispute_outcome \<Rightarrow> bool \<Rightarrow> bool \<Rightarrow> 'w \<Rightarrow>
    call_failure + 'w"
  dm_record_response :: "env \<Rightarrow> address \<Rightarrow> address \<Rightarrow> bytes32 \<Rightarrow> address \<Rightarrow> bytes32 \<Rightarrow> 'w \<Rightarrow>
    call_failure + 'w"
  dm_outcome_of :: "env \<Rightarrow> address \<Rightarrow> bytes32 \<Rightarrow> 'w \<Rightarrow>
    call_failure + (dispute_outcome \<times> bool \<times> address option)"
  dm_initiator_of :: "address \<Rightarrow> bytes32 \<Rightarrow> 'w \<Rightarrow> call_failure + address option"
  dm_challenge_deadline_of :: "address \<Rightarrow> bytes32 \<Rightarrow> 'w \<Rightarrow> call_failure + u64"

end
