(* ===== verification/Token_Ops.thy ===== *)
theory Token_Ops
  imports External
begin

text \<open>
  Token handling shared by the escrows (\<open>lib/proofbridge-core/src/token.rs\<close>): the native marker,
  the conversions between 32 bytes and an address, and the transfers. The token contracts
  themselves are outside the repository: \<open>tok_transfer\<close> and \<open>tok_balance\<close> of the interface.
\<close>

definition NATIVE_TOKEN_ADDRESS :: bytes32 where
  "NATIVE_TOKEN_ADDRESS = 0xeeeeeeeeeeeeeeeeeeeeeeeeeeeeeeeeeeeeeeeeeeeeeeeeeeeeeeeeeeeeeeee"

definition is_native_token :: "bytes32 \<Rightarrow> bool" where
  "is_native_token t \<longleftrightarrow> t = NATIVE_TOKEN_ADDRESS"

definition bytes32_to_token_address :: "bytes32 \<Rightarrow> address option" where
  "bytes32_to_token_address t = (if is_native_token t then None else Some (ContractAddr t))"

definition bytes32_to_account_address :: "bytes32 \<Rightarrow> (fault, address) res" where
  "bytes32_to_account_address b = (if b = 0 then Fail InvalidAccountAddress else Ok (AccountAddr b))"

text \<open>\<open>amount as i128\<close>: the 128 bits reread as two's complement.\<close>

definition as_i128 :: "u128 \<Rightarrow> int" where
  "as_i128 a = sint a"

definition transfer_tokens ::
  "'w ext \<Rightarrow> env \<Rightarrow> bytes32 \<Rightarrow> address \<Rightarrow> address \<Rightarrow> address \<Rightarrow> u128 \<Rightarrow> 'w \<Rightarrow> (fault, 'w) res" where
  "transfer_tokens X E t w_native from to amount w =
     (if is_native_token t then ok_or_trap (tok_transfer X E w_native from to (as_i128 amount) w)
      else case bytes32_to_token_address t of
             Some a \<Rightarrow> ok_or_trap (tok_transfer X E a from to (as_i128 amount) w)
           | None \<Rightarrow> Fail TokenZeroAddress)"

definition transfer_from_user ::
  "'w ext \<Rightarrow> env \<Rightarrow> bytes32 \<Rightarrow> address \<Rightarrow> address \<Rightarrow> u128 \<Rightarrow> 'w \<Rightarrow> (fault, 'w) res" where
  "transfer_from_user X E t w_native from amount w =
     (if is_native_token t then transfer_tokens X E t w_native from (self E) amount w
      else attempt (ok_or (bytes32_to_token_address t) TokenZeroAddress) (\<lambda>a.
        let before = tok_balance X a (self E) w in
        attempt (ok_or_trap (tok_transfer X E a from (self E) (as_i128 amount) w)) (\<lambda>w'.
        if tok_balance X a (self E) w' - before \<noteq> as_i128 amount then Fail TransferShort
        else Ok w')))"

definition transfer_to_user ::
  "'w ext \<Rightarrow> env \<Rightarrow> bytes32 \<Rightarrow> address \<Rightarrow> address \<Rightarrow> u128 \<Rightarrow> 'w \<Rightarrow> (fault, 'w) res" where
  "transfer_to_user X E t w_native to amount w = transfer_tokens X E t w_native (self E) to amount w"

definition token_decimals :: "'w ext \<Rightarrow> bytes32 \<Rightarrow> address \<Rightarrow> 'w \<Rightarrow> (fault, u32) res" where
  "token_decimals X t w_native w =
     (if is_native_token t then ok_or_trap (tok_decimals X w_native w)
      else attempt (ok_or (bytes32_to_token_address t) TokenZeroAddress) (\<lambda>a.
        ok_or_trap (tok_decimals X a w)))"

definition transfer_to_recipient ::
  "'w ext \<Rightarrow> env \<Rightarrow> bytes32 \<Rightarrow> address \<Rightarrow> bytes32 \<Rightarrow> u128 \<Rightarrow> 'w \<Rightarrow> (fault, 'w) res" where
  "transfer_to_recipient X E t w_native recipient amount w =
     attempt (bytes32_to_account_address recipient) (\<lambda>to.
     transfer_tokens X E t w_native (self E) to amount w)"

text \<open>The best-effort form: \<open>None\<close> is \<open>false\<close>, the recipient could not be paid.\<close>

definition try_transfer_to_recipient ::
  "'w ext \<Rightarrow> env \<Rightarrow> bytes32 \<Rightarrow> address \<Rightarrow> bytes32 \<Rightarrow> u128 \<Rightarrow> 'w \<Rightarrow> 'w option" where
  "try_transfer_to_recipient X E t w_native recipient amount w =
     (if recipient = 0 then None
      else
        let token_addr = (if is_native_token t then Some w_native else bytes32_to_token_address t)
        in case token_addr of
             None \<Rightarrow> None
           | Some a \<Rightarrow> tok_transfer X E a (self E) (AccountAddr recipient) (as_i128 amount) w)"

text \<open>\<open>address_to_bytes32\<close> (\<open>eip712.rs\<close>): the 32 bytes an address carries.\<close>

fun address_to_bytes32 :: "address \<Rightarrow> bytes32" where
  "address_to_bytes32 (ContractAddr b) = b"
| "address_to_bytes32 (AccountAddr b) = b"

section \<open>Properties\<close>

text \<open>The contract a token's bytes name, the native marker being the wrapped native token.\<close>

definition token_contract :: "address \<Rightarrow> bytes32 \<Rightarrow> address" where
  "token_contract w_native t = (if is_native_token t then w_native else ContractAddr t)"

lemma transfer_tokens_Ok [res_simps]:
  "transfer_tokens X E t wn from to a w = Inr w' \<longleftrightarrow>
     tok_transfer X E (token_contract wn t) from to (as_i128 a) w = Some w'"
  by (auto simp: transfer_tokens_def token_contract_def bytes32_to_token_address_def res_simps)

lemma transfer_from_user_Ok [res_simps]:
  "transfer_from_user X E t wn from a w = Inr w' \<longleftrightarrow>
     tok_transfer X E (token_contract wn t) from (self E) (as_i128 a) w = Some w' \<and>
     (is_native_token t \<or>
      tok_balance X (token_contract wn t) (self E) w' =
      tok_balance X (token_contract wn t) (self E) w + as_i128 a)"
proof (cases "is_native_token t")
  case True
  then show ?thesis by (simp add: transfer_from_user_def res_simps)
next
  case False
  then show ?thesis
    by (cases "tok_transfer X E (ContractAddr t) from (self E) (as_i128 a) w")
      (auto simp: transfer_from_user_def token_contract_def bytes32_to_token_address_def Let_def
        algebra_simps)
qed

lemma transfer_to_user_Ok [res_simps]:
  "transfer_to_user X E t wn to a w = Inr w' \<longleftrightarrow>
     tok_transfer X E (token_contract wn t) (self E) to (as_i128 a) w = Some w'"
  by (simp add: transfer_to_user_def res_simps)

lemma bytes32_to_account_address_Ok [res_simps]:
  "bytes32_to_account_address b = Inr a \<longleftrightarrow> b \<noteq> 0 \<and> a = AccountAddr b"
  by (auto simp: bytes32_to_account_address_def)

lemma transfer_to_recipient_Ok [res_simps]:
  "transfer_to_recipient X E t wn r a w = Inr w' \<longleftrightarrow> r \<noteq> 0 \<and>
     tok_transfer X E (token_contract wn t) (self E) (AccountAddr r) (as_i128 a) w = Some w'"
  by (auto simp: transfer_to_recipient_def res_simps)

lemma try_transfer_to_recipient_eq:
  "try_transfer_to_recipient X E t wn r a w =
     (if r = 0 then None
      else tok_transfer X E (token_contract wn t) (self E) (AccountAddr r) (as_i128 a) w)"
  by (simp add: try_transfer_to_recipient_def token_contract_def bytes32_to_token_address_def)

end
