(* ===== verification/Eip712.thy ===== *)
theory Eip712
  imports Host
begin

text \<open>
  The EIP-712 order hash (\<open>lib/proofbridge-core/src/eip712.rs\<close>): the 19-field order, the one place
  its preimage is laid out, and the facts that make the hash bind every field.
\<close>

definition DOMAIN_TYPEHASH_MIN :: bytes32 where
  "DOMAIN_TYPEHASH_MIN = 0xb03948446334eb9b2196d5eb166f69b9d49403eb4a12f36de8d3f9f3cb8e15c3"

definition ORDER_TYPEHASH :: bytes32 where
  "ORDER_TYPEHASH = 0xb5d33c95a13eb69f0c2f7619a88780a8622afc3617faf79c4bc4417e703c74b9"

definition NAME_HASH :: bytes32 where
  "NAME_HASH = 0xcea4b90ab114e557c0152df0f3010906c489b3adc1814cfdf1755ce928ce359c"

definition VERSION_HASH :: bytes32 where
  "VERSION_HASH = 0xc89efdaa54c0f20c7adf612882df0950f5a951637e0307cdcb4c672f298b8bc6"

definition abi_encode_address :: "bytes32 \<Rightarrow> bytes" where
  "abi_encode_address addr = be_bytes 32 addr"

definition abi_encode_uint256 :: "u128 \<Rightarrow> bytes" where
  "abi_encode_uint256 v = replicate 16 0 @ be_bytes 16 v"

definition abi_encode_u256 :: "bytes32 \<Rightarrow> bytes" where
  "abi_encode_u256 v = be_bytes 32 v"

text \<open>The bytes of a host string; its encoding slices a 1024-byte buffer, so longer ones trap.\<close>

definition string_bytes :: "string \<Rightarrow> bytes" where
  "string_bytes s = map (\<lambda>c. of_nat (of_char c)) s"

definition abi_encode_string :: "crypto \<Rightarrow> string \<Rightarrow> ('e, bytes32) res" where
  "abi_encode_string C s =
     (if length s \<le> 1024 then Ok (keccak256 C (string_bytes s)) else Trapped)"

definition domain_separator_proofbridge :: "crypto \<Rightarrow> bytes32" where
  "domain_separator_proofbridge C =
     keccak256 C (be_bytes 32 DOMAIN_TYPEHASH_MIN @ be_bytes 32 NAME_HASH @ be_bytes 32 VERSION_HASH)"

record eip_order =
  eo_order_chain_token :: bytes32
  eo_ad_chain_token :: bytes32
  eo_amount :: u128
  eo_bridger :: bytes32
  eo_order_chain_id :: u128
  eo_order_portal :: bytes32
  eo_order_recipient :: bytes32
  eo_ad_chain_id :: u128
  eo_ad_manager :: bytes32
  eo_ad_id_hash :: bytes32
  eo_ad_creator :: bytes32
  eo_ad_recipient :: bytes32
  eo_salt :: bytes32
  eo_order_decimals :: u32
  eo_ad_decimals :: u32
  eo_deadline :: u64
  eo_ad_settlement_signer :: bytes32
  eo_lp_fee_bps :: u32
  eo_protocol_fee_bps :: u32

text \<open>The typehash and the 19 words, in type-string order.\<close>

definition order_words :: "eip_order \<Rightarrow> bytes list" where
  "order_words o' =
     [be_bytes 32 ORDER_TYPEHASH,
      be_bytes 32 (eo_order_chain_token o'),
      be_bytes 32 (eo_ad_chain_token o'),
      abi_encode_uint256 (eo_amount o'),
      be_bytes 32 (eo_bridger o'),
      abi_encode_uint256 (eo_order_chain_id o'),
      be_bytes 32 (eo_order_portal o'),
      be_bytes 32 (eo_order_recipient o'),
      abi_encode_uint256 (eo_ad_chain_id o'),
      be_bytes 32 (eo_ad_manager o'),
      be_bytes 32 (eo_ad_id_hash o'),
      be_bytes 32 (eo_ad_creator o'),
      be_bytes 32 (eo_ad_recipient o'),
      be_bytes 32 (eo_salt o'),
      abi_encode_uint256 (ucast (eo_order_decimals o')),
      abi_encode_uint256 (ucast (eo_ad_decimals o')),
      abi_encode_uint256 (ucast (eo_deadline o')),
      be_bytes 32 (eo_ad_settlement_signer o'),
      abi_encode_uint256 (ucast (eo_lp_fee_bps o')),
      abi_encode_uint256 (ucast (eo_protocol_fee_bps o'))]"

definition order_preimage :: "eip_order \<Rightarrow> bytes" where
  "order_preimage o' = concat (order_words o')"

definition struct_hash_order :: "crypto \<Rightarrow> eip_order \<Rightarrow> bytes32" where
  "struct_hash_order C o' = keccak256 C (order_preimage o')"

definition hash_typed_data_v4 :: "crypto \<Rightarrow> bytes32 \<Rightarrow> bytes32" where
  "hash_typed_data_v4 C struct_hash =
     keccak256 C ([0x19, 0x01] @ be_bytes 32 (domain_separator_proofbridge C) @ be_bytes 32 struct_hash)"

definition typed_order_hash :: "crypto \<Rightarrow> eip_order \<Rightarrow> bytes32" where
  "typed_order_hash C o' = hash_typed_data_v4 C (struct_hash_order C o')"

section \<open>Properties\<close>

lemma length_abi_encode_uint256 [simp]: "length (abi_encode_uint256 v) = 32"
  by (simp add: abi_encode_uint256_def)

lemma abi_encode_uint256_inject: "abi_encode_uint256 v = abi_encode_uint256 v' \<longleftrightarrow> v = v'"
  by (simp add: abi_encode_uint256_def be_bytes_inject)

lemma ucast_u128_inject:
  fixes a b :: "'a::len word"
  assumes "LENGTH('a) \<le> 128"
  shows "(ucast a :: u128) = ucast b \<longleftrightarrow> a = b"
proof -
  have "unat (ucast c :: u128) = unat c" for c :: "'a word"
  proof -
    have "unat c < 2 ^ LENGTH('a)" by (rule unat_less_len)
    also have "(2::nat) ^ LENGTH('a) \<le> 2 ^ 128" using assms by (rule power_increasing) simp
    finally show ?thesis by (simp add: unsigned_ucast_eq take_bit_nat_eq_self)
  qed
  then show ?thesis by (simp add: word_unat_eq_iff)
qed

lemma order_words_lengths: "\<forall>w \<in> set (order_words o'). length w = 32"
  by (simp add: order_words_def)

lemma length_order_words [simp]: "length (order_words o') = 20"
  by (simp add: order_words_def)

lemma length_order_preimage: "length (order_preimage o') = 640"
  by (simp add: order_preimage_def order_words_def)

lemma concat_fixed_inject:
  assumes "concat xs = concat ys" "length xs = length ys"
    "\<forall>x \<in> set xs. length x = n" "\<forall>y \<in> set ys. length y = n"
  shows "xs = ys"
  using assms
proof (induction xs arbitrary: ys)
  case Nil
  then show ?case by simp
next
  case (Cons x xs)
  then obtain y ys' where ys: "ys = y # ys'" by (cases ys) auto
  with Cons.prems have "x = y" "concat xs = concat ys'" by auto
  with Cons ys show ?case by simp
qed

lemma order_words_inject: "order_words o1 = order_words o2 \<longleftrightarrow> o1 = o2"
proof
  assume "order_words o1 = order_words o2"
  then have "eo_order_chain_token o1 = eo_order_chain_token o2"
    "eo_ad_chain_token o1 = eo_ad_chain_token o2" "eo_amount o1 = eo_amount o2"
    "eo_bridger o1 = eo_bridger o2" "eo_order_chain_id o1 = eo_order_chain_id o2"
    "eo_order_portal o1 = eo_order_portal o2" "eo_order_recipient o1 = eo_order_recipient o2"
    "eo_ad_chain_id o1 = eo_ad_chain_id o2" "eo_ad_manager o1 = eo_ad_manager o2"
    "eo_ad_id_hash o1 = eo_ad_id_hash o2" "eo_ad_creator o1 = eo_ad_creator o2"
    "eo_ad_recipient o1 = eo_ad_recipient o2" "eo_salt o1 = eo_salt o2"
    "eo_order_decimals o1 = eo_order_decimals o2" "eo_ad_decimals o1 = eo_ad_decimals o2"
    "eo_deadline o1 = eo_deadline o2" "eo_ad_settlement_signer o1 = eo_ad_settlement_signer o2"
    "eo_lp_fee_bps o1 = eo_lp_fee_bps o2" "eo_protocol_fee_bps o1 = eo_protocol_fee_bps o2"
    by (simp_all add: order_words_def be_bytes_inject abi_encode_uint256_inject ucast_u128_inject)
  then show "o1 = o2" by simp
qed simp

text \<open>The layout binds every field: two orders with one preimage are one order.\<close>

lemma order_preimage_inject: "order_preimage o1 = order_preimage o2 \<longleftrightarrow> o1 = o2"
proof
  assume "order_preimage o1 = order_preimage o2"
  then have "order_words o1 = order_words o2"
    unfolding order_preimage_def
    by (rule concat_fixed_inject [where n = 32]) (simp_all add: order_words_lengths)
  then show "o1 = o2" by (simp add: order_words_inject)
qed simp

text \<open>
  So the hash binds the order wherever the hash function has no collision on the preimages in
  play: \<open>order_inputs\<close> are the inputs the two hash calls see for a set of orders.
\<close>

definition order_inputs :: "crypto \<Rightarrow> eip_order set \<Rightarrow> bytes set" where
  "order_inputs C S = order_preimage ` S \<union>
     (\<lambda>o'. [0x19, 0x01] @ be_bytes 32 (domain_separator_proofbridge C) @
        be_bytes 32 (struct_hash_order C o')) ` S"

lemma typed_order_hash_inj_on:
  assumes "inj_on (keccak256 C) (order_inputs C S)"
  shows "inj_on (typed_order_hash C) S"
proof (rule inj_onI)
  fix o1 o2 assume S: "o1 \<in> S" "o2 \<in> S" and eq: "typed_order_hash C o1 = typed_order_hash C o2"
  let ?p = "\<lambda>o'. [0x19, 0x01] @ be_bytes 32 (domain_separator_proofbridge C) @
      be_bytes 32 (struct_hash_order C o')"
  have "?p o1 = ?p o2"
    by (rule inj_onD [OF assms]) (use eq S in \<open>auto simp: typed_order_hash_def hash_typed_data_v4_def
        order_inputs_def\<close>)
  then have "struct_hash_order C o1 = struct_hash_order C o2" by (simp add: be_bytes_inject)
  then have "order_preimage o1 = order_preimage o2"
    by (intro inj_onD [OF assms]) (use S in \<open>auto simp: struct_hash_order_def order_inputs_def\<close>)
  then show "o1 = o2" by (simp add: order_preimage_inject)
qed

end
