(* ===== verification/Cross_Contract.thy ===== *)
theory Cross_Contract
  imports Token_Ops Eip712
begin

text \<open>
  The calls an escrow makes to the contracts around it, and the byte strings it builds for them
  (\<open>lib/proofbridge-core/src/cross_contract.rs\<close>): the MMR append, the proof check and its public
  inputs, the root verifier's envelope, the anchor, the key registry and the dispute module.
\<close>

section \<open>MerkleManager and verifier\<close>

definition append_to_merkle ::
  "'w ext \<Rightarrow> env \<Rightarrow> address \<Rightarrow> bytes32 \<Rightarrow> u32 \<Rightarrow> 'w \<Rightarrow> (fault, 'w) res" where
  "append_to_merkle X E mm order_hash side w =
     ok_or (mm_append X E mm (self E) order_hash side w) MerkleAppendFailed"

definition verify_proof ::
  "'w ext \<Rightarrow> address \<Rightarrow> bytes \<Rightarrow> bytes \<Rightarrow> 'w \<Rightarrow> (fault, unit) res" where
  "verify_proof X vf public_inputs proof_bytes w =
     ensure (zk_verify X vf public_inputs proof_bytes w) InvalidProof"

definition LEAF_DOMAIN_ORDER :: u32 where "LEAF_DOMAIN_ORDER = 0"
definition LEAF_DOMAIN_AD :: u32 where "LEAF_DOMAIN_AD = 1"
definition LEAF_DOMAIN_CANCEL :: u32 where "LEAF_DOMAIN_CANCEL = 2"
definition LEAF_DOMAIN_SETTLED :: u32 where "LEAF_DOMAIN_SETTLED = 3"
definition LEAF_DOMAIN_REGISTERED :: u32 where "LEAF_DOMAIN_REGISTERED = 4"
definition LEAF_DOMAIN_FORFEIT :: u32 where "LEAF_DOMAIN_FORFEIT = 5"

lemmas leaf_domain_defs = LEAF_DOMAIN_ORDER_def LEAF_DOMAIN_AD_def LEAF_DOMAIN_CANCEL_def
  LEAF_DOMAIN_SETTLED_def LEAF_DOMAIN_REGISTERED_def LEAF_DOMAIN_FORFEIT_def

definition field_mod :: "crypto \<Rightarrow> bytes32 \<Rightarrow> bytes32" where
  "field_mod C x = fr_reduce C x"

definition is_canonical :: "crypto \<Rightarrow> bytes32 \<Rightarrow> bool" where
  "is_canonical C v \<longleftrightarrow> field_mod C v = v"

text \<open>\<open>[nullifier, order hash mod r, target root, flag]\<close>, 128 bytes.\<close>

definition build_public_inputs ::
  "crypto \<Rightarrow> bytes32 \<Rightarrow> bytes32 \<Rightarrow> bytes32 \<Rightarrow> u8 \<Rightarrow> (fault, bytes) res" where
  "build_public_inputs C nullifier_hash target_root order_hash chain_flag_value =
     (if \<not> is_canonical C nullifier_hash then Fail NonCanonicalInput
      else
        let order_hash_mod = field_mod C order_hash;
            chain_flag = replicate 31 0 @ [chain_flag_value]
        in Ok (be_bytes 32 nullifier_hash @ be_bytes 32 order_hash_mod @ be_bytes 32 target_root @
               chain_flag))"

definition build_event_public_inputs :: "crypto \<Rightarrow> bytes32 \<Rightarrow> bytes32 \<Rightarrow> u32 \<Rightarrow> bytes" where
  "build_event_public_inputs C target_root subject leaf_domain =
     (let subject_mod = field_mod C subject;
          domain_word = replicate 28 0 @ be_bytes 4 leaf_domain
      in replicate 32 0 @ be_bytes 32 subject_mod @ be_bytes 32 target_root @ domain_word)"

section \<open>Keys, registration leaves and the co-signature envelope\<close>

text \<open>keccak256 of the 96-byte key with 16 zero bytes before each 48-byte coordinate.\<close>

definition key_commitment :: "crypto \<Rightarrow> bytes \<Rightarrow> bytes32" where
  "key_commitment C pk =
     keccak256 C (replicate 16 0 @ take 48 pk @ replicate 16 0 @ drop 48 pk)"

definition REG_LEAF_TAG :: bytes32 where
  "REG_LEAF_TAG = 0x114cb0bca6cb0f15f05660d63669bc00cbd1d42fc7ace7df9d0916b6ff9a6686"

definition registration_subject ::
  "crypto \<Rightarrow> u128 \<Rightarrow> bytes32 \<Rightarrow> bytes32 \<Rightarrow> bytes32 \<Rightarrow> u64 \<Rightarrow> bytes32" where
  "registration_subject C dst_chain_id dst_registry_id account32 bls_commitment epoch =
     keccak256 C (be_bytes 32 REG_LEAF_TAG @ (replicate 16 0 @ be_bytes 16 dst_chain_id) @
       be_bytes 32 dst_registry_id @ be_bytes 32 account32 @ be_bytes 32 bls_commitment @
       (replicate 24 0 @ be_bytes 8 epoch))"

definition ENVELOPE_SIDE_ORDER :: u8 where "ENVELOPE_SIDE_ORDER = 0"
definition ENVELOPE_SIDE_AD :: u8 where "ENVELOPE_SIDE_AD = 1"
definition UNPINNED :: u32 where "UNPINNED = - 1"

text \<open>What the escrow vouches for, followed by what the parties signed.\<close>

definition root_envelope ::
  "bytes32 \<Rightarrow> bytes32 \<Rightarrow> bytes32 \<Rightarrow> u32 \<Rightarrow> bytes32 \<Rightarrow> u8 \<Rightarrow> bytes \<Rightarrow> bytes" where
  "root_envelope settlement_signer bridger order_hash pinned nullifier_hash side cosig_data =
     be_bytes 32 settlement_signer @ be_bytes 32 bridger @ be_bytes 32 order_hash @
     be_bytes 4 pinned @ be_bytes 32 nullifier_hash @ [side] @ cosig_data"

definition is_root_valid ::
  "'w ext \<Rightarrow> env \<Rightarrow> address \<Rightarrow> u128 \<Rightarrow> bytes32 \<Rightarrow> bytes32 \<Rightarrow> bytes32 \<Rightarrow> bytes32 \<Rightarrow> u32 \<Rightarrow> bytes32 \<Rightarrow>
   u8 \<Rightarrow> bytes \<Rightarrow> 'w \<Rightarrow> ('e, bool) res" where
  "is_root_valid X E module source_chain_id root settlement_signer bridger order_hash pinned
     nullifier_hash side cosig_data w =
     ok_or_trap (rv_root_valid X E module source_chain_id root
       (root_envelope settlement_signer bridger order_hash pinned nullifier_hash side cosig_data) w)"

section \<open>Anchor and key registry\<close>

definition anchor_delay_of :: "'w ext \<Rightarrow> address \<Rightarrow> u128 \<Rightarrow> 'w \<Rightarrow> u64 option" where
  "anchor_delay_of X anchor source_chain_id w = ra_anchor_delay X anchor source_chain_id w"

definition is_anchored :: "'w ext \<Rightarrow> env \<Rightarrow> address \<Rightarrow> u128 \<Rightarrow> bytes32 \<Rightarrow> 'w \<Rightarrow> bool" where
  "is_anchored X E anchor source_chain_id root w = ra_is_anchored X E anchor source_chain_id root w"

definition verifier_registry :: "'w ext \<Rightarrow> address \<Rightarrow> 'w \<Rightarrow> address option" where
  "verifier_registry X vf w = rv_registry X vf w"

definition has_usable_slot :: "'w ext \<Rightarrow> env \<Rightarrow> address \<Rightarrow> bytes32 \<Rightarrow> 'w \<Rightarrow> ('e, bool) res" where
  "has_usable_slot X E registry account w = ok_or_trap (kr_has_usable_slot X E registry account w)"

definition is_approved_maker :: "'w ext \<Rightarrow> env \<Rightarrow> address \<Rightarrow> bytes32 \<Rightarrow> bytes32 \<Rightarrow> 'w \<Rightarrow> bool" where
  "is_approved_maker X E registry account maker w = kr_is_approved_maker X E registry account maker w"

definition slot_usable :: "'w ext \<Rightarrow> env \<Rightarrow> address \<Rightarrow> bytes32 \<Rightarrow> u32 \<Rightarrow> 'w \<Rightarrow> bool" where
  "slot_usable X E registry account slot w \<longleftrightarrow> kr_commitment_at X E registry account slot w \<noteq> None"

definition expired_at :: "'w ext \<Rightarrow> address \<Rightarrow> bytes32 \<Rightarrow> u32 \<Rightarrow> 'w \<Rightarrow> ('e, u64) res" where
  "expired_at X registry account slot w = ok_or_trap (kr_expired_at X registry account slot w)"

definition repin_approval ::
  "'w ext \<Rightarrow> address \<Rightarrow> bytes32 \<Rightarrow> bytes32 \<Rightarrow> 'w \<Rightarrow> ('e, u32 \<times> u32 \<times> u64) res" where
  "repin_approval X registry account order_hash w =
     ok_or_trap (kr_repin_approval X registry account order_hash w)"

section \<open>Properties\<close>

lemma append_to_merkle_Ok [res_simps]:
  "append_to_merkle X E mm h side w = Inr w' \<longleftrightarrow> mm_append X E mm (self E) h side w = Some w'"
  by (simp add: append_to_merkle_def res_simps)

lemma verify_proof_Ok [res_simps]:
  "verify_proof X vf pi pf w = Inr u \<longleftrightarrow> zk_verify X vf pi pf w"
  by (simp add: verify_proof_def res_simps)

lemma build_public_inputs_Ok [res_simps]:
  "build_public_inputs C n r h flag = Inr bs \<longleftrightarrow> is_canonical C n \<and>
     bs = be_bytes 32 n @ be_bytes 32 (field_mod C h) @ be_bytes 32 r @ replicate 31 0 @ [flag]"
  by (auto simp: build_public_inputs_def Let_def)

lemma length_public_inputs: "build_public_inputs C n r h flag = Inr bs \<Longrightarrow> length bs = 128"
  by (simp add: build_public_inputs_Ok)

lemma length_event_public_inputs: "length (build_event_public_inputs C r s d) = 128"
  by (simp add: build_event_public_inputs_def Let_def)

lemma length_root_envelope: "length (root_envelope a b h p n s c) = 133 + length c"
  by (simp add: root_envelope_def)

text \<open>An event's inputs name one root, one reduced subject and one domain.\<close>

lemma event_public_inputs_inject:
  "build_event_public_inputs C r s d = build_event_public_inputs C r' s' d' \<longleftrightarrow>
     r = r' \<and> field_mod C s = field_mod C s' \<and> d = d'"
  by (auto simp: build_event_public_inputs_def Let_def be_bytes_inject)

text \<open>A deposit proof's inputs never coincide with an event claim's: the domains differ.\<close>

lemma deposit_event_disjoint:
  assumes "build_public_inputs C n r h flag = Inr bs" "unat d < 256" "unat flag \<noteq> unat d"
  shows "bs \<noteq> build_event_public_inputs C r' s d"
proof
  assume eq: "bs = build_event_public_inputs C r' s d"
  have four: "(4::nat) = Suc 3" by simp
  have l: "last (be_bytes 4 d) = (of_nat (unat d mod 256) :: u8)"
    by (simp only: four be_bytes_def be_bytes_nat.simps last_snoc)
  have "last bs = flag" using assms(1) by (simp add: build_public_inputs_Ok)
  moreover have "be_bytes 4 d \<noteq> []" by (metis length_be_bytes length_0_conv zero_neq_numeral)
  then have "last (build_event_public_inputs C r' s d) = of_nat (unat d)"
    using l assms(2) by (simp add: build_event_public_inputs_def Let_def)
  ultimately have "flag = of_nat (unat d)" using eq by simp
  then have "unat flag = unat d" using assms(2) by (simp add: unsigned_ucast_eq take_bit_eq_mod)
  with assms(3) show False by simp
qed

end
