(* ===== verification/Timing.thy ===== *)
theory Timing
  imports Core_Types
begin

text \<open>Route-timing validation (\<open>lib/proofbridge-core/src/timing.rs\<close>) and what it guarantees.\<close>

definition MIN_BUFFER :: u64 where
  "MIN_BUFFER = 30 * 60"

definition MAX_BUFFER :: u64 where
  "MAX_BUFFER = 24 * 60 * 60"

definition MAX_ORDER_WINDOW :: u64 where
  "MAX_ORDER_WINDOW = 7 * 24 * 60 * 60"

text \<open>The error names the field that failed: 1 buffer, 2 margin, 4 claim\_stagger, 5 min\_window.\<close>

definition validate_timing :: "route_timing \<Rightarrow> (u8, unit) res" where
  "validate_timing t =
     (if buffer t < MIN_BUFFER \<or> buffer t > MAX_BUFFER then Fail 1
      else if margin t > buffer t div 2 then Fail 2
      else if claim_stagger t \<noteq> 0 \<and> claim_stagger t \<ge> min_window t then Fail 4
      else if min_window t < margin t \<or> min_window t > MAX_ORDER_WINDOW div 2 then Fail 5
      else Ok ())"

section \<open>Properties\<close>

lemmas timing_consts = MIN_BUFFER_def MAX_BUFFER_def MAX_ORDER_WINDOW_def

lemma validate_timing_Ok [res_simps]:
  "validate_timing t = Inr u \<longleftrightarrow>
     1800 \<le> unat (buffer t) \<and> unat (buffer t) \<le> 86400 \<and>
     2 * unat (margin t) \<le> unat (buffer t) \<and>
     (claim_stagger t = 0 \<or> unat (claim_stagger t) < unat (min_window t)) \<and>
     unat (margin t) \<le> unat (min_window t) \<and> unat (min_window t) \<le> 302400"
  by (auto simp: validate_timing_def timing_consts word_le_nat_alt word_less_nat_alt
      unat_div_distrib)

text \<open>The clocks a legal route carries: the facts every window argument uses.\<close>

definition timing_ok :: "route_timing \<Rightarrow> bool" where
  "timing_ok t \<longleftrightarrow> validate_timing t = Ok ()"

lemma timing_okD:
  assumes "timing_ok t"
  shows "1800 \<le> unat (buffer t)" "unat (buffer t) \<le> 86400"
    "2 * unat (margin t) \<le> unat (buffer t)" "unat (margin t) < unat (buffer t)"
    "unat (min_window t) \<le> 302400" "unat (claim_stagger t) \<le> unat (min_window t)"
  using assms by (auto simp: timing_ok_def validate_timing_Ok)

end
