(* ===== verification/Fees.thy ===== *)
theory Fees
  imports Core_Types
begin

text \<open>
  The bridge fee (\<open>lib/proofbridge-core/src/fees.rs\<close>): the floor of a basis-point share computed
  without the double-width product, the split of a payout, and the rule \<open>set_fee_bps\<close> applies.
\<close>

definition MAX_FEE_BPS :: u32 where
  "MAX_FEE_BPS = 100"

text \<open>\<open>amount / 10_000 * bps + amount % 10_000 * bps / 10_000\<close>, each operation checked.\<close>

definition bps_of :: "u128 \<Rightarrow> u32 \<Rightarrow> ('e, u128) res" where
  "bps_of amount bps =
     (let b = (ucast bps :: u128) in
      attempt (cmul (amount div 10000) b) (\<lambda>whole.
      attempt (cmul (amount mod 10000) b) (\<lambda>part.
      cadd whole (part div 10000))))"

definition split_fee :: "u128 \<Rightarrow> u32 \<Rightarrow> u32 \<Rightarrow> ('e, u128 \<times> u128) res" where
  "split_fee amount lp_bps protocol_bps =
     attempt (bps_of amount lp_bps) (\<lambda>lp.
     attempt (bps_of amount protocol_bps) (\<lambda>pr. Ok (lp, pr)))"

definition fees_valid :: "u32 \<Rightarrow> u32 \<Rightarrow> bool \<Rightarrow> bool" where
  "fees_valid lp_bps protocol_bps pool_set \<longleftrightarrow>
     lp_bps \<le> MAX_FEE_BPS \<and> protocol_bps \<le> MAX_FEE_BPS \<and> (protocol_bps = 0 \<or> pool_set)"

section \<open>Properties\<close>

lemma unat_ucast_u32_u128 [simp]: "unat (ucast (b :: u32) :: u128) = unat b"
proof -
  have "unat b < 2 ^ 32" using unat_less_len [of b] by simp
  then have "unat b < 2 ^ 128" by simp
  then show ?thesis by (simp add: unsigned_ucast_eq take_bit_nat_eq_self)
qed

lemma bps_split_nat:
  fixes a b :: nat
  shows "a div 10000 * b + a mod 10000 * b div 10000 = a * b div 10000"
proof -
  have "a * b = (a div 10000 * b) * 10000 + a mod 10000 * b"
    by (metis add_mult_distrib div_mult_mod_eq mult.assoc mult.commute)
  then show ?thesis by simp
qed

text \<open>The share is exact whenever it fits: the split form never overflows first.\<close>

lemma bps_of_Ok [chk_simps]:
  "(bps_of a b :: ('e, u128) res) = Inr r \<longleftrightarrow> unat r = unat a * unat b div 10000"
proof -
  have b: "unat b < 2 ^ 32" using unat_less_len [of b] by simp
  have part: "unat a mod 10000 * unat b < 2 ^ 128"
  proof -
    have "unat a mod 10000 * unat b \<le> 10000 * 2 ^ 32"
      using b by (intro mult_le_mono) auto
    also have "\<dots> < (2::nat) ^ 128" by simp
    finally show ?thesis .
  qed
  have d: "unat (a div 10000) = unat a div 10000" "unat (a mod 10000) = unat a mod 10000"
    by (simp_all add: unat_div_distrib unat_mod_distrib)
  show ?thesis
  proof
    assume "(bps_of a b :: ('e, u128) res) = Inr r"
    then show "unat r = unat a * unat b div 10000"
      by (auto simp: bps_of_def Let_def res_simps chk_simps d unat_div_distrib bps_split_nat)
  next
    assume r: "unat r = unat a * unat b div 10000"
    define w p where "w = a div 10000 * (ucast b :: u128)" and "p = a mod 10000 * (ucast b :: u128)"
    have sum: "unat r = unat a div 10000 * unat b + unat a mod 10000 * unat b div 10000"
      by (simp add: r bps_split_nat)
    then have whole: "unat a div 10000 * unat b < 2 ^ LENGTH(128)"
      using unat_less_len [of r] by linarith
    have w: "unat w = unat (a div 10000) * unat (ucast b :: u128)"
      unfolding w_def by (rule unat_mul_small) (use whole in \<open>simp add: d\<close>)
    have p: "unat p = unat (a mod 10000) * unat (ucast b :: u128)"
      unfolding p_def by (rule unat_mul_small) (use part in \<open>simp add: d\<close>)
    have "(cmul (a div 10000) (ucast b) :: ('e, u128) res) = Inr w"
      "(cmul (a mod 10000) (ucast b) :: ('e, u128) res) = Inr p"
      using w p by (simp_all add: chk_simps)
    moreover have "(cadd w (p div 10000) :: ('e, u128) res) = Inr r"
      using sum w p by (simp add: chk_simps d unat_div_distrib)
    ultimately show "(bps_of a b :: ('e, u128) res) = Inr r" by (simp add: bps_of_def Let_def)
  qed
qed

text \<open>It traps exactly when the share itself does not fit in 128 bits.\<close>

lemma bps_of_cases:
  "bps_of a b = (if unat a * unat b div 10000 < 2 ^ 128
                 then Inr (of_nat (unat a * unat b div 10000)) else Trapped)"
proof (cases "unat a * unat b div 10000 < 2 ^ 128")
  case True
  then have "unat (of_nat (unat a * unat b div 10000) :: u128) = unat a * unat b div 10000"
    by (simp add: unat_of_nat)
  then show ?thesis using True by (simp add: bps_of_Ok)
next
  case False
  have "bps_of a b \<noteq> Inr r" for r
    using False unat_less_len [of r] by (auto simp: bps_of_Ok)
  moreover have "bps_of a b \<noteq> Fail e" for e
    by (auto simp: bps_of_def Let_def attempt_def cmul_def cadd_def split: sum.splits if_splits)
  ultimately have "bps_of a b = Trapped"
    by (metis old.sum.exhaust stop.exhaust)
  with False show ?thesis by simp
qed

text \<open>No share of at most the whole overflows, so every fee the contracts charge is computed.\<close>

lemma bps_of_total:
  "unat b \<le> 10000 \<Longrightarrow> \<exists>r. (bps_of a b :: ('e, u128) res) = Inr r \<and> unat r \<le> unat a"
proof -
  assume b: "unat b \<le> 10000"
  have "unat a * unat b div 10000 \<le> unat a * 10000 div 10000"
    using b by (intro div_le_mono mult_le_mono) auto
  then have le: "unat a * unat b div 10000 \<le> unat a" by simp
  then have "unat a * unat b div 10000 < 2 ^ 128"
    using unat_less_len [of a] by simp
  then have "unat (of_nat (unat a * unat b div 10000) :: u128) = unat a * unat b div 10000"
    by (simp add: unat_of_nat)
  with le show ?thesis by (metis bps_of_Ok)
qed

lemma split_fee_Ok [chk_simps]:
  "split_fee a lp pr = Inr (x, y) \<longleftrightarrow>
     unat x = unat a * unat lp div 10000 \<and> unat y = unat a * unat pr div 10000"
  by (auto simp: split_fee_def res_simps bps_of_Ok)

text \<open>Under the ceiling both shares together stay within the amount.\<close>

lemma split_fee_total:
  assumes "unat lp + unat pr \<le> 10000"
  shows "\<exists>x y. (split_fee a lp pr :: ('e, u128 \<times> u128) res) = Inr (x, y) \<and> unat x + unat y \<le> unat a"
proof -
  obtain x y where xy: "(bps_of a lp :: ('e, u128) res) = Inr x"
      "(bps_of a pr :: ('e, u128) res) = Inr y"
    using bps_of_total [of lp a, where 'e = 'e] bps_of_total [of pr a, where 'e = 'e] assms by auto
  then have "unat x = unat a * unat lp div 10000" "unat y = unat a * unat pr div 10000"
    by (simp_all add: bps_of_Ok)
  moreover have "unat a * unat lp div 10000 + unat a * unat pr div 10000
      \<le> (unat a * unat lp + unat a * unat pr) div 10000"
    using div_add1_eq [of "unat a * unat lp" "unat a * unat pr" 10000] by simp
  moreover have "(unat a * unat lp + unat a * unat pr) div 10000 \<le> unat a * 10000 div 10000"
    using assms by (intro div_le_mono) (simp flip: add_mult_distrib2)
  ultimately have "unat x + unat y \<le> unat a" by simp
  with xy show ?thesis by (auto simp: split_fee_def)
qed

lemma fees_valid_bound:
  "fees_valid lp pr pool \<Longrightarrow> unat lp \<le> 100 \<and> unat pr \<le> 100"
  by (simp add: fees_valid_def MAX_FEE_BPS_def word_le_nat_alt)

end
