(* ===== verification/Dispute_Rules.thy ===== *)
theory Dispute_Rules
  imports Fees
begin

text \<open>
  Dispute parameters, the bond and where it goes (\<open>lib/proofbridge-core/src/dispute.rs\<close>).
\<close>

definition MIN_CHALLENGE_PERIOD :: u64 where
  "MIN_CHALLENGE_PERIOD = 60 * 60"

definition MAX_CHALLENGE_PERIOD :: u64 where
  "MAX_CHALLENGE_PERIOD = 7 * 24 * 60 * 60"

text \<open>\<open>i128::MAX as u128\<close>.\<close>

definition I128_MAX :: u128 where
  "I128_MAX = 2 ^ 127 - 1"

definition validate_dispute :: "dispute_params \<Rightarrow> (u8, unit) res" where
  "validate_dispute p =
     (if challenge_period p < MIN_CHALLENGE_PERIOD \<or> challenge_period p > MAX_CHALLENGE_PERIOD
      then Fail 1
      else if bond_floor p = 0 \<or> bond_floor p > I128_MAX then Fail 2
      else Ok ())"

definition bond_for :: "dispute_params \<Rightarrow> u128" where
  "bond_for p = bond_floor p"

definition MAX_BOND_BPS :: u32 where
  "MAX_BOND_BPS = 500"

definition validate_bond :: "bond_config \<Rightarrow> bool" where
  "validate_bond c =
     (if min_bond c = 0 then bond_bps c = 0
      else bond_bps c \<le> MAX_BOND_BPS \<and> min_bond c \<le> I128_MAX)"

definition route_bond :: "bond_config \<Rightarrow> u128 \<Rightarrow> ('e, u128) res" where
  "route_bond c amount =
     attempt (bps_of amount (bond_bps c)) (\<lambda>scaled. Ok (max scaled (min_bond c)))"

fun bond_returns_to_filer :: "dispute_outcome \<Rightarrow> bool \<Rightarrow> bool \<Rightarrow> bool" where
  "bond_returns_to_filer outcome filer_is_bridger return_to_filer =
     (if return_to_filer then True
      else case outcome of
        MutualRefund \<Rightarrow> True
      | MakerForfeit \<Rightarrow> filer_is_bridger
      | BridgerForfeit \<Rightarrow> \<not> filer_is_bridger
      | _ \<Rightarrow> False)"

section \<open>Properties\<close>

lemma unat_I128_MAX: "unat I128_MAX = 2 ^ 127 - 1"
  by (simp add: I128_MAX_def)

lemma validate_dispute_Ok [res_simps]:
  "validate_dispute p = Inr u \<longleftrightarrow>
     3600 \<le> unat (challenge_period p) \<and> unat (challenge_period p) \<le> 604800 \<and>
     0 < unat (bond_floor p) \<and> unat (bond_floor p) < 2 ^ 127"
  by (auto simp: validate_dispute_def MIN_CHALLENGE_PERIOD_def MAX_CHALLENGE_PERIOD_def
      word_less_nat_alt unat_I128_MAX word_unat_eq_iff)

lemma validate_bond_iff:
  "validate_bond c \<longleftrightarrow>
     (min_bond c = 0 \<and> bond_bps c = 0) \<or>
     (min_bond c \<noteq> 0 \<and> unat (bond_bps c) \<le> 500 \<and> unat (min_bond c) < 2 ^ 127)"
  by (auto simp: validate_bond_def MAX_BOND_BPS_def word_le_nat_alt unat_I128_MAX)

lemma unat_max_word: "unat (max a b) = max (unat a) (unat b)" for a b :: "'a::len word"
  by (auto simp: max_def word_le_nat_alt)

lemma route_bond_Ok [chk_simps]:
  "(route_bond c a :: ('e, u128) res) = Inr b \<longleftrightarrow>
     unat a * unat (bond_bps c) div 10000 < 2 ^ 128 \<and>
     unat b = max (unat a * unat (bond_bps c) div 10000) (unat (min_bond c))"
proof -
  have "(route_bond c a :: ('e, u128) res) = Inr b \<longleftrightarrow>
      (\<exists>s. (bps_of a (bond_bps c) :: ('e, u128) res) = Inr s \<and> max s (min_bond c) = b)"
    unfolding route_bond_def attempt_Ok by auto
  also have "\<dots> \<longleftrightarrow> unat a * unat (bond_bps c) div 10000 < 2 ^ 128 \<and>
      unat b = max (unat a * unat (bond_bps c) div 10000) (unat (min_bond c))"
    (is "_ \<longleftrightarrow> ?fits \<and> ?val")
  proof
    assume "\<exists>s. (bps_of a (bond_bps c) :: ('e, u128) res) = Inr s \<and> max s (min_bond c) = b"
    then obtain s where s: "unat s = unat a * unat (bond_bps c) div 10000" "max s (min_bond c) = b"
      by (auto simp: bps_of_Ok)
    then show "?fits \<and> ?val" using unat_less_len [of s] by (auto simp: unat_max_word)
  next
    assume r: "?fits \<and> ?val"
    let ?s = "of_nat (unat a * unat (bond_bps c) div 10000) :: u128"
    have s: "unat ?s = unat a * unat (bond_bps c) div 10000" using r by (simp add: unat_of_nat)
    then have "max ?s (min_bond c) = b" using r by (simp add: word_unat_eq_iff unat_max_word)
    then show "\<exists>s. (bps_of a (bond_bps c) :: ('e, u128) res) = Inr s \<and> max s (min_bond c) = b"
      using s by (auto simp: bps_of_Ok)
  qed
  finally show ?thesis .
qed

text \<open>Under a legal config the bond is at least the floor and never more than the order's value
  or the floor, whichever is larger, so it can always be pulled as an \<open>i128\<close> when the order can.\<close>

lemma route_bond_legal:
  assumes "validate_bond c" "min_bond c \<noteq> 0"
  shows "\<exists>b. (route_bond c a :: ('e, u128) res) = Inr b \<and> unat (min_bond c) \<le> unat b \<and>
      unat b \<le> max (unat a) (unat (min_bond c))"
proof -
  have bps: "unat (bond_bps c) \<le> 500" using assms by (auto simp: validate_bond_iff)
  then have "unat (bond_bps c) \<le> 10000" by simp
  then obtain s where s: "(bps_of a (bond_bps c) :: ('e, u128) res) = Inr s" "unat s \<le> unat a"
    using bps_of_total [of "bond_bps c" a, where 'e = 'e] by auto
  then show ?thesis by (auto simp: route_bond_def unat_max_word)
qed

end
