(* ===== verification/Escrow_Ops.thy ===== *)
theory Escrow_Ops
  imports Escrow_Storage Cross_Contract Timing Dispute_Rules
begin

text \<open>
  What the two escrows do the same way (\<open>lib/proofbridge-core/src/escrow_ops.rs\<close>): the admin surface,
  the pull payments, the termination core and the dispute calls. An operation that only writes the
  store takes and returns it; one that calls another contract also threads \<open>'w\<close>, the state of
  everything outside the escrow.
\<close>

section \<open>Pause and admin handover\<close>

definition require_not_paused :: "'a escrow_store_scheme \<Rightarrow> (fault, unit) res" where
  "require_not_paused s = ensure (\<not> st_paused s) ContractPaused"

definition pause :: "'a escrow_store_scheme \<Rightarrow> 'a escrow_store_scheme" where
  "pause s = s\<lparr>st_paused := True\<rparr>"

definition unpause :: "'a escrow_store_scheme \<Rightarrow> 'a escrow_store_scheme" where
  "unpause s = s\<lparr>st_paused := False\<rparr>"

definition transfer_admin :: "address \<Rightarrow> 'a escrow_store_scheme \<Rightarrow> 'a escrow_store_scheme" where
  "transfer_admin to s = s\<lparr>st_pending_admin := Some to\<rparr>"

definition pending_admin :: "'a escrow_store_scheme \<Rightarrow> (fault, address) res" where
  "pending_admin s = ok_or (st_pending_admin s) NotPendingAdmin"

definition accept_admin ::
  "contract_config \<Rightarrow> address \<Rightarrow> 'a escrow_store_scheme \<Rightarrow> (fault, 'a escrow_store_scheme) res" where
  "accept_admin cfg pending s =
     attempt (bump_epoch (st_timelock s)) (\<lambda>tlk.
     Ok (s\<lparr>st_config := Some (cfg\<lparr>admin := pending\<rparr>), st_pending_admin := None,
           st_timelock := tlk\<rparr>))"

section \<open>Admin setters\<close>

text \<open>A timelock operation on the store that carries it.\<close>

definition with_timelock ::
  "(timelock \<Rightarrow> ('e, timelock) res) \<Rightarrow> 'a escrow_store_scheme \<Rightarrow> ('e, 'a escrow_store_scheme) res" where
  "with_timelock f s = attempt (f (st_timelock s)) (\<lambda>tlk. Ok (s\<lparr>st_timelock := tlk\<rparr>))"

definition set_root_verifier ::
  "env \<Rightarrow> u128 \<Rightarrow> address \<Rightarrow> 'a escrow_store_scheme \<Rightarrow> 'a escrow_store_scheme" where
  "set_root_verifier E c m s = add_wired_chain c (store_root_verifier E c m s)"

definition root_verifier_key :: "env \<Rightarrow> u128 \<Rightarrow> bytes32" where
  "root_verifier_key E c = brake_key E ''set_root_verifier'' (VU128 c)"

definition set_root_verifier_gated ::
  "env \<Rightarrow> address \<Rightarrow> u128 \<Rightarrow> address \<Rightarrow> 'a escrow_store_scheme \<Rightarrow> (fault, 'a escrow_store_scheme) res" where
  "set_root_verifier_gated E adm c m s =
     attempt (with_timelock
       (gate_keyed E adm ''set_root_verifier'' [VU128 c, VAddr m] (Some (root_verifier_key E c))) s)
     (\<lambda>s'. Ok (set_root_verifier E c m s'))"

definition unset_root_verifier ::
  "env \<Rightarrow> address \<Rightarrow> u128 \<Rightarrow> 'a escrow_store_scheme \<Rightarrow> (fault, 'a escrow_store_scheme) res" where
  "unset_root_verifier E adm c s =
     attempt (with_timelock
       (gate_unless E adm True ''set_root_verifier'' [] (root_verifier_key E c)) s)
     (\<lambda>s'. Ok (remove_root_verifier E c s'))"

definition set_route_timing ::
  "u128 \<Rightarrow> route_timing \<Rightarrow> 'a escrow_store_scheme \<Rightarrow> (fault, 'a escrow_store_scheme) res" where
  "set_route_timing c t s =
     attempt (map_err (\<lambda>_. InvalidTiming) (validate_timing t)) (\<lambda>_.
     attempt (push_route_timing c t s) (\<lambda>(version, s'). Ok s'))"

definition set_root_anchor :: "address \<Rightarrow> 'a escrow_store_scheme \<Rightarrow> 'a escrow_store_scheme" where
  "set_root_anchor a s = s\<lparr>st_root_anchor := Some a\<rparr>"

section \<open>Pull payments\<close>

definition pay_or_credit ::
  "'w ext \<Rightarrow> env \<Rightarrow> address \<Rightarrow> bytes32 \<Rightarrow> bytes32 \<Rightarrow> u128 \<Rightarrow> 'a escrow_store_scheme \<times> 'w \<Rightarrow>
   ('e, 'a escrow_store_scheme \<times> 'w) res" where
  "pay_or_credit X E w_native recipient token amount = (\<lambda>(s, w).
     case try_transfer_to_recipient X E token w_native recipient amount w of
       Some w' \<Rightarrow> Ok (s, w')
     | None \<Rightarrow>
         attempt (cadd (get_claimable s recipient token) amount) (\<lambda>owed.
         Ok (set_claimable recipient token owed s, w)))"

definition claim ::
  "'w ext \<Rightarrow> env \<Rightarrow> contract_config \<Rightarrow> bytes32 \<Rightarrow> bytes32 \<Rightarrow> 'a escrow_store_scheme \<times> 'w \<Rightarrow>
   (fault, 'a escrow_store_scheme \<times> 'w) res" where
  "claim X E cfg recipient token = (\<lambda>(s, w).
     let amount = get_claimable s recipient token in
     if amount = 0 then Fail NothingToClaim
     else
       let s' = set_claimable recipient token 0 s in
       attempt (transfer_to_recipient X E token (w_native_token cfg) recipient amount w) (\<lambda>w'.
       Ok (s', w')))"

section \<open>Termination core\<close>

definition current_timing :: "'a escrow_store_scheme \<Rightarrow> u128 \<Rightarrow> (fault, u32 \<times> route_timing) res" where
  "current_timing s c =
     (let version = get_timing_version s c in
      attempt (ok_or (get_route_timing_at s c version) NoRouteTiming) (\<lambda>t. Ok (version, t)))"

definition order_timing :: "'a escrow_store_scheme \<Rightarrow> bytes32 \<Rightarrow> u128 \<Rightarrow> (fault, route_timing) res" where
  "order_timing s h c =
     ok_or (get_route_timing_at s c (timing_version (get_order s h))) NoRouteTiming"

definition require_min_window ::
  "env \<Rightarrow> 'a escrow_store_scheme \<Rightarrow> u128 \<Rightarrow> u64 \<Rightarrow> (fault, u32) res" where
  "require_min_window E s c deadline =
     attempt (current_timing s c) (\<lambda>(version, t).
     attempt (cadd (now E) (min_window t)) (\<lambda>earliest.
     if deadline < earliest then Fail DeadlineTooSoon
     else attempt (cadd (now E) MAX_ORDER_WINDOW) (\<lambda>latest.
       if deadline > latest then Fail DeadlineTooFar else Ok version)))"

definition require_reached :: "env \<Rightarrow> u64 \<Rightarrow> (fault, unit) res" where
  "require_reached E at = (if now E < at then Fail TooEarly else Ok ())"

definition require_status ::
  "'a escrow_store_scheme \<Rightarrow> bytes32 \<Rightarrow> status \<Rightarrow> (fault, unit) res" where
  "require_status s h expected = (if get_order_status s h \<noteq> expected then Fail NotClaimable else Ok ())"

definition require_presentable :: "'a escrow_store_scheme \<Rightarrow> bytes32 \<Rightarrow> (fault, unit) res" where
  "require_presentable s h =
     (case get_order_status s h of
        Open \<Rightarrow> Ok () | Claimed \<Rightarrow> Ok () | Disputed \<Rightarrow> Ok () | _ \<Rightarrow> Fail NotClaimable)"

definition window_end :: "'a escrow_store_scheme \<Rightarrow> bytes32 \<Rightarrow> u64 \<Rightarrow> u64 \<Rightarrow> u64" where
  "window_end s h deadline buf =
     (if get_order_status s h = Claimed then
        case get_claim s h of
          Some c \<Rightarrow> finalize_at c
        | None \<Rightarrow> saturating_add deadline buf
      else saturating_add deadline buf)"

definition require_finalizable ::
  "env \<Rightarrow> 'a escrow_store_scheme \<Rightarrow> bytes32 \<Rightarrow> u64 \<Rightarrow> (fault, unit) res" where
  "require_finalizable E s h buf =
     (if get_order_status s h \<noteq> Claimed then Fail NotClaimed
      else require_reached E (window_end s h 0 buf))"

definition require_anchored ::
  "'w ext \<Rightarrow> env \<Rightarrow> u128 \<Rightarrow> bytes32 \<Rightarrow> 'a escrow_store_scheme \<times> 'w \<Rightarrow> (fault, unit) res" where
  "require_anchored X E c root = (\<lambda>(s, w).
     attempt (ok_or (st_root_anchor s) NoRootAnchor) (\<lambda>anchor.
     if \<not> is_anchored X E anchor c root w then Fail RootNotAnchored else Ok ()))"

definition open_claim ::
  "env \<Rightarrow> bytes32 \<Rightarrow> u64 \<Rightarrow> 'a escrow_store_scheme \<Rightarrow> 'a escrow_store_scheme" where
  "open_claim E h fin s =
     set_order_status h Claimed (set_claim h \<lparr>opened_at = now E, finalize_at = fin\<rparr> s)"

section \<open>Disputes\<close>

definition dispute_module_fault :: "call_failure \<Rightarrow> fault" where
  "dispute_module_fault e =
     (case e of
        ContractError code \<Rightarrow>
          (if code = 3 then DisputeNotEscrow
           else if code = 10 then DisputeExists
           else if code = 16 then DisputeNotResponder
           else if code = 17 then DisputeNoParams
           else if code = 21 then DisputeWrongEscrow
           else if code = 24 then DisputeBondTransferFailed
           else if code = 25 then DisputeResponseWindowClosed
           else if code = 26 then DisputeAlreadyResponded
           else if code = 27 then DisputeZeroResponse
           else if code = 23 then DisputeAlreadyRuled
           else DisputeModuleRejected)
      | HostFailure \<Rightarrow> DisputeModuleRejected)"

definition relayed :: "call_failure + 'v \<Rightarrow> (fault, 'v) res" where
  "relayed r = (case r of Inl e \<Rightarrow> Fail (dispute_module_fault e) | Inr v \<Rightarrow> Ok v)"

definition dispute_manager :: "'a escrow_store_scheme \<Rightarrow> (fault, address) res" where
  "dispute_manager s = ok_or (st_dispute_manager s) NoDisputeManager"

definition order_dispute_manager :: "'a escrow_store_scheme \<Rightarrow> bytes32 \<Rightarrow> (fault, address) res" where
  "order_dispute_manager s h = ok_or (st_order_dispute s h) NoDisputeManager"

definition open_dispute ::
  "'w ext \<Rightarrow> env \<Rightarrow> address \<Rightarrow> bytes32 \<Rightarrow> u128 \<Rightarrow> address \<Rightarrow> bytes32 \<Rightarrow> u64 \<Rightarrow> address \<Rightarrow> u128 \<Rightarrow>
   'a escrow_store_scheme \<times> 'w \<Rightarrow> (fault, u128 \<times> 'a escrow_store_scheme \<times> 'w) res" where
  "open_dispute X E escrow h peer filer evidence deadline token amount = (\<lambda>(s, w).
     if get_order_status s h \<noteq> Open \<and> get_order_status s h \<noteq> Claimed then Fail NotDisputable
     else attempt (order_timing s h peer) (\<lambda>t.
       if now E \<ge> window_end s h deadline (buffer t) then Fail DisputeWindowClosed
       else attempt (dispute_manager s) (\<lambda>manager.
         attempt (relayed (dm_open_dispute X E manager escrow h peer filer evidence deadline
           (buffer t) token amount w)) (\<lambda>(b, w').
         Ok (b, remove_claim h (set_order_status h Disputed (set_order_dispute_manager h manager s)),
             w')))))"

definition dispute_outcome ::
  "'w ext \<Rightarrow> env \<Rightarrow> bytes32 \<Rightarrow> 'a escrow_store_scheme \<times> 'w \<Rightarrow>
   (fault, dispute_outcome \<times> address option) res" where
  "dispute_outcome X E h = (\<lambda>(s, w).
     attempt (order_dispute_manager s h) (\<lambda>manager.
     attempt (relayed (dm_outcome_of X E manager h w)) (\<lambda>(outcome, window_over, init).
     if \<not> window_over then Fail DisputeNotResolved
     else Ok (if outcome = NoOutcome then MutualRefund else outcome, init))))"

definition dispute_ruling ::
  "'w ext \<Rightarrow> env \<Rightarrow> bytes32 \<Rightarrow> 'a escrow_store_scheme \<times> 'w \<Rightarrow> (fault, dispute_outcome) res" where
  "dispute_ruling X E h = (\<lambda>(s, w).
     attempt (order_dispute_manager s h) (\<lambda>manager.
     attempt (relayed (dm_outcome_of X E manager h w)) (\<lambda>(outcome, _, _). Ok outcome)))"

definition dispute_challenge_deadline ::
  "'w ext \<Rightarrow> bytes32 \<Rightarrow> 'a escrow_store_scheme \<times> 'w \<Rightarrow> (fault, u64) res" where
  "dispute_challenge_deadline X h = (\<lambda>(s, w).
     attempt (order_dispute_manager s h) (\<lambda>manager.
     relayed (dm_challenge_deadline_of X manager h w)))"

definition settle_bond ::
  "'w ext \<Rightarrow> env \<Rightarrow> address \<Rightarrow> bytes32 \<Rightarrow> dispute_outcome \<Rightarrow> bool \<Rightarrow> 'a escrow_store_scheme \<times> 'w \<Rightarrow>
   (fault, 'a escrow_store_scheme \<times> 'w) res" where
  "settle_bond X E escrow h outcome filer_is_bridger = (\<lambda>(s, w).
     attempt (order_dispute_manager s h) (\<lambda>manager.
     attempt (relayed (dm_settle_bond X E manager escrow h outcome filer_is_bridger False w)) (\<lambda>w'.
     Ok (s, w'))))"

definition record_response ::
  "'w ext \<Rightarrow> env \<Rightarrow> address \<Rightarrow> bytes32 \<Rightarrow> address \<Rightarrow> bytes32 \<Rightarrow> 'a escrow_store_scheme \<times> 'w \<Rightarrow>
   (fault, 'a escrow_store_scheme \<times> 'w) res" where
  "record_response X E escrow h responder evidence = (\<lambda>(s, w).
     attempt (order_dispute_manager s h) (\<lambda>manager.
     attempt (relayed (dm_record_response X E manager escrow h responder evidence w)) (\<lambda>w'.
     Ok (s, w'))))"

definition dispute_filer ::
  "'w ext \<Rightarrow> bytes32 \<Rightarrow> 'a escrow_store_scheme \<times> 'w \<Rightarrow> (fault, address option) res" where
  "dispute_filer X h = (\<lambda>(s, w).
     case st_order_dispute s h of
       None \<Rightarrow> Ok None
     | Some manager \<Rightarrow> relayed (dm_initiator_of X manager h w))"

definition close_dispute_by_evidence ::
  "'w ext \<Rightarrow> env \<Rightarrow> address \<Rightarrow> bytes32 \<Rightarrow> dispute_outcome \<Rightarrow> address option \<Rightarrow>
   (address \<Rightarrow> (fault, bool) res) \<Rightarrow> 'a escrow_store_scheme \<times> 'w \<Rightarrow>
   (fault, 'a escrow_store_scheme \<times> 'w) res" where
  "close_dispute_by_evidence X E escrow h outcome maker_of denied = (\<lambda>(s, w).
     attempt (dispute_filer X h (s, w)) (\<lambda>who.
     case who of
       None \<Rightarrow> Ok (s, w)
     | Some filer \<Rightarrow>
         (case maker_of of
            None \<Rightarrow> Ok (s, w)
          | Some maker \<Rightarrow>
              let filer_is_bridger = (filer \<noteq> maker) in
              attempt (if filer_is_bridger then denied maker else Ok False) (\<lambda>return_to_filer.
              attempt (order_dispute_manager s h) (\<lambda>manager.
              attempt (relayed (dm_settle_bond X E manager escrow h outcome filer_is_bridger
                return_to_filer w)) (\<lambda>w'.
              Ok (s, w')))))))"

section \<open>Terminal transitions\<close>

definition count_out ::
  "bytes32 \<Rightarrow> 'a escrow_store_scheme \<Rightarrow> ('e, 'a escrow_store_scheme) res" where
  "count_out account s =
     attempt (csub (get_in_flight s account) 1) (\<lambda>n. Ok (set_in_flight account n s))"

definition fill ::
  "bytes32 \<Rightarrow> bytes32 \<Rightarrow> 'a escrow_store_scheme \<Rightarrow> ('e, 'a escrow_store_scheme) res" where
  "fill h account s = count_out account (remove_claim h (set_order_status h Filled s))"

definition resolve ::
  "bytes32 \<Rightarrow> bytes32 \<Rightarrow> 'a escrow_store_scheme \<Rightarrow> ('e, 'a escrow_store_scheme) res" where
  "resolve h account s = count_out account (set_order_status h Resolved s)"

definition cancel ::
  "bytes32 \<Rightarrow> bytes32 \<Rightarrow> 'a escrow_store_scheme \<Rightarrow> ('e, 'a escrow_store_scheme) res" where
  "cancel h account s = count_out account (remove_claim h (set_order_status h Cancelled s))"

definition record_settled ::
  "'w ext \<Rightarrow> env \<Rightarrow> address \<Rightarrow> bytes32 \<Rightarrow> 'a escrow_store_scheme \<times> 'w \<Rightarrow>
   (fault, 'a escrow_store_scheme \<times> 'w) res" where
  "record_settled X E mm h = (\<lambda>(s, w).
     if get_order_status s h \<noteq> Filled then Fail NotFilled
     else if is_settled_recorded s h then Fail SettledRecorded
     else
       let s' = set_settled_recorded h s in
       attempt (append_to_merkle X E mm h LEAF_DOMAIN_SETTLED w) (\<lambda>w'. Ok (s', w')))"

end
