(* ===== verification/Ad_Types.thy ===== *)
theory Ad_Types
  imports Escrow_Ops
begin

text \<open>
  The ad-manager's own data (\<open>contracts/ad-manager/src/types.rs\<close>), its error table
  (\<open>errors.rs\<close>) and the part of its storage that is not shared (\<open>storage.rs\<close>). Error constructors
  carry the prefix \<open>Am\<close>.
\<close>

section \<open>Errors\<close>

text \<open>
  \<open>From<Fault>\<close> sends every shared refusal to the variant of the same name, so those variants are
  \<open>AmFault\<close> of it; the rest are the contract's own. The code of a variant is its ABI number.
\<close>

datatype ad_error =
  AmFault fault | AmZeroAmount | AmAdNotFound | AmNotMaker | AmAdClosed |
  AmInsufficientLiquidity | AmBridgerZero | AmRecipientZero | AmActiveLocks |
  AmChainNotSupported | AmOrderPortalMismatch | AmOrderChainMismatch | AmMissingRoute |
  AmOrderTokenMismatch | AmAdTokenMismatch | AmAdRecipientMismatch | AmOrderExists |
  AmOrderNotOpen | AmNullifierUsed | AmZeroAddress | AmUsedAdId | AmAlreadyInitialized |
  AmNotInitialized | AmOrderDecimalsMismatch | AmAdDecimalsMismatch | AmRootNotValid |
  AmRootVerifierNotSet | AmRouteMismatch | AmOrderExpired | AmNoKeyRegistry |
  AmSettlementSignerZero | AmSignerNotRegistered | AmSettlementSignerMismatch | AmNotAParty |
  AmHalted | AmNotHalted | AmAnchorDelayUnreadable | AmRegistrySplit | AmSignerNotApproved |
  AmSlotNotUsable | AmNoRepin | AmInvalidFee | AmFeeMismatch | AmRecipientIsMaker

fun ad_fault_code :: "fault \<Rightarrow> nat" where
  "ad_fault_code TokenZeroAddress = 1"
| "ad_fault_code InvalidProof = 20"
| "ad_fault_code MerkleAppendFailed = 28"
| "ad_fault_code DecimalsOutOfRange = 34"
| "ad_fault_code NonExactDownscale = 35"
| "ad_fault_code DecimalOverflow = 36"
| "ad_fault_code ContractPaused = 41"
| "ad_fault_code NotPendingAdmin = 42"
| "ad_fault_code NothingToClaim = 43"
| "ad_fault_code InvalidAccountAddress = 40"
| "ad_fault_code NoRouteTiming = 51"
| "ad_fault_code InvalidTiming = 52"
| "ad_fault_code DeadlineTooSoon = 53"
| "ad_fault_code NotClaimable = 54"
| "ad_fault_code TooEarly = 55"
| "ad_fault_code NotClaimed = 56"
| "ad_fault_code NoRootAnchor = 57"
| "ad_fault_code RootNotAnchored = 58"
| "ad_fault_code SettledRecorded = 59"
| "ad_fault_code NotFilled = 60"
| "ad_fault_code NoDisputeManager = 61"
| "ad_fault_code NotDisputable = 62"
| "ad_fault_code DisputeNotResolved = 63"
| "ad_fault_code NonCanonicalInput = 65"
| "ad_fault_code DeadlineTooFar = 69"
| "ad_fault_code DisputeWindowClosed = 71"
| "ad_fault_code DisputeModuleRejected = 72"
| "ad_fault_code DisputeNoParams = 74"
| "ad_fault_code DisputeNotEscrow = 75"
| "ad_fault_code DisputeExists = 76"
| "ad_fault_code DisputeWrongEscrow = 77"
| "ad_fault_code DisputeNotResponder = 78"
| "ad_fault_code DisputeBondTransferFailed = 81"
| "ad_fault_code DisputeResponseWindowClosed = 82"
| "ad_fault_code DisputeAlreadyResponded = 83"
| "ad_fault_code DisputeZeroResponse = 84"
| "ad_fault_code DisputeAlreadyRuled = 85"
| "ad_fault_code TransferShort = 87"
| "ad_fault_code TimelockAlreadyActive = 91"
| "ad_fault_code TimelockAlreadyProposed = 92"
| "ad_fault_code TimelockNotProposed = 93"
| "ad_fault_code TimelockTooEarly = 94"
| "ad_fault_code TimelockBadArgs = 95"
| "ad_fault_code TimelockExpired = 97"
| "ad_fault_code TimelockCancelledByBrake = 98"

fun ad_error_code :: "ad_error \<Rightarrow> nat" where
  "ad_error_code (AmFault f) = ad_fault_code f"
| "ad_error_code AmZeroAmount = 2"
| "ad_error_code AmAdNotFound = 3"
| "ad_error_code AmNotMaker = 4"
| "ad_error_code AmAdClosed = 5"
| "ad_error_code AmInsufficientLiquidity = 6"
| "ad_error_code AmBridgerZero = 7"
| "ad_error_code AmRecipientZero = 8"
| "ad_error_code AmActiveLocks = 9"
| "ad_error_code AmChainNotSupported = 10"
| "ad_error_code AmOrderPortalMismatch = 11"
| "ad_error_code AmOrderChainMismatch = 12"
| "ad_error_code AmMissingRoute = 13"
| "ad_error_code AmOrderTokenMismatch = 14"
| "ad_error_code AmAdTokenMismatch = 15"
| "ad_error_code AmAdRecipientMismatch = 16"
| "ad_error_code AmOrderExists = 17"
| "ad_error_code AmOrderNotOpen = 18"
| "ad_error_code AmNullifierUsed = 19"
| "ad_error_code AmZeroAddress = 21"
| "ad_error_code AmUsedAdId = 29"
| "ad_error_code AmAlreadyInitialized = 30"
| "ad_error_code AmNotInitialized = 31"
| "ad_error_code AmOrderDecimalsMismatch = 37"
| "ad_error_code AmAdDecimalsMismatch = 38"
| "ad_error_code AmRootNotValid = 39"
| "ad_error_code AmRootVerifierNotSet = 45"
| "ad_error_code AmRouteMismatch = 44"
| "ad_error_code AmOrderExpired = 46"
| "ad_error_code AmNoKeyRegistry = 47"
| "ad_error_code AmSettlementSignerZero = 48"
| "ad_error_code AmSignerNotRegistered = 49"
| "ad_error_code AmSettlementSignerMismatch = 50"
| "ad_error_code AmNotAParty = 64"
| "ad_error_code AmHalted = 66"
| "ad_error_code AmNotHalted = 67"
| "ad_error_code AmAnchorDelayUnreadable = 68"
| "ad_error_code AmRegistrySplit = 70"
| "ad_error_code AmSignerNotApproved = 86"
| "ad_error_code AmSlotNotUsable = 88"
| "ad_error_code AmNoRepin = 89"
| "ad_error_code AmInvalidFee = 90"
| "ad_error_code AmFeeMismatch = 96"
| "ad_error_code AmRecipientIsMaker = 99"

text \<open>The question mark on a shared check: \<open>From<Fault>\<close>.\<close>

definition fl :: "(fault, 'v) res \<Rightarrow> (ad_error, 'v) res" where
  "fl m = map_err AmFault m"

lemma fl_Ok [res_simps]: "fl m = Inr v \<longleftrightarrow> m = Inr v"
  by (simp add: fl_def res_simps)

section \<open>Data\<close>

record fee_config =
  pool :: "bytes32 option"
  lp_bps :: u32
  protocol_bps :: u32

definition no_fees :: fee_config where
  "no_fees = \<lparr>pool = None, lp_bps = 0, protocol_bps = 0\<rparr>"

record ad =
  ad_order_chain_id :: u128
  ad_recipient :: bytes32
  ad_maker :: address
  ad_token :: bytes32
  ad_balance :: u128
  ad_locked :: u128
  ad_open :: bool
  ad_order_chain_token :: bytes32
  ad_settlement_signer :: bytes32

record order_params =
  p_order_chain_token :: bytes32
  p_ad_chain_token :: bytes32
  p_amount :: u128
  p_bridger :: bytes32
  p_order_chain_id :: u128
  p_src_order_portal :: bytes32
  p_order_recipient :: bytes32
  p_ad_id :: string
  p_ad_creator :: bytes32
  p_ad_recipient :: bytes32
  p_salt :: bytes32
  p_order_decimals :: u32
  p_ad_decimals :: u32
  p_deadline :: u64
  p_ad_settlement_signer :: bytes32
  p_lp_fee_bps :: u32
  p_protocol_fee_bps :: u32

record halt =
  halted :: bool
  last_resumed_at :: u64

record ad_store = escrow_store +
  am_chains :: "u128 \<rightharpoonup> bytes32"
  am_ads :: "string \<rightharpoonup> ad"
  am_key_registry :: "address option"
  am_registry_epoch :: "u32 option"
  am_registry_at :: "u32 \<rightharpoonup> address"
  am_halts :: "address \<rightharpoonup> halt"
  am_fees :: "fee_config option"

section \<open>Storage\<close>

definition get_fees :: "ad_store \<Rightarrow> fee_config" where
  "get_fees s = or_default (am_fees s) no_fees"

definition set_fees :: "fee_config \<Rightarrow> ad_store \<Rightarrow> ad_store" where
  "set_fees f s = s\<lparr>am_fees := Some f\<rparr>"

definition get_config :: "ad_store \<Rightarrow> (ad_error, contract_config) res" where
  "get_config s = ok_or (st_config s) AmNotInitialized"

definition get_chain :: "ad_store \<Rightarrow> u128 \<Rightarrow> bytes32 option" where
  "get_chain s c = am_chains s c"

definition get_ad :: "ad_store \<Rightarrow> string \<Rightarrow> ad option" where
  "get_ad s i = am_ads s i"

definition set_ad :: "string \<Rightarrow> ad \<Rightarrow> ad_store \<Rightarrow> ad_store" where
  "set_ad i a s = s\<lparr>am_ads := (am_ads s)(i \<mapsto> a)\<rparr>"

definition get_registry_epoch :: "ad_store \<Rightarrow> u32" where
  "get_registry_epoch s = or_default (am_registry_epoch s) 0"

definition get_registry_at :: "ad_store \<Rightarrow> u32 \<Rightarrow> address option" where
  "get_registry_at s e = am_registry_at s e"

definition store_key_registry :: "address \<Rightarrow> ad_store \<Rightarrow> (ad_error, ad_store) res" where
  "store_key_registry reg s =
     attempt (cadd (get_registry_epoch s) 1) (\<lambda>epoch.
     Ok (s\<lparr>am_key_registry := Some reg, am_registry_epoch := Some epoch,
           am_registry_at := (am_registry_at s)(epoch \<mapsto> reg)\<rparr>))"

definition get_halt :: "ad_store \<Rightarrow> address \<Rightarrow> halt option" where
  "get_halt s m = am_halts s m"

definition set_halt :: "address \<Rightarrow> halt \<Rightarrow> ad_store \<Rightarrow> ad_store" where
  "set_halt m h s = s\<lparr>am_halts := (am_halts s)(m \<mapsto> h)\<rparr>"

section \<open>Properties\<close>

lemma get_config_Ok [res_simps]: "get_config s = Inr c \<longleftrightarrow> st_config s = Some c"
  by (simp add: get_config_def res_simps)

text \<open>A store write on the shared part leaves the ads alone, and the other way round.\<close>

lemma ads_of_shared_writes [store_simps]:
  "am_ads (set_order h r s) = am_ads s"
  "am_ads (set_order_status h st s) = am_ads s"
  "am_ads (open_order E h tv ep d sl s) = am_ads s"
  "am_ads (remove_claim h s) = am_ads s"
  "am_ads (set_claim h c s) = am_ads s"
  "am_ads (set_in_flight a n s) = am_ads s"
  "am_ads (set_claimable rc t u s) = am_ads s"
  "am_ads (set_nullifier_used nu s) = am_ads s"
  "am_ads (set_order_dispute_manager h m s) = am_ads s"
  "am_ads (set_settled_recorded h s) = am_ads s"
  by (simp_all add: set_order_def set_order_status_def open_order_def remove_claim_def
      set_claim_def set_in_flight_def set_claimable_def set_nullifier_used_def
      set_order_dispute_manager_def set_settled_recorded_def)

lemma shared_of_set_ad [store_simps]:
  "get_order (set_ad i a s) h = get_order s h"
  "st_orders (set_ad i a s) = st_orders s"
  "st_in_flight (set_ad i a s) = st_in_flight s"
  "st_claimables (set_ad i a s) = st_claimables s"
  "st_nullifiers (set_ad i a s) = st_nullifiers s"
  "st_claims (set_ad i a s) = st_claims s"
  "st_config (set_ad i a s) = st_config s"
  "st_order_dispute (set_ad i a s) = st_order_dispute s"
  "st_timings (set_ad i a s) = st_timings s"
  "am_fees (set_ad i a s) = am_fees s"
  "am_ads (set_ad i a s) = (am_ads s)(i \<mapsto> a)"
  by (simp_all add: set_ad_def get_order_def)

end
