(* ===== verification/Decimal_Scaling.thy ===== *)
theory Decimal_Scaling
  imports Core_Types
begin

text \<open>
  Rescaling a signed amount between the decimals of the two chains' tokens
  (\<open>lib/proofbridge-core/src/decimal_scaling.rs\<close>).
\<close>

datatype decimal_scaling_error = DsOutOfRange | DsNonExactDownscale | DsOverflow

definition MAX_DECIMALS :: u32 where
  "MAX_DECIMALS = 30"

definition assert_in_range :: "u32 \<Rightarrow> (decimal_scaling_error, unit) res" where
  "assert_in_range decimals = (if decimals > MAX_DECIMALS then Fail DsOutOfRange else Ok ())"

text \<open>\<open>10u128.checked_pow(n)\<close>.\<close>

definition checked_pow10 :: "u32 \<Rightarrow> u128 option" where
  "checked_pow10 n = (if (10::nat) ^ unat n < 2 ^ 128 then Some (of_nat (10 ^ unat n)) else None)"

definition scale :: "u128 \<Rightarrow> u32 \<Rightarrow> u32 \<Rightarrow> (decimal_scaling_error, u128) res" where
  "scale amount from_dec to_dec =
     attempt (assert_in_range from_dec) (\<lambda>_.
     attempt (assert_in_range to_dec) (\<lambda>_.
     if from_dec = to_dec then Ok amount
     else if to_dec > from_dec then
       attempt (ok_or (checked_pow10 (to_dec - from_dec)) DsOverflow) (\<lambda>factor.
       ok_or (checked_mul amount factor) DsOverflow)
     else
       attempt (ok_or (checked_pow10 (from_dec - to_dec)) DsOverflow) (\<lambda>factor.
       if amount mod factor \<noteq> 0 then Fail DsNonExactDownscale
       else Ok (amount div factor))))"

text \<open>\<open>From<DecimalScalingError> for Fault\<close>.\<close>

fun fault_of_scaling :: "decimal_scaling_error \<Rightarrow> fault" where
  "fault_of_scaling DsOutOfRange = DecimalsOutOfRange"
| "fault_of_scaling DsNonExactDownscale = NonExactDownscale"
| "fault_of_scaling DsOverflow = DecimalOverflow"

section \<open>Properties\<close>

lemma assert_in_range_Ok [res_simps]: "assert_in_range d = Inr u \<longleftrightarrow> unat d \<le> 30"
  by (auto simp: assert_in_range_def MAX_DECIMALS_def word_less_nat_alt not_less)

lemma pow10_fits: "n \<le> 30 \<Longrightarrow> (10::nat) ^ n < 2 ^ 128"
proof -
  assume "n \<le> 30"
  then have "(10::nat) ^ n \<le> 10 ^ 30" by (intro power_increasing) auto
  also have "\<dots> < (2::nat) ^ 128" by simp
  finally show ?thesis .
qed

lemma checked_pow10_small: "unat n \<le> 30 \<Longrightarrow> checked_pow10 n = Some (of_nat (10 ^ unat n))"
  using pow10_fits by (simp add: checked_pow10_def)

lemma unat_pow10: "n \<le> 30 \<Longrightarrow> unat (of_nat (10 ^ n) :: u128) = 10 ^ n"
  using pow10_fits [of n] by (simp add: unat_of_nat del: of_nat_power of_nat_numeral)

text \<open>What \<open>scale\<close> computes, on every branch that returns.\<close>

lemma scale_same [simp]: "unat d \<le> 30 \<Longrightarrow> scale a d d = Inr a"
  by (simp add: scale_def assert_in_range_def MAX_DECIMALS_def word_less_nat_alt)

lemma scale_up:
  assumes "unat f < unat t" "unat t \<le> 30"
  shows "scale a f t = Inr r \<longleftrightarrow> unat r = unat a * 10 ^ (unat t - unat f)"
proof -
  have d: "unat (t - f) = unat t - unat f" using assms by (simp add: unat_sub word_le_nat_alt)
  have p: "checked_pow10 (t - f) = Some (of_nat (10 ^ (unat t - unat f)))"
    using checked_pow10_small [of "t - f"] assms by (simp add: d)
  have "f \<noteq> t" "t > f" using assms by (auto simp: word_less_nat_alt)
  then show ?thesis
    using assms p unat_pow10 [of "unat t - unat f"]
    by (simp add: scale_def attempt_def assert_in_range_def MAX_DECIMALS_def word_less_nat_alt
        ok_or_Ok checked_mul_Some)
qed

lemma scale_down:
  assumes "unat t < unat f" "unat f \<le> 30"
  shows "scale a f t = Inr r \<longleftrightarrow> unat a = unat r * 10 ^ (unat f - unat t)"
proof -
  let ?k = "(10::nat) ^ (unat f - unat t)"
  have d: "unat (f - t) = unat f - unat t" using assms by (simp add: unat_sub word_le_nat_alt)
  have p: "checked_pow10 (f - t) = Some (of_nat ?k)"
    using checked_pow10_small [of "f - t"] assms by (simp add: d)
  have k: "unat (of_nat ?k :: u128) = ?k" using unat_pow10 [of "unat f - unat t"] assms by simp
  have ne: "f \<noteq> t" "\<not> t > f" using assms by (auto simp: word_less_nat_alt)
  have "scale a f t = (if a mod of_nat ?k \<noteq> 0 then Fail DsNonExactDownscale else Ok (a div of_nat ?k))"
    using assms p ne by (simp add: scale_def assert_in_range_def MAX_DECIMALS_def word_less_nat_alt)
  moreover have "a mod of_nat ?k = 0 \<longleftrightarrow> unat a mod ?k = 0"
    by (simp only: word_unat_eq_iff unat_mod_distrib k unat_0)
  moreover have "unat (a div of_nat ?k) = unat a div ?k"
    by (simp only: unat_div_distrib k)
  ultimately show ?thesis
    by (auto simp: word_unat_eq_iff)
qed

lemma scale_in_range: "scale a f t = Inr r \<Longrightarrow> unat f \<le> 30 \<and> unat t \<le> 30"
  by (auto simp: scale_def res_simps)

text \<open>
  One equation for all three branches: the two amounts agree once both are brought to the
  larger number of decimals.
\<close>

lemma scale_value:
  assumes "scale a f t = Inr r"
  shows "unat r * 10 ^ (unat f - unat t) = unat a * 10 ^ (unat t - unat f)"
proof -
  have rng: "unat f \<le> 30" "unat t \<le> 30" using scale_in_range [OF assms] by auto
  consider "unat f < unat t" | "f = t" | "unat t < unat f"
    by (metis linorder_neqE_nat word_unat_eq_iff)
  then show ?thesis
  proof cases
    case 1
    then show ?thesis using assms scale_up [of f t a r] rng by simp
  next
    case 2
    then show ?thesis using assms rng by simp
  next
    case 3
    then show ?thesis using assms scale_down [of t f a r] rng by simp
  qed
qed

lemma scale_back:
  assumes "scale a f t = Inr r"
  shows "scale r t f = Inr a"
proof -
  have rng: "unat f \<le> 30" "unat t \<le> 30" using scale_in_range [OF assms] by auto
  consider "unat f < unat t" | "f = t" | "unat t < unat f"
    by (metis linorder_neqE_nat word_unat_eq_iff)
  then show ?thesis
  proof cases
    case 1
    then show ?thesis using assms scale_up [of f t a r] scale_down [of f t r a] rng by simp
  next
    case 2
    then show ?thesis using assms rng by simp
  next
    case 3
    then show ?thesis using assms scale_down [of t f a r] scale_up [of t f r a] rng by simp
  qed
qed

lemma scale_zero: "scale a f t = Inr 0 \<Longrightarrow> a = 0"
  using scale_value [of a f t 0] by (simp add: word_unat_eq_iff)

end
