(* ===== verification/Ad_Checks.thy ===== *)
theory Ad_Checks
  imports Ad_Types Decimal_Scaling
begin

text \<open>
  The ad-manager's internal helpers and checks: the order hash (\<open>contracts/ad-manager/src/eip712.rs\<close>),
  the denial rule and the clocks built on it (\<open>lib.rs\<close>, internal helpers), and the validation of an
  order and of a settlement signer (\<open>validation.rs\<close>).
\<close>

section \<open>Order hash, amounts and clocks\<close>

definition order_of :: "crypto \<Rightarrow> order_params \<Rightarrow> u128 \<Rightarrow> bytes32 \<Rightarrow> ('e, eip_order) res" where
  "order_of C p ad_chain_id' ad_manager =
     attempt (abi_encode_string C (p_ad_id p)) (\<lambda>ad_id_hash.
     Ok \<lparr>eo_order_chain_token = p_order_chain_token p,
         eo_ad_chain_token = p_ad_chain_token p,
         eo_amount = p_amount p,
         eo_bridger = p_bridger p,
         eo_order_chain_id = p_order_chain_id p,
         eo_order_portal = p_src_order_portal p,
         eo_order_recipient = p_order_recipient p,
         eo_ad_chain_id = ad_chain_id',
         eo_ad_manager = ad_manager,
         eo_ad_id_hash = ad_id_hash,
         eo_ad_creator = p_ad_creator p,
         eo_ad_recipient = p_ad_recipient p,
         eo_salt = p_salt p,
         eo_order_decimals = p_order_decimals p,
         eo_ad_decimals = p_ad_decimals p,
         eo_deadline = p_deadline p,
         eo_ad_settlement_signer = p_ad_settlement_signer p,
         eo_lp_fee_bps = p_lp_fee_bps p,
         eo_protocol_fee_bps = p_protocol_fee_bps p\<rparr>)"

definition order_hash :: "env \<Rightarrow> contract_config \<Rightarrow> order_params \<Rightarrow> ('e, bytes32) res" where
  "order_hash E cfg p =
     attempt (order_of (prims E) p (chain_id cfg) (address_to_bytes32 (self E))) (\<lambda>o'.
     Ok (typed_order_hash (prims E) o'))"

definition ad_amount :: "order_params \<Rightarrow> (ad_error, u128) res" where
  "ad_amount p =
     fl (map_err fault_of_scaling (scale (p_amount p) (p_order_decimals p) (p_ad_decimals p)))"

definition presentation_cutoff :: "ad_store \<Rightarrow> bytes32 \<Rightarrow> order_params \<Rightarrow> route_timing \<Rightarrow> u64" where
  "presentation_cutoff s h p t =
     saturating_sub (window_end s h (p_deadline p) (buffer t)) (margin t)"

definition is_halted :: "ad_store \<Rightarrow> address \<Rightarrow> bool" where
  "is_halted s maker = (case get_halt s maker of None \<Rightarrow> False | Some h \<Rightarrow> halted h)"

definition registry_split :: "'w ext \<Rightarrow> u128 \<Rightarrow> address option \<Rightarrow> ad_store \<times> 'w \<Rightarrow> bool" where
  "registry_split X c expected = (\<lambda>(s, w).
     case st_root_verifiers s c of
       None \<Rightarrow> False
     | Some vf \<Rightarrow>
         (case verifier_registry X vf w of
            Some theirs \<Rightarrow> expected \<noteq> Some theirs
          | None \<Rightarrow> False))"

definition co_sign_denied ::
  "'w ext \<Rightarrow> address \<Rightarrow> order_params \<Rightarrow> bytes32 \<Rightarrow> u64 \<Rightarrow> ad_store \<times> 'w \<Rightarrow> (fault, bool) res" where
  "co_sign_denied X maker p h until = (\<lambda>(s, w).
     let order = get_order s h in
     if repinned order then Ok True
     else if (case get_halt s maker of None \<Rightarrow> False
              | Some ha \<Rightarrow> halted ha \<or> last_resumed_at ha \<ge> locked_at order) then Ok True
     else if st_root_verifiers s (p_order_chain_id p) = None \<or>
             get_root_verifier_changed_at s (p_order_chain_id p) > locked_at order then Ok True
     else case get_registry_at s (registry_epoch order) of
       None \<Rightarrow> Ok False
     | Some registry \<Rightarrow>
         if registry_split X (p_order_chain_id p) (Some registry) (s, w) then Ok True
         else attempt (expired_at X registry (p_ad_settlement_signer p) (pinned_slot order) w) (\<lambda>e.
           Ok (e \<noteq> 0 \<and> e \<le> until)))"

definition anchor_delay_now :: "'w ext \<Rightarrow> u128 \<Rightarrow> ad_store \<times> 'w \<Rightarrow> (ad_error, u64) res" where
  "anchor_delay_now X c = (\<lambda>(s, w).
     case st_root_anchor s of
       None \<Rightarrow> Ok 0
     | Some a \<Rightarrow> ok_or (anchor_delay_of X a c w) AmAnchorDelayUnreadable)"

definition evidence_grace ::
  "'w ext \<Rightarrow> bytes32 \<Rightarrow> u128 \<Rightarrow> u64 \<Rightarrow> ad_store \<times> 'w \<Rightarrow> (ad_error, u64) res" where
  "evidence_grace X h c buf = (\<lambda>(s, w).
     let snapshot = (ucast (anchor_delay (get_order s h)) :: u64) in
     attempt (anchor_delay_now X c (s, w)) (\<lambda>d.
     Ok (saturating_add (max d snapshot) buf)))"

definition cancel_end ::
  "'w ext \<Rightarrow> address \<Rightarrow> order_params \<Rightarrow> bytes32 \<Rightarrow> route_timing \<Rightarrow> ad_store \<times> 'w \<Rightarrow>
   (ad_error, u64) res" where
  "cancel_end X maker p h t = (\<lambda>(s, w).
     let end' = window_end s h (p_deadline p) (buffer t);
         cutoff = presentation_cutoff s h p t in
     attempt (fl (co_sign_denied X maker p h cutoff (s, w))) (\<lambda>denied.
     if \<not> denied then Ok end'
     else attempt (evidence_grace X h (p_order_chain_id p) (buffer t) (s, w)) (\<lambda>grace.
       Ok (saturating_add end' grace))))"

definition dispute_end ::
  "'w ext \<Rightarrow> address \<Rightarrow> order_params \<Rightarrow> bytes32 \<Rightarrow> dispute_outcome \<Rightarrow> ad_store \<times> 'w \<Rightarrow>
   (ad_error, u64) res" where
  "dispute_end X maker p h outcome = (\<lambda>(s, w).
     attempt (fl (dispute_challenge_deadline X h (s, w))) (\<lambda>until.
     attempt (if outcome = MakerForfeit then Ok False
              else fl (co_sign_denied X maker p h until (s, w))) (\<lambda>denied.
     if outcome = MakerForfeit \<or> \<not> denied then Ok until
     else attempt (fl (order_timing s h (p_order_chain_id p))) (\<lambda>t.
       attempt (evidence_grace X h (p_order_chain_id p) (buffer t) (s, w)) (\<lambda>grace.
       Ok (saturating_add until grace))))))"

definition assert_ad_decimals ::
  "'w ext \<Rightarrow> order_params \<Rightarrow> address \<Rightarrow> 'w \<Rightarrow> (ad_error, unit) res" where
  "assert_ad_decimals X p w_native w =
     attempt (fl (token_decimals X (p_ad_chain_token p) w_native w)) (\<lambda>on_chain.
     if on_chain \<noteq> p_ad_decimals p then Fail AmAdDecimalsMismatch else Ok ())"

definition require_party :: "address \<Rightarrow> address \<Rightarrow> bytes32 \<Rightarrow> (ad_error, unit) res" where
  "require_party filer maker bridger_side =
     (if filer = maker then Ok ()
      else attempt (fl (bytes32_to_account_address bridger_side)) (\<lambda>bridger.
        if filer = bridger then Ok () else Fail AmNotAParty))"

definition require_settleable :: "ad_store \<Rightarrow> bytes32 \<Rightarrow> (ad_error, unit) res" where
  "require_settleable s h =
     (case get_order_status s h of
        Open \<Rightarrow> Ok () | Claimed \<Rightarrow> Ok () | Disputed \<Rightarrow> Ok () | _ \<Rightarrow> Fail AmOrderNotOpen)"

section \<open>Validation\<close>

definition validate_order :: "ad_store \<Rightarrow> ad \<Rightarrow> order_params \<Rightarrow> (ad_error, unit) res" where
  "validate_order s a p =
     attempt (ensure (ad_open a) AmAdClosed) (\<lambda>_.
     attempt (ensure (p_amount p \<noteq> 0) AmZeroAmount) (\<lambda>_.
     attempt (fl (map_err fault_of_scaling (assert_in_range (p_order_decimals p)))) (\<lambda>_.
     attempt (fl (map_err fault_of_scaling (assert_in_range (p_ad_decimals p)))) (\<lambda>_.
     attempt (ensure (\<not> is_zero_bytes32 (p_bridger p)) AmBridgerZero) (\<lambda>_.
     attempt (ensure (\<not> is_zero_bytes32 (p_order_recipient p)) AmRecipientZero) (\<lambda>_.
     attempt (fl (bytes32_to_account_address (p_order_recipient p))) (\<lambda>_.
     attempt (ensure (\<not> (p_order_recipient p = p_ad_creator p \<or>
                         p_order_recipient p = p_ad_settlement_signer p)) AmRecipientIsMaker) (\<lambda>_.
     attempt (ok_or (get_chain s (p_order_chain_id p)) AmChainNotSupported) (\<lambda>order_portal.
     attempt (ensure (order_portal = p_src_order_portal p) AmOrderPortalMismatch) (\<lambda>_.
     attempt (ensure (p_order_chain_id p = ad_order_chain_id a) AmOrderChainMismatch) (\<lambda>_.
     attempt (ensure (p_order_chain_token p = ad_order_chain_token a) AmRouteMismatch) (\<lambda>_.
     attempt (ok_or (get_token_route s (p_ad_chain_token p) (p_order_chain_id p)) AmMissingRoute)
       (\<lambda>routed.
     attempt (ensure (routed = p_order_chain_token p) AmOrderTokenMismatch) (\<lambda>_.
     attempt (ensure (p_ad_chain_token p = ad_token a) AmAdTokenMismatch) (\<lambda>_.
     attempt (ensure (p_ad_recipient p = ad_recipient a) AmAdRecipientMismatch) (\<lambda>_.
     attempt (ensure (p_ad_creator p = address_to_bytes32 (ad_maker a)) AmNotMaker) (\<lambda>_.
     ensure (p_ad_settlement_signer p = ad_settlement_signer a) AmSettlementSignerMismatch
     )))))))))))))))))"

definition require_registered ::
  "'w ext \<Rightarrow> env \<Rightarrow> bytes32 \<Rightarrow> address \<Rightarrow> ad_store \<times> 'w \<Rightarrow> (ad_error, unit) res" where
  "require_registered X E signer maker = (\<lambda>(s, w).
     attempt (ok_or (am_key_registry s) AmNoKeyRegistry) (\<lambda>registry.
     attempt (ensure (\<not> is_zero_bytes32 signer) AmSettlementSignerZero) (\<lambda>_.
     attempt (has_usable_slot X E registry signer w) (\<lambda>usable.
     attempt (ensure usable AmSignerNotRegistered) (\<lambda>_.
     let m = address_to_bytes32 maker in
     ensure (signer = m \<or> is_approved_maker X E registry signer m w) AmSignerNotApproved)))))"

end
