(* ===== verification/Ad_Admin.thy ===== *)
theory Ad_Admin
  imports Ad_Checks
begin

text \<open>
  The ad-manager's admin entry points and the makers' ads (\<open>contracts/ad-manager/src/lib.rs\<close>, from
  \<open>initialize\<close> to \<open>close_ad\<close>), in the order the source has them. An entry point takes the interface
  to the other contracts and the environment, and returns the new store and outside state, or the
  error that rolled the call back. Events are not modelled.
\<close>

section \<open>Initialization, pause, handover, timelock\<close>

definition ad_initialize ::
  "env \<Rightarrow> address \<Rightarrow> address \<Rightarrow> address \<Rightarrow> address \<Rightarrow> u128 \<Rightarrow> ad_store \<Rightarrow> (ad_error, ad_store) res" where
  "ad_initialize E adm vf mm wn cid s =
     (if st_initialized s then Fail AmAlreadyInitialized
      else attempt (require_auth E adm) (\<lambda>_.
        Ok (s\<lparr>st_config := Some \<lparr>admin = adm, verifier = vf, merkle_manager = mm,
                w_native_token = wn, chain_id = cid\<rparr>,
              st_initialized := True\<rparr>)))"

text \<open>The opening of every admin entry point: the config, and the admin's authorization.\<close>

definition as_admin ::
  "env \<Rightarrow> ad_store \<Rightarrow> (contract_config \<Rightarrow> (ad_error, 'r) res) \<Rightarrow> (ad_error, 'r) res" where
  "as_admin E s k =
     attempt (get_config s) (\<lambda>cfg. attempt (require_auth E (admin cfg)) (\<lambda>_. k cfg))"

definition ad_pause :: "env \<Rightarrow> ad_store \<Rightarrow> (ad_error, ad_store) res" where
  "ad_pause E s = as_admin E s (\<lambda>_. Ok (pause s))"

definition ad_unpause :: "env \<Rightarrow> ad_store \<Rightarrow> (ad_error, ad_store) res" where
  "ad_unpause E s = as_admin E s (\<lambda>_. Ok (unpause s))"

definition ad_transfer_admin :: "env \<Rightarrow> address \<Rightarrow> ad_store \<Rightarrow> (ad_error, ad_store) res" where
  "ad_transfer_admin E to s = as_admin E s (\<lambda>_. Ok (transfer_admin to s))"

definition ad_accept_admin :: "env \<Rightarrow> ad_store \<Rightarrow> (ad_error, ad_store) res" where
  "ad_accept_admin E s =
     attempt (fl (pending_admin s)) (\<lambda>pending.
     attempt (require_auth E pending) (\<lambda>_.
     attempt (get_config s) (\<lambda>cfg. fl (accept_admin cfg pending s))))"

definition ad_activate_timelock :: "env \<Rightarrow> ad_store \<Rightarrow> (ad_error, ad_store) res" where
  "ad_activate_timelock E s = as_admin E s (\<lambda>_. fl (with_timelock activate s))"

definition ad_propose_action ::
  "env \<Rightarrow> string \<Rightarrow> bytes \<Rightarrow> ad_store \<Rightarrow> (ad_error, bytes32 \<times> ad_store) res" where
  "ad_propose_action E fn_name args s =
     as_admin E s (\<lambda>_. attempt (fl (propose E fn_name args (st_timelock s))) (\<lambda>(ident, tlk).
       Ok (ident, s\<lparr>st_timelock := tlk\<rparr>)))"

definition ad_cancel_action :: "env \<Rightarrow> bytes32 \<Rightarrow> ad_store \<Rightarrow> (ad_error, ad_store) res" where
  "ad_cancel_action E ident s = as_admin E s (\<lambda>_. fl (with_timelock (cancel_proposal ident) s))"

section \<open>Timelocked setters\<close>

text \<open>The opening of a timelocked setter: the config, then the gate under the setter's name.\<close>

definition gated ::
  "env \<Rightarrow> string \<Rightarrow> val list \<Rightarrow> ad_store \<Rightarrow> (ad_store \<Rightarrow> (ad_error, 'r) res) \<Rightarrow> (ad_error, 'r) res" where
  "gated E fn_name args s k =
     attempt (get_config s) (\<lambda>cfg.
     attempt (fl (with_timelock (gate E (admin cfg) fn_name args) s)) k)"

definition set_protocol_fee_pool :: "env \<Rightarrow> bytes32 \<Rightarrow> ad_store \<Rightarrow> (ad_error, ad_store) res" where
  "set_protocol_fee_pool E pl s =
     gated E ''set_protocol_fee_pool'' [VBytes32 pl] s (\<lambda>s.
     if is_zero_bytes32 pl then Fail AmZeroAddress
     else Ok (set_fees ((get_fees s)\<lparr>pool := Some pl\<rparr>) s))"

definition set_fee_bps :: "env \<Rightarrow> u32 \<Rightarrow> u32 \<Rightarrow> ad_store \<Rightarrow> (ad_error, ad_store) res" where
  "set_fee_bps E lp pr s =
     gated E ''set_fee_bps'' [VU32 lp, VU32 pr] s (\<lambda>s.
     let fees = get_fees s in
     if \<not> fees_valid lp pr (pool fees \<noteq> None) then Fail AmInvalidFee
     else Ok (set_fees (fees\<lparr>lp_bps := lp, protocol_bps := pr\<rparr>) s))"

definition ad_set_chain :: "env \<Rightarrow> u128 \<Rightarrow> bytes32 \<Rightarrow> ad_store \<Rightarrow> (ad_error, ad_store) res" where
  "ad_set_chain E c order_portal s =
     gated E ''set_chain'' [VU128 c, VBytes32 order_portal] s (\<lambda>s.
     if is_zero_bytes32 order_portal then Fail AmZeroAddress
     else Ok (s\<lparr>am_chains := (am_chains s)(c \<mapsto> order_portal)\<rparr>))"

definition ad_set_root_verifier :: "env \<Rightarrow> u128 \<Rightarrow> address \<Rightarrow> ad_store \<Rightarrow> (ad_error, ad_store) res" where
  "ad_set_root_verifier E c m s =
     attempt (get_config s) (\<lambda>cfg. fl (set_root_verifier_gated E (admin cfg) c m s))"

definition ad_unset_root_verifier :: "env \<Rightarrow> u128 \<Rightarrow> ad_store \<Rightarrow> (ad_error, ad_store) res" where
  "ad_unset_root_verifier E c s =
     attempt (get_config s) (\<lambda>cfg. fl (unset_root_verifier E (admin cfg) c s))"

definition ad_set_key_registry :: "env \<Rightarrow> address \<Rightarrow> ad_store \<Rightarrow> (ad_error, ad_store) res" where
  "ad_set_key_registry E reg s =
     gated E ''set_key_registry'' [VAddr reg] s (\<lambda>s. store_key_registry reg s)"

definition timing_val :: "route_timing \<Rightarrow> val" where
  "timing_val t =
     VVec [VU64 (buffer t), VU64 (claim_stagger t), VU64 (margin t), VU64 (min_window t)]"

definition ad_set_route_timing ::
  "env \<Rightarrow> u128 \<Rightarrow> route_timing \<Rightarrow> ad_store \<Rightarrow> (ad_error, ad_store) res" where
  "ad_set_route_timing E c t s =
     gated E ''set_route_timing'' [VU128 c, timing_val t] s (\<lambda>s. fl (set_route_timing c t s))"

definition ad_set_dispute_manager :: "env \<Rightarrow> address \<Rightarrow> ad_store \<Rightarrow> (ad_error, ad_store) res" where
  "ad_set_dispute_manager E m s =
     gated E ''set_dispute_manager'' [VAddr m] s (\<lambda>s. Ok (s\<lparr>st_dispute_manager := Some m\<rparr>))"

definition ad_set_root_anchor :: "env \<Rightarrow> address \<Rightarrow> ad_store \<Rightarrow> (ad_error, ad_store) res" where
  "ad_set_root_anchor E a s =
     gated E ''set_root_anchor'' [VAddr a] s (\<lambda>s. Ok (set_root_anchor a s))"

definition ad_remove_chain :: "env \<Rightarrow> u128 \<Rightarrow> ad_store \<Rightarrow> (ad_error, ad_store) res" where
  "ad_remove_chain E c s =
     gated E ''remove_chain'' [VU128 c] s (\<lambda>s. Ok (s\<lparr>am_chains := (am_chains s)(c := None)\<rparr>))"

definition ad_set_token_route ::
  "env \<Rightarrow> bytes32 \<Rightarrow> bytes32 \<Rightarrow> u128 \<Rightarrow> ad_store \<Rightarrow> (ad_error, ad_store) res" where
  "ad_set_token_route E ad_tok order_tok c s =
     gated E ''set_token_route'' [VBytes32 ad_tok, VBytes32 order_tok, VU128 c] s (\<lambda>s.
     if is_zero_bytes32 ad_tok \<or> is_zero_bytes32 order_tok then Fail (AmFault TokenZeroAddress)
     else attempt (ok_or (get_chain s c) AmChainNotSupported) (\<lambda>_.
       Ok (store_token_route ad_tok c order_tok s)))"

definition ad_remove_token_route ::
  "env \<Rightarrow> bytes32 \<Rightarrow> u128 \<Rightarrow> ad_store \<Rightarrow> (ad_error, ad_store) res" where
  "ad_remove_token_route E ad_tok c s =
     gated E ''remove_token_route'' [VBytes32 ad_tok, VU128 c] s (\<lambda>s.
     Ok (erase_token_route ad_tok c s))"

section \<open>Makers: ads and the settlement halt\<close>

definition create_ad ::
  "'w ext \<Rightarrow> env \<Rightarrow> address \<Rightarrow> string \<Rightarrow> bytes32 \<Rightarrow> u128 \<Rightarrow> u128 \<Rightarrow> bytes32 \<Rightarrow> bytes32 \<Rightarrow>
   ad_store \<times> 'w \<Rightarrow> (ad_error, ad_store \<times> 'w) res" where
  "create_ad X E creator i tok initial_amount c recipient signer = (\<lambda>(s, w).
     if st_paused s then Fail (AmFault ContractPaused)
     else attempt (get_config s) (\<lambda>cfg.
     attempt (ensure (\<not> is_zero_bytes32 tok) (AmFault TokenZeroAddress)) (\<lambda>_.
     attempt (ensure (\<not> is_zero_bytes32 recipient) AmRecipientZero) (\<lambda>_.
     attempt (ensure (initial_amount \<noteq> 0) AmZeroAmount) (\<lambda>_.
     attempt (ok_or (get_token_route s tok c) AmChainNotSupported) (\<lambda>routed_order_token.
     attempt (ensure (get_ad s i = None) AmUsedAdId) (\<lambda>_.
     attempt (require_auth E creator) (\<lambda>_.
     attempt (require_registered X E signer creator (s, w)) (\<lambda>_.
     attempt (fl (transfer_from_user X E tok (w_native_token cfg) creator initial_amount w)) (\<lambda>w'.
     Ok (set_ad i \<lparr>ad_order_chain_id = c, ad_recipient = recipient, ad_maker = creator,
           ad_token = tok, ad_balance = initial_amount, ad_locked = 0, ad_open = True,
           ad_order_chain_token = routed_order_token, ad_settlement_signer = signer\<rparr> s, w')))))))))))"

definition halt_settlement :: "env \<Rightarrow> address \<Rightarrow> ad_store \<Rightarrow> (ad_error, ad_store) res" where
  "halt_settlement E maker s =
     attempt (require_auth E maker) (\<lambda>_.
     let resumed = (case get_halt s maker of None \<Rightarrow> 0 | Some h \<Rightarrow> last_resumed_at h) in
     Ok (set_halt maker \<lparr>halted = True, last_resumed_at = resumed\<rparr> s))"

definition resume_settlement :: "env \<Rightarrow> address \<Rightarrow> ad_store \<Rightarrow> (ad_error, ad_store) res" where
  "resume_settlement E maker s =
     attempt (require_auth E maker) (\<lambda>_.
     attempt (ok_or (get_halt s maker) AmNotHalted) (\<lambda>h.
     if \<not> halted h then Fail AmNotHalted
     else Ok (set_halt maker \<lparr>halted = False, last_resumed_at = now E\<rparr> s)))"

definition set_settlement_signer ::
  "'w ext \<Rightarrow> env \<Rightarrow> string \<Rightarrow> bytes32 \<Rightarrow> ad_store \<times> 'w \<Rightarrow> (ad_error, ad_store \<times> 'w) res" where
  "set_settlement_signer X E i identity = (\<lambda>(s, w).
     attempt (ok_or (get_ad s i) AmAdNotFound) (\<lambda>a.
     attempt (require_auth E (ad_maker a)) (\<lambda>_.
     attempt (require_registered X E identity (ad_maker a) (s, w)) (\<lambda>_.
     Ok (set_ad i (a\<lparr>ad_settlement_signer := identity\<rparr>) s, w)))))"

definition fund_ad ::
  "'w ext \<Rightarrow> env \<Rightarrow> string \<Rightarrow> u128 \<Rightarrow> ad_store \<times> 'w \<Rightarrow> (ad_error, ad_store \<times> 'w) res" where
  "fund_ad X E i amount = (\<lambda>(s, w).
     if st_paused s then Fail (AmFault ContractPaused)
     else attempt (get_config s) (\<lambda>cfg.
     attempt (ok_or (get_ad s i) AmAdNotFound) (\<lambda>a.
     attempt (ensure (ad_open a) AmAdClosed) (\<lambda>_.
     attempt (ensure (amount \<noteq> 0) AmZeroAmount) (\<lambda>_.
     attempt (require_auth E (ad_maker a)) (\<lambda>_.
     attempt (fl (transfer_from_user X E (ad_token a) (w_native_token cfg) (ad_maker a) amount w)) (\<lambda>w'.
     attempt (cadd (ad_balance a) amount) (\<lambda>bal.
     Ok (set_ad i (a\<lparr>ad_balance := bal\<rparr>) s, w')))))))))"

definition withdraw_from_ad ::
  "'w ext \<Rightarrow> env \<Rightarrow> string \<Rightarrow> u128 \<Rightarrow> address \<Rightarrow> ad_store \<times> 'w \<Rightarrow> (ad_error, ad_store \<times> 'w) res" where
  "withdraw_from_ad X E i amount to = (\<lambda>(s, w).
     attempt (get_config s) (\<lambda>cfg.
     attempt (ok_or (get_ad s i) AmAdNotFound) (\<lambda>a.
     attempt (ensure (amount \<noteq> 0) AmZeroAmount) (\<lambda>_.
     attempt (csub (ad_balance a) (ad_locked a)) (\<lambda>available.
     attempt (ensure (\<not> amount > available) AmInsufficientLiquidity) (\<lambda>_.
     attempt (require_auth E (ad_maker a)) (\<lambda>_.
     attempt (csub (ad_balance a) amount) (\<lambda>bal.
     attempt (fl (transfer_to_user X E (ad_token a) (w_native_token cfg) to amount w)) (\<lambda>w'.
     Ok (set_ad i (a\<lparr>ad_balance := bal\<rparr>) s, w'))))))))))"

definition close_ad ::
  "'w ext \<Rightarrow> env \<Rightarrow> string \<Rightarrow> address \<Rightarrow> ad_store \<times> 'w \<Rightarrow> (ad_error, ad_store \<times> 'w) res" where
  "close_ad X E i to = (\<lambda>(s, w).
     attempt (get_config s) (\<lambda>cfg.
     attempt (ok_or (get_ad s i) AmAdNotFound) (\<lambda>a.
     attempt (ensure (ad_locked a = 0) AmActiveLocks) (\<lambda>_.
     attempt (require_auth E (ad_maker a)) (\<lambda>_.
     let remaining = ad_balance a;
         s' = set_ad i (a\<lparr>ad_balance := 0, ad_open := False\<rparr>) s in
     if remaining > 0 then
       attempt (fl (transfer_to_user X E (ad_token a) (w_native_token cfg) to remaining w)) (\<lambda>w'.
       Ok (s', w'))
     else Ok (s', w))))))"

definition available_liquidity :: "ad_store \<Rightarrow> string \<Rightarrow> ('e, u128) res" where
  "available_liquidity s i =
     (case get_ad s i of Some a \<Rightarrow> csub (ad_balance a) (ad_locked a) | None \<Rightarrow> Ok 0)"

definition has_open_positions :: "ad_store \<Rightarrow> bytes32 \<Rightarrow> bool" where
  "has_open_positions s account \<longleftrightarrow> get_in_flight s account > 0"

end
