(* ===== verification/Ad_Orders.thy ===== *)
theory Ad_Orders
  imports Ad_Admin
begin

text \<open>
  The ad-manager's order entry points (\<open>contracts/ad-manager/src/lib.rs\<close>): the lock, the co-signed
  unlock, the termination paths, the disputes, the settle-by-evidence, the re-pin, and the payout
  helpers they share.
\<close>

section \<open>Payouts\<close>

definition charge_fee ::
  "ad \<Rightarrow> order_params \<Rightarrow> u128 \<Rightarrow> bool \<Rightarrow> (ad_error, (u128 \<times> u128) \<times> ad) res" where
  "charge_fee a p amt forfeit =
     (let lp = (if forfeit then 0 else p_lp_fee_bps p) in
      attempt (split_fee amt lp (p_protocol_fee_bps p)) (\<lambda>(lp_fee, protocol_fee).
      attempt (csub amt lp_fee) (\<lambda>leaving.
      attempt (csub (ad_balance a) leaving) (\<lambda>bal.
      attempt (csub leaving protocol_fee) (\<lambda>net.
      Ok ((net, protocol_fee), a\<lparr>ad_balance := bal\<rparr>))))))"

definition pay_net ::
  "'w ext \<Rightarrow> env \<Rightarrow> contract_config \<Rightarrow> bytes32 \<Rightarrow> bytes32 \<Rightarrow> u128 \<Rightarrow> u128 \<Rightarrow> ad_store \<times> 'w \<Rightarrow>
   (ad_error, ad_store \<times> 'w) res" where
  "pay_net X E cfg recipient token net protocol_fee sw =
     attempt (pay_or_credit X E (w_native_token cfg) recipient token net sw) (\<lambda>(s, w).
     if protocol_fee \<noteq> 0 then
       case pool (get_fees s) of
         Some pl \<Rightarrow> pay_or_credit X E (w_native_token cfg) pl token protocol_fee (s, w)
       | None \<Rightarrow> Ok (s, w)
     else Ok (s, w))"

definition pay_from_ad ::
  "'w ext \<Rightarrow> env \<Rightarrow> contract_config \<Rightarrow> order_params \<Rightarrow> ad_store \<times> 'w \<Rightarrow>
   (ad_error, ad_store \<times> 'w) res" where
  "pay_from_ad X E cfg p = (\<lambda>(s, w).
     attempt (ad_amount p) (\<lambda>amt.
     attempt (ok_or (get_ad s (p_ad_id p)) AmAdNotFound) (\<lambda>a.
     attempt (csub (ad_locked a) amt) (\<lambda>lk.
     attempt (charge_fee (a\<lparr>ad_locked := lk\<rparr>) p amt False) (\<lambda>((net, protocol_fee), a').
     pay_net X E cfg (p_order_recipient p) (ad_token a) net protocol_fee
       (set_ad (p_ad_id p) a' s, w))))))"

definition close_dispute ::
  "'w ext \<Rightarrow> env \<Rightarrow> bytes32 \<Rightarrow> dispute_outcome \<Rightarrow> order_params \<Rightarrow> ad_store \<times> 'w \<Rightarrow>
   (ad_error, ad_store \<times> 'w) res" where
  "close_dispute X E h outcome p = (\<lambda>(s, w).
     fl (close_dispute_by_evidence X E (self E) h outcome
       (map_option ad_maker (get_ad s (p_ad_id p)))
       (\<lambda>maker. attempt (order_timing s h (p_order_chain_id p)) (\<lambda>t.
          co_sign_denied X maker p h (presentation_cutoff s h p t) (s, w)))
       (s, w)))"

section \<open>The lock\<close>

definition u32_clamp :: "u64 \<Rightarrow> u32" where
  "u32_clamp d = (if unat d < 2 ^ 32 then ucast d else - 1)"

definition lock_for_order ::
  "'w ext \<Rightarrow> env \<Rightarrow> order_params \<Rightarrow> u32 \<Rightarrow> ad_store \<times> 'w \<Rightarrow>
   (ad_error, bytes32 \<times> ad_store \<times> 'w) res" where
  "lock_for_order X E p signer_slot = (\<lambda>(s, w).
     if st_paused s then Fail (AmFault ContractPaused)
     else attempt (get_config s) (\<lambda>cfg.
     attempt (ok_or (get_ad s (p_ad_id p)) AmAdNotFound) (\<lambda>a.
     attempt (validate_order s a p) (\<lambda>_.
     attempt (ensure (\<not> (p_lp_fee_bps p \<noteq> lp_bps (get_fees s) \<or>
                         p_protocol_fee_bps p \<noteq> protocol_bps (get_fees s))) AmFeeMismatch) (\<lambda>_.
     attempt (require_registered X E (ad_settlement_signer a) (ad_maker a) (s, w)) (\<lambda>_.
     attempt (case am_key_registry s of
                Some registry \<Rightarrow>
                  ensure (slot_usable X E registry (ad_settlement_signer a) signer_slot w)
                    AmSlotNotUsable
              | None \<Rightarrow> Ok ()) (\<lambda>_.
     attempt (assert_ad_decimals X p (w_native_token cfg) w) (\<lambda>_.
     attempt (fl (require_min_window E s (p_order_chain_id p) (p_deadline p))) (\<lambda>tv.
     attempt (ensure (\<not> registry_split X (p_order_chain_id p) (am_key_registry s) (s, w))
       AmRegistrySplit) (\<lambda>_.
     attempt (ad_amount p) (\<lambda>amt.
     attempt (csub (ad_balance a) (ad_locked a)) (\<lambda>available.
     attempt (ensure (\<not> amt > available) AmInsufficientLiquidity) (\<lambda>_.
     attempt (require_auth E (ad_maker a)) (\<lambda>_.
     attempt (order_hash E cfg p) (\<lambda>h.
     attempt (ensure (get_order_status s h = StNone) AmOrderExists) (\<lambda>_.
     attempt (anchor_delay_now X (p_order_chain_id p) (s, w)) (\<lambda>delay.
     attempt (cadd (ad_locked a) amt) (\<lambda>lk.
     let s1 = set_ad (p_ad_id p) (a\<lparr>ad_locked := lk\<rparr>) s;
         s2 = open_order E h tv (get_registry_epoch s1) (u32_clamp delay) signer_slot s1 in
     attempt (cadd (get_in_flight s2 (p_ad_settlement_signer p)) 1) (\<lambda>n.
     attempt (fl (append_to_merkle X E (merkle_manager cfg) h LEAF_DOMAIN_ORDER w)) (\<lambda>w'.
     Ok (h, set_in_flight (p_ad_settlement_signer p) n s2, w')))))))))))))))))))))"

section \<open>The co-signed unlock\<close>

definition unlock ::
  "'w ext \<Rightarrow> env \<Rightarrow> order_params \<Rightarrow> bytes32 \<Rightarrow> bytes32 \<Rightarrow> bytes \<Rightarrow> bytes \<Rightarrow> ad_store \<times> 'w \<Rightarrow>
   (ad_error, ad_store \<times> 'w) res" where
  "unlock X E p nullifier_hash target_root proof' cosig_data = (\<lambda>(s, w).
     attempt (get_config s) (\<lambda>cfg.
     attempt (order_hash E cfg p) (\<lambda>h.
     attempt (require_settleable s h) (\<lambda>_.
     attempt (ensure (\<not> is_nullifier_used s nullifier_hash) AmNullifierUsed) (\<lambda>_.
     attempt (fl (order_timing s h (p_order_chain_id p))) (\<lambda>t.
     attempt (ensure (\<not> now E \<ge> presentation_cutoff s h p t) AmOrderExpired) (\<lambda>_.
     attempt (ok_or (get_ad s (p_ad_id p)) AmAdNotFound) (\<lambda>a.
     attempt (ensure (\<not> is_halted s (ad_maker a)) AmHalted) (\<lambda>_.
     attempt (ok_or (st_root_verifiers s (p_order_chain_id p)) AmRootVerifierNotSet) (\<lambda>module.
     attempt (is_root_valid X E module (p_order_chain_id p) target_root (p_ad_settlement_signer p)
       (p_bridger p) h (pinned_slot (get_order s h)) nullifier_hash ENVELOPE_SIDE_AD cosig_data w)
       (\<lambda>valid.
     attempt (ensure valid AmRootNotValid) (\<lambda>_.
     attempt (fl (build_public_inputs (prims E) nullifier_hash target_root h 1)) (\<lambda>public_inputs.
     attempt (fl (verify_proof X (verifier cfg) public_inputs proof' w)) (\<lambda>_.
     attempt (close_dispute X E h TradeProceeds p (set_nullifier_used nullifier_hash s, w))
       (\<lambda>(s2, w2).
     attempt (fill h (p_ad_settlement_signer p) s2) (\<lambda>s3.
     pay_from_ad X E cfg p (s3, w2)))))))))))))))))"

section \<open>Termination\<close>

definition claim_cancel :: "env \<Rightarrow> order_params \<Rightarrow> ad_store \<Rightarrow> (ad_error, ad_store) res" where
  "claim_cancel E p s =
     attempt (get_config s) (\<lambda>cfg.
     attempt (order_hash E cfg p) (\<lambda>h.
     attempt (fl (require_status s h Open)) (\<lambda>_.
     attempt (fl (require_reached E (p_deadline p))) (\<lambda>_.
     attempt (fl (order_timing s h (p_order_chain_id p))) (\<lambda>t.
     let fin = window_end s h (p_deadline p) (buffer t) in
     Ok (open_claim E h fin s))))))"

definition finalize_cancel ::
  "'w ext \<Rightarrow> env \<Rightarrow> order_params \<Rightarrow> ad_store \<times> 'w \<Rightarrow> (ad_error, ad_store \<times> 'w) res" where
  "finalize_cancel X E p = (\<lambda>(s, w).
     attempt (get_config s) (\<lambda>cfg.
     attempt (order_hash E cfg p) (\<lambda>h.
     attempt (fl (order_timing s h (p_order_chain_id p))) (\<lambda>t.
     attempt (fl (require_finalizable E s h (buffer t))) (\<lambda>_.
     attempt (ad_amount p) (\<lambda>amt.
     attempt (ok_or (get_ad s (p_ad_id p)) AmAdNotFound) (\<lambda>a.
     attempt (cancel_end X (ad_maker a) p h t (s, w)) (\<lambda>at.
     attempt (fl (require_reached E at)) (\<lambda>_.
     attempt (csub (ad_locked a) amt) (\<lambda>lk.
     attempt (cancel h (p_ad_settlement_signer p) (set_ad (p_ad_id p) (a\<lparr>ad_locked := lk\<rparr>) s)) (\<lambda>s2.
     attempt (fl (append_to_merkle X E (merkle_manager cfg) h LEAF_DOMAIN_CANCEL w)) (\<lambda>w2.
     Ok (s2, w2)))))))))))))"

definition cancel_never_locked ::
  "'w ext \<Rightarrow> env \<Rightarrow> order_params \<Rightarrow> bytes32 \<Rightarrow> bytes32 \<Rightarrow> bytes \<Rightarrow> ad_store \<times> 'w \<Rightarrow>
   (ad_error, ad_store \<times> 'w) res" where
  "cancel_never_locked X E p target_root nullifier_hash proof' = (\<lambda>(s, w).
     attempt (get_config s) (\<lambda>cfg.
     attempt (order_hash E cfg p) (\<lambda>h.
     attempt (fl (require_status s h StNone)) (\<lambda>_.
     attempt (fl (require_reached E (p_deadline p))) (\<lambda>_.
     attempt (ok_or (get_chain s (p_order_chain_id p)) AmChainNotSupported) (\<lambda>_.
     attempt (fl (current_timing s (p_order_chain_id p))) (\<lambda>_.
     attempt (fl (require_anchored X E (p_order_chain_id p) target_root (s, w))) (\<lambda>_.
     attempt (fl (build_public_inputs (prims E) nullifier_hash target_root h 1)) (\<lambda>public_inputs.
     attempt (fl (verify_proof X (verifier cfg) public_inputs proof' w)) (\<lambda>_.
     let s2 = set_order_status h Cancelled s in
     attempt (fl (append_to_merkle X E (merkle_manager cfg) h LEAF_DOMAIN_CANCEL w)) (\<lambda>w2.
     Ok (s2, w2))))))))))))"

section \<open>Disputes\<close>

definition dispute ::
  "'w ext \<Rightarrow> env \<Rightarrow> order_params \<Rightarrow> address \<Rightarrow> bytes32 \<Rightarrow> ad_store \<times> 'w \<Rightarrow>
   (ad_error, u128 \<times> ad_store \<times> 'w) res" where
  "dispute X E p filer evidence = (\<lambda>(s, w).
     attempt (get_config s) (\<lambda>cfg.
     attempt (order_hash E cfg p) (\<lambda>h.
     attempt (ok_or (get_ad s (p_ad_id p)) AmAdNotFound) (\<lambda>a.
     attempt (require_party filer (ad_maker a) (p_order_recipient p)) (\<lambda>_.
     attempt (if is_native_token (ad_token a) then Ok (w_native_token cfg)
              else ok_or (bytes32_to_token_address (ad_token a)) (AmFault TokenZeroAddress))
       (\<lambda>bond_tok.
     attempt (ad_amount p) (\<lambda>amt.
     fl (open_dispute X E (self E) h (p_order_chain_id p) filer evidence (p_deadline p)
       bond_tok amt (s, w)))))))))"

definition respond_to_dispute ::
  "'w ext \<Rightarrow> env \<Rightarrow> order_params \<Rightarrow> address \<Rightarrow> bytes32 \<Rightarrow> ad_store \<times> 'w \<Rightarrow>
   (ad_error, ad_store \<times> 'w) res" where
  "respond_to_dispute X E p responder evidence = (\<lambda>(s, w).
     attempt (get_config s) (\<lambda>cfg.
     attempt (order_hash E cfg p) (\<lambda>h.
     attempt (fl (require_status s h Disputed)) (\<lambda>_.
     attempt (ok_or (get_ad s (p_ad_id p)) AmAdNotFound) (\<lambda>a.
     attempt (require_party responder (ad_maker a) (p_order_recipient p)) (\<lambda>_.
     fl (record_response X E (self E) h responder evidence (s, w))))))))"

definition finalize_dispute ::
  "'w ext \<Rightarrow> env \<Rightarrow> order_params \<Rightarrow> ad_store \<times> 'w \<Rightarrow> (ad_error, ad_store \<times> 'w) res" where
  "finalize_dispute X E p = (\<lambda>(s, w).
     attempt (get_config s) (\<lambda>cfg.
     attempt (order_hash E cfg p) (\<lambda>h.
     attempt (fl (require_status s h Disputed)) (\<lambda>_.
     attempt (fl (dispute_outcome X E h (s, w))) (\<lambda>(outcome, init).
     attempt (ad_amount p) (\<lambda>amt.
     attempt (ok_or (get_ad s (p_ad_id p)) AmAdNotFound) (\<lambda>a.
     attempt (dispute_end X (ad_maker a) p h outcome (s, w)) (\<lambda>at.
     attempt (fl (require_reached E at)) (\<lambda>_.
     attempt (csub (ad_locked a) amt) (\<lambda>lk.
     attempt (if outcome = MakerForfeit then charge_fee (a\<lparr>ad_locked := lk\<rparr>) p amt True
              else Ok ((0, 0), a\<lparr>ad_locked := lk\<rparr>)) (\<lambda>((net, protocol_fee), a').
     attempt (if outcome = MakerForfeit then
                pay_net X E cfg (p_order_recipient p) (p_ad_chain_token p) net protocol_fee
                  (set_ad (p_ad_id p) a' s, w)
              else Ok (set_ad (p_ad_id p) a' s, w)) (\<lambda>(s2, w2).
     attempt (resolve h (p_ad_settlement_signer p) s2) (\<lambda>s3.
     let filer_is_bridger = (case init of Some who \<Rightarrow> who \<noteq> ad_maker a | None \<Rightarrow> True) in
     attempt (fl (settle_bond X E (self E) h outcome filer_is_bridger (s3, w2))) (\<lambda>(s4, w4).
     let leaf_domain = (if outcome = BridgerForfeit then LEAF_DOMAIN_FORFEIT
                        else LEAF_DOMAIN_CANCEL) in
     attempt (fl (append_to_merkle X E (merkle_manager cfg) h leaf_domain w4)) (\<lambda>w5.
     Ok (s4, w5))))))))))))))))"

section \<open>Re-pin and settle by evidence\<close>

definition repin_order ::
  "'w ext \<Rightarrow> env \<Rightarrow> order_params \<Rightarrow> ad_store \<times> 'w \<Rightarrow> (ad_error, ad_store \<times> 'w) res" where
  "repin_order X E p = (\<lambda>(s, w).
     attempt (get_config s) (\<lambda>cfg.
     attempt (order_hash E cfg p) (\<lambda>h.
     let order = get_order s h in
     attempt (ensure (status order = Open) AmOrderNotOpen) (\<lambda>_.
     attempt (fl (order_timing s h (p_order_chain_id p))) (\<lambda>t.
     attempt (ensure (\<not> now E > saturating_sub (p_deadline p) (claim_stagger t)) AmOrderExpired) (\<lambda>_.
     attempt (ok_or (get_registry_at s (registry_epoch order)) AmNoKeyRegistry) (\<lambda>registry.
     attempt (repin_approval X registry (p_ad_settlement_signer p) h w) (\<lambda>(from_slot, to_slot, nonce).
     attempt (ensure (\<not> (nonce = 0 \<or> from_slot \<noteq> pinned_slot order)) AmNoRepin) (\<lambda>_.
     attempt (ensure (slot_usable X E registry (p_ad_settlement_signer p) to_slot w)
       AmSlotNotUsable) (\<lambda>_.
     Ok (set_pinned_slot h to_slot s, w)))))))))))"

definition present_settled ::
  "'w ext \<Rightarrow> env \<Rightarrow> order_params \<Rightarrow> bytes32 \<Rightarrow> bytes \<Rightarrow> ad_store \<times> 'w \<Rightarrow>
   (ad_error, ad_store \<times> 'w) res" where
  "present_settled X E p target_root proof' = (\<lambda>(s, w).
     attempt (get_config s) (\<lambda>cfg.
     attempt (order_hash E cfg p) (\<lambda>h.
     attempt (fl (require_presentable s h)) (\<lambda>_.
     attempt (fl (require_anchored X E (p_order_chain_id p) target_root (s, w))) (\<lambda>_.
     let inputs = build_event_public_inputs (prims E) target_root h LEAF_DOMAIN_SETTLED in
     attempt (fl (verify_proof X (verifier cfg) inputs proof' w)) (\<lambda>_.
     attempt (close_dispute X E h TradeProceeds p (s, w)) (\<lambda>(s2, w2).
     attempt (fill h (p_ad_settlement_signer p) s2) (\<lambda>s3.
     pay_from_ad X E cfg p (s3, w2)))))))))"

definition ad_record_settled ::
  "'w ext \<Rightarrow> env \<Rightarrow> order_params \<Rightarrow> ad_store \<times> 'w \<Rightarrow> (ad_error, ad_store \<times> 'w) res" where
  "ad_record_settled X E p = (\<lambda>(s, w).
     attempt (get_config s) (\<lambda>cfg.
     attempt (order_hash E cfg p) (\<lambda>h.
     fl (record_settled X E (merkle_manager cfg) h (s, w)))))"

definition ad_claim ::
  "'w ext \<Rightarrow> env \<Rightarrow> bytes32 \<Rightarrow> bytes32 \<Rightarrow> ad_store \<times> 'w \<Rightarrow> (ad_error, ad_store \<times> 'w) res" where
  "ad_claim X E recipient token = (\<lambda>(s, w).
     attempt (get_config s) (\<lambda>cfg. fl (claim X E cfg recipient token (s, w))))"

section \<open>The clocks as views\<close>

definition cancel_finalizes_at ::
  "'w ext \<Rightarrow> env \<Rightarrow> order_params \<Rightarrow> ad_store \<times> 'w \<Rightarrow> (ad_error, u64) res" where
  "cancel_finalizes_at X E p = (\<lambda>(s, w).
     attempt (get_config s) (\<lambda>cfg.
     attempt (order_hash E cfg p) (\<lambda>h.
     if get_order_status s h \<noteq> Claimed then Ok 0
     else attempt (fl (order_timing s h (p_order_chain_id p))) (\<lambda>t.
       attempt (ok_or (get_ad s (p_ad_id p)) AmAdNotFound) (\<lambda>a.
       cancel_end X (ad_maker a) p h t (s, w))))))"

definition dispute_finalizes_at ::
  "'w ext \<Rightarrow> env \<Rightarrow> order_params \<Rightarrow> ad_store \<times> 'w \<Rightarrow> (ad_error, u64) res" where
  "dispute_finalizes_at X E p = (\<lambda>(s, w).
     attempt (get_config s) (\<lambda>cfg.
     attempt (order_hash E cfg p) (\<lambda>h.
     if get_order_status s h \<noteq> Disputed then Ok 0
     else attempt (ok_or (get_ad s (p_ad_id p)) AmAdNotFound) (\<lambda>a.
       attempt (fl (dispute_ruling X E h (s, w))) (\<lambda>outcome.
       dispute_end X (ad_maker a) p h outcome (s, w))))))"

end
