(* ===== verification/Ad_Calls.thy ===== *)
theory Ad_Calls
  imports Ad_Orders
begin

text \<open>
  The ad-manager as one machine: its entry points as a datatype of calls, the dispatcher, and the
  states it can reach from its deployment, with other contracts acting in between.
\<close>

datatype ad_admin_call =
    KPause | KUnpause | KTransferAdmin address | KAcceptAdmin | KActivateTimelock
  | KProposeAction string bytes | KCancelAction bytes32 | KSetProtocolFeePool bytes32
  | KSetFeeBps u32 u32 | KSetChain u128 bytes32 | KRemoveChain u128
  | KSetRootVerifier u128 address | KUnsetRootVerifier u128 | KSetKeyRegistry address
  | KSetRouteTiming u128 route_timing | KSetDisputeManager address | KSetRootAnchor address
  | KSetTokenRoute bytes32 bytes32 u128 | KRemoveTokenRoute bytes32 u128

datatype ad_maker_call =
    KCreateAd address string bytes32 u128 u128 bytes32 bytes32
  | KHalt address | KResume address | KSetSigner string bytes32
  | KFundAd string u128 | KWithdraw string u128 address | KCloseAd string address

datatype ad_order_call =
    KLock order_params u32
  | KUnlock order_params bytes32 bytes32 bytes bytes
  | KClaimCancel order_params | KFinalizeCancel order_params
  | KCancelNeverLocked order_params bytes32 bytes32 bytes
  | KDispute order_params address bytes32 | KRespond order_params address bytes32
  | KFinalizeDispute order_params | KRepin order_params
  | KPresentSettled order_params bytes32 bytes | KRecordSettled order_params

datatype ad_call =
    KAdmin ad_admin_call | KMaker ad_maker_call | KOrder ad_order_call | KClaim bytes32 bytes32

text \<open>A call that only writes the store, and one whose returned value is dropped.\<close>

definition on_store ::
  "(ad_store \<Rightarrow> (ad_error, ad_store) res) \<Rightarrow> ad_store \<times> 'w \<Rightarrow> (ad_error, ad_store \<times> 'w) res" where
  "on_store f = (\<lambda>(s, w). attempt (f s) (\<lambda>s'. Ok (s', w)))"

definition dropping :: "(ad_error, 'r \<times> 's) res \<Rightarrow> (ad_error, 's) res" where
  "dropping m = attempt m (\<lambda>(_, s). Ok s)"

fun admin_exec :: "env \<Rightarrow> ad_admin_call \<Rightarrow> ad_store \<Rightarrow> (ad_error, ad_store) res" where
  "admin_exec E KPause s = ad_pause E s"
| "admin_exec E KUnpause s = ad_unpause E s"
| "admin_exec E (KTransferAdmin to) s = ad_transfer_admin E to s"
| "admin_exec E KAcceptAdmin s = ad_accept_admin E s"
| "admin_exec E KActivateTimelock s = ad_activate_timelock E s"
| "admin_exec E (KProposeAction f args) s = dropping (ad_propose_action E f args s)"
| "admin_exec E (KCancelAction ident) s = ad_cancel_action E ident s"
| "admin_exec E (KSetProtocolFeePool pl) s = set_protocol_fee_pool E pl s"
| "admin_exec E (KSetFeeBps lp pr) s = set_fee_bps E lp pr s"
| "admin_exec E (KSetChain c op) s = ad_set_chain E c op s"
| "admin_exec E (KRemoveChain c) s = ad_remove_chain E c s"
| "admin_exec E (KSetRootVerifier c m) s = ad_set_root_verifier E c m s"
| "admin_exec E (KUnsetRootVerifier c) s = ad_unset_root_verifier E c s"
| "admin_exec E (KSetKeyRegistry reg) s = ad_set_key_registry E reg s"
| "admin_exec E (KSetRouteTiming c t) s = ad_set_route_timing E c t s"
| "admin_exec E (KSetDisputeManager m) s = ad_set_dispute_manager E m s"
| "admin_exec E (KSetRootAnchor a) s = ad_set_root_anchor E a s"
| "admin_exec E (KSetTokenRoute ad_tok order_tok c) s = ad_set_token_route E ad_tok order_tok c s"
| "admin_exec E (KRemoveTokenRoute ad_tok c) s = ad_remove_token_route E ad_tok c s"

fun maker_exec ::
  "'w ext \<Rightarrow> env \<Rightarrow> ad_maker_call \<Rightarrow> ad_store \<times> 'w \<Rightarrow> (ad_error, ad_store \<times> 'w) res" where
  "maker_exec X E (KCreateAd creator i tok amount c rcpt signer) sw =
     create_ad X E creator i tok amount c rcpt signer sw"
| "maker_exec X E (KHalt maker) sw = on_store (halt_settlement E maker) sw"
| "maker_exec X E (KResume maker) sw = on_store (resume_settlement E maker) sw"
| "maker_exec X E (KSetSigner i identity) sw = set_settlement_signer X E i identity sw"
| "maker_exec X E (KFundAd i amount) sw = fund_ad X E i amount sw"
| "maker_exec X E (KWithdraw i amount to) sw = withdraw_from_ad X E i amount to sw"
| "maker_exec X E (KCloseAd i to) sw = close_ad X E i to sw"

fun order_exec ::
  "'w ext \<Rightarrow> env \<Rightarrow> ad_order_call \<Rightarrow> ad_store \<times> 'w \<Rightarrow> (ad_error, ad_store \<times> 'w) res" where
  "order_exec X E (KLock p slot) sw = dropping (lock_for_order X E p slot sw)"
| "order_exec X E (KUnlock p n root pf cosig) sw = unlock X E p n root pf cosig sw"
| "order_exec X E (KClaimCancel p) sw = on_store (claim_cancel E p) sw"
| "order_exec X E (KFinalizeCancel p) sw = finalize_cancel X E p sw"
| "order_exec X E (KCancelNeverLocked p root n pf) sw = cancel_never_locked X E p root n pf sw"
| "order_exec X E (KDispute p filer ev) sw = dropping (dispute X E p filer ev sw)"
| "order_exec X E (KRespond p who ev) sw = respond_to_dispute X E p who ev sw"
| "order_exec X E (KFinalizeDispute p) sw = finalize_dispute X E p sw"
| "order_exec X E (KRepin p) sw = repin_order X E p sw"
| "order_exec X E (KPresentSettled p root pf) sw = present_settled X E p root pf sw"
| "order_exec X E (KRecordSettled p) sw = ad_record_settled X E p sw"

fun ad_exec :: "'w ext \<Rightarrow> env \<Rightarrow> ad_call \<Rightarrow> ad_store \<times> 'w \<Rightarrow> (ad_error, ad_store \<times> 'w) res" where
  "ad_exec X E (KAdmin c) sw = on_store (admin_exec E c) sw"
| "ad_exec X E (KMaker c) sw = maker_exec X E c sw"
| "ad_exec X E (KOrder c) sw = order_exec X E c sw"
| "ad_exec X E (KClaim recipient token) sw = ad_claim X E recipient token sw"

text \<open>The order a call names.\<close>

fun params_of :: "ad_order_call \<Rightarrow> order_params" where
  "params_of (KLock p _) = p"
| "params_of (KUnlock p _ _ _ _) = p"
| "params_of (KClaimCancel p) = p"
| "params_of (KFinalizeCancel p) = p"
| "params_of (KCancelNeverLocked p _ _ _) = p"
| "params_of (KDispute p _ _) = p"
| "params_of (KRespond p _ _) = p"
| "params_of (KFinalizeDispute p) = p"
| "params_of (KRepin p) = p"
| "params_of (KPresentSettled p _ _) = p"
| "params_of (KRecordSettled p) = p"

fun names_only :: "order_params set \<Rightarrow> ad_call \<Rightarrow> bool" where
  "names_only S (KOrder c) \<longleftrightarrow> params_of c \<in> S"
| "names_only S _ \<longleftrightarrow> True"

text \<open>
  An invocation from outside runs under the contract's own address, which never authorizes a call
  into itself.
\<close>

definition entry :: "crypto \<Rightarrow> address \<Rightarrow> env \<Rightarrow> bool" where
  "entry C me E \<longleftrightarrow> prims E = C \<and> self E = me \<and> \<not> authed E me"

definition ad_empty :: ad_store where
  "ad_empty = \<lparr>st_config = None, st_initialized = False, st_paused = False, st_pending_admin = None,
     st_root_anchor = None, st_dispute_manager = None, st_routes = Map.empty,
     st_orders = Map.empty, st_nullifiers = Map.empty, st_root_verifiers = Map.empty,
     st_rv_changed = Map.empty, st_wired_chains = [], st_in_flight = Map.empty,
     st_claimables = Map.empty, st_timings = Map.empty, st_timing_versions = Map.empty,
     st_claims = Map.empty, st_settled = Map.empty, st_order_dispute = Map.empty,
     st_timelock = tl_init, am_chains = Map.empty, am_ads = Map.empty, am_key_registry = None,
     am_registry_epoch = None, am_registry_at = Map.empty, am_halts = Map.empty, am_fees = None\<rparr>"

text \<open>
  Reachable states: deployed with chain id \<open>cid\<close>, then calls that name orders of \<open>S\<close>, and moves of
  the outside world within \<open>R\<close>.
\<close>

inductive ad_reach ::
  "'w ext \<Rightarrow> crypto \<Rightarrow> address \<Rightarrow> u128 \<Rightarrow> order_params set \<Rightarrow> ('w \<Rightarrow> 'w \<Rightarrow> bool) \<Rightarrow> ad_store \<times> 'w \<Rightarrow> bool"
  for X :: "'w ext" and C :: crypto and me :: address and cid :: u128 and S :: "order_params set"
    and R :: "'w \<Rightarrow> 'w \<Rightarrow> bool" where
  reach_init: "entry C me E \<Longrightarrow> ad_initialize E adm vf mm wn cid ad_empty = Inr s \<Longrightarrow>
    ad_reach X C me cid S R (s, w)"
| reach_call: "ad_reach X C me cid S R sw \<Longrightarrow> entry C me E \<Longrightarrow> names_only S c \<Longrightarrow>
    ad_exec X E c sw = Inr sw' \<Longrightarrow> ad_reach X C me cid S R sw'"
| reach_world: "ad_reach X C me cid S R (s, w) \<Longrightarrow> R w w' \<Longrightarrow> ad_reach X C me cid S R (s, w')"

lemma on_store_Ok [res_simps]:
  "on_store f (s, w) = Inr (s', w') \<longleftrightarrow> f s = Inr s' \<and> w' = w"
  by (auto simp: on_store_def res_simps)

lemma dropping_Ok [res_simps]: "dropping m = Inr s \<longleftrightarrow> (\<exists>r. m = Inr (r, s))"
  by (auto simp: dropping_def res_simps)

end
