(* ===== verification/Ad_Book.thy ===== *)
theory Ad_Book
  imports Core_Types
begin

text \<open>
  What the ad-manager promises, without hashes, routes, signatures or clocks: a book of orders and
  ads. An order is locked once against an ad that can cover it, may move between live states, and
  ends once, either giving its lock back or paying at most its amount out of the ad. The accounting
  facts are proved here, on the book; \<open>Ad_Refinement\<close> shows that every call of the contract is a
  step of the book or leaves it alone.
\<close>

text \<open>
  The orders in play: where each one is filed, what it reserves from whom, and which terms of an ad
  it may be locked against (an ad's terms are fixed when it is created).
\<close>

record ('p, 't) orders_view =
  ov_set :: "'p set"
  ov_key :: "'p \<Rightarrow> bytes32"
  ov_ad :: "'p \<Rightarrow> string"
  ov_amt :: "'p \<Rightarrow> nat"
  ov_signer :: "'p \<Rightarrow> bytes32"
  ov_fits :: "'p \<Rightarrow> 't \<Rightarrow> bool"

text \<open>The book: each order's status, each ad's balance, locked part and terms, each signer's open count.\<close>

record 't book =
  bk_status :: "bytes32 \<Rightarrow> status"
  bk_ads :: "string \<rightharpoonup> nat \<times> nat \<times> 't"
  bk_open :: "bytes32 \<Rightarrow> nat"

text \<open>The edges of the order lifecycle.\<close>

fun edge :: "status \<Rightarrow> status \<Rightarrow> bool" where
  "edge StNone st \<longleftrightarrow> st \<in> {Open, Cancelled}"
| "edge Open st \<longleftrightarrow> st \<in> {Claimed, Disputed, Filled}"
| "edge Claimed st \<longleftrightarrow> st \<in> {Disputed, Filled, Cancelled}"
| "edge Disputed st \<longleftrightarrow> st \<in> {Filled, Resolved}"
| "edge _ st \<longleftrightarrow> False"

inductive bk_step :: "('p, 't) orders_view \<Rightarrow> 't book \<Rightarrow> 't book \<Rightarrow> bool" for V :: "('p, 't) orders_view" where
  bk_idle: "bk_step V b b"
| bk_create: "bk_ads b i = None \<Longrightarrow> bk_step V b (b\<lparr>bk_ads := (bk_ads b)(i \<mapsto> (bal, 0, t))\<rparr>)"
| bk_fund: "bk_ads b i = Some (bal, lk, t) \<Longrightarrow> lk \<le> bal' \<Longrightarrow>
    bk_step V b (b\<lparr>bk_ads := (bk_ads b)(i \<mapsto> (bal', lk, t))\<rparr>)"
| bk_lock: "p \<in> ov_set V \<Longrightarrow> bk_status b (ov_key V p) = StNone \<Longrightarrow>
    bk_ads b (ov_ad V p) = Some (bal, lk, t) \<Longrightarrow> lk + ov_amt V p \<le> bal \<Longrightarrow>
    ov_fits V p t \<Longrightarrow> bk_step V b (b\<lparr>bk_status := (bk_status b)(ov_key V p := Open),
      bk_ads := (bk_ads b)(ov_ad V p \<mapsto> (bal, lk + ov_amt V p, t)),
      bk_open := (bk_open b)(ov_signer V p := Suc (bk_open b (ov_signer V p)))\<rparr>)"
| bk_void: "p \<in> ov_set V \<Longrightarrow> bk_status b (ov_key V p) = StNone \<Longrightarrow>
    bk_step V b (b\<lparr>bk_status := (bk_status b)(ov_key V p := Cancelled)\<rparr>)"
| bk_move: "live (bk_status b h) \<Longrightarrow> live st \<Longrightarrow> edge (bk_status b h) st \<Longrightarrow>
    bk_step V b (b\<lparr>bk_status := (bk_status b)(h := st)\<rparr>)"
| bk_end: "p \<in> ov_set V \<Longrightarrow> live (bk_status b (ov_key V p)) \<Longrightarrow> terminal st \<Longrightarrow>
    edge (bk_status b (ov_key V p)) st \<Longrightarrow>
    bk_ads b (ov_ad V p) = Some (bal, lk + ov_amt V p, t) \<Longrightarrow>
    bal' \<le> bal \<Longrightarrow> bal \<le> bal' + ov_amt V p \<Longrightarrow> (st = Cancelled \<longrightarrow> bal' = bal) \<Longrightarrow>
    bk_open b (ov_signer V p) = Suc n \<Longrightarrow>
    bk_step V b (b\<lparr>bk_status := (bk_status b)(ov_key V p := st),
      bk_ads := (bk_ads b)(ov_ad V p \<mapsto> (bal', lk, t)),
      bk_open := (bk_open b)(ov_signer V p := n)\<rparr>)"

text \<open>The totals an ad and a signer must match.\<close>

definition live_in :: "('p, 't) orders_view \<Rightarrow> 't book \<Rightarrow> 'p set" where
  "live_in V b = {p \<in> ov_set V. live (bk_status b (ov_key V p))}"

definition reserved :: "('p, 't) orders_view \<Rightarrow> 't book \<Rightarrow> string \<Rightarrow> nat" where
  "reserved V b i = (\<Sum>p \<in> {p \<in> live_in V b. ov_ad V p = i}. ov_amt V p)"

definition positions :: "('p, 't) orders_view \<Rightarrow> 't book \<Rightarrow> bytes32 \<Rightarrow> nat" where
  "positions V b g = card {p \<in> live_in V b. ov_signer V p = g}"

definition terms_of :: "'t book \<Rightarrow> string \<Rightarrow> 't option" where
  "terms_of b i = map_option (\<lambda>(_, _, t). t) (bk_ads b i)"

definition view_ok :: "('p, 't) orders_view \<Rightarrow> bool" where
  "view_ok V \<longleftrightarrow> finite (ov_set V) \<and> inj_on (ov_key V) (ov_set V)"

text \<open>
  The accounts balance: every order with a status is one of the orders in play, an ad's locked part
  is exactly what its live orders reserve and is covered, and a signer's count is its live orders.
\<close>

definition bk_inv :: "('p, 't) orders_view \<Rightarrow> 't book \<Rightarrow> bool" where
  "bk_inv V b \<longleftrightarrow>
     (\<forall>h. bk_status b h \<noteq> StNone \<longrightarrow> h \<in> ov_key V ` ov_set V) \<and>
     (\<forall>i bal lk t. bk_ads b i = Some (bal, lk, t) \<longrightarrow> lk = reserved V b i \<and> lk \<le> bal) \<and>
     (\<forall>p \<in> live_in V b. \<exists>t. terms_of b (ov_ad V p) = Some t \<and> ov_fits V p t) \<and>
     (\<forall>g. bk_open b g = positions V b g)"

definition bk_init :: "'t book" where
  "bk_init = \<lparr>bk_status = (\<lambda>_. StNone), bk_ads = Map.empty, bk_open = (\<lambda>_. 0)\<rparr>"

section \<open>The lifecycle\<close>

lemma edge_live_or_terminal: "edge st st' \<Longrightarrow> live st' \<or> terminal st'"
  by (cases st) auto

lemma terminal_no_edge: "terminal st \<Longrightarrow> \<not> edge st st'"
  by (cases st) auto

inductive_cases bk_stepE: "bk_step V b b'"

text \<open>A step changes at most one status, along an edge.\<close>

lemma bk_step_edge:
  assumes "bk_step V b b'"
  shows "bk_status b' = bk_status b \<or>
    (\<exists>h st. bk_status b' = (bk_status b)(h := st) \<and> edge (bk_status b h) st)"
  using assms by (cases rule: bk_step.cases) (auto 0 3)

lemma bk_step_terminal:
  assumes "bk_step V b b'" "terminal (bk_status b h)"
  shows "bk_status b' h = bk_status b h"
  using bk_step_edge [OF assms(1)] assms(2) terminal_no_edge by fastforce

section \<open>The accounts balance\<close>

lemma live_in_eqI:
  "(\<And>p. p \<in> ov_set V \<Longrightarrow> live (bk_status b' (ov_key V p)) = live (bk_status b (ov_key V p))) \<Longrightarrow>
   live_in V b' = live_in V b"
  by (auto simp: live_in_def)

lemma live_in_insert:
  assumes "view_ok V" "p \<in> ov_set V" "bk_status b' = (bk_status b)(ov_key V p := st)"
  shows "live_in V b' = (if live st then insert p (live_in V b) else live_in V b - {p})"
  using assms unfolding view_ok_def live_in_def by (auto dest: inj_onD)

lemma finite_live_in: "view_ok V \<Longrightarrow> finite (live_in V b)"
  by (simp add: view_ok_def live_in_def)

lemma sum_filter_insert:
  fixes f :: "'p \<Rightarrow> nat"
  assumes "finite A" "p \<notin> A"
  shows "(\<Sum>q \<in> {q \<in> insert p A. P q}. f q) = (if P p then f p else 0) + (\<Sum>q \<in> {q \<in> A. P q}. f q)"
proof -
  have "{q \<in> insert p A. P q} = (if P p then insert p {q \<in> A. P q} else {q \<in> A. P q})" by auto
  then show ?thesis using assms by simp
qed

lemma sum_filter_remove:
  fixes f :: "'p \<Rightarrow> nat"
  assumes "finite A" "p \<in> A"
  shows "(\<Sum>q \<in> {q \<in> A. P q}. f q) = (if P p then f p else 0) + (\<Sum>q \<in> {q \<in> A - {p}. P q}. f q)"
  using sum_filter_insert [where A = "A - {p}" and p = p and P = P and f = f] assms by (simp add: insert_absorb)

lemma positions_sum: "positions V b g = (\<Sum>p \<in> {p \<in> live_in V b. ov_signer V p = g}. 1)"
  by (simp add: positions_def)

lemma bk_inv_init: "bk_inv V bk_init"
  by (simp add: bk_inv_def bk_init_def live_in_def positions_def)

lemma totals_cong:
  assumes "live_in V b' = live_in V b"
  shows "reserved V b' = reserved V b" "positions V b' = positions V b"
  using assms by (auto simp: reserved_def positions_def)

lemma bk_inv_same_ads:
  assumes "bk_inv V b" "live_in V b' = live_in V b" "bk_open b' = bk_open b"
    "\<And>h. bk_status b' h \<noteq> StNone \<Longrightarrow> h \<in> ov_key V ` ov_set V" "bk_ads b' = bk_ads b"
  shows "bk_inv V b'"
  using assms unfolding bk_inv_def terms_of_def totals_cong [OF assms(2)] assms(2,3,5) by blast

lemma bk_inv_one_ad:
  assumes "bk_inv V b" "bk_status b' = bk_status b" "bk_open b' = bk_open b"
    "bk_ads b' = (bk_ads b)(i \<mapsto> (bal, reserved V b i, t))" "reserved V b i \<le> bal"
    "\<And>t'. terms_of b i = Some t' \<Longrightarrow> t' = t"
  shows "bk_inv V b'"
proof -
  have L: "live_in V b' = live_in V b" using assms(2) by (simp add: live_in_def)
  have T: "terms_of b' j = Some t'" if "terms_of b j = Some t'" for j t'
    using that assms(6) by (cases "j = i") (auto simp: terms_of_def assms(4))
  have "\<forall>p \<in> live_in V b. \<exists>t. terms_of b' (ov_ad V p) = Some t \<and> ov_fits V p t"
    using assms(1) T unfolding bk_inv_def by blast
  then show ?thesis
    using assms(1,5) unfolding bk_inv_def totals_cong [OF L] L assms(2-4) by auto
qed

lemma reserved_none:
  assumes "bk_inv V b" "bk_ads b i = None"
  shows "reserved V b i = 0"
proof -
  have "terms_of b i = None" using assms(2) by (simp add: terms_of_def)
  then have none: "{p \<in> live_in V b. ov_ad V p = i} = {}"
    using assms(1) unfolding bk_inv_def by fastforce
  show ?thesis unfolding reserved_def none by simp
qed

lemma bk_inv_ad:
  assumes "bk_inv V b" "bk_ads b i = Some (bal, lk, t)"
  shows "lk = reserved V b i" "lk \<le> bal"
  using assms unfolding bk_inv_def by blast+

lemma bk_inv_lock:
  assumes V: "view_ok V" and inv: "bk_inv V b" and p: "p \<in> ov_set V"
    and st: "bk_status b (ov_key V p) = StNone"
    and ads: "bk_ads b (ov_ad V p) = Some (bal, lk, t)" "lk + ov_amt V p \<le> bal" "ov_fits V p t"
  shows "bk_inv V (b\<lparr>bk_status := (bk_status b)(ov_key V p := Open),
      bk_ads := (bk_ads b)(ov_ad V p \<mapsto> (bal, lk + ov_amt V p, t)),
      bk_open := (bk_open b)(ov_signer V p := Suc (bk_open b (ov_signer V p)))\<rparr>)" (is "bk_inv V ?b")
proof -
  have L: "live_in V ?b = insert p (live_in V b)"
    using live_in_insert [OF V p, of ?b b Open] by simp
  have new: "p \<notin> live_in V b" using st by (simp add: live_in_def)
  have R: "reserved V ?b i = (if ov_ad V p = i then ov_amt V p else 0) + reserved V b i" for i
    unfolding reserved_def L by (rule sum_filter_insert [OF finite_live_in [OF V] new])
  have P: "positions V ?b g = (if ov_signer V p = g then 1 else 0) + positions V b g" for g
    unfolding positions_sum L by (rule sum_filter_insert [OF finite_live_in [OF V] new])
  have "terms_of ?b = terms_of b" using ads(1) by (auto simp: terms_of_def fun_eq_iff)
  then have T: "\<forall>q \<in> insert p (live_in V b). \<exists>t. terms_of ?b (ov_ad V q) = Some t \<and> ov_fits V q t"
    using inv ads unfolding bk_inv_def by (auto simp: terms_of_def)
  have A: "x = reserved V ?b i \<and> x \<le> y" if "bk_ads ?b i = Some (y, x, u)" for i x y u
    using that ads bk_inv_ad [OF inv] R [of i] by (cases "i = ov_ad V p") fastforce+
  have O: "bk_open ?b g = positions V ?b g" for g
    using inv P [of g] unfolding bk_inv_def by auto
  have D: "k \<in> ov_key V ` ov_set V" if "bk_status ?b k \<noteq> StNone" for k
    using inv p that unfolding bk_inv_def by (auto split: if_splits)
  show ?thesis unfolding bk_inv_def L using T A O D by blast
qed

lemma bk_inv_end:
  assumes V: "view_ok V" and inv: "bk_inv V b" and p: "p \<in> ov_set V"
    and st: "live (bk_status b (ov_key V p))" "terminal st"
    and ads: "bk_ads b (ov_ad V p) = Some (bal, lk + ov_amt V p, t)" "bal \<le> bal' + ov_amt V p"
    and n: "bk_open b (ov_signer V p) = Suc n"
  shows "bk_inv V (b\<lparr>bk_status := (bk_status b)(ov_key V p := st),
      bk_ads := (bk_ads b)(ov_ad V p \<mapsto> (bal', lk, t)),
      bk_open := (bk_open b)(ov_signer V p := n)\<rparr>)" (is "bk_inv V ?b")
proof -
  have "\<not> live st" using st(2) by (cases st) auto
  then have L: "live_in V ?b = live_in V b - {p}"
    using live_in_insert [OF V p, of ?b b st] by simp
  have old: "p \<in> live_in V b" using st p by (simp add: live_in_def)
  have R: "reserved V b i = (if ov_ad V p = i then ov_amt V p else 0) + reserved V ?b i" for i
    unfolding reserved_def L by (rule sum_filter_remove [OF finite_live_in [OF V] old])
  have P: "positions V b g = (if ov_signer V p = g then 1 else 0) + positions V ?b g" for g
    unfolding positions_sum L by (rule sum_filter_remove [OF finite_live_in [OF V] old])
  have "terms_of ?b = terms_of b" using ads(1) by (auto simp: terms_of_def fun_eq_iff)
  then have T: "\<forall>q \<in> live_in V b - {p}. \<exists>t. terms_of ?b (ov_ad V q) = Some t \<and> ov_fits V q t"
    using inv unfolding bk_inv_def by auto
  have A: "x = reserved V ?b i \<and> x \<le> y" if "bk_ads ?b i = Some (y, x, u)" for i x y u
    using that ads bk_inv_ad [OF inv] R [of i] by (cases "i = ov_ad V p") fastforce+
  have O: "bk_open ?b g = positions V ?b g" for g
    using inv n P [of g] unfolding bk_inv_def by (auto split: if_splits)
  have D: "k \<in> ov_key V ` ov_set V" if "bk_status ?b k \<noteq> StNone" for k
    using inv p that unfolding bk_inv_def by (auto split: if_splits)
  show ?thesis unfolding bk_inv_def L using T A O D by blast
qed

lemma bk_inv_step:
  assumes V: "view_ok V" and inv: "bk_inv V b" and step: "bk_step V b b'"
  shows "bk_inv V b'"
  using step
proof (cases rule: bk_step.cases)
  case bk_idle
  with inv show ?thesis by simp
next
  case (bk_create i bal t)
  then show ?thesis
    by (intro bk_inv_one_ad [OF inv, of b' i bal t]) (simp_all add: reserved_none [OF inv] terms_of_def)
next
  case (bk_fund i bal lk t bal')
  moreover from this have "lk = reserved V b i" using inv by (auto simp: bk_inv_def)
  ultimately show ?thesis by (intro bk_inv_one_ad [OF inv, of b' i bal' t]) (simp_all add: terms_of_def)
next
  case (bk_lock p bal lk t)
  with V inv show ?thesis by (simp add: bk_inv_lock)
next
  case (bk_void p)
  then have "live_in V b' = live_in V b"
    using live_in_insert [OF V, of p b' b Cancelled] by (auto simp: live_in_def)
  then show ?thesis
  proof (rule bk_inv_same_ads [OF inv])
    show "h \<in> ov_key V ` ov_set V" if "bk_status b' h \<noteq> StNone" for h
      using that bk_void inv by (cases "h = ov_key V p") (auto simp: bk_inv_def)
  qed (use bk_void in simp_all)
next
  case (bk_move h st)
  then have "live_in V b' = live_in V b" by (intro live_in_eqI) auto
  then show ?thesis
  proof (rule bk_inv_same_ads [OF inv])
    have "bk_status b h \<noteq> StNone" using bk_move by auto
    then show "k \<in> ov_key V ` ov_set V" if "bk_status b' k \<noteq> StNone" for k
      using that bk_move inv by (cases "k = h") (auto simp: bk_inv_def)
  qed (use bk_move in simp_all)
next
  case (bk_end p st bal lk t bal' n)
  with V inv show ?thesis by (simp add: bk_inv_end)
qed

text \<open>While the accounts balance, the end of a live order never underflows.\<close>

lemma bk_inv_covers:
  assumes "view_ok V" "bk_inv V b" "p \<in> live_in V b"
  obtains bal lk t n where "bk_ads b (ov_ad V p) = Some (bal, lk + ov_amt V p, t)"
    "lk + ov_amt V p \<le> bal" "ov_fits V p t" "bk_open b (ov_signer V p) = Suc n"
proof -
  have fin: "finite (live_in V b)" using assms(1) by (rule finite_live_in)
  from assms obtain t where "terms_of b (ov_ad V p) = Some t" and t: "ov_fits V p t"
    unfolding bk_inv_def by blast
  then obtain bal l where a: "bk_ads b (ov_ad V p) = Some (bal, l, t)"
    by (auto simp: terms_of_def)
  have l: "l = reserved V b (ov_ad V p)" "l \<le> bal" using bk_inv_ad [OF assms(2) a] by auto
  have "ov_amt V p \<le> l" unfolding l(1) reserved_def
    by (rule member_le_sum) (use fin assms(3) in auto)
  moreover have "0 < positions V b (ov_signer V p)"
    unfolding positions_def using fin assms(3) by (auto simp: card_gt_0_iff)
  moreover have "bk_open b (ov_signer V p) = positions V b (ov_signer V p)"
    using assms(2) by (simp add: bk_inv_def)
  ultimately show ?thesis
    using a l t that [of bal "l - ov_amt V p" t "bk_open b (ov_signer V p) - 1"] by auto
qed

text \<open>The terms of an ad never change.\<close>

lemma bk_step_terms:
  assumes "bk_step V b b'" "terms_of b i = Some t"
  shows "terms_of b' i = Some t"
  using assms by (cases rule: bk_step.cases) (auto simp: terms_of_def)

end
