(* ===== verification/Escrow_Facts.thy ===== *)
theory Escrow_Facts
  imports Escrow_Ops
begin

text \<open>
  What the operations of \<open>Escrow_Ops\<close> do to the store when they return, for both escrows: each fact
  turns "the call returned that store" into the guards it passed and the writes it made.
\<close>

section \<open>Guards\<close>

lemma require_presentable_Ok [res_simps]:
  "require_presentable s h = Inr u \<longleftrightarrow> live (get_order_status s h)"
  by (simp add: require_presentable_def split: status.splits)

lemma require_status_Ok [res_simps]: "require_status s h st = Inr u \<longleftrightarrow> get_order_status s h = st"
  by (simp add: require_status_def)

lemma require_reached_Ok [res_simps]: "require_reached E t = Inr u \<longleftrightarrow> t \<le> now E"
  by (auto simp: require_reached_def not_less)

lemma require_finalizable_Ok [res_simps]:
  "require_finalizable E s h b = Inr u \<longleftrightarrow>
     get_order_status s h = Claimed \<and> window_end s h 0 b \<le> now E"
  by (simp add: require_finalizable_def res_simps)

section \<open>Writes\<close>

lemma with_timelock_Ok [res_simps]:
  "with_timelock f s = Inr s' \<longleftrightarrow> (\<exists>tlk. f (st_timelock s) = Inr tlk \<and> s' = s\<lparr>st_timelock := tlk\<rparr>)"
  by (auto simp: with_timelock_def res_simps)

lemma set_root_verifier_eq:
  "set_root_verifier E c m s = s\<lparr>st_root_verifiers := (st_root_verifiers s)(c \<mapsto> m),
     st_rv_changed := (st_rv_changed s)(c \<mapsto> now E),
     st_wired_chains := (if c \<in> set (st_wired_chains s) then st_wired_chains s
       else st_wired_chains s @ [c])\<rparr>"
  by (simp add: set_root_verifier_def store_root_verifier_def add_wired_chain_def)

lemma set_root_verifier_gated_store:
  assumes "set_root_verifier_gated E adm c m s = Inr s'"
  obtains tlk where "gate_keyed E adm ''set_root_verifier'' [VU128 c, VAddr m]
      (Some (root_verifier_key E c)) (st_timelock s) = Inr tlk"
    "s' = set_root_verifier E c m (s\<lparr>st_timelock := tlk\<rparr>)"
  using assms by (auto simp: set_root_verifier_gated_def res_simps)

lemma count_out_Ok [res_simps]:
  "count_out g s = Inr s' \<longleftrightarrow>
     (\<exists>n. unat (get_in_flight s g) = Suc (unat n) \<and> s' = set_in_flight g n s)"
  by (auto simp: count_out_def res_simps chk_simps)

lemma pay_or_credit_Ok:
  "(pay_or_credit X E wn r t a (s, w) :: ('e, 'a escrow_store_scheme \<times> 'w) res) = Inr (s', w') \<longleftrightarrow>
     (try_transfer_to_recipient X E t wn r a w = Some w' \<and> s' = s) \<or>
     (try_transfer_to_recipient X E t wn r a w = None \<and> w' = w \<and>
      (\<exists>owed. unat owed = unat (get_claimable s r t) + unat a \<and> s' = set_claimable r t owed s))"
  by (auto simp: pay_or_credit_def res_simps chk_simps split: option.splits)

lemma set_claimable_upd: "\<exists>cl. set_claimable r t n s = s\<lparr>st_claimables := cl\<rparr>"
  by (simp add: set_claimable_def) blast

lemma pay_or_credit_store:
  assumes "(pay_or_credit X E wn r t a (s, w) :: ('e, 'a escrow_store_scheme \<times> 'w) res) = Inr (s', w')"
  shows "\<exists>cl. s' = s\<lparr>st_claimables := cl\<rparr>"
proof (cases "s' = s")
  case True
  then have "s' = s\<lparr>st_claimables := st_claimables s\<rparr>" by simp
  then show ?thesis by blast
next
  case False
  then obtain owed where "s' = set_claimable r t owed s" using assms by (auto simp: pay_or_credit_Ok)
  with set_claimable_upd show ?thesis by metis
qed

lemma record_settled_store:
  "record_settled X E mm h (s, w) = Inr (s', w') \<longleftrightarrow>
     get_order_status s h = Filled \<and> \<not> is_settled_recorded s h \<and>
     mm_append X E mm (self E) h LEAF_DOMAIN_SETTLED w = Some w' \<and> s' = set_settled_recorded h s"
  by (auto simp: record_settled_def Let_def res_simps)

lemma set_route_timing_Ok [res_simps]:
  "set_route_timing c t s = Inr s' \<longleftrightarrow> timing_ok t \<and>
     (\<exists>v. unat v = unat (get_timing_version s c) + 1 \<and>
        s' = s\<lparr>st_timings := (st_timings s)((c, v) \<mapsto> t),
               st_timing_versions := (st_timing_versions s)(c \<mapsto> v)\<rparr>)"
  by (auto simp add: set_route_timing_def timing_ok_def attempt_Ok map_err_Ok split_paired_Ex
      push_route_timing_Ok)

end
