(* ===== verification/Ad_Refinement.thy ===== *)
theory Ad_Refinement
  imports Ad_Calls Ad_Book Escrow_Facts
begin

text \<open>
  Every call of the ad-manager is a step of the book (\<open>Ad_Book\<close>). First what each operation does to
  the store, then the simulation, and the accounting invariant of the reachable states.
\<close>

section \<open>The abstraction\<close>

text \<open>The terms of an ad: what its creation fixes and nothing changes.\<close>

type_synonym ad_terms = "address \<times> bytes32 \<times> u128 \<times> bytes32 \<times> bytes32"

definition ad_terms :: "ad \<Rightarrow> ad_terms" where
  "ad_terms a =
     (ad_maker a, ad_token a, ad_order_chain_id a, ad_recipient a, ad_order_chain_token a)"

definition ad_row :: "ad \<Rightarrow> nat \<times> nat \<times> ad_terms" where
  "ad_row a = (unat (ad_balance a), unat (ad_locked a), ad_terms a)"

definition book_of :: "ad_store \<Rightarrow> ad_terms book" where
  "book_of s = \<lparr>bk_status = get_order_status s,
     bk_ads = (\<lambda>i. map_option ad_row (am_ads s i)),
     bk_open = (\<lambda>g. unat (get_in_flight s g))\<rparr>"

text \<open>The hash of an order on this chain, and the amount it reserves.\<close>

definition hash_raw :: "crypto \<Rightarrow> u128 \<Rightarrow> address \<Rightarrow> order_params \<Rightarrow> bytes32" where
  "hash_raw C cid me p = typed_order_hash C
     \<lparr>eo_order_chain_token = p_order_chain_token p, eo_ad_chain_token = p_ad_chain_token p,
      eo_amount = p_amount p, eo_bridger = p_bridger p, eo_order_chain_id = p_order_chain_id p,
      eo_order_portal = p_src_order_portal p, eo_order_recipient = p_order_recipient p,
      eo_ad_chain_id = cid, eo_ad_manager = address_to_bytes32 me,
      eo_ad_id_hash = keccak256 C (string_bytes (p_ad_id p)), eo_ad_creator = p_ad_creator p,
      eo_ad_recipient = p_ad_recipient p, eo_salt = p_salt p,
      eo_order_decimals = p_order_decimals p, eo_ad_decimals = p_ad_decimals p,
      eo_deadline = p_deadline p, eo_ad_settlement_signer = p_ad_settlement_signer p,
      eo_lp_fee_bps = p_lp_fee_bps p, eo_protocol_fee_bps = p_protocol_fee_bps p\<rparr>"

definition amt_of :: "order_params \<Rightarrow> nat" where
  "amt_of p = (case ad_amount p of Inr a \<Rightarrow> unat a | Inl _ \<Rightarrow> 0)"

text \<open>What every lock has checked of an order against the terms of its ad.\<close>

definition fits :: "order_params \<Rightarrow> ad_terms \<Rightarrow> bool" where
  "fits p = (\<lambda>(maker, tok, c, rcpt, order_tok).
     length (p_ad_id p) \<le> 1024 \<and> (\<exists>a. ad_amount p = Inr a) \<and> p_amount p \<noteq> 0 \<and>
     p_ad_chain_token p = tok \<and> p_order_chain_id p = c \<and> p_ad_recipient p = rcpt \<and>
     p_order_chain_token p = order_tok \<and> p_ad_creator p = address_to_bytes32 maker \<and>
     p_order_recipient p \<noteq> 0 \<and> p_order_recipient p \<noteq> p_ad_creator p \<and> p_bridger p \<noteq> 0)"

definition ad_view ::
  "crypto \<Rightarrow> u128 \<Rightarrow> address \<Rightarrow> order_params set \<Rightarrow> (order_params, ad_terms) orders_view" where
  "ad_view C cid me S = \<lparr>ov_set = S, ov_key = hash_raw C cid me, ov_ad = p_ad_id, ov_amt = amt_of,
     ov_signer = p_ad_settlement_signer, ov_fits = fits\<rparr>"

lemma order_hash_Ok [res_simps]:
  "order_hash E cfg p = Inr h \<longleftrightarrow>
     length (p_ad_id p) \<le> 1024 \<and> h = hash_raw (prims E) (chain_id cfg) (self E) p"
  by (auto simp: order_hash_def order_of_def abi_encode_string_def hash_raw_def res_simps)

lemma ad_amount_amt: "ad_amount p = Inr a \<Longrightarrow> unat a = amt_of p"
  by (simp add: amt_of_def)

text \<open>What the writes do to the book.\<close>

lemma book_of_set_order [store_simps]:
  "book_of (set_order h r s) = (book_of s)\<lparr>bk_status := (bk_status (book_of s))(h := status r)\<rparr>"
  by (auto simp: book_of_def get_order_status_def get_order_def get_in_flight_def set_order_def)

lemma book_of_set_ad [store_simps]:
  "book_of (set_ad i a s) =
     (book_of s)\<lparr>bk_ads := (bk_ads (book_of s))(i \<mapsto> ad_row a)\<rparr>"
  by (auto simp: book_of_def get_order_status_def get_order_def get_in_flight_def set_ad_def)

lemma book_of_set_in_flight [store_simps]:
  "book_of (set_in_flight g n s) = (book_of s)\<lparr>bk_open := (bk_open (book_of s))(g := unat n)\<rparr>"
  by (auto simp: book_of_def get_order_status_def get_order_def get_in_flight_def set_in_flight_def)

lemma book_of_frame [store_simps]:
  "book_of (remove_claim h s) = book_of s"
  "book_of (set_claim h c s) = book_of s"
  "book_of (set_nullifier_used n s) = book_of s"
  "book_of (set_settled_recorded h s) = book_of s"
  "book_of (set_order_dispute_manager h m s) = book_of s"
  "book_of (set_claimable rc t u s) = book_of s"
  "book_of (s\<lparr>st_claimables := cl\<rparr>) = book_of s"
  by (auto simp: book_of_def get_order_status_def get_order_def get_in_flight_def remove_claim_def
      set_claim_def set_nullifier_used_def set_settled_recorded_def set_order_dispute_manager_def
      set_claimable_def)

lemma book_of_sel [store_simps]:
  "bk_status (book_of s) h = get_order_status s h"
  "bk_ads (book_of s) i = map_option ad_row (am_ads s i)"
  "bk_open (book_of s) g = unat (get_in_flight s g)"
  by (simp_all add: book_of_def)

lemma ad_terms_update [simp]:
  "ad_terms (a\<lparr>ad_balance := x\<rparr>) = ad_terms a" "ad_terms (a\<lparr>ad_locked := x\<rparr>) = ad_terms a"
  "ad_terms (a\<lparr>ad_open := b\<rparr>) = ad_terms a" "ad_terms (a\<lparr>ad_settlement_signer := g\<rparr>) = ad_terms a"
  by (simp_all add: ad_terms_def)

lemma validate_order_fits:
  assumes "validate_order s a p = Inr u" "length (p_ad_id p) \<le> 1024" "ad_amount p = Inr amt"
  shows "fits p (ad_terms a)"
  using assms by (auto simp: validate_order_def fits_def ad_terms_def is_zero_bytes32_def res_simps)

text \<open>Writes that are the others in disguise.\<close>

lemmas order_write_defs = open_order_def set_order_status_def set_pinned_slot_def

section \<open>What the shared operations do\<close>

lemma close_dispute_store: "close_dispute X E h out p (s, w) = Inr (s', w') \<Longrightarrow> s' = s"
  by (auto simp: close_dispute_def close_dispute_by_evidence_def Let_def res_simps
      split: option.splits if_splits)

lemma pay_net_Ok:
  "pay_net X E cfg r t net fee (s, w) = Inr (s', w') \<longleftrightarrow>
     (\<exists>s1 w1. (pay_or_credit X E (w_native_token cfg) r t net (s, w) :: (ad_error, _) res) = Inr (s1, w1) \<and>
        (if fee = 0 \<or> pool (get_fees s1) = None then s' = s1 \<and> w' = w1
         else (pay_or_credit X E (w_native_token cfg) (the (pool (get_fees s1))) t fee (s1, w1)
           :: (ad_error, _) res) = Inr (s', w')))"
proof (cases "pay_or_credit X E (w_native_token cfg) r t net (s, w) :: (ad_error, _) res")
  case (Inl e)
  then show ?thesis by (simp add: pay_net_def)
next
  case (Inr sw)
  then show ?thesis by (cases sw) (auto simp: pay_net_def split: option.split)
qed

lemma pay_net_store:
  assumes "pay_net X E cfg r t net fee (s, w) = Inr (s', w')"
  shows "\<exists>cl. s' = s\<lparr>st_claimables := cl\<rparr>"
proof -
  from assms obtain s1 w1 where
    1: "(pay_or_credit X E (w_native_token cfg) r t net (s, w) :: (ad_error, _) res) = Inr (s1, w1)"
    and 2: "s' = s1 \<or>
      (\<exists>pl. (pay_or_credit X E (w_native_token cfg) pl t fee (s1, w1) :: (ad_error, _) res) = Inr (s', w'))"
    unfolding pay_net_Ok by (metis (full_types))
  from pay_or_credit_store [OF 1] obtain c where s1: "s1 = s\<lparr>st_claimables := c\<rparr>" by blast
  from 2 have "s' = s1 \<or> (\<exists>cl. s' = s1\<lparr>st_claimables := cl\<rparr>)" using pay_or_credit_store by metis
  with s1 show ?thesis by fastforce
qed

lemma charge_fee_Ok:
  assumes "charge_fee a p amt forfeit = Inr ((net, fee), a')"
  obtains bal where "a' = a\<lparr>ad_balance := bal\<rparr>" "unat bal \<le> unat (ad_balance a)"
    "unat (ad_balance a) = unat bal + unat net + unat fee" "unat net + unat fee \<le> unat amt"
  using assms
  by (clarsimp simp: charge_fee_def Let_def attempt_Ok csub_Ok)

lemma pay_from_ad_store:
  assumes "pay_from_ad X E cfg p (s, w) = Inr (s', w')"
  obtains a amt lk bal cl where "ad_amount p = Inr amt" "am_ads s (p_ad_id p) = Some a"
    "unat (ad_locked a) = unat amt + unat lk"
    "unat bal \<le> unat (ad_balance a)" "unat (ad_balance a) \<le> unat bal + unat amt"
    "s' = (set_ad (p_ad_id p) (a\<lparr>ad_locked := lk, ad_balance := bal\<rparr>) s)\<lparr>st_claimables := cl\<rparr>"
proof -
  from assms obtain amt a lk net fee a' where 1: "ad_amount p = Inr amt"
    "am_ads s (p_ad_id p) = Some a" "unat (ad_locked a) = unat amt + unat lk"
    and 2: "charge_fee (a\<lparr>ad_locked := lk\<rparr>) p amt False = Inr ((net, fee), a')"
    and 3: "pay_net X E cfg (p_order_recipient p) (ad_token a) net fee (set_ad (p_ad_id p) a' s, w) =
        Inr (s', w')"
    by (auto simp: pay_from_ad_def get_ad_def res_simps chk_simps)
  from 2 obtain bal where 4: "a' = a\<lparr>ad_locked := lk, ad_balance := bal\<rparr>"
    "unat bal \<le> unat (ad_balance a)" "unat (ad_balance a) \<le> unat bal + unat amt"
    by (rule charge_fee_Ok) auto
  from pay_net_store [OF 3] obtain cl where
    "s' = (set_ad (p_ad_id p) a' s)\<lparr>st_claimables := cl\<rparr>" by blast
  with 1 4 show ?thesis by (intro that [of amt a lk bal cl]) auto
qed

end
