(* ===== verification/Ad_Simulation.thy ===== *)
theory Ad_Simulation
  imports Ad_Refinement
begin

text \<open>
  The simulation: each entry point of the ad-manager, call by call, is a step of the book. The view
  \<open>V\<close> is the one of the contract's own address and chain id; \<open>p\<close> is an order in play.
\<close>

section \<open>Steps of the book in the shape the calls produce them\<close>

lemma bk_end_ad:
  assumes "p \<in> S" "live (get_order_status s h)" "terminal st" "edge (get_order_status s h) st"
    "h = hash_raw C cid me p" "am_ads s (p_ad_id p) = Some a"
    "unat (ad_locked a) = amt_of p + unat lk" "unat bal \<le> unat (ad_balance a)"
    "unat (ad_balance a) \<le> unat bal + amt_of p" "st = Cancelled \<longrightarrow> bal = ad_balance a"
    "unat (get_in_flight s (p_ad_settlement_signer p)) = Suc (unat n)"
    "b' = (book_of s)\<lparr>bk_status := (bk_status (book_of s))(h := st),
       bk_ads := (bk_ads (book_of s))(p_ad_id p \<mapsto> (unat bal, unat lk, ad_terms a)),
       bk_open := (bk_open (book_of s))(p_ad_settlement_signer p := unat n)\<rparr>"
  shows "bk_step (ad_view C cid me S) (book_of s) b'"
  using bk_end [of p "ad_view C cid me S" "book_of s" st "unat (ad_balance a)" "unat lk" "ad_terms a"
      "unat bal" "unat n"]
    assms by (simp add: ad_view_def store_simps add.commute ad_row_def)

lemma bk_move_ad:
  assumes "live (get_order_status s h)" "live st" "edge (get_order_status s h) st"
    "b' = (book_of s)\<lparr>bk_status := (bk_status (book_of s))(h := st)\<rparr>"
  shows "bk_step V (book_of s) b'"
  using bk_move [of "book_of s" h st V] assms by (simp add: store_simps)

lemma bk_same: "book_of s' = book_of s \<Longrightarrow> bk_step V (book_of s) (book_of s')"
  by (simp add: bk_idle)

section \<open>Order calls\<close>

lemma require_settleable_Ok [res_simps]: "require_settleable s h = Inr u \<longleftrightarrow> live (get_order_status s h)"
  by (simp add: require_settleable_def split: status.splits)

lemma live_edge_Filled: "live st \<Longrightarrow> edge st Filled"
  by (cases st) auto

text \<open>The settle part the co-signed unlock and the settle by evidence share.\<close>

definition settle_part ::
  "'w ext \<Rightarrow> env \<Rightarrow> contract_config \<Rightarrow> order_params \<Rightarrow> bytes32 \<Rightarrow> ad_store \<times> 'w \<Rightarrow>
   (ad_error, ad_store \<times> 'w) res" where
  "settle_part X E cfg p h sw =
     attempt (close_dispute X E h TradeProceeds p sw) (\<lambda>(s2, w2).
     attempt (fill h (p_ad_settlement_signer p) s2) (\<lambda>s3. pay_from_ad X E cfg p (s3, w2)))"

lemma settle_part_store:
  assumes "settle_part X E cfg p h (s, w) = Inr (s', w')"
  obtains a lk bal n cl where "am_ads s (p_ad_id p) = Some a"
    "unat (ad_locked a) = amt_of p + unat lk" "unat bal \<le> unat (ad_balance a)"
    "unat (ad_balance a) \<le> unat bal + amt_of p"
    "unat (get_in_flight s (p_ad_settlement_signer p)) = Suc (unat n)"
    "s' = (set_ad (p_ad_id p) (a\<lparr>ad_locked := lk, ad_balance := bal\<rparr>)
       (set_in_flight (p_ad_settlement_signer p) n
         (remove_claim h (set_order_status h Filled s))))\<lparr>st_claimables := cl\<rparr>"
proof -
  from assms obtain s2 w2 s3 where 1: "close_dispute X E h TradeProceeds p (s, w) = Inr (s2, w2)"
    and 2: "(fill h (p_ad_settlement_signer p) s2 :: (ad_error, _) res) = Inr s3"
    and 3: "pay_from_ad X E cfg p (s3, w2) = Inr (s', w')"
    by (auto simp: settle_part_def res_simps)
  have s2: "s2 = s" using 1 by (rule close_dispute_store)
  let ?g = "p_ad_settlement_signer p"
  from 2 s2 obtain n where n: "unat (get_in_flight s ?g) = Suc (unat n)"
    "s3 = set_in_flight ?g n (remove_claim h (set_order_status h Filled s))"
    by (auto simp: fill_def res_simps get_in_flight_def remove_claim_def set_order_status_def
        set_order_def)
  from 3 obtain a amt lk bal cl where 4: "ad_amount p = Inr amt" "am_ads s3 (p_ad_id p) = Some a"
    "unat (ad_locked a) = unat amt + unat lk"
    "unat bal \<le> unat (ad_balance a)" "unat (ad_balance a) \<le> unat bal + unat amt"
    "s' = (set_ad (p_ad_id p) (a\<lparr>ad_locked := lk, ad_balance := bal\<rparr>) s3)\<lparr>st_claimables := cl\<rparr>"
    by (rule pay_from_ad_store)
  have "am_ads s3 = am_ads s" using n by (simp add: store_simps)
  with 4 n show ?thesis by (intro that [of a lk bal n cl]) (auto simp: amt_of_def)
qed

lemma settle_part_book:
  assumes "settle_part X E cfg p h (s, w) = Inr (s', w')" "p \<in> S" "h = hash_raw C cid me p"
    "live (get_order_status s h)"
  shows "bk_step (ad_view C cid me S) (book_of s) (book_of s')"
proof -
  from assms(1) obtain a lk bal n cl where a: "am_ads s (p_ad_id p) = Some a"
    "unat (ad_locked a) = amt_of p + unat lk" "unat bal \<le> unat (ad_balance a)"
    "unat (ad_balance a) \<le> unat bal + amt_of p"
    "unat (get_in_flight s (p_ad_settlement_signer p)) = Suc (unat n)"
    and s': "s' = (set_ad (p_ad_id p) (a\<lparr>ad_locked := lk, ad_balance := bal\<rparr>)
       (set_in_flight (p_ad_settlement_signer p) n
         (remove_claim h (set_order_status h Filled s))))\<lparr>st_claimables := cl\<rparr>"
    by (rule settle_part_store)
  show ?thesis
    by (rule bk_end_ad [where st = Filled and lk = lk and bal = bal and n = n, OF assms(2,4) _ _ assms(3) a(1)])
      (use a assms(4) in \<open>simp_all add: s' store_simps set_order_status_def live_edge_Filled ad_row_def\<close>)
qed

lemma unlock_settles:
  assumes "unlock X E p nu root pf cosig (s, w) = Inr (s', w')"
  obtains cfg h where "st_config s = Some cfg" "h = hash_raw (prims E) (chain_id cfg) (self E) p"
    "live (get_order_status s h)" "\<not> is_nullifier_used s nu"
    "settle_part X E cfg p h (set_nullifier_used nu s, w) = Inr (s', w')"
  using assms unfolding unlock_def settle_part_def
  by (clarsimp simp: res_simps)

lemma present_settled_settles:
  assumes "present_settled X E p root pf (s, w) = Inr (s', w')"
  obtains cfg h where "st_config s = Some cfg" "h = hash_raw (prims E) (chain_id cfg) (self E) p"
    "live (get_order_status s h)" "settle_part X E cfg p h (s, w) = Inr (s', w')"
  using assms unfolding present_settled_def settle_part_def Let_def
  by (clarsimp simp: res_simps)

text \<open>The lock.\<close>

lemma lock_store:
  assumes "lock_for_order X E p slot (s, w) = Inr (h, s', w')"
  obtains cfg a lk n tv delay where "st_config s = Some cfg" "am_ads s (p_ad_id p) = Some a"
    "h = hash_raw (prims E) (chain_id cfg) (self E) p" "get_order_status s h = StNone"
    "validate_order s a p = Inr ()" "authed E (ad_maker a)" "\<not> st_paused s"
    "fits p (ad_terms a)" "unat lk = unat (ad_locked a) + amt_of p" "unat lk \<le> unat (ad_balance a)"
    "unat n = Suc (unat (get_in_flight s (p_ad_settlement_signer p)))"
    "require_min_window E s (p_order_chain_id p) (p_deadline p) = Inr tv"
    "mm_append X E (merkle_manager cfg) (self E) h LEAF_DOMAIN_ORDER w = Some w'"
    "s' = set_in_flight (p_ad_settlement_signer p) n
       (open_order E h tv (get_registry_epoch s) (u32_clamp delay) slot
         (set_ad (p_ad_id p) (a\<lparr>ad_locked := lk\<rparr>) s))"
proof -
  from assms obtain cfg a amt avail lk n tv delay where 1: "st_config s = Some cfg"
    "am_ads s (p_ad_id p) = Some a" "h = hash_raw (prims E) (chain_id cfg) (self E) p"
    "get_order_status s h = StNone" "validate_order s a p = Inr ()" "authed E (ad_maker a)"
    "\<not> st_paused s" "ad_amount p = Inr amt" "unat (ad_balance a) = unat (ad_locked a) + unat avail"
    "\<not> amt > avail" "unat lk = unat (ad_locked a) + unat amt"
    "require_min_window E s (p_order_chain_id p) (p_deadline p) = Inr tv"
    "mm_append X E (merkle_manager cfg) (self E) h LEAF_DOMAIN_ORDER w = Some w'"
    and n: "unat n = unat (get_in_flight (open_order E h tv
        (get_registry_epoch (set_ad (p_ad_id p) (a\<lparr>ad_locked := lk\<rparr>) s)) (u32_clamp delay) slot
        (set_ad (p_ad_id p) (a\<lparr>ad_locked := lk\<rparr>) s)) (p_ad_settlement_signer p)) + unat (1 :: u64)"
    and s': "s' = set_in_flight (p_ad_settlement_signer p) n
       (open_order E h tv (get_registry_epoch (set_ad (p_ad_id p) (a\<lparr>ad_locked := lk\<rparr>) s))
         (u32_clamp delay) slot (set_ad (p_ad_id p) (a\<lparr>ad_locked := lk\<rparr>) s))"
    unfolding lock_for_order_def Let_def
    by (clarsimp simp: res_simps cadd_Ok csub_Ok get_ad_def split: if_splits)
  have len: "length (p_ad_id p) \<le> 1024"
    using assms unfolding lock_for_order_def Let_def by (clarsimp simp: res_simps split: if_splits)
  have ep: "get_registry_epoch (set_ad i x s) = get_registry_epoch s" for i x
    by (simp add: get_registry_epoch_def set_ad_def)
  have fl: "get_in_flight (open_order E k tv ep d slot (set_ad i x s)) g = get_in_flight s g"
    for k ep d i x g
    by (simp add: get_in_flight_def open_order_def store_simps)
  show ?thesis
    by (rule that [OF 1(1,2,3,4,5,6,7) _ _ _ _ 1(12,13), of lk n delay])
      (use 1 n s' len in \<open>auto simp: amt_of_def ep fl word_less_nat_alt intro: validate_order_fits\<close>)
qed

lemma lock_book:
  assumes "lock_for_order X E p slot (s, w) = Inr (h, s', w')" "p \<in> S"
    "st_config s = Some cfg" "prims E = C" "self E = me" "chain_id cfg = cid"
  shows "bk_step (ad_view C cid me S) (book_of s) (book_of s')"
proof -
  let ?V = "ad_view C cid me S"
  from assms obtain a lk n tv delay where a: "am_ads s (p_ad_id p) = Some a"
    "get_order_status s h = StNone" "h = hash_raw C cid me p" "fits p (ad_terms a)"
    "unat lk = unat (ad_locked a) + amt_of p" "unat lk \<le> unat (ad_balance a)"
    "unat n = Suc (unat (get_in_flight s (p_ad_settlement_signer p)))"
    and s': "s' = set_in_flight (p_ad_settlement_signer p) n
       (open_order E h tv (get_registry_epoch s) (u32_clamp delay) slot
         (set_ad (p_ad_id p) (a\<lparr>ad_locked := lk\<rparr>) s))"
    by (elim lock_store) auto
  have "book_of s' = (book_of s)\<lparr>bk_status := (bk_status (book_of s))(ov_key ?V p := Open),
      bk_ads := (bk_ads (book_of s))(ov_ad ?V p \<mapsto> (unat (ad_balance a), unat (ad_locked a) + ov_amt ?V p, ad_terms a)),
      bk_open := (bk_open (book_of s))(ov_signer ?V p := Suc (bk_open (book_of s) (ov_signer ?V p)))\<rparr>"
    using a by (simp add: s' open_order_def store_simps ad_view_def ad_row_def)
  moreover have "bk_step ?V (book_of s) \<dots>"
    by (rule bk_lock) (use a assms(2) in \<open>auto simp: ad_view_def store_simps ad_row_def\<close>)
  ultimately show ?thesis by simp
qed

text \<open>The cancels.\<close>

lemma finalize_cancel_book:
  assumes "finalize_cancel X E p (s, w) = Inr (s', w')" "p \<in> S"
    "st_config s = Some cfg" "prims E = C" "self E = me" "chain_id cfg = cid"
  shows "bk_step (ad_view C cid me S) (book_of s) (book_of s')"
proof -
  let ?g = "p_ad_settlement_signer p"
  from assms obtain h a amt lk where h: "h = hash_raw C cid me p"
    "get_order_status s h = Claimed" "am_ads s (p_ad_id p) = Some a" "ad_amount p = Inr amt"
    "unat (ad_locked a) = unat amt + unat lk"
    and c: "(cancel h ?g (set_ad (p_ad_id p) (a\<lparr>ad_locked := lk\<rparr>) s) :: (ad_error, _) res) = Inr s'"
    unfolding finalize_cancel_def by (clarsimp simp: res_simps csub_Ok get_ad_def)
  let ?s1 = "remove_claim h (set_order_status h Cancelled (set_ad (p_ad_id p) (a\<lparr>ad_locked := lk\<rparr>) s))"
  from c obtain n where n: "unat (get_in_flight ?s1 ?g) = Suc (unat n)" "s' = set_in_flight ?g n ?s1"
    by (auto simp: cancel_def res_simps)
  have fl: "get_in_flight ?s1 ?g = get_in_flight s ?g"
    by (simp add: get_in_flight_def remove_claim_def set_order_status_def store_simps)
  show ?thesis
    by (rule bk_end_ad [where st = Cancelled and lk = lk and bal = "ad_balance a" and n = n,
          OF assms(2) _ _ _ h(1,3)])
      (use h n fl in \<open>simp_all add: store_simps set_order_status_def amt_of_def ad_row_def\<close>)
qed

lemma cancel_never_locked_book:
  assumes "cancel_never_locked X E p root nu pf (s, w) = Inr (s', w')" "p \<in> S"
    "st_config s = Some cfg" "prims E = C" "self E = me" "chain_id cfg = cid"
  shows "bk_step (ad_view C cid me S) (book_of s) (book_of s')"
proof -
  let ?V = "ad_view C cid me S"
  from assms obtain h where h: "h = hash_raw C cid me p" "get_order_status s h = StNone"
    "s' = set_order_status h Cancelled s"
    unfolding cancel_never_locked_def Let_def by (clarsimp simp: res_simps)
  then have "book_of s' = (book_of s)\<lparr>bk_status := (bk_status (book_of s))(ov_key ?V p := Cancelled)\<rparr>"
    by (simp add: store_simps set_order_status_def ad_view_def)
  moreover have "bk_step ?V (book_of s) \<dots>"
    by (rule bk_void) (use h assms(2) in \<open>simp_all add: ad_view_def store_simps\<close>)
  ultimately show ?thesis by simp
qed

lemma claim_cancel_book:
  assumes "claim_cancel E p s = Inr s'"
  shows "bk_step V (book_of s) (book_of s')"
proof -
  from assms obtain h f where h: "get_order_status s h = Open" "s' = open_claim E h f s"
    unfolding claim_cancel_def Let_def by (clarsimp simp: res_simps)
  show ?thesis
    by (rule bk_move_ad [where h = h and st = Claimed])
      (use h in \<open>simp_all add: open_claim_def store_simps set_order_status_def\<close>)
qed

text \<open>Disputes, the re-pin and the SETTLED record.\<close>

lemma relayed_Ok [res_simps]: "relayed r = Inr v \<longleftrightarrow> r = Inr v"
  by (simp add: relayed_def split: sum.splits)

lemma open_dispute_store:
  assumes "open_dispute X E esc h peer filer ev dl tok amt (s, w) = Inr (b, s', w')"
  obtains m where "get_order_status s h \<in> {Open, Claimed}"
    "s' = remove_claim h (set_order_status h Disputed (set_order_dispute_manager h m s))"
  using assms unfolding open_dispute_def by (clarsimp simp: res_simps split: if_splits)

lemma dispute_book:
  assumes "dispute X E p filer ev (s, w) = Inr (b, s', w')"
  shows "bk_step V (book_of s) (book_of s')"
proof -
  from assms obtain h dl tok amt where
    "open_dispute X E (self E) h (p_order_chain_id p) filer ev dl tok amt (s, w) = Inr (b, s', w')"
    unfolding dispute_def by (clarsimp simp: res_simps)
  then obtain m where m: "get_order_status s h \<in> {Open, Claimed}"
    "s' = remove_claim h (set_order_status h Disputed (set_order_dispute_manager h m s))"
    by (rule open_dispute_store)
  show ?thesis
    by (rule bk_move_ad [where h = h and st = Disputed])
      (use m in \<open>auto simp: store_simps set_order_status_def\<close>)
qed

text \<open>The dispute terminal: what the store is after it, whatever the ruling.\<close>

lemma finalize_dispute_store:
  assumes "finalize_dispute X E p (s, w) = Inr (s', w')"
  obtains cfg h outcome init a lk bal n cl at where
    "st_config s = Some cfg" "h = hash_raw (prims E) (chain_id cfg) (self E) p"
    "get_order_status s h = Disputed" "dispute_outcome X E h (s, w) = Inr (outcome, init)"
    "am_ads s (p_ad_id p) = Some a" "dispute_end X (ad_maker a) p h outcome (s, w) = Inr at"
    "at \<le> now E" "unat (ad_locked a) = amt_of p + unat lk" "unat bal \<le> unat (ad_balance a)"
    "unat (ad_balance a) \<le> unat bal + amt_of p" "outcome \<noteq> MakerForfeit \<longrightarrow> bal = ad_balance a"
    "unat (get_in_flight s (p_ad_settlement_signer p)) = Suc (unat n)"
    "s' = set_in_flight (p_ad_settlement_signer p) n (set_order_status h Resolved
       ((set_ad (p_ad_id p) (a\<lparr>ad_locked := lk, ad_balance := bal\<rparr>) s)\<lparr>st_claimables := cl\<rparr>))"
proof -
  let ?g = "p_ad_settlement_signer p" and ?i = "p_ad_id p"
  from assms obtain cfg h outcome init a amt at lk net fee a' s2 w2 s3 w4 where 1:
    "st_config s = Some cfg" "h = hash_raw (prims E) (chain_id cfg) (self E) p"
    "get_order_status s h = Disputed" "dispute_outcome X E h (s, w) = Inr (outcome, init)"
    "ad_amount p = Inr amt" "am_ads s ?i = Some a"
    "dispute_end X (ad_maker a) p h outcome (s, w) = Inr at" "at \<le> now E"
    "unat (ad_locked a) = unat amt + unat lk"
    and 2: "(if outcome = MakerForfeit then charge_fee (a\<lparr>ad_locked := lk\<rparr>) p amt True
       else Inr ((0, 0), a\<lparr>ad_locked := lk\<rparr>)) = Inr ((net, fee), a')"
    and 3: "(if outcome = MakerForfeit then
         pay_net X E cfg (p_order_recipient p) (p_ad_chain_token p) net fee (set_ad ?i a' s, w)
       else Inr (set_ad ?i a' s, w)) = Inr (s2, w2)"
    and 4: "(resolve h ?g s2 :: (ad_error, _) res) = Inr s3" "s' = s3"
    unfolding finalize_dispute_def Let_def
    by (clarsimp simp: res_simps csub_Ok get_ad_def settle_bond_def)
  have "\<exists>bal. a' = a\<lparr>ad_locked := lk, ad_balance := bal\<rparr> \<and> unat bal \<le> unat (ad_balance a) \<and>
      unat (ad_balance a) \<le> unat bal + unat amt \<and> (outcome \<noteq> MakerForfeit \<longrightarrow> bal = ad_balance a)"
  proof (cases "outcome = MakerForfeit")
    case True
    with 2 have "charge_fee (a\<lparr>ad_locked := lk\<rparr>) p amt True = Inr ((net, fee), a')" by simp
    then obtain bal where "a' = a\<lparr>ad_locked := lk, ad_balance := bal\<rparr>"
      "unat bal \<le> unat (ad_balance a)" "unat (ad_balance a) \<le> unat bal + unat amt"
      by (rule charge_fee_Ok) auto
    with True show ?thesis by blast
  next
    case False
    with 2 show ?thesis by (intro exI [of _ "ad_balance a"]) auto
  qed
  then obtain bal where b: "a' = a\<lparr>ad_locked := lk, ad_balance := bal\<rparr>"
    "unat bal \<le> unat (ad_balance a)" "unat (ad_balance a) \<le> unat bal + unat amt"
    "outcome \<noteq> MakerForfeit \<longrightarrow> bal = ad_balance a" by blast
  have "\<exists>cl. s2 = (set_ad ?i a' s)\<lparr>st_claimables := cl\<rparr>"
  proof (cases "outcome = MakerForfeit")
    case True
    with 3 show ?thesis by (auto dest: pay_net_store)
  next
    case False
    with 3 have "s2 = (set_ad ?i a' s)\<lparr>st_claimables := st_claimables (set_ad ?i a' s)\<rparr>" by simp
    then show ?thesis by blast
  qed
  then obtain cl where s2: "s2 = (set_ad ?i a' s)\<lparr>st_claimables := cl\<rparr>" by blast
  have fl: "get_in_flight (set_order_status h Resolved s2) ?g = get_in_flight s ?g"
    by (simp add: s2 get_in_flight_def set_order_status_def set_order_def set_ad_def)
  from 4 fl obtain n where n: "unat (get_in_flight s ?g) = Suc (unat n)"
    "s' = set_in_flight ?g n (set_order_status h Resolved s2)"
    by (auto simp: resolve_def res_simps)
  show ?thesis
    by (rule that [OF 1(1-4,6-8) _ _ _ _ n(1), of lk bal cl])
      (use 1 b s2 n in \<open>simp_all add: amt_of_def\<close>)
qed

lemma finalize_dispute_book:
  assumes "finalize_dispute X E p (s, w) = Inr (s', w')" "p \<in> S"
    "st_config s = Some cfg" "prims E = C" "self E = me" "chain_id cfg = cid"
  shows "bk_step (ad_view C cid me S) (book_of s) (book_of s')"
proof -
  let ?g = "p_ad_settlement_signer p"
  from assms(1) obtain cfg' h a lk bal n cl where 1: "st_config s = Some cfg'"
    "h = hash_raw (prims E) (chain_id cfg') (self E) p" "get_order_status s h = Disputed"
    "am_ads s (p_ad_id p) = Some a" "unat (ad_locked a) = amt_of p + unat lk"
    "unat bal \<le> unat (ad_balance a)" "unat (ad_balance a) \<le> unat bal + amt_of p"
    "unat (get_in_flight s ?g) = Suc (unat n)"
    and s': "s' = set_in_flight ?g n (set_order_status h Resolved
       ((set_ad (p_ad_id p) (a\<lparr>ad_locked := lk, ad_balance := bal\<rparr>) s)\<lparr>st_claimables := cl\<rparr>))"
    by (rule finalize_dispute_store) blast
  have h: "h = hash_raw C cid me p" using 1(1,2) assms(3-6) by simp
  show ?thesis
    by (rule bk_end_ad [where st = Resolved and lk = lk and bal = bal and n = n,
          OF assms(2) _ _ _ h 1(4)])
      (use 1 in \<open>simp_all add: s' store_simps set_order_status_def ad_row_def\<close>)
qed

lemma repin_store:
  assumes "repin_order X E p (s, w) = Inr (s', w')"
  obtains h slot where "get_order_status s h = Open" "s' = set_pinned_slot h slot s" "w' = w"
  using assms unfolding repin_order_def Let_def
  by (clarsimp simp: res_simps get_order_status_def)

lemma repin_book:
  assumes "repin_order X E p (s, w) = Inr (s', w')"
  shows "bk_step V (book_of s) (book_of s')"
proof -
  from assms obtain h slot where h: "get_order_status s h = Open" "s' = set_pinned_slot h slot s"
    by (rule repin_store)
  then have "book_of s' = book_of s"
    by (auto simp: book_of_def get_order_status_def store_simps get_in_flight_def fun_eq_iff
        set_pinned_slot_def)
  then show ?thesis by (rule bk_same)
qed

section \<open>Admin calls\<close>

text \<open>What no admin call touches: the orders, the ads, the counts, the credits and the wiring that
  is fixed at initialization.\<close>

definition wiring :: "contract_config \<Rightarrow> address \<times> address \<times> address \<times> u128" where
  "wiring cfg = (verifier cfg, merkle_manager cfg, w_native_token cfg, chain_id cfg)"

definition untouched :: "ad_store \<Rightarrow> ad_store \<Rightarrow> bool" where
  "untouched s s' \<longleftrightarrow>
     st_orders s' = st_orders s \<and> am_ads s' = am_ads s \<and> st_in_flight s' = st_in_flight s \<and>
     st_claimables s' = st_claimables s \<and> st_nullifiers s' = st_nullifiers s \<and>
     st_claims s' = st_claims s \<and> st_settled s' = st_settled s \<and>
     st_order_dispute s' = st_order_dispute s \<and> st_initialized s' = st_initialized s \<and>
     map_option wiring (st_config s') = map_option wiring (st_config s)"

lemma as_admin_Ok [res_simps]:
  "as_admin E s k = Inr r \<longleftrightarrow> (\<exists>cfg. st_config s = Some cfg \<and> authed E (admin cfg) \<and> k cfg = Inr r)"
  by (auto simp: as_admin_def res_simps)

lemma gated_Ok [res_simps]:
  "gated E f args s k = Inr r \<longleftrightarrow>
     (\<exists>cfg tlk. st_config s = Some cfg \<and> gate E (admin cfg) f args (st_timelock s) = Inr tlk \<and>
        k (s\<lparr>st_timelock := tlk\<rparr>) = Inr r)"
  by (auto simp: gated_def res_simps)

lemmas setter_defs = ad_pause_def ad_unpause_def ad_transfer_admin_def ad_accept_admin_def
  ad_activate_timelock_def ad_propose_action_def ad_cancel_action_def set_protocol_fee_pool_def
  set_fee_bps_def ad_set_chain_def ad_remove_chain_def ad_set_root_verifier_def
  ad_unset_root_verifier_def ad_set_key_registry_def ad_set_route_timing_def
  ad_set_dispute_manager_def ad_set_root_anchor_def ad_set_token_route_def
  ad_remove_token_route_def

lemmas setter_part_defs = pause_def unpause_def transfer_admin_def accept_admin_def
  set_root_verifier_gated_def set_root_verifier_def unset_root_verifier_def set_route_timing_def
  set_root_anchor_def store_root_verifier_def remove_root_verifier_def add_wired_chain_def
  store_key_registry_def store_token_route_def erase_token_route_def set_fees_def

lemma admin_untouched:
  assumes "admin_exec E c s = Inr s'"
  shows "untouched s s'"
proof (cases c)
  case (KSetRootVerifier ch m)
  then show ?thesis using assms
    by (auto simp: ad_set_root_verifier_def set_root_verifier_eq untouched_def wiring_def res_simps
        elim!: set_root_verifier_gated_store)
qed (use assms in \<open>clarsimp simp: setter_defs setter_part_defs untouched_def wiring_def Let_def res_simps
       split: if_splits\<close>)+

lemma untouched_book: "untouched s s' \<Longrightarrow> book_of s' = book_of s"
  by (simp add: untouched_def book_of_def get_order_status_def get_order_def get_in_flight_def
      fun_eq_iff)

section \<open>Maker calls\<close>

lemma create_ad_store:
  assumes "create_ad X E creator i tok amount c rcpt signer (s, w) = Inr (s', w')"
  obtains cfg routed where "st_config s = Some cfg" "am_ads s i = None" "authed E creator"
    "transfer_from_user X E tok (w_native_token cfg) creator amount w = Inr w'"
    "s' = set_ad i \<lparr>ad_order_chain_id = c, ad_recipient = rcpt, ad_maker = creator, ad_token = tok,
       ad_balance = amount, ad_locked = 0, ad_open = True, ad_order_chain_token = routed,
       ad_settlement_signer = signer\<rparr> s"
  using assms unfolding create_ad_def by (clarsimp simp: res_simps get_ad_def split: if_splits)

lemma set_signer_store:
  assumes "set_settlement_signer X E i identity (s, w) = Inr (s', w')"
  obtains a where "am_ads s i = Some a" "s' = set_ad i (a\<lparr>ad_settlement_signer := identity\<rparr>) s" "w' = w"
  using assms unfolding set_settlement_signer_def by (clarsimp simp: res_simps get_ad_def)

lemma fund_ad_store:
  assumes "fund_ad X E i amount (s, w) = Inr (s', w')"
  obtains cfg a bal where "st_config s = Some cfg" "am_ads s i = Some a" "authed E (ad_maker a)"
    "transfer_from_user X E (ad_token a) (w_native_token cfg) (ad_maker a) amount w = Inr w'"
    "unat bal = unat (ad_balance a) + unat amount" "s' = set_ad i (a\<lparr>ad_balance := bal\<rparr>) s"
  using assms unfolding fund_ad_def by (clarsimp simp: res_simps cadd_Ok get_ad_def split: if_splits)

lemma withdraw_store:
  assumes "withdraw_from_ad X E i amount to (s, w) = Inr (s', w')"
  obtains cfg a bal where "st_config s = Some cfg" "am_ads s i = Some a" "authed E (ad_maker a)"
    "transfer_to_user X E (ad_token a) (w_native_token cfg) to amount w = Inr w'"
    "unat (ad_balance a) = unat bal + unat amount" "unat (ad_locked a) \<le> unat bal"
    "s' = set_ad i (a\<lparr>ad_balance := bal\<rparr>) s"
proof -
  from assms obtain cfg a bal avail where 1: "st_config s = Some cfg" "am_ads s i = Some a"
    "authed E (ad_maker a)" "transfer_to_user X E (ad_token a) (w_native_token cfg) to amount w = Inr w'"
    "(csub (ad_balance a) amount :: (ad_error, _) res) = Inr bal"
    "(csub (ad_balance a) (ad_locked a) :: (ad_error, _) res) = Inr avail" "\<not> amount > avail"
    "s' = set_ad i (a\<lparr>ad_balance := bal\<rparr>) s"
    unfolding withdraw_from_ad_def by (clarsimp simp: res_simps get_ad_def)
  then show ?thesis by (intro that [OF 1(1-4) _ _ 1(8)]) (auto simp: word_less_nat_alt csub_Ok)
qed

lemma close_ad_store:
  assumes "close_ad X E i to (s, w) = Inr (s', w')"
  obtains cfg a where "st_config s = Some cfg" "am_ads s i = Some a" "authed E (ad_maker a)"
    "ad_locked a = 0" "s' = set_ad i (a\<lparr>ad_balance := 0, ad_open := False\<rparr>) s"
    "ad_balance a = 0 \<and> w' = w \<or>
     transfer_to_user X E (ad_token a) (w_native_token cfg) to (ad_balance a) w = Inr w'"
  using assms unfolding close_ad_def Let_def
  by (clarsimp simp: res_simps get_ad_def split: if_splits) (auto simp: word_gt_0)

lemma bk_fund_ad:
  assumes "am_ads s i = Some a" "s' = set_ad i a' s" "ad_locked a' = ad_locked a"
    "ad_terms a' = ad_terms a" "ad_locked a' \<le> ad_balance a'"
  shows "bk_step V (book_of s) (book_of s')"
  using bk_fund [of "book_of s" i "unat (ad_balance a)" "unat (ad_locked a)" "ad_terms a"
      "unat (ad_balance a')" V]
    assms by (simp add: store_simps word_le_nat_alt ad_row_def)

lemma halt_untouched:
  "halt_settlement E m s = Inr s' \<Longrightarrow> untouched s s'" "resume_settlement E m s = Inr s' \<Longrightarrow> untouched s s'"
  by (auto simp: halt_settlement_def resume_settlement_def set_halt_def untouched_def Let_def
      res_simps split: if_splits)

section \<open>The simulation\<close>

lemma maker_book:
  assumes "maker_exec X E c (s, w) = Inr (s', w')"
    and covered: "\<And>i a. am_ads s i = Some a \<Longrightarrow> ad_locked a \<le> ad_balance a"
  shows "bk_step V (book_of s) (book_of s')"
proof (cases c)
  case (KCreateAd creator i tok amount ch rcpt signer)
  with assms(1) obtain routed where 1: "am_ads s i = None" and
    s': "s' = set_ad i \<lparr>ad_order_chain_id = ch, ad_recipient = rcpt, ad_maker = creator, ad_token = tok,
       ad_balance = amount, ad_locked = 0, ad_open = True, ad_order_chain_token = routed,
       ad_settlement_signer = signer\<rparr> s"
    by (auto elim!: create_ad_store)
  then show ?thesis
    using bk_create [of "book_of s" i V "unat amount"] by (simp add: store_simps ad_row_def)
next
  case (KHalt m)
  with assms(1) have "untouched s s'" by (auto simp: res_simps intro: halt_untouched)
  then show ?thesis by (intro bk_same untouched_book)
next
  case (KResume m)
  with assms(1) have "untouched s s'" by (auto simp: res_simps intro: halt_untouched)
  then show ?thesis by (intro bk_same untouched_book)
next
  case (KSetSigner i identity)
  with assms(1) obtain a where a: "am_ads s i = Some a"
    "s' = set_ad i (a\<lparr>ad_settlement_signer := identity\<rparr>) s"
    by (auto elim!: set_signer_store)
  then show ?thesis using covered [OF a(1)] by (intro bk_fund_ad [OF a]) simp_all
next
  case (KFundAd i amount)
  with assms(1) obtain a bal where a: "am_ads s i = Some a" "s' = set_ad i (a\<lparr>ad_balance := bal\<rparr>) s"
    "unat bal = unat (ad_balance a) + unat amount"
    by (auto elim!: fund_ad_store)
  then show ?thesis using covered [OF a(1)]
    by (intro bk_fund_ad [OF a(1,2)]) (simp_all add: word_le_nat_alt)
next
  case (KWithdraw i amount to)
  with assms(1) obtain a bal where a: "am_ads s i = Some a" "s' = set_ad i (a\<lparr>ad_balance := bal\<rparr>) s"
    "unat (ad_locked a) \<le> unat bal"
    by (auto elim!: withdraw_store)
  then show ?thesis by (intro bk_fund_ad [OF a(1,2)]) (simp_all add: word_le_nat_alt)
next
  case (KCloseAd i to)
  with assms(1) obtain a where a: "am_ads s i = Some a"
    "s' = set_ad i (a\<lparr>ad_balance := 0, ad_open := False\<rparr>) s" "ad_locked a = 0"
    by (auto elim!: close_ad_store)
  then show ?thesis by (intro bk_fund_ad [OF a(1,2)]) simp_all
qed

text \<open>The environment the book's view is taken for.\<close>

definition deployed :: "u128 \<Rightarrow> ad_store \<Rightarrow> bool" where
  "deployed cid s \<longleftrightarrow> st_initialized s \<and> (\<exists>cfg. st_config s = Some cfg \<and> chain_id cfg = cid)"

lemma order_book:
  assumes "order_exec X E c (s, w) = Inr (s', w')" "params_of c \<in> S" "deployed cid s" "entry C me E"
  shows "bk_step (ad_view C cid me S) (book_of s) (book_of s')"
proof -
  from assms(3) obtain cfg where cfg: "st_config s = Some cfg" "chain_id cfg = cid"
    by (auto simp: deployed_def)
  from assms(4) have E: "prims E = C" "self E = me" by (auto simp: entry_def)
  note ctx = cfg(1) E cfg(2)
  show ?thesis
  proof (cases c)
    case (KLock p slot)
    with assms(1,2) show ?thesis by (auto simp: res_simps intro: lock_book [OF _ _ ctx])
  next
    case (KUnlock p nu root pf cosig)
    with assms(1) obtain cfg' h where "st_config s = Some cfg'"
      "h = hash_raw (prims E) (chain_id cfg') (self E) p" "live (get_order_status s h)"
      "settle_part X E cfg' p h (set_nullifier_used nu s, w) = Inr (s', w')"
      by (auto elim: unlock_settles)
    moreover from this have "live (get_order_status (set_nullifier_used nu s) h)"
      by (simp add: set_nullifier_used_def get_order_status_def get_order_def)
    ultimately show ?thesis
      using settle_part_book [of X E cfg' p h "set_nullifier_used nu s" w s' w' S C cid me]
        ctx KUnlock assms(2) by (simp add: book_of_frame)
  next
    case (KClaimCancel p)
    with assms(1) show ?thesis by (auto simp: res_simps intro: claim_cancel_book)
  next
    case (KFinalizeCancel p)
    with assms(1,2) show ?thesis by (auto intro: finalize_cancel_book [OF _ _ ctx])
  next
    case (KCancelNeverLocked p root nu pf)
    with assms(1,2) show ?thesis by (auto intro: cancel_never_locked_book [OF _ _ ctx])
  next
    case (KDispute p filer ev)
    with assms(1) show ?thesis by (auto simp: res_simps intro: dispute_book)
  next
    case (KRespond p who ev)
    with assms(1) have "s' = s"
      by (auto simp: respond_to_dispute_def record_response_def res_simps)
    then show ?thesis by (simp add: bk_idle)
  next
    case (KFinalizeDispute p)
    with assms(1,2) show ?thesis by (auto intro: finalize_dispute_book [OF _ _ ctx])
  next
    case (KRepin p)
    with assms(1) show ?thesis by (auto intro: repin_book)
  next
    case (KPresentSettled p root pf)
    with assms(1) obtain cfg' h where "st_config s = Some cfg'"
      "h = hash_raw (prims E) (chain_id cfg') (self E) p" "live (get_order_status s h)"
      "settle_part X E cfg' p h (s, w) = Inr (s', w')"
      by (auto elim: present_settled_settles)
    with ctx KPresentSettled assms(2) show ?thesis by (auto intro: settle_part_book)
  next
    case (KRecordSettled p)
    with assms(1) have "book_of s' = book_of s"
      by (auto simp: ad_record_settled_def record_settled_store res_simps book_of_frame)
    then show ?thesis by (rule bk_same)
  qed
qed

lemma ad_exec_book:
  assumes "ad_exec X E c (s, w) = Inr (s', w')" "names_only S c" "deployed cid s" "entry C me E"
    and "\<And>i a. am_ads s i = Some a \<Longrightarrow> ad_locked a \<le> ad_balance a"
  shows "bk_step (ad_view C cid me S) (book_of s) (book_of s')"
proof (cases c)
  case (KAdmin k)
  with assms(1) have "untouched s s'" by (auto simp: res_simps intro: admin_untouched)
  then show ?thesis by (intro bk_same untouched_book)
next
  case (KMaker k)
  with assms(1,5) show ?thesis by (auto intro: maker_book)
next
  case (KOrder k)
  with assms show ?thesis by (auto intro: order_book)
next
  case (KClaim r t)
  with assms(1) have "book_of s' = book_of s"
    by (auto simp: ad_claim_def claim_def Let_def res_simps book_of_frame split: if_splits)
  then show ?thesis by (rule bk_same)
qed

end
