(* ===== verification/Ad_Invariants.thy ===== *)
theory Ad_Invariants
  imports Ad_Simulation
begin

text \<open>
  What holds of every reachable state of the ad-manager: it stays deployed under the wiring it was
  initialized with, and its accounts balance. Each property of the contract is read off from these.
\<close>

section \<open>The wiring stays\<close>

definition rooted :: "ad_store \<Rightarrow> ad_store \<Rightarrow> bool" where
  "rooted s s' \<longleftrightarrow> st_initialized s' = st_initialized s \<and>
     map_option wiring (st_config s') = map_option wiring (st_config s)"

lemma untouched_rooted: "untouched s s' \<Longrightarrow> rooted s s'"
  by (simp add: untouched_def rooted_def)

lemma rooted_writes [store_simps]:
  "rooted s (set_order h r t) = rooted s t"
  "rooted s (set_order_status h st t) = rooted s t"
  "rooted s (open_order E h tv ep d sl t) = rooted s t"
  "rooted s (set_pinned_slot h sl t) = rooted s t"
  "rooted s (set_ad i a t) = rooted s t"
  "rooted s (set_in_flight g n t) = rooted s t"
  "rooted s (remove_claim h t) = rooted s t"
  "rooted s (set_claim h c t) = rooted s t"
  "rooted s (set_nullifier_used nu t) = rooted s t"
  "rooted s (set_settled_recorded h t) = rooted s t"
  "rooted s (set_order_dispute_manager h m t) = rooted s t"
  "rooted s (set_claimable rc tk u t) = rooted s t"
  "rooted s (t\<lparr>st_claimables := cl\<rparr>) = rooted s t"
  "rooted s s"
  by (simp_all add: rooted_def set_order_def set_order_status_def open_order_def set_pinned_slot_def
      set_ad_def set_in_flight_def remove_claim_def set_claim_def set_nullifier_used_def
      set_settled_recorded_def set_order_dispute_manager_def set_claimable_def)

lemma settle_part_rooted:
  assumes "settle_part X E cfg p h (s, w) = Inr (s', w')"
  shows "rooted s s'"
  using assms by (rule settle_part_store) (simp add: store_simps)

lemma order_rooted:
  assumes "order_exec X E c (s, w) = Inr (s', w')"
  shows "rooted s s'"
proof (cases c)
  case (KLock p slot)
  with assms obtain h where "lock_for_order X E p slot (s, w) = Inr (h, s', w')"
    by (auto simp: res_simps)
  then show ?thesis by (rule lock_store) (simp add: store_simps)
next
  case (KUnlock p nu root pf cosig)
  with assms obtain cfg h where "settle_part X E cfg p h (set_nullifier_used nu s, w) = Inr (s', w')"
    by (auto elim: unlock_settles)
  then have "rooted (set_nullifier_used nu s) s'" by (rule settle_part_rooted)
  then show ?thesis by (simp add: rooted_def set_nullifier_used_def)
next
  case (KClaimCancel p)
  with assms show ?thesis
    by (auto simp: claim_cancel_def open_claim_def Let_def res_simps store_simps)
next
  case (KFinalizeCancel p)
  with assms show ?thesis
    by (auto simp: finalize_cancel_def cancel_def res_simps store_simps)
next
  case (KCancelNeverLocked p root nu pf)
  with assms show ?thesis by (auto simp: cancel_never_locked_def Let_def res_simps store_simps)
next
  case (KDispute p filer ev)
  with assms show ?thesis
    by (auto simp: dispute_def res_simps elim!: open_dispute_store) (simp_all add: store_simps)
next
  case (KRespond p who ev)
  with assms show ?thesis
    by (auto simp: respond_to_dispute_def record_response_def res_simps store_simps)
next
  case (KFinalizeDispute p)
  with assms have "finalize_dispute X E p (s, w) = Inr (s', w')" by simp
  then show ?thesis by (rule finalize_dispute_store) (simp add: store_simps)
next
  case (KRepin p)
  with assms have "repin_order X E p (s, w) = Inr (s', w')" by simp
  then show ?thesis by (rule repin_store) (simp add: store_simps)
next
  case (KPresentSettled p root pf)
  with assms show ?thesis by (auto elim: present_settled_settles settle_part_rooted)
next
  case (KRecordSettled p)
  with assms show ?thesis
    by (auto simp: ad_record_settled_def record_settled_store res_simps store_simps)
qed

lemma maker_rooted:
  assumes "maker_exec X E c (s, w) = Inr (s', w')"
  shows "rooted s s'"
proof (cases c)
  case (KHalt m)
  with assms show ?thesis by (auto simp: res_simps intro: halt_untouched untouched_rooted)
next
  case (KResume m)
  with assms show ?thesis by (auto simp: res_simps intro: halt_untouched untouched_rooted)
qed (use assms in \<open>auto elim!: create_ad_store set_signer_store fund_ad_store withdraw_store
       close_ad_store simp: store_simps\<close>)

lemma ad_exec_rooted:
  assumes "ad_exec X E c (s, w) = Inr (s', w')"
  shows "rooted s s'"
proof (cases c)
  case (KAdmin k)
  with assms show ?thesis by (auto simp: res_simps intro: admin_untouched untouched_rooted)
next
  case (KClaim r t)
  with assms show ?thesis
    by (auto simp: ad_claim_def claim_def Let_def res_simps store_simps split: if_splits)
qed (use assms in \<open>auto intro: maker_rooted order_rooted\<close>)

lemma rooted_deployed: "rooted s s' \<Longrightarrow> deployed cid s \<Longrightarrow> deployed cid s'"
  by (auto simp: rooted_def deployed_def wiring_def)

section \<open>The reachable states\<close>

lemma deployed_init:
  assumes "ad_initialize E adm vf mm wn cid ad_empty = Inr s"
  shows "deployed cid s" "book_of s = bk_init"
proof -
  from assms have s: "s = ad_empty\<lparr>st_config := Some \<lparr>admin = adm, verifier = vf,
      merkle_manager = mm, w_native_token = wn, chain_id = cid\<rparr>, st_initialized := True\<rparr>"
    by (simp add: ad_initialize_def ad_empty_def res_simps)
  show "deployed cid s" by (simp add: s deployed_def)
  show "book_of s = bk_init"
    by (simp add: s book_of_def bk_init_def ad_empty_def get_order_status_def get_order_def
        get_in_flight_def no_order_def fun_eq_iff)
qed

lemma covered_of_inv:
  assumes "bk_inv V (book_of s)" "am_ads s i = Some a"
  shows "ad_locked a \<le> ad_balance a"
proof -
  have "bk_ads (book_of s) i = Some (unat (ad_balance a), unat (ad_locked a), ad_terms a)"
    using assms(2) by (simp add: store_simps ad_row_def)
  then show ?thesis using bk_inv_ad [OF assms(1)] unfolding word_le_nat_alt by blast
qed

lemma ad_reach_inv:
  assumes "ad_reach X C me cid S R sw" "view_ok (ad_view C cid me S)"
  shows "deployed cid (fst sw) \<and> bk_inv (ad_view C cid me S) (book_of (fst sw))"
  using assms
proof (induction rule: ad_reach.induct)
  case (reach_init E adm vf mm wn s w)
  then show ?case using deployed_init bk_inv_init by simp
next
  case (reach_call sw E c sw')
  let ?V = "ad_view C cid me S"
  obtain s w s' w' where sw: "sw = (s, w)" "sw' = (s', w')" by (cases sw, cases sw')
  have inv: "deployed cid s" "bk_inv ?V (book_of s)" using reach_call.IH reach_call.prems sw by auto
  have ex: "ad_exec X E c (s, w) = Inr (s', w')" using reach_call.hyps(4) sw by simp
  have "bk_step ?V (book_of s) (book_of s')"
    by (rule ad_exec_book [OF ex reach_call.hyps(3) inv(1) reach_call.hyps(2)])
      (rule covered_of_inv [OF inv(2)])
  then have "bk_inv ?V (book_of s')" by (rule bk_inv_step [OF reach_call.prems inv(2)])
  then show ?case using ad_exec_rooted [OF ex] inv(1) sw by (simp add: rooted_deployed)
next
  case (reach_world s w w')
  then show ?case by simp
qed

lemma ad_reach_step:
  assumes "ad_reach X C me cid S R (s, w)" "view_ok (ad_view C cid me S)" "entry C me E"
    "names_only S c" "ad_exec X E c (s, w) = Inr (s', w')"
  shows "bk_step (ad_view C cid me S) (book_of s) (book_of s')"
  using ad_reach_inv [OF assms(1,2)] assms(3-5)
  by (intro ad_exec_book [OF assms(5,4) _ assms(3)]) (auto intro: covered_of_inv)

section \<open>What the store remembers\<close>

text \<open>
  Three facts about the store alone, true whatever the hashes do: a spent nullifier stays spent, a
  claim is open exactly on a claimed order, and every timing version in use was validated.
\<close>

definition memory :: "ad_store \<Rightarrow> ad_store \<Rightarrow> bool" where
  "memory s s' \<longleftrightarrow> (\<forall>nu. is_nullifier_used s nu \<longrightarrow> is_nullifier_used s' nu)"

definition claims_match :: "ad_store \<Rightarrow> bool" where
  "claims_match s \<longleftrightarrow> (\<forall>h. get_order_status s h = Claimed \<longleftrightarrow> st_claims s h \<noteq> None)"

definition timings_legal :: "ad_store \<Rightarrow> bool" where
  "timings_legal s \<longleftrightarrow> (\<forall>k t. st_timings s k = Some t \<longrightarrow> timing_ok t)"

text \<open>The order part of a call: which order it is about, and what it leaves of the rest.\<close>

definition order_effect :: "bytes32 \<Rightarrow> ad_store \<Rightarrow> ad_store \<Rightarrow> bool" where
  "order_effect h s s' \<longleftrightarrow>
     (\<forall>k. k \<noteq> h \<longrightarrow> get_order_status s' k = get_order_status s k \<and> st_claims s' k = st_claims s k) \<and>
     (st_claims s' h = None \<and> get_order_status s' h \<noteq> Claimed \<or>
      st_claims s' h \<noteq> None \<and> get_order_status s' h = Claimed) \<and>
     (\<forall>nu. is_nullifier_used s nu \<longrightarrow> is_nullifier_used s' nu) \<and> st_timings s' = st_timings s"

definition order_same :: "ad_store \<Rightarrow> ad_store \<Rightarrow> bool" where
  "order_same s s' \<longleftrightarrow>
     get_order_status s' = get_order_status s \<and> st_claims s' = st_claims s \<and>
     (\<forall>nu. is_nullifier_used s nu \<longrightarrow> is_nullifier_used s' nu) \<and> st_timings s' = st_timings s"

lemmas effect_defs = order_effect_def order_same_def is_nullifier_used_def get_order_status_def
  get_order_def set_order_def set_order_status_def open_order_def set_pinned_slot_def set_ad_def
  set_in_flight_def remove_claim_def set_claim_def set_nullifier_used_def set_settled_recorded_def
  set_order_dispute_manager_def set_claimable_def

lemma order_effect_memory:
  "order_effect h s s' \<Longrightarrow> memory s s'" "order_same s s' \<Longrightarrow> memory s s'"
  by (simp_all add: order_effect_def order_same_def memory_def)

lemma order_effect_claims:
  assumes "claims_match s" "order_effect h s s' \<or> order_same s s'"
  shows "claims_match s'"
proof -
  have "get_order_status s' k = Claimed \<longleftrightarrow> st_claims s' k \<noteq> None" for k
    using assms unfolding order_effect_def order_same_def claims_match_def by (cases "k = h") auto
  then show ?thesis by (simp add: claims_match_def)
qed

lemma settle_part_effect:
  assumes "settle_part X E cfg p h (s, w) = Inr (s', w')"
  shows "order_effect h s s'"
  using assms by (rule settle_part_store) (simp add: effect_defs)

lemma order_call_effect:
  assumes "order_exec X E c (s, w) = Inr (s', w')" "claims_match s"
  shows "(\<exists>h. order_effect h s s') \<or> order_same s s'"
proof -
  have none: "st_claims s h = None" if "get_order_status s h \<noteq> Claimed" for h
    using assms(2) that by (auto simp: claims_match_def)
  show ?thesis
  proof (cases c)
    case (KLock p slot)
    with assms(1) obtain h where "lock_for_order X E p slot (s, w) = Inr (h, s', w')"
      by (auto simp: res_simps)
    then have "order_effect h s s'" by (rule lock_store) (use none in \<open>simp add: effect_defs\<close>)
    then show ?thesis by blast
  next
    case (KUnlock p nu root pf cosig)
    with assms obtain cfg h where
      "settle_part X E cfg p h (set_nullifier_used nu s, w) = Inr (s', w')"
      by (auto elim: unlock_settles)
    then have "order_effect h (set_nullifier_used nu s) s'" by (rule settle_part_effect)
    then have "order_effect h s s'"
      by (auto simp: order_effect_def set_nullifier_used_def get_order_status_def get_order_def
          is_nullifier_used_def)
    then show ?thesis by blast
  next
    case (KClaimCancel p)
    with assms obtain h f where "s' = open_claim E h f s"
      by (auto simp: claim_cancel_def Let_def res_simps)
    then have "order_effect h s s'" by (simp add: open_claim_def effect_defs)
    then show ?thesis by blast
  next
    case (KFinalizeCancel p)
    with assms obtain h a lk n where
      "s' = set_in_flight (p_ad_settlement_signer p) n (remove_claim h (set_order_status h Cancelled
         (set_ad (p_ad_id p) (a\<lparr>ad_locked := lk\<rparr>) s)))"
      by (auto simp: finalize_cancel_def cancel_def res_simps)
    then have "order_effect h s s'" by (simp add: effect_defs)
    then show ?thesis by blast
  next
    case (KCancelNeverLocked p root nu pf)
    with assms(1) obtain h where "get_order_status s h = StNone" "s' = set_order_status h Cancelled s"
      by (auto simp: cancel_never_locked_def Let_def res_simps)
    then have "order_effect h s s'" using none [of h] by (simp add: effect_defs)
    then show ?thesis by blast
  next
    case (KDispute p filer ev)
    with assms(1) obtain h dl tok amt b where
      "open_dispute X E (self E) h (p_order_chain_id p) filer ev dl tok amt (s, w) = Inr (b, s', w')"
      by (auto simp: dispute_def res_simps)
    then have "order_effect h s s'" by (rule open_dispute_store) (simp add: effect_defs)
    then show ?thesis by blast
  next
    case (KRespond p who ev)
    with assms(1) have "s' = s" by (auto simp: respond_to_dispute_def record_response_def res_simps)
    then show ?thesis by (simp add: order_same_def)
  next
    case (KFinalizeDispute p)
    with assms(1) have "finalize_dispute X E p (s, w) = Inr (s', w')" by simp
    then obtain h a lk bal n cl where "get_order_status s h = Disputed"
      "s' = set_in_flight (p_ad_settlement_signer p) n (set_order_status h Resolved
         ((set_ad (p_ad_id p) (a\<lparr>ad_locked := lk, ad_balance := bal\<rparr>) s)\<lparr>st_claimables := cl\<rparr>))"
      by (rule finalize_dispute_store) blast
    then have "order_effect h s s'" using none [of h] by (simp add: effect_defs)
    then show ?thesis by blast
  next
    case (KRepin p)
    with assms(1) have "repin_order X E p (s, w) = Inr (s', w')" by simp
    then have "order_same s s'" by (rule repin_store) (auto simp: effect_defs fun_eq_iff)
    then show ?thesis by blast
  next
    case (KPresentSettled p root pf)
    with assms(1) have "present_settled X E p root pf (s, w) = Inr (s', w')" by simp
    then show ?thesis by (rule present_settled_settles) (blast dest: settle_part_effect)
  next
    case (KRecordSettled p)
    with assms(1) have "order_same s s'"
      by (auto simp: ad_record_settled_def record_settled_store res_simps effect_defs fun_eq_iff)
    then show ?thesis by blast
  qed
qed

lemma maker_call_same:
  assumes "maker_exec X E c (s, w) = Inr (s', w')"
  shows "order_same s s'"
proof (cases c)
  case (KHalt m)
  with assms show ?thesis
    by (auto simp: halt_settlement_def set_halt_def Let_def res_simps effect_defs fun_eq_iff)
next
  case (KResume m)
  with assms show ?thesis
    by (auto simp: resume_settlement_def set_halt_def Let_def res_simps effect_defs fun_eq_iff
        split: if_splits)
qed (use assms in \<open>auto elim!: create_ad_store set_signer_store fund_ad_store withdraw_store
       close_ad_store simp: effect_defs fun_eq_iff\<close>)

text \<open>An admin call adds at most one timing version, and only a validated one.\<close>

lemma admin_timings:
  assumes "admin_exec E c s = Inr s'"
  shows "st_timings s' = st_timings s \<or>
    (\<exists>k t. timing_ok t \<and> st_timings s' = (st_timings s)(k \<mapsto> t))"
proof (cases c)
  case (KSetRouteTiming ch t)
  with assms obtain v where "timing_ok t" "st_timings s' = (st_timings s)((ch, v) \<mapsto> t)"
    by (auto simp: ad_set_route_timing_def res_simps)
  then show ?thesis by blast
next
  case (KSetRootVerifier ch m)
  with assms show ?thesis
    by (auto simp: ad_set_root_verifier_def set_root_verifier_gated_def set_root_verifier_def
        store_root_verifier_def add_wired_chain_def res_simps)
qed (use assms in \<open>clarsimp simp: setter_defs setter_part_defs Let_def res_simps split: if_splits\<close>)+

lemma claim_call_same:
  assumes "ad_claim X E r t (s, w) = Inr (s', w')"
  shows "order_same s s'"
  using assms by (auto simp: ad_claim_def claim_def Let_def res_simps effect_defs fun_eq_iff
      split: if_splits)

lemma admin_memory:
  assumes "admin_exec E c s = Inr s'"
  shows "memory s s'" "claims_match s \<Longrightarrow> claims_match s'" "timings_legal s \<Longrightarrow> timings_legal s'"
proof -
  have "untouched s s'" using assms by (rule admin_untouched)
  then show "memory s s'" "claims_match s \<Longrightarrow> claims_match s'"
    by (simp_all add: untouched_def memory_def is_nullifier_used_def claims_match_def
        get_order_status_def get_order_def)
  show "timings_legal s'" if "timings_legal s"
    using admin_timings [OF assms]
  proof
    assume "\<exists>k t. timing_ok t \<and> st_timings s' = (st_timings s)(k \<mapsto> t)"
    then obtain k t where "timing_ok t" "st_timings s' = (st_timings s)(k \<mapsto> t)" by blast
    then show ?thesis using that unfolding timings_legal_def by (metis fun_upd_apply option.inject)
  qed (use that in \<open>simp add: timings_legal_def\<close>)
qed

lemma effect_memory:
  assumes "(\<exists>h. order_effect h s s') \<or> order_same s s'" "claims_match s" "timings_legal s"
  shows "memory s s' \<and> claims_match s' \<and> timings_legal s'"
proof -
  have "st_timings s' = st_timings s"
    using assms(1) by (auto simp: order_effect_def order_same_def)
  then have "timings_legal s'" using assms(3) by (simp add: timings_legal_def)
  moreover have "memory s s'" using assms(1) order_effect_memory by blast
  moreover have "claims_match s'" using assms(1) order_effect_claims [OF assms(2)] by blast
  ultimately show ?thesis by blast
qed

lemma ad_exec_memory:
  assumes "ad_exec X E c (s, w) = Inr (s', w')" "claims_match s" "timings_legal s"
  shows "memory s s' \<and> claims_match s' \<and> timings_legal s'"
proof (cases c)
  case (KAdmin k)
  with assms show ?thesis by (auto simp: res_simps intro: admin_memory)
next
  case (KMaker k)
  with assms(1) have "order_same s s'" by (simp add: maker_call_same)
  with assms(2,3) show ?thesis by (intro effect_memory) blast+
next
  case (KOrder k)
  with assms show ?thesis by (intro effect_memory order_call_effect) auto
next
  case (KClaim r t)
  with assms(1) have "order_same s s'" by (auto intro: claim_call_same)
  with assms(2,3) show ?thesis by (intro effect_memory) blast+
qed

lemma ad_reach_memory:
  "ad_reach X C me cid S R sw \<Longrightarrow> claims_match (fst sw) \<and> timings_legal (fst sw)"
proof (induction rule: ad_reach.induct)
  case (reach_init E adm vf mm wn s w)
  then show ?case
    by (auto simp: ad_initialize_def ad_empty_def claims_match_def timings_legal_def
        get_order_status_def get_order_def no_order_def res_simps)
next
  case (reach_call sw E c sw')
  then show ?case by (cases sw, cases sw') (auto dest: ad_exec_memory)
next
  case (reach_world s w w')
  then show ?case by simp
qed

text \<open>Later states: calls and moves of the outside world from a state on.\<close>

inductive ad_later :: "'w ext \<Rightarrow> ad_store \<times> 'w \<Rightarrow> ad_store \<times> 'w \<Rightarrow> bool" for X :: "'w ext" where
  later_refl: "ad_later X sw sw"
| later_call: "ad_later X sw sw' \<Longrightarrow> ad_exec X E c sw' = Inr sw'' \<Longrightarrow> ad_later X sw sw''"
| later_world: "ad_later X sw (s', w') \<Longrightarrow> ad_later X sw (s', w'')"

lemma ad_later_memory:
  assumes "ad_later X sw sw'" "claims_match (fst sw)" "timings_legal (fst sw)"
  shows "memory (fst sw) (fst sw') \<and> claims_match (fst sw') \<and> timings_legal (fst sw')"
  using assms
proof (induction rule: ad_later.induct)
  case (later_refl sw)
  then show ?case by (simp add: memory_def)
next
  case (later_call sw sw' E c sw'')
  then have "memory (fst sw') (fst sw'') \<and> claims_match (fst sw'') \<and> timings_legal (fst sw'')"
    by (cases sw', cases sw'') (auto dest: ad_exec_memory)
  with later_call show ?case by (simp add: memory_def)
next
  case (later_world sw s' w' w'')
  then show ?case by simp
qed

end
