(* ===== verification/Ad_Demo.thy ===== *)
theory Ad_Demo
  imports Ad_Invariants
begin

text \<open>
  A deployment of the ad-manager on concrete data, from \<open>initialize\<close> to a locked order and beyond:
  the inputs at which the properties' hypotheses are shown to hold. The contracts around it answer
  as working ones would.
\<close>

definition demo_crypto :: crypto where
  "demo_crypto = \<lparr>keccak256 = (\<lambda>bs. of_nat (length bs)), xdr_hash = (\<lambda>_ _. 1),
     xdr_args = (\<lambda>_. Some []), fr_reduce = (\<lambda>x. x), poseidon = (\<lambda>_. 0)\<rparr>"

definition demo_me :: address where "demo_me = ContractAddr 10"
definition demo_admin :: address where "demo_admin = AccountAddr 1"
definition demo_maker :: address where "demo_maker = AccountAddr 2"

text \<open>The outside world keeps one number: what the escrow holds of the one token in use.\<close>

definition demo_transfer :: "env \<Rightarrow> address \<Rightarrow> address \<Rightarrow> address \<Rightarrow> int \<Rightarrow> int \<Rightarrow> int option" where
  "demo_transfer E a from to amt w =
     (if amt < 0 then None
      else if from = to then Some w
      else if to = demo_me then Some (w + amt)
      else if from = demo_me then (if amt \<le> w then Some (w - amt) else None)
      else Some w)"

definition demo_ext :: "int ext" where
  "demo_ext = \<lparr>tok_transfer = demo_transfer,
     tok_balance = (\<lambda>_ a w. if a = demo_me then w else 0),
     tok_decimals = (\<lambda>_ _. Some 7), mm_append = (\<lambda>_ _ _ _ _ w. Some w),
     zk_verify = (\<lambda>_ _ _ _. True), rv_root_valid = (\<lambda>_ _ _ _ _ _. Some True),
     rv_registry = (\<lambda>_ _. None), ra_is_anchored = (\<lambda>_ _ _ _ _. True),
     ra_anchor_delay = (\<lambda>_ _ _. Some 600), kr_has_usable_slot = (\<lambda>_ _ _ _. Some True),
     kr_is_approved_maker = (\<lambda>_ _ _ _ _. True), kr_commitment_at = (\<lambda>_ _ _ _ _. Some 1),
     kr_expired_at = (\<lambda>_ _ _ _. Some 0), kr_repin_approval = (\<lambda>_ _ _ _. Some (0, 1, 1)),
     dm_open_dispute = (\<lambda>_ _ _ _ _ _ _ _ _ _ _ w. Inr (5, w)),
     dm_settle_bond = (\<lambda>_ _ _ _ _ _ _ w. Inr w), dm_record_response = (\<lambda>_ _ _ _ _ _ w. Inr w),
     dm_outcome_of = (\<lambda>_ _ _ _. Inr (NoOutcome, True, None)),
     dm_initiator_of = (\<lambda>_ _ _. Inr None), dm_challenge_deadline_of = (\<lambda>_ _ _. Inr 0)\<rparr>"

definition demo_env :: "u64 \<Rightarrow> env" where
  "demo_env t = \<lparr>now = t, self = demo_me, authed = (\<lambda>a. a = demo_admin \<or> a = demo_maker),
     prims = demo_crypto\<rparr>"

definition demo_timing :: route_timing where
  "demo_timing = \<lparr>min_window = 3600, buffer = 1800, margin = 300, claim_stagger = 0\<rparr>"

definition demo_order :: order_params where
  "demo_order = \<lparr>p_order_chain_token = 21, p_ad_chain_token = 20, p_amount = 500, p_bridger = 30,
     p_order_chain_id = 7, p_src_order_portal = 40, p_order_recipient = 31, p_ad_id = ''a1'',
     p_ad_creator = 2, p_ad_recipient = 50, p_salt = 99, p_order_decimals = 7, p_ad_decimals = 7,
     p_deadline = 10000, p_ad_settlement_signer = 2, p_lp_fee_bps = 0, p_protocol_fee_bps = 0\<rparr>"

text \<open>The calls of the deployment, each with the time it is made at.\<close>

definition demo_setup :: "(u64 \<times> ad_call) list" where
  "demo_setup =
     [(100, KAdmin (KSetChain 7 40)),
      (100, KAdmin (KSetTokenRoute 20 21 7)),
      (100, KAdmin (KSetRouteTiming 7 demo_timing)),
      (100, KAdmin (KSetKeyRegistry (ContractAddr 11))),
      (100, KAdmin (KSetRootVerifier 7 (ContractAddr 12))),
      (100, KAdmin (KSetRootAnchor (ContractAddr 13))),
      (200, KMaker (KCreateAd demo_maker ''a1'' 20 1000 7 50 2)),
      (300, KOrder (KLock demo_order 0))]"

text \<open>Running a list of calls; \<open>None\<close> as soon as one is refused.\<close>

fun run_calls :: "'w ext \<Rightarrow> (u64 \<Rightarrow> env) \<Rightarrow> (u64 \<times> ad_call) list \<Rightarrow> ad_store \<times> 'w \<Rightarrow>
    (ad_store \<times> 'w) option" where
  "run_calls X E [] sw = Some sw"
| "run_calls X E ((t, c) # cs) sw =
     (case ad_exec X (E t) c sw of Inl _ \<Rightarrow> None | Inr sw' \<Rightarrow> run_calls X E cs sw')"

definition demo_config :: contract_config where
  "demo_config = \<lparr>admin = demo_admin, verifier = ContractAddr 14,
     merkle_manager = ContractAddr 15, w_native_token = ContractAddr 16, chain_id = 9\<rparr>"

definition demo_init :: ad_store where
  "demo_init = ad_empty\<lparr>st_config := Some demo_config, st_initialized := True\<rparr>"

text \<open>The state after the deployment: one ad of 1000, an order of 500 locked against it.\<close>

definition demo_ad :: ad where
  "demo_ad = \<lparr>ad_order_chain_id = 7, ad_recipient = 50, ad_maker = AccountAddr 2, ad_token = 20,
     ad_balance = 1000, ad_locked = 500, ad_open = True, ad_order_chain_token = 21,
     ad_settlement_signer = 2\<rparr>"

definition demo_leg :: order_record where
  "demo_leg = \<lparr>status = Open, locked_at = 300, registry_epoch = 1, timing_version = 1,
     anchor_delay = 600, pinned_slot = 0, repinned = False\<rparr>"

definition demo_locked :: ad_store where
  "demo_locked = demo_init\<lparr>st_root_anchor := Some (ContractAddr 13),
     st_routes := [(20, 7) \<mapsto> 21], st_orders := [66 \<mapsto> demo_leg],
     st_root_verifiers := [7 \<mapsto> ContractAddr 12], st_rv_changed := [7 \<mapsto> 100],
     st_wired_chains := [7], st_in_flight := [2 \<mapsto> 1],
     st_timings := [(7, 1) \<mapsto> demo_timing], st_timing_versions := [7 \<mapsto> 1],
     am_chains := [7 \<mapsto> 40], am_ads := [''a1'' \<mapsto> demo_ad],
     am_key_registry := Some (ContractAddr 11), am_registry_epoch := Some 1,
     am_registry_at := [1 \<mapsto> ContractAddr 11]\<rparr>"

lemma demo_entry: "entry demo_crypto demo_me (demo_env t)"
  by (simp add: entry_def demo_env_def demo_me_def demo_admin_def demo_maker_def)

lemma run_calls_reach:
  assumes "ad_reach X C me cid S R sw" "\<And>t. entry C me (E t)" "\<forall>c \<in> set cs. names_only S (snd c)"
    "run_calls X E cs sw = Some sw'"
  shows "ad_reach X C me cid S R sw'"
  using assms
proof (induction cs arbitrary: sw)
  case (Cons tc cs)
  obtain t c where tc: "tc = (t, c)" by (cases tc)
  from Cons.prems(4) tc obtain sw1 where "ad_exec X (E t) c sw = Inr sw1"
    and rest: "run_calls X E cs sw1 = Some sw'" by (auto split: sum.splits)
  with Cons.prems tc have "ad_reach X C me cid S R sw1" by (auto intro: reach_call)
  then show ?case using Cons rest by auto
qed simp

lemma demo_init_reach: "ad_reach demo_ext demo_crypto demo_me 9 S R (demo_init, 0)"
  by (rule reach_init [OF demo_entry [of 0],
        where adm = demo_admin and vf = "ContractAddr 14" and mm = "ContractAddr 15" and
          wn = "ContractAddr 16"])
    (simp add: ad_initialize_def ad_empty_def demo_init_def demo_config_def require_auth_def demo_env_def)

text \<open>The demonstration's hash is the length of its input, so every typed hash is 66.\<close>

lemma demo_typed_hash:
  "keccak256 C = (\<lambda>bs. of_nat (length bs)) \<Longrightarrow> typed_order_hash C o' = 66"
  by (simp add: typed_order_hash_def hash_typed_data_v4_def)

lemma demo_hash_env:
  "hash_raw (prims (demo_env t)) (chain_id demo_config) (self (demo_env t)) demo_order = 66"
  unfolding hash_raw_def by (rule demo_typed_hash) (simp add: demo_env_def demo_crypto_def)

lemma demo_hash: "hash_raw demo_crypto 9 demo_me demo_order = 66"
  unfolding hash_raw_def by (rule demo_typed_hash) (simp add: demo_crypto_def)

lemmas demo_defs = demo_setup_def demo_init_def demo_config_def demo_env_def demo_ext_def demo_order_def
  demo_timing_def demo_crypto_def demo_me_def demo_admin_def demo_maker_def demo_transfer_def
  ad_empty_def tl_init_def demo_ad_def demo_leg_def demo_typed_hash

lemmas run_defs = setter_defs setter_part_defs gated_def get_config_def with_timelock_def gate_def
  gate_keyed_def is_active_def require_auth_def is_zero_bytes32_def get_chain_def on_store_def
  dropping_def fl_def validate_timing_def timing_consts push_route_timing_def get_timing_version_def
  get_registry_epoch_def create_ad_def get_token_route_def get_ad_def require_registered_def
  has_usable_slot_def transfer_from_user_def transfer_tokens_def is_native_token_def
  NATIVE_TOKEN_ADDRESS_def bytes32_to_token_address_def as_i128_def set_ad_def

lemmas lock_defs = lock_for_order_def validate_order_def assert_in_range_def MAX_DECIMALS_def
  bytes32_to_account_address_def get_fees_def no_fees_def slot_usable_def assert_ad_decimals_def
  token_decimals_def require_min_window_def current_timing_def get_route_timing_at_def
  registry_split_def verifier_registry_def ad_amount_def scale_def order_hash_def order_of_def
  abi_encode_string_def anchor_delay_now_def anchor_delay_of_def get_order_status_def get_order_def
  no_order_def open_order_def set_order_def u32_clamp_def get_in_flight_def set_in_flight_def
  append_to_merkle_def csub_def cadd_def

lemma demo_setup_runs: "run_calls demo_ext demo_env demo_setup (demo_init, 0) = Some (demo_locked, 1000)"
  by (simp add: demo_locked_def demo_defs run_defs lock_defs)

lemma demo_locked_reach:
  "ad_reach demo_ext demo_crypto demo_me 9 {demo_order} R (demo_locked, 1000)"
  by (rule run_calls_reach [OF demo_init_reach demo_entry _ demo_setup_runs])
    (simp add: demo_setup_def)

lemma demo_locked_ad: "am_ads demo_locked ''a1'' = Some demo_ad"
  and demo_locked_order: "get_order demo_locked 66 = demo_leg"
  by (simp_all add: demo_locked_def get_order_def)

lemma demo_locked_config: "st_config demo_locked = Some demo_config"
  and demo_locked_timing: "order_timing demo_locked 66 7 = Inr demo_timing"
  by (simp_all add: demo_locked_def demo_init_def order_timing_def get_order_def demo_leg_def
      get_route_timing_at_def)

lemma demo_append: "mm_append demo_ext E mm a h d w = Some w"
  and demo_params: "p_order_chain_id demo_order = 7" "p_ad_id demo_order = ''a1''"
  by (simp_all add: demo_ext_def demo_order_def)

lemma demo_amt: "ad_amount demo_order = Inr 500" "amt_of demo_order = 500"
  by (simp_all add: amt_of_def ad_amount_def scale_def demo_order_def assert_in_range_def
      MAX_DECIMALS_def fl_def)

text \<open>The order unlocked a hundred seconds later: the recipient is paid, the ad keeps the rest.\<close>

definition demo_settled :: ad_store where
  "demo_settled = demo_locked\<lparr>st_orders := [66 \<mapsto> demo_leg\<lparr>status := Filled\<rparr>],
     st_nullifiers := [77 \<mapsto> True], st_in_flight := Map.empty,
     am_ads := [''a1'' \<mapsto> demo_ad\<lparr>ad_balance := 500, ad_locked := 0\<rparr>]\<rparr>"

lemmas unlock_defs = unlock_def require_settleable_def is_nullifier_used_def order_timing_def
  presentation_cutoff_def window_end_def is_halted_def get_halt_def is_root_valid_def
  build_public_inputs_def is_canonical_def field_mod_def verify_proof_def set_nullifier_used_def
  close_dispute_def close_dispute_by_evidence_def dispute_filer_def fill_def count_out_def
  remove_claim_def set_order_status_def pay_from_ad_def charge_fee_def split_fee_def bps_of_def
  cmul_def pay_net_def pay_or_credit_def try_transfer_to_recipient_def get_claimable_def
  set_claimable_def saturating_add_def saturating_sub_def

lemma demo_unlock_runs:
  "unlock demo_ext (demo_env 400) demo_order 77 88 [] [] (demo_locked, 1000) = Inr (demo_settled, 500)"
  by (simp add: demo_settled_def demo_locked_def demo_defs run_defs lock_defs unlock_defs)

text \<open>The other end: claimed at the deadline, unlocked in the window or cancelled after it.\<close>

definition demo_claimed :: ad_store where
  "demo_claimed = demo_locked\<lparr>st_orders := [66 \<mapsto> demo_leg\<lparr>status := Claimed\<rparr>],
     st_claims := [66 \<mapsto> \<lparr>opened_at = 10000, finalize_at = 11800\<rparr>]\<rparr>"

lemmas cancel_defs = claim_cancel_def require_status_def require_reached_def open_claim_def
  set_claim_def finalize_cancel_def require_finalizable_def cancel_end_def co_sign_denied_def
  get_root_verifier_changed_at_def get_registry_at_def expired_at_def cancel_def get_claim_def

lemma demo_claim_runs: "claim_cancel (demo_env 10000) demo_order demo_locked = Inr demo_claimed"
  by (simp add: demo_claimed_def demo_locked_def demo_defs run_defs lock_defs unlock_defs cancel_defs)

lemma demo_claimed_reach:
  "ad_reach demo_ext demo_crypto demo_me 9 {demo_order} R (demo_claimed, 1000)"
  by (rule reach_call [OF demo_locked_reach demo_entry, of "KOrder (KClaimCancel demo_order)" 10000])
    (simp_all add: res_simps demo_claim_runs)

lemma demo_claimed_unlock:
  "\<exists>s. unlock demo_ext (demo_env 10100) demo_order 77 88 [] [] (demo_claimed, 1000) = Inr (s, 500)"
  by (simp add: demo_claimed_def demo_locked_def demo_defs run_defs lock_defs unlock_defs get_claim_def)

definition demo_cancelled :: ad_store where
  "demo_cancelled = demo_locked\<lparr>st_orders := [66 \<mapsto> demo_leg\<lparr>status := Cancelled\<rparr>],
     st_in_flight := Map.empty, am_ads := [''a1'' \<mapsto> demo_ad\<lparr>ad_locked := 0\<rparr>]\<rparr>"

lemma demo_cancel_runs:
  "finalize_cancel demo_ext (demo_env 11800) demo_order (demo_claimed, 1000) = Inr (demo_cancelled, 1000)"
  by (simp add: demo_cancelled_def demo_claimed_def demo_locked_def demo_defs run_defs lock_defs
      unlock_defs cancel_defs)

lemma demo_claimed_config: "st_config demo_claimed = Some demo_config"
  and demo_claimed_timing: "order_timing demo_claimed 66 7 = Inr demo_timing"
  and demo_claimed_status: "get_order_status demo_claimed 66 = Claimed"
  and demo_claimed_ad: "am_ads demo_claimed ''a1'' = Some demo_ad"
  by (simp_all add: demo_claimed_def demo_locked_def demo_init_def order_timing_def get_order_def
      demo_leg_def get_route_timing_at_def get_order_status_def)

lemma demo_claimed_end:
  "cancel_end demo_ext (ad_maker demo_ad) demo_order 66 demo_timing (demo_claimed, 1000) = Inr 11800"
  by (simp add: demo_claimed_def demo_locked_def demo_defs run_defs lock_defs unlock_defs cancel_defs)

end
