(* ===== verification/Rate_Limit.thy ===== *)
theory Rate_Limit
  imports Core_Types
begin

text \<open>
  Token-bucket volume accounting (\<open>lib/proofbridge-core/src/rate_limit.rs\<close>): a bucket that refills
  continuously, and the bound it gives on everything spent in an interval.
\<close>

record limit =
  capacity :: u128
  refill_per_second :: u128

record bucket =
  level :: u128
  last_ts :: u64

definition full_bucket :: "limit \<Rightarrow> u64 \<Rightarrow> bucket" where
  "full_bucket l t = \<lparr>level = capacity l, last_ts = t\<rparr>"

definition available :: "limit \<Rightarrow> bucket \<Rightarrow> u64 \<Rightarrow> u128" where
  "available l b t =
     (let elapsed = (ucast (saturating_sub t (last_ts b)) :: u128);
          refilled = Option.bind (checked_mul (refill_per_second l) elapsed) (checked_add (level b))
      in case refilled of
           Some r \<Rightarrow> if r \<le> capacity l then r else capacity l
         | None \<Rightarrow> capacity l)"

definition try_spend :: "limit \<Rightarrow> bucket \<Rightarrow> u128 \<Rightarrow> u64 \<Rightarrow> bucket option" where
  "try_spend l b spend t =
     (let lev = available l b t in
      if lev < spend then None
      else Some \<lparr>level = lev - spend, last_ts = (if t > last_ts b then t else last_ts b)\<rparr>)"

text \<open>A sequence of spends \<open>(amount, timestamp)\<close>; it stops at the first refusal.\<close>

fun spend_all :: "limit \<Rightarrow> bucket \<Rightarrow> (u128 \<times> u64) list \<Rightarrow> bucket option" where
  "spend_all l b [] = Some b"
| "spend_all l b ((a, t) # xs) =
     (case try_spend l b a t of None \<Rightarrow> None | Some b' \<Rightarrow> spend_all l b' xs)"

definition total_spent :: "(u128 \<times> u64) list \<Rightarrow> nat" where
  "total_spent xs = (\<Sum>x\<leftarrow>xs. unat (fst x))"

section \<open>Properties\<close>

lemma unat_ucast_u64_u128 [simp]: "unat (ucast (t :: u64) :: u128) = unat t"
proof -
  have "unat t < 2 ^ 64" using unat_less_len [of t] by simp
  then have "unat t < 2 ^ 128" by simp
  then show ?thesis by (simp add: unsigned_ucast_eq take_bit_nat_eq_self)
qed

text \<open>Both overflows mean "more than capacity": the checked form is the ideal minimum.\<close>

lemma unat_available [chk_simps]:
  "unat (available l b t) =
     min (unat (capacity l))
         (unat (level b) + unat (refill_per_second l) * (unat t - unat (last_ts b)))"
proof -
  let ?e = "unat t - unat (last_ts b)"
  let ?ew = "ucast (saturating_sub t (last_ts b)) :: u128"
  have e: "unat ?ew = ?e" by (simp add: unat_saturating_sub)
  have cap: "unat (capacity l) < 2 ^ LENGTH(128)" by (rule unat_less_len)
  show ?thesis
  proof (cases "checked_mul (refill_per_second l) ?ew")
    case None
    then have "2 ^ LENGTH(128) \<le> unat (refill_per_second l) * ?e"
      by (simp only: checked_mul_None e)
    then show ?thesis using None cap by (simp add: available_def Let_def min_def)
  next
    case (Some m)
    then have m: "unat m = unat (refill_per_second l) * ?e" by (simp only: checked_mul_Some e)
    show ?thesis
    proof (cases "checked_add (level b) m")
      case None
      then have "2 ^ LENGTH(128) \<le> unat (level b) + unat m" by (simp add: checked_add_None)
      then show ?thesis using Some None cap m by (simp add: available_def Let_def min_def)
    next
      case (Some r)
      then have "unat r = unat (level b) + unat m" by (simp add: checked_add_Some)
      then show ?thesis
        using \<open>checked_mul _ _ = Some m\<close> Some m
        by (auto simp: available_def Let_def min_def word_le_nat_alt)
    qed
  qed
qed

lemma available_le_capacity: "unat (available l b t) \<le> unat (capacity l)"
  by (simp add: unat_available)

lemma try_spend_Some [res_simps]:
  "try_spend l b a t = Some b' \<longleftrightarrow>
     unat (level b') + unat a = unat (available l b t) \<and>
     unat (last_ts b') = max (unat t) (unat (last_ts b)) \<and> bucket.more b' = ()"
proof -
  have "try_spend l b a t = Some b' \<longleftrightarrow>
      unat a \<le> unat (available l b t) \<and> level b' = available l b t - a \<and>
      last_ts b' = (if t > last_ts b then t else last_ts b)"
    by (cases b') (auto simp: try_spend_def Let_def word_less_nat_alt not_less)
  also have "\<dots> \<longleftrightarrow> unat (level b') + unat a = unat (available l b t) \<and>
      unat (last_ts b') = max (unat t) (unat (last_ts b))"
    by (auto simp: word_unat_eq_iff unat_sub word_le_nat_alt word_less_nat_alt max_def
        split: if_splits)
  finally show ?thesis by simp
qed

lemma try_spend_None: "try_spend l b a t = None \<longleftrightarrow> unat (available l b t) < unat a"
  by (auto simp: try_spend_def Let_def word_less_nat_alt)

lemma mult_split: "a = b + c \<Longrightarrow> r * a = r * b + r * c" for a b c r :: nat
  by (simp add: distrib_left)

text \<open>
  The allowance at a later time exceeds the allowance at an earlier one by at most the refill in
  between; a stamp ahead of the clock refunds nothing.
\<close>

lemma available_growth:
  assumes "unat t0 \<le> unat t"
  shows "unat (available l b t) \<le> unat (available l b t0) +
    unat (refill_per_second l) * (max (unat t) (unat (last_ts b)) - max (unat t0) (unat (last_ts b)))"
proof -
  define d where "d = max (unat t) (unat (last_ts b)) - max (unat t0) (unat (last_ts b))"
  have "unat t - unat (last_ts b) = (unat t0 - unat (last_ts b)) + d"
    using assms unfolding d_def by linarith
  from mult_split [OF this, of "unat (refill_per_second l)"] show ?thesis
    by (simp add: unat_available d_def [symmetric])
qed

lemma spend_all_bound:
  assumes "spend_all l b xs = Some b'" "\<forall>x \<in> set xs. unat t0 \<le> unat (snd x)"
  shows "total_spent xs + min (unat (capacity l)) (unat (available l b' t0)) \<le>
    unat (available l b t0) + unat (refill_per_second l) *
      (max (unat t0) (unat (last_ts b')) - max (unat t0) (unat (last_ts b)))
    \<and> unat (last_ts b) \<le> unat (last_ts b')"
  using assms
proof (induction xs arbitrary: b)
  case Nil
  then show ?case by (simp add: total_spent_def)
next
  case (Cons x xs)
  obtain a t where x: "x = (a, t)" by force
  with Cons.prems obtain b1 where b1: "try_spend l b a t = Some b1" and run: "spend_all l b1 xs = Some b'"
    by (auto split: option.splits)
  let ?r = "unat (refill_per_second l)"
  define m m1 m' where "m = max (unat t0) (unat (last_ts b))"
    and "m1 = max (unat t0) (unat (last_ts b1))" and "m' = max (unat t0) (unat (last_ts b'))"
  have t: "unat t0 \<le> unat t" using Cons.prems x by simp
  from b1 have lev: "unat (level b1) + unat a = unat (available l b t)"
    and ts: "unat (last_ts b1) = max (unat t) (unat (last_ts b))"
    by (auto simp: try_spend_Some)
  have av1: "unat (available l b1 t0) \<le> unat (level b1)"
    using t ts by (simp add: unat_available)
  from Cons.IH [OF run] Cons.prems(2)
  have IH: "total_spent xs + min (unat (capacity l)) (unat (available l b' t0)) \<le>
      unat (available l b1 t0) + ?r * (m' - m1)"
    and mono: "unat (last_ts b1) \<le> unat (last_ts b')" by (simp_all add: m'_def m1_def)
  have m1: "m1 = max (unat t) (unat (last_ts b))" using ts t by (simp add: m1_def)
  then have grow: "unat (available l b t) \<le> unat (available l b t0) + ?r * (m1 - m)"
    using available_growth [OF t, of l b] by (simp add: m_def)
  have "m \<le> m1" "m1 \<le> m'" using mono ts t by (auto simp: m_def m1_def m'_def)
  then have "m' - m = (m1 - m) + (m' - m1)" by simp
  from mult_split [OF this, of ?r]
  have split: "?r * (m' - m) = ?r * (m1 - m) + ?r * (m' - m1)" .
  have tot: "total_spent (x # xs) = unat a + total_spent xs"
    by (simp add: total_spent_def x)
  have "unat (last_ts b) \<le> unat (last_ts b')" using mono ts by simp
  moreover have "total_spent (x # xs) + min (unat (capacity l)) (unat (available l b' t0)) \<le>
      unat (available l b t0) + ?r * (m' - m)"
    using IH grow lev av1 split tot by linarith
  ultimately show ?case by (simp add: m_def m'_def)
qed

end
