(* ===== verification/Secp.thy ===== *)
theory Secp
  imports Core_Types
begin

text \<open>
  The one owner-signature rule and the recovery to an EVM address
  (\<open>lib/proofbridge-core/src/secp.rs\<close>). A 64-byte signature is the pair \<open>(r, s)\<close> of its 32-byte
  halves; comparing equal-length byte slices is comparing the big-endian numbers.
\<close>

type_synonym sig64 = "bytes32 \<times> bytes32"

definition SECP_N :: bytes32 where
  "SECP_N = 0xfffffffffffffffffffffffffffffffebaaedce6af48a03bbfd25e8cd0364141"

definition SECP_HALF_N :: bytes32 where
  "SECP_HALF_N = 0x7fffffffffffffffffffffffffffffff5d576e7357a4501ddfe92f46681b20a0"

definition secp_sig_acceptable :: "sig64 \<Rightarrow> u32 \<Rightarrow> u32 option" where
  "secp_sig_acceptable sig recovery_id =
     (let v = (if recovery_id = 0 \<or> recovery_id = 1 then Some recovery_id
               else if recovery_id = 27 \<or> recovery_id = 28 then Some (recovery_id - 27)
               else None);
          r = fst sig; s = snd sig
      in case v of
           None \<Rightarrow> None
         | Some v \<Rightarrow>
             if r = 0 \<or> r \<ge> SECP_N \<or> s = 0 \<or> s > SECP_HALF_N then None else Some v)"

text \<open>
  The host's \<open>secp256k1_recover\<close> (the 65-byte public key; it traps when no key matches) and
  \<open>keccak256\<close> are parameters. The address is the last 20 bytes of the hash of the key without its tag
  byte; a signature the rule refuses is \<open>None\<close>.
\<close>

definition recover_evm_address ::
  "(bytes32 \<Rightarrow> sig64 \<Rightarrow> u32 \<Rightarrow> bytes option) \<Rightarrow> (bytes \<Rightarrow> bytes32) \<Rightarrow> bytes32 \<Rightarrow> sig64 \<Rightarrow> u32 \<Rightarrow>
   ('e, bytes option) res" where
  "recover_evm_address recover keccak digest sig recovery_id =
     (case secp_sig_acceptable sig recovery_id of
        None \<Rightarrow> Ok None
      | Some v \<Rightarrow> attempt (ok_or_trap (recover digest sig v)) (\<lambda>pk.
          Ok (Some (drop 12 (be_bytes 32 (keccak (drop 1 pk)))))))"

definition evm_address_to_bytes32 :: "bytes \<Rightarrow> bytes32" where
  "evm_address_to_bytes32 addr = from_be (replicate 12 0 @ addr)"

section \<open>Properties\<close>

lemma unat_secp_consts:
  "unat SECP_N = 0xfffffffffffffffffffffffffffffffebaaedce6af48a03bbfd25e8cd0364141"
  "unat SECP_HALF_N = 0x7fffffffffffffffffffffffffffffff5d576e7357a4501ddfe92f46681b20a0"
  by (simp_all add: SECP_N_def SECP_HALF_N_def)

text \<open>The half constant is the half of the group order, rounded down.\<close>

lemma secp_half: "unat SECP_HALF_N = unat SECP_N div 2"
  by (simp add: unat_secp_consts)

lemma secp_sig_acceptable_iff:
  "secp_sig_acceptable (r, s) rid = Some v \<longleftrightarrow>
     (v = 0 \<and> (rid = 0 \<or> rid = 27) \<or> v = 1 \<and> (rid = 1 \<or> rid = 28)) \<and>
     0 < unat r \<and> unat r < unat SECP_N \<and> 0 < unat s \<and> 2 * unat s \<le> unat SECP_N"
proof -
  have s: "(s > SECP_HALF_N) = (\<not> 2 * unat s \<le> unat SECP_N)"
    by (auto simp: word_less_nat_alt unat_secp_consts)
  have r: "(r \<ge> SECP_N) = (\<not> unat r < unat SECP_N)"
    by (auto simp: word_le_nat_alt)
  have z: "(r = 0) = (\<not> 0 < unat r)" "(s = 0) = (\<not> 0 < unat s)"
    by (auto simp: word_unat_eq_iff)
  show ?thesis
    unfolding secp_sig_acceptable_def Let_def fst_conv snd_conv s r z
    by auto
qed

end
