(* ===== verification/Core_Properties.thy ===== *)
theory Core_Properties
  imports Ad_Demo Rate_Limit Secp
begin

text \<open>
  The properties of the shared core library: fees, decimals, rate limits, the timelock, the order
  hash and the proofs' public inputs. Each has a witness on concrete data.
\<close>

section \<open>Fees and decimals\<close>

text \<open>Under a legal fee setting a split is always computed, each part is the exact floor of its
  basis points, and the two parts together never exceed the amount.\<close>

theorem split_fee_exact:
  assumes "fees_valid lp pr has_pool"
  shows "\<exists>x y. split_fee a lp pr = (Inr (x, y) :: ('e, u128 \<times> u128) res) \<and>
    unat x = unat a * unat lp div 10000 \<and> unat y = unat a * unat pr div 10000 \<and>
    unat x + unat y \<le> unat a"
proof -
  have "unat lp + unat pr \<le> 10000" using fees_valid_bound [OF assms] by simp
  from split_fee_total [OF this, of a, where 'e = 'e] show ?thesis by (auto simp: split_fee_Ok)
qed

theorem split_fee_exact_witness:
  "\<exists>x y. split_fee 123456789 100 30 = (Inr (x, y) :: (fault, u128 \<times> u128) res) \<and>
    unat x = 1234567 \<and> unat y = 370370"
  using split_fee_exact [of 100 30 True 123456789, where 'e = fault]
  by (force simp: fees_valid_def MAX_FEE_BPS_def)

text \<open>C12: An accepted scaling of an amount between two decimal counts loses nothing: both amounts
  denote the same value, and scaling back returns the first amount.\<close>

theorem scale_lossless:
  assumes "scale a f t = Inr r"
  shows "unat r * 10 ^ (unat f - unat t) = unat a * 10 ^ (unat t - unat f) \<and> scale r t f = Inr a"
  using scale_value [OF assms] scale_back [OF assms] by blast

theorem scale_lossless_witness: "scale 1234500000 7 12 = Inr (123450000000000 :: u128) \<and>
    scale 123450000000000 12 7 = Inr (1234500000 :: u128)"
proof -
  have up: "scale 1234500000 7 12 = Inr (123450000000000 :: u128)" by (simp add: scale_up)
  then show ?thesis using scale_lossless [OF up] by blast
qed

section \<open>Volume limits\<close>

lemma spend_all_last:
  assumes "spend_all l b xs = Some b'" "\<forall>x \<in> set xs. unat (snd x) \<le> unat t1" "unat (last_ts b) \<le> unat t1"
  shows "unat (last_ts b') \<le> unat t1"
  using assms
proof (induction xs arbitrary: b)
  case (Cons x xs)
  obtain a t where x: "x = (a, t)" by force
  with Cons.prems obtain b1 where "try_spend l b a t = Some b1" "spend_all l b1 xs = Some b'"
    by (auto split: option.splits)
  with Cons.IH [of b1] Cons.prems x show ?case by (auto simp: try_spend_Some)
qed simp

text \<open>C11: Whatever the sequence of accepted spends, and however the clock moves within an interval,
  the total spent in it is at most the capacity plus the refill over the interval.\<close>

theorem rate_limit_window:
  fixes t0 t1 :: u64
  assumes "spend_all l b xs = Some b'" "unat (last_ts b) \<le> unat t1" "unat t0 \<le> unat t1"
    and "\<forall>x \<in> set xs. unat t0 \<le> unat (snd x) \<and> unat (snd x) \<le> unat t1"
  shows "total_spent xs \<le> unat (capacity l) + unat (refill_per_second l) * (unat t1 - unat t0)"
proof -
  let ?d = "max (unat t0) (unat (last_ts b')) - max (unat t0) (unat (last_ts b))"
  have "unat (last_ts b') \<le> unat t1" using spend_all_last [OF assms(1) _ assms(2)] assms(4) by blast
  then have "?d \<le> unat t1 - unat t0" using assms(3) by (auto simp: max_def)
  then have "unat (refill_per_second l) * ?d \<le> unat (refill_per_second l) * (unat t1 - unat t0)"
    by (rule mult_le_mono2)
  moreover have "total_spent xs \<le> unat (available l b t0) + unat (refill_per_second l) * ?d"
    using spend_all_bound [OF assms(1), of t0] assms(4) by simp
  ultimately show ?thesis using available_le_capacity [of l b t0] by linarith
qed

theorem rate_limit_window_witness:
  "total_spent [(60, 100), (40, 100), (20, 110)] \<le> 100 + 2 * (110 - 100)"
proof -
  let ?l = "\<lparr>capacity = 100, refill_per_second = 2\<rparr>"
  have run: "spend_all ?l (full_bucket ?l 100) [(60, 100), (40, 100), (20, 110)] =
      Some \<lparr>level = 0, last_ts = 110\<rparr>"
    by (simp add: full_bucket_def try_spend_def available_def saturating_sub_def checked_mul_def
        checked_add_def Let_def)
  from rate_limit_window [OF run, of 110 100] show ?thesis by (simp add: full_bucket_def)
qed

section \<open>The timelock\<close>

text \<open>C10: After activation a gated call runs only if exactly this call was proposed between a day and
  fifteen days before, in the same admin epoch, not dropped and not used since, and with no brake on
  its key pulled at or after the proposal; and it consumes the proposal.\<close>

theorem timelock_delay:
  assumes "tl_run C h tlk" "prims E = C" "tl_active tlk" "gate_keyed E adm f args key tlk = Inr tlk'"
  shows "\<exists>h1 h2 t. h = h2 @ (t, LProposed (action_id E f args)) # h1 \<and>
    unat t + 86400 \<le> unat (now E) \<and> unat (now E) \<le> unat t + 86400 + 1209600 \<and>
    (\<forall>x \<in> set h2. snd x \<notin> {LEpoch, LCancelled (action_id E f args), LExecuted (action_id E f args)}) \<and>
    (\<forall>k b. key = Some k \<longrightarrow> (b, LBraked k) \<in> set h \<longrightarrow> 0 < unat b \<longrightarrow> unat b < unat t) \<and>
    tl_proposals tlk' (action_id E f args) = None"
proof (rule gate_backed [OF assms])
  fix h1 h2 t
  assume h: "h = h2 @ (t, LProposed (action_id E f args)) # h1"
    and t: "unat t + unat DELAY \<le> unat (now E)" "unat (now E) \<le> unat t + unat DELAY + unat GRACE"
    and rest: "\<forall>x \<in> set h2. snd x \<notin> {LEpoch, LCancelled (action_id E f args), LExecuted (action_id E f args)}"
      "\<forall>k b. key = Some k \<longrightarrow> (b, LBraked k) \<in> set h \<longrightarrow> 0 < unat b \<longrightarrow> unat b < unat t"
      "tl_proposals tlk' (action_id E f args) = None"
  show ?thesis
    by (intro exI [of _ h1] exI [of _ h2] exI [of _ t] conjI rest)
      (use h t in \<open>simp_all add: unat_DELAY unat_GRACE\<close>)
qed

definition demo_tl :: timelock where
  "demo_tl = \<lparr>tl_active = True, tl_epoch = 0, tl_proposals = [1 \<mapsto> (86500, 0)], tl_brakes = Map.empty\<rparr>"

lemma demo_tl_run: "tl_run demo_crypto [(100, LProposed 1)] demo_tl"
proof -
  have "propose (demo_env 100) ''f'' [] tl_init = Inr (1, demo_tl)"
    by (simp add: propose_def demo_env_def demo_crypto_def tl_init_def is_active_def set_active_def
        action_id_def eta_def proposal_def cadd_def DELAY_def demo_tl_def)
  with run_propose [OF run_init, of "demo_env 100" demo_crypto] show ?thesis
    by (simp add: not_before_def demo_env_def)
qed

theorem timelock_delay_witness:
  "\<exists>h1 h2 t. [(100 :: u64, LProposed 1)] = h2 @ (t, LProposed 1) # h1 \<and> unat t + 86400 \<le> unat (86500 :: u64)"
proof -
  have gate: "gate_keyed (demo_env 86500) demo_admin ''f'' [] None demo_tl =
      Inr (demo_tl\<lparr>tl_proposals := (tl_proposals demo_tl)(1 := None)\<rparr>)"
    by (simp add: gate_keyed_def demo_tl_def is_active_def action_id_def demo_env_def demo_crypto_def
        proposal_def cadd_def GRACE_def)
  have "prims (demo_env 86500) = demo_crypto" "tl_active demo_tl" by (simp_all add: demo_env_def demo_tl_def)
  from timelock_delay [OF demo_tl_run this gate] show ?thesis
    by (auto simp: action_id_def demo_env_def demo_crypto_def)
qed

section \<open>What a hash and a proof bind\<close>

text \<open>C13: The typed hash binds every field of an order: over a set of orders on whose encodings the
  hash function has no collision, two different orders never share a hash.\<close>

theorem order_hash_binds:
  assumes "inj_on (keccak256 C) (order_inputs C S)" "o1 \<in> S" "o2 \<in> S" "o1 \<noteq> o2"
  shows "typed_order_hash C o1 \<noteq> typed_order_hash C o2"
  using typed_order_hash_inj_on [OF assms(1)] assms(2-4) by (auto dest: inj_onD)

text \<open>A hash that reads the last word and the length: enough to tell the inputs of two orders apart.\<close>

definition demo_hash_fun :: "bytes \<Rightarrow> bytes32" where
  "demo_hash_fun bs = from_be bs + of_nat (length bs) * 2 ^ 200"

definition demo_binding :: crypto where
  "demo_binding = demo_crypto\<lparr>keccak256 := demo_hash_fun\<rparr>"

definition demo_eip :: "u32 \<Rightarrow> eip_order" where
  "demo_eip fee = \<lparr>eo_order_chain_token = 1, eo_ad_chain_token = 2, eo_amount = 3, eo_bridger = 4,
     eo_order_chain_id = 5, eo_order_portal = 6, eo_order_recipient = 7, eo_ad_chain_id = 8,
     eo_ad_manager = 9, eo_ad_id_hash = 10, eo_ad_creator = 11, eo_ad_recipient = 12, eo_salt = 13,
     eo_order_decimals = 7, eo_ad_decimals = 7, eo_deadline = 14, eo_ad_settlement_signer = 15,
     eo_lp_fee_bps = 0, eo_protocol_fee_bps = fee\<rparr>"

lemma be_nat_append: "be_nat (xs @ ys) = be_nat xs * 256 ^ length ys + be_nat ys"
proof (induction ys rule: rev_induct)
  case (snoc y ys)
  have "be_nat ((xs @ ys) @ [y]) = be_nat (xs @ ys) * 256 + unat y" by (rule be_nat_snoc)
  then show ?case using snoc by (simp add: be_nat_snoc algebra_simps)
qed (simp add: be_nat_def)

lemma from_be_last: "length ys = 32 \<Longrightarrow> (from_be (xs @ ys) :: bytes32) = from_be ys"
proof -
  assume "length ys = 32"
  then have "(from_be (xs @ ys) :: bytes32) = of_nat (be_nat xs) * of_nat (256 ^ 32) + from_be ys"
    by (simp only: from_be_def be_nat_append of_nat_add of_nat_mult)
  moreover have "(of_nat (256 ^ 32) :: bytes32) = 0" by simp
  ultimately show ?thesis by (simp only: mult_zero_right add_0)
qed

lemma from_be_uint: "(from_be (abi_encode_uint256 v) :: bytes32) = ucast v"
proof -
  have "be_nat (replicate k 0 @ ys) = be_nat ys" for k and ys :: bytes
    by (induction k) (simp_all add: be_nat_def)
  moreover have "be_nat (be_bytes 16 v) = unat v"
    unfolding be_bytes_def using unat_less_len [of v] by (intro be_nat_be_bytes_nat) simp
  ultimately show ?thesis by (simp add: abi_encode_uint256_def from_be_def)
qed

lemma demo_hash_preimage: "demo_hash_fun (order_preimage (demo_eip fee)) = ucast fee + 640 * 2 ^ 200"
proof -
  have split: "order_preimage (demo_eip fee) = concat (butlast (order_words (demo_eip fee))) @
      abi_encode_uint256 (ucast (eo_protocol_fee_bps (demo_eip fee)))"
    by (simp add: order_preimage_def order_words_def)
  have "(ucast (ucast fee :: u128) :: bytes32) = ucast fee"
    by (rule bit_word_eqI) (auto simp: bit_simps dest: bit_imp_le_length)
  then show ?thesis
    unfolding demo_hash_fun_def length_order_preimage
    by (subst split) (simp add: from_be_last from_be_uint demo_eip_def)
qed

lemma demo_hash_wrapped:
  "demo_hash_fun (25 # 1 # be_bytes 32 (d :: bytes32) @ be_bytes 32 (h :: bytes32)) = h + 66 * 2 ^ 200"
proof -
  have "25 # 1 # be_bytes 32 d @ be_bytes 32 h = (25 # 1 # be_bytes 32 d) @ be_bytes 32 h" by simp
  then show ?thesis unfolding demo_hash_fun_def by (simp only: from_be_last length_be_bytes) simp
qed

theorem order_hash_binds_witness:
  "typed_order_hash demo_binding (demo_eip 5) \<noteq> typed_order_hash demo_binding (demo_eip 6)"
proof (rule order_hash_binds)
  show "inj_on (keccak256 demo_binding) (order_inputs demo_binding {demo_eip 5, demo_eip 6})"
    by (simp add: order_inputs_def demo_binding_def struct_hash_order_def demo_hash_preimage
        demo_hash_wrapped inj_on_def be_bytes_inject)
qed (simp_all add: demo_eip_def)

text \<open>A settlement proof's public inputs are never those of an event proof with another flag, so
  no proof of one kind can be spent as the other.\<close>

theorem proofs_of_two_kinds:
  assumes "build_public_inputs C n r h flag = Inr bs" "unat d < 256" "unat flag \<noteq> unat d"
  shows "bs \<noteq> build_event_public_inputs C r' s d"
  by (rule deposit_event_disjoint [OF assms])

theorem proofs_of_two_kinds_witness:
  "\<exists>bs. build_public_inputs demo_crypto 7 8 9 1 = Inr bs \<and> bs \<noteq> build_event_public_inputs demo_crypto 8 9 2"
proof -
  obtain bs where bs: "build_public_inputs demo_crypto 7 8 9 1 = Inr bs"
    by (simp add: build_public_inputs_def is_canonical_def field_mod_def demo_crypto_def Let_def)
  from proofs_of_two_kinds [OF this, of 2] show ?thesis using bs by simp
qed

end
