(* ===== verification/Ad_Properties.thy ===== *)
theory Ad_Properties
  imports Ad_Demo
begin

text \<open>
  The properties of the ad-manager: the accounts of its ads, the lifecycle of its orders, the counts
  the key registry relies on, and the exits that always go through. Each is read off the reachable
  states' invariant or the shape of a call; each has a witness on the demonstration deployment.
\<close>

section \<open>Accounts\<close>

text \<open>C1: In every reachable state an ad's locked part is exactly the sum of the amounts its live
  orders reserve, and its balance covers it.\<close>

theorem ad_locked_exact:
  assumes "ad_reach X C me cid S R (s, w)" "finite S" "inj_on (hash_raw C cid me) S"
    and "am_ads s i = Some a"
  shows "unat (ad_locked a) =
      (\<Sum>p \<in> {p \<in> S. live (get_order_status s (hash_raw C cid me p)) \<and> p_ad_id p = i}. amt_of p) \<and>
    ad_locked a \<le> ad_balance a"
proof -
  let ?V = "ad_view C cid me S"
  have "view_ok ?V" using assms(2,3) by (simp add: view_ok_def ad_view_def)
  then have inv: "bk_inv ?V (book_of s)" using ad_reach_inv [OF assms(1)] by simp
  have "bk_ads (book_of s) i = Some (unat (ad_balance a), unat (ad_locked a), ad_terms a)"
    using assms(4) by (simp add: store_simps ad_row_def)
  from bk_inv_ad [OF inv this] show ?thesis
    by (simp add: reserved_def live_in_def ad_view_def store_simps word_le_nat_alt conj_assoc)
qed

theorem ad_locked_exact_witness:
  "unat (ad_locked (the (am_ads demo_locked ''a1''))) =
     (\<Sum>p \<in> {p \<in> {demo_order}. live (get_order_status demo_locked
        (hash_raw demo_crypto 9 demo_me p)) \<and> p_ad_id p = ''a1''}. amt_of p)"
  using ad_locked_exact [of demo_ext demo_crypto demo_me 9 "{demo_order}" "\<lambda>_ _. True"
      demo_locked 1000 "''a1''"]
  by (simp add: demo_locked_reach demo_locked_ad)

text \<open>C2: A signer's open-position count is the number of its live orders, so the registry's revoke
  guard (\<open>has_open_positions\<close>) is exact.\<close>

theorem ad_in_flight_exact:
  assumes "ad_reach X C me cid S R (s, w)" "finite S" "inj_on (hash_raw C cid me) S"
  shows "unat (get_in_flight s g) =
      card {p \<in> S. live (get_order_status s (hash_raw C cid me p)) \<and> p_ad_settlement_signer p = g} \<and>
    (has_open_positions s g \<longleftrightarrow>
      (\<exists>p \<in> S. live (get_order_status s (hash_raw C cid me p)) \<and> p_ad_settlement_signer p = g))"
proof -
  let ?V = "ad_view C cid me S"
  let ?A = "{p \<in> S. live (get_order_status s (hash_raw C cid me p)) \<and> p_ad_settlement_signer p = g}"
  have "view_ok ?V" using assms(2,3) by (simp add: view_ok_def ad_view_def)
  then have "bk_inv ?V (book_of s)" using ad_reach_inv [OF assms(1)] by simp
  then have "bk_open (book_of s) g = positions ?V (book_of s) g" unfolding bk_inv_def by blast
  then have n: "unat (get_in_flight s g) = card ?A"
    by (simp add: positions_def live_in_def ad_view_def store_simps conj_assoc)
  have "has_open_positions s g \<longleftrightarrow> 0 < card ?A"
    unfolding n [symmetric] has_open_positions_def by (simp add: word_less_nat_alt)
  then show ?thesis using n assms(2) by (auto simp: card_gt_0_iff)
qed

theorem ad_in_flight_exact_witness:
  "unat (get_in_flight demo_locked 2) = card {p \<in> {demo_order}. live (get_order_status
     demo_locked (hash_raw demo_crypto 9 demo_me p)) \<and> p_ad_settlement_signer p = 2}"
  using ad_in_flight_exact [of demo_ext demo_crypto demo_me 9 "{demo_order}" "\<lambda>_ _. True"
      demo_locked 1000]
  by (simp add: demo_locked_reach)

section \<open>Lifecycle\<close>

text \<open>C3: A call changes at most one order's status, only along an edge of the lifecycle, and an
  order that ended stays as it ended.\<close>

theorem ad_status_edges:
  assumes "ad_reach X C me cid S R (s, w)" "finite S" "inj_on (hash_raw C cid me) S"
    and "entry C me E" "names_only S c" "ad_exec X E c (s, w) = Inr (s', w')"
  shows "(\<forall>h. get_order_status s' h = get_order_status s h) \<or>
    (\<exists>h. edge (get_order_status s h) (get_order_status s' h) \<and> \<not> terminal (get_order_status s h) \<and>
      (\<forall>k. k \<noteq> h \<longrightarrow> get_order_status s' k = get_order_status s k))"
proof -
  have "view_ok (ad_view C cid me S)" using assms(2,3) by (simp add: view_ok_def ad_view_def)
  from ad_reach_step [OF assms(1) this assms(4-6)]
  have "bk_step (ad_view C cid me S) (book_of s) (book_of s')" .
  from bk_step_edge [OF this] show ?thesis
  proof
    assume "bk_status (book_of s') = bk_status (book_of s)"
    then show ?thesis by (simp add: book_of_def)
  next
    assume "\<exists>h st. bk_status (book_of s') = (bk_status (book_of s))(h := st) \<and>
      edge (bk_status (book_of s) h) st"
    then obtain h st where "get_order_status s' = (get_order_status s)(h := st)"
      "edge (get_order_status s h) st" by (auto simp: book_of_def)
    then show ?thesis using terminal_no_edge by (intro disjI2 exI [of _ h]) auto
  qed
qed

theorem ad_status_edges_witness:
  "(\<forall>h. get_order_status demo_settled h = get_order_status demo_locked h) \<or>
    (\<exists>h. edge (get_order_status demo_locked h) (get_order_status demo_settled h) \<and>
      \<not> terminal (get_order_status demo_locked h) \<and>
      (\<forall>k. k \<noteq> h \<longrightarrow>
        get_order_status demo_settled k = get_order_status demo_locked k))"
  using ad_status_edges [of demo_ext demo_crypto demo_me 9 "{demo_order}" "\<lambda>_ _. True"
      demo_locked 1000 "demo_env 400" "KOrder (KUnlock demo_order 77 88 [] [])"
      demo_settled 500]
  by (simp add: demo_locked_reach demo_entry demo_unlock_runs)

section \<open>The two ends of an order\<close>

text \<open>C4: A nullifier is spent once: whatever happens after an unlock, no unlock with the same
  nullifier ever succeeds again, for any order, root, proof or caller.\<close>

theorem nullifier_single_use:
  assumes "ad_reach X C me cid S R sw" "unlock X E p nu root pf cosig sw = Inr sw1"
    and "ad_later X sw1 sw2"
  shows "\<forall>E' p' root' pf' cosig' r. unlock X E' p' nu root' pf' cosig' sw2 \<noteq> Inr r"
proof -
  obtain s w s1 w1 where sw: "sw = (s, w)" "sw1 = (s1, w1)" by (cases sw, cases sw1)
  from assms(2) sw have ex: "ad_exec X E (KOrder (KUnlock p nu root pf cosig)) (s, w) = Inr (s1, w1)"
    by simp
  have "claims_match s" "timings_legal s" using ad_reach_memory [OF assms(1)] sw by auto
  then have m: "memory s s1" "claims_match s1" "timings_legal s1" using ad_exec_memory [OF ex] by auto
  from assms(2) sw obtain cfg h where
    settle: "settle_part X E cfg p h (set_nullifier_used nu s, w) = Inr (s1, w1)"
    by (auto elim: unlock_settles)
  have "is_nullifier_used (set_nullifier_used nu s) nu"
    by (simp add: is_nullifier_used_def set_nullifier_used_def)
  with settle have "is_nullifier_used s1 nu"
    using settle_part_effect [OF settle] by (auto simp: order_effect_def)
  then have used: "is_nullifier_used (fst sw2) nu"
    using ad_later_memory [OF assms(3)] m sw by (auto simp: memory_def)
  show ?thesis
  proof (intro allI notI)
    fix E' p' root' pf' cosig' r
    assume "unlock X E' p' nu root' pf' cosig' sw2 = Inr r"
    then have "\<not> is_nullifier_used (fst sw2) nu"
      by (cases sw2, cases r) (auto elim: unlock_settles)
    with used show False by simp
  qed
qed

theorem nullifier_single_use_witness:
  "unlock demo_ext (demo_env 450) demo_order 77 89 [] [] (demo_settled, 500) \<noteq> Inr (demo_locked, 0)"
  using nullifier_single_use [OF demo_locked_reach demo_unlock_runs later_refl] by blast

text \<open>A claim cannot shorten the co-signed window: claiming the cancel leaves the first second the
  unlock is refused where it was, and the cancel it opens finalizes only at that second plus the
  margin, so no second belongs to both.\<close>

theorem claim_keeps_window:
  assumes "claim_cancel E p s = Inr s'" "st_config s = Some cfg"
    and "h = hash_raw (prims E) (chain_id cfg) (self E) p"
    and "order_timing s h (p_order_chain_id p) = Inr t"
  shows "presentation_cutoff s' h p t = presentation_cutoff s h p t \<and>
    unat (p_deadline p) \<le> unat (now E) \<and>
    (\<forall>E'. require_finalizable E' s' h (buffer t) = Inr () \<longleftrightarrow>
       saturating_add (p_deadline p) (buffer t) \<le> now E') \<and>
    (timing_ok t \<longrightarrow> unat (presentation_cutoff s' h p t) + unat (margin t) =
       unat (saturating_add (p_deadline p) (buffer t)))"
proof -
  from assms have st: "get_order_status s h = Open" "p_deadline p \<le> now E"
    and s': "s' = open_claim E h (saturating_add (p_deadline p) (buffer t)) s"
    by (auto simp: claim_cancel_def Let_def window_end_def res_simps)
  have w: "window_end s' h d b = saturating_add (p_deadline p) (buffer t)" for d b
    by (simp add: s' window_end_def open_claim_def get_order_status_def get_claim_def store_simps
        set_order_status_def set_claim_def get_order_def set_order_def)
  have c: "get_order_status s' h = Claimed"
    by (simp add: s' open_claim_def get_order_status_def store_simps)
  have "presentation_cutoff s' h p t = presentation_cutoff s h p t"
    using st by (simp add: presentation_cutoff_def w) (simp add: window_end_def)
  moreover have "unat (presentation_cutoff s' h p t) + unat (margin t) =
      unat (saturating_add (p_deadline p) (buffer t))" if "timing_ok t"
    using timing_okD [OF that] unat_less_len [of "buffer t"]
    by (simp add: presentation_cutoff_def w unat_saturating_sub unat_saturating_add)
  ultimately show ?thesis using st c by (simp add: require_finalizable_Ok w word_le_nat_alt)
qed

theorem claim_keeps_window_witness:
  "presentation_cutoff demo_claimed 66 demo_order demo_timing =
     presentation_cutoff demo_locked 66 demo_order demo_timing"
  using claim_keeps_window [OF demo_claim_runs demo_locked_config, of 66 demo_timing]
  by (simp add: demo_hash_env demo_params demo_locked_timing)

lemma ad_reach_deployed: "ad_reach X C me cid S R sw \<Longrightarrow> deployed cid (fst sw)"
proof (induction rule: ad_reach.induct)
  case (reach_init E adm vf mm wn s w)
  then show ?case using deployed_init by simp
next
  case (reach_call sw E c sw')
  then show ?case
    using ad_exec_rooted [of X E c "fst sw" "snd sw" "fst sw'" "snd sw'"] rooted_deployed by simp
qed simp

text \<open>C5: The co-signed unlock and the finalized cancel never race: on one and the same store, every
  second at which the cancel goes through lies after every second at which the unlock of the same order
  does, by more than the margin of that order's own timing (the version it was locked under).\<close>

theorem unlock_before_cancel:
  assumes "ad_reach X C me cid S R (s, w)" "entry C me E1" "entry C me E2"
    and "unlock X E1 p nu root pf cosig (s, w1) = Inr r1" "finalize_cancel X E2 p (s, w2) = Inr r2"
  shows "\<exists>t. order_timing s (hash_raw C cid me p) (p_order_chain_id p) = Inr t \<and>
    unat (now E1) + unat (margin t) < unat (now E2)"
proof -
  from assms(5) obtain cfg h t where cfg: "st_config s = Some cfg"
    and h: "h = hash_raw (prims E2) (chain_id cfg) (self E2) p"
    and t: "order_timing s h (p_order_chain_id p) = Inr t"
    and c: "get_order_status s h = Claimed" "window_end s h 0 (buffer t) \<le> now E2"
    unfolding finalize_cancel_def by (clarsimp simp: res_simps)
  have same: "prims E1 = C" "self E1 = me" "prims E2 = C" "self E2 = me" using assms(2,3) by (auto simp: entry_def)
  have "chain_id cfg = cid" using ad_reach_deployed [OF assms(1)] cfg by (simp add: deployed_def)
  then have key: "h = hash_raw C cid me p" using h same by simp
  from assms(4) cfg h t same have u: "now E1 < presentation_cutoff s h p t"
    unfolding unlock_def by (clarsimp simp: res_simps not_le)
  have "st_claims s h \<noteq> None" using ad_reach_memory [OF assms(1)] c(1) by (auto simp: claims_match_def)
  then obtain cl where cl: "get_claim s h = Some cl" by (auto simp: get_claim_def)
  then have "unat (finalize_at cl) \<le> unat (now E2)"
    using c by (simp add: window_end_def word_le_nat_alt)
  moreover have "unat (now E1) < unat (finalize_at cl) - unat (margin t)"
    using u c cl by (simp add: presentation_cutoff_def window_end_def word_less_nat_alt unat_saturating_sub)
  ultimately show ?thesis using t by (intro exI [of _ t]) (simp add: key)
qed

theorem unlock_before_cancel_witness:
  "unat (10100 :: u64) + unat (margin demo_timing) < unat (11800 :: u64)"
proof -
  obtain s where "unlock demo_ext (demo_env 10100) demo_order 77 88 [] [] (demo_claimed, 1000) = Inr (s, 500)"
    using demo_claimed_unlock by blast
  from unlock_before_cancel [OF demo_claimed_reach demo_entry demo_entry this demo_cancel_runs]
  obtain t where t: "order_timing demo_claimed 66 7 = Inr t"
    "unat (now (demo_env 10100)) + unat (margin t) < unat (now (demo_env 11800))"
    by (auto simp: demo_hash demo_params)
  then have "t = demo_timing" using demo_claimed_timing by simp
  then show ?thesis using t(2) by (simp only: demo_env_def env.simps)
qed

text \<open>C6: A claimed order past its cancel clock is always released: when the clock \<open>cancel_end\<close> is
  reached and the leaf can be appended, \<open>finalize_cancel\<close> succeeds, and it hands exactly the
  reserved amount back to the ad. No accounting underflow or missing row can block the exit.\<close>

theorem cancel_goes_through:
  assumes "ad_reach X C me cid S R (s, w)" "finite S" "inj_on (hash_raw C cid me) S"
    and "entry C me E" "p \<in> S" "st_config s = Some cfg" "h = hash_raw C cid me p"
    and "get_order_status s h = Claimed" "order_timing s h (p_order_chain_id p) = Inr t"
    and "am_ads s (p_ad_id p) = Some a"
    and "cancel_end X (ad_maker a) p h t (s, w) = Inr at" "at \<le> now E"
    and "mm_append X E (merkle_manager cfg) me h LEAF_DOMAIN_CANCEL w = Some w'"
  shows "\<exists>s' a'. finalize_cancel X E p (s, w) = Inr (s', w') \<and> get_order_status s' h = Cancelled \<and>
    am_ads s' (p_ad_id p) = Some a' \<and> ad_balance a' = ad_balance a \<and>
    unat (ad_locked a') + amt_of p = unat (ad_locked a)"
proof -
  let ?V = "ad_view C cid me S" and ?g = "p_ad_settlement_signer p"
  have V: "view_ok ?V" using assms(2,3) by (simp add: view_ok_def ad_view_def)
  have dep: "deployed cid s" and inv: "bk_inv ?V (book_of s)"
    using ad_reach_inv [OF assms(1) V] by auto
  have "p \<in> live_in ?V (book_of s)" using assms(5,7,8) by (simp add: live_in_def ad_view_def store_simps)
  from bk_inv_covers [OF V inv this] obtain lk n where
    lk: "unat (ad_locked a) = lk + amt_of p" and fit: "fits p (ad_terms a)"
    and n: "unat (get_in_flight s ?g) = Suc n"
    using assms(10) by (simp add: ad_view_def store_simps ad_row_def) blast
  from fit obtain amt where amt: "ad_amount p = Inr amt" "unat amt = amt_of p"
    and len: "length (p_ad_id p) \<le> 1024"
    by (auto simp: fits_def ad_terms_def amt_of_def)
  have hash: "order_hash E cfg p = (Inr h :: (ad_error, bytes32) res)"
    using assms(4,6,7) dep len by (auto simp: order_hash_Ok entry_def deployed_def)
  have fin: "window_end s h 0 (buffer t) \<le> now E"
  proof -
    have "st_claims s h \<noteq> None" using ad_reach_memory [OF assms(1)] assms(8) by (auto simp: claims_match_def)
    then have "window_end s h 0 (buffer t) = window_end s h (p_deadline p) (buffer t)"
      using assms(8) by (auto simp: window_end_def get_claim_def)
    also have "\<dots> \<le> at" using assms(11)
      by (auto simp: cancel_end_def Let_def res_simps le_saturating_add split: if_splits)
    finally show ?thesis using assms(12) by simp
  qed
  define lk' where "lk' = (of_nat lk :: u128)"
  have "lk < 2 ^ 128" using lk unat_less_len [of "ad_locked a"] by simp
  then have sub: "csub (ad_locked a) amt = (Inr lk' :: (ad_error, u128) res)" "unat lk' = lk"
    using lk amt by (simp_all add: csub_Ok lk'_def unat_of_nat)
  define n' where "n' = (of_nat n :: u64)"
  have "n < 2 ^ 64" using n unat_less_len [of "get_in_flight s ?g"] by simp
  then have cnt: "csub (get_in_flight s ?g) 1 = (Inr n' :: (ad_error, u64) res)"
    using n by (simp add: csub_Ok n'_def unat_of_nat)
  let ?s1 = "set_ad (p_ad_id p) (a\<lparr>ad_locked := lk'\<rparr>) s"
  let ?s2 = "remove_claim h (set_order_status h Cancelled ?s1)"
  have fl: "get_in_flight ?s2 ?g = get_in_flight s ?g"
    by (simp add: get_in_flight_def remove_claim_def set_order_status_def store_simps)
  have me: "self E = me" using assms(4) by (simp add: entry_def)
  have "finalize_cancel X E p (s, w) = Inr (set_in_flight ?g n' ?s2, w')"
    using assms(6,8-13) hash fin amt sub cnt me
    by (simp add: finalize_cancel_def get_config_def get_ad_def fl_def require_finalizable_def
        require_reached_def not_less cancel_def count_out_def fl append_to_merkle_def)
  moreover have "get_order_status (set_in_flight ?g n' ?s2) h = Cancelled"
    by (simp add: get_order_status_def get_order_def store_simps) (simp add: set_order_status_def set_order_def)
  moreover have "am_ads (set_in_flight ?g n' ?s2) (p_ad_id p) = Some (a\<lparr>ad_locked := lk'\<rparr>)"
    by (simp add: store_simps)
  ultimately show ?thesis using lk sub(2) by fastforce
qed

theorem cancel_goes_through_witness:
  "\<exists>s' a'. finalize_cancel demo_ext (demo_env 11800) demo_order (demo_claimed, 1000) = Inr (s', 1000) \<and>
     get_order_status s' 66 = Cancelled \<and> am_ads s' (p_ad_id demo_order) = Some a' \<and>
     ad_balance a' = ad_balance demo_ad \<and> unat (ad_locked a') + amt_of demo_order = unat (ad_locked demo_ad)"
  by (rule cancel_goes_through [OF demo_claimed_reach [where R = "\<lambda>_ _. True"] _ _ demo_entry _ demo_claimed_config
        demo_hash [symmetric] demo_claimed_status _ _ demo_claimed_end _ demo_append])
    (simp_all add: demo_params demo_claimed_timing demo_claimed_ad demo_env_def)

end
