(* ===== verification/Mmr.thy ===== *)
theory Mmr
  imports Host
begin

text \<open>
  The Merkle Mountain Range (\<open>contracts/merkle-manager/src/mmr.rs\<close>): its index arithmetic, its
  hashing, the append and the proofs. A \<open>u128\<close> is a \<open>nat\<close> here, with every overflow written out: \<open>+\<close>
  and \<open>-\<close> trap, a shift by 128 or more traps, \<open>width << 1\<close> drops the top bit. Indexes are 1-based,
  as in the source.
\<close>

unbundle bit_operations_syntax

section \<open>Checked arithmetic on u128 as nat\<close>

definition nadd :: "nat \<Rightarrow> nat \<Rightarrow> ('e, nat) res" where
  "nadd a b = (if a + b < 2 ^ 128 then Ok (a + b) else Trapped)"

definition nsub :: "nat \<Rightarrow> nat \<Rightarrow> ('e, nat) res" where
  "nsub a b = (if b \<le> a then Ok (a - b) else Trapped)"

text \<open>\<open>1u128 << h\<close>.\<close>

definition shl_one :: "nat \<Rightarrow> ('e, nat) res" where
  "shl_one h = (if h < 128 then Ok (2 ^ h) else Trapped)"

lemma nadd_Ok [res_simps]: "nadd a b = Inr c \<longleftrightarrow> a + b < 2 ^ 128 \<and> c = a + b"
  by (auto simp: nadd_def)

lemma nsub_Ok [res_simps]: "nsub a b = Inr c \<longleftrightarrow> b \<le> a \<and> c = a - b"
  by (auto simp: nsub_def)

lemma shl_one_Ok [res_simps]: "shl_one h = Inr c \<longleftrightarrow> h < 128 \<and> c = 2 ^ h"
  by (auto simp: shl_one_def)

section \<open>Index arithmetic\<close>

text \<open>\<open>while bits > 0 { count += 1; bits &= bits - 1 }\<close>.\<close>

function num_of_peaks_loop :: "nat \<Rightarrow> nat \<Rightarrow> nat" where
  "num_of_peaks_loop bits count =
     (if bits > 0 then num_of_peaks_loop (bits AND (bits - 1)) (count + 1) else count)"
  by pat_completeness auto

lemma and_nat_le: "m AND n \<le> n" for m n :: nat
  by (simp add: and_nat_def nat_le_iff AND_upper2)

lemma and_pred_less: "0 < n \<Longrightarrow> n AND (n - Suc 0) < n" for n :: nat
  using and_nat_le [of n "n - Suc 0"] by linarith

termination num_of_peaks_loop
  by (relation "measure fst") (auto simp: and_pred_less)

definition num_of_peaks :: "nat \<Rightarrow> nat" where
  "num_of_peaks width = num_of_peaks_loop width 0"

definition calc_size :: "nat \<Rightarrow> ('e, nat) res" where
  "calc_size width = nsub ((2 * width) mod 2 ^ 128) (num_of_peaks width)"

text \<open>\<open>while (1 << max_height) <= width { max_height += 1 }\<close>.\<close>

function max_height_loop :: "nat \<Rightarrow> nat \<Rightarrow> ('e, nat) res" where
  "max_height_loop width h =
     (if h < 128 then (if 2 ^ h \<le> width then max_height_loop width (h + 1) else Ok h) else Trapped)"
  by pat_completeness auto

termination max_height_loop
  by (relation "measure (\<lambda>(_, h). 128 - h)") auto

text \<open>\<open>for i in (1..=max_height).rev()\<close>, with the running size.\<close>

fun peak_loop :: "nat \<Rightarrow> nat \<Rightarrow> nat \<Rightarrow> ('e, nat list) res" where
  "peak_loop width 0 running = Ok []"
| "peak_loop width (Suc i) running =
     (if width AND 2 ^ i \<noteq> 0 then
        attempt (shl_one (Suc i)) (\<lambda>m.
        attempt (nadd running m) (\<lambda>r.
        attempt (nsub r 1) (\<lambda>r.
        attempt (peak_loop width i r) (\<lambda>ps. Ok (r # ps)))))
      else peak_loop width i running)"

definition get_peak_indexes :: "nat \<Rightarrow> ('e, nat list) res" where
  "get_peak_indexes width =
     (if width = 0 then Ok []
      else attempt (max_height_loop width 1) (\<lambda>h.
        attempt (peak_loop width h 0) (\<lambda>ps.
        attempt (guarded (length ps = num_of_peaks width)) (\<lambda>_. Ok ps))))"

definition get_leaf_index :: "nat \<Rightarrow> ('e, nat) res" where
  "get_leaf_index width =
     (if width mod 2 = 1 then calc_size width
      else attempt (nsub width 1) (\<lambda>w. attempt (calc_size w) (\<lambda>n. nadd n 1)))"

text \<open>\<open>while (1 << height) <= size + height { height += 1 }\<close>; the result is \<open>height - 1\<close>.\<close>

function mountain_height_loop :: "nat \<Rightarrow> nat \<Rightarrow> ('e, nat) res" where
  "mountain_height_loop size' h =
     (if h < 128 then
        if size' + h < 2 ^ 128 then
          (if 2 ^ h \<le> size' + h then mountain_height_loop size' (h + 1) else Ok (h - 1))
        else Trapped
      else Trapped)"
  by pat_completeness auto

termination mountain_height_loop
  by (relation "measure (\<lambda>(_, h). 128 - h)") auto

definition mountain_height :: "nat \<Rightarrow> ('e, nat) res" where
  "mountain_height size' = mountain_height_loop size' 1"

declare num_of_peaks_loop.simps [simp del] max_height_loop.simps [simp del]
  mountain_height_loop.simps [simp del]

lemma mountain_height_loop_ge: "mountain_height_loop n h = Inr k \<Longrightarrow> h \<le> k + 1"
  by (induction n h rule: mountain_height_loop.induct)
    (subst (asm) mountain_height_loop.simps, fastforce split: if_splits)

lemma mountain_height_pos:
  assumes "(mountain_height n :: ('e, nat) res) = Inr k" "0 < n"
  shows "0 < k"
proof -
  from assms have "(mountain_height_loop n 2 :: ('e, nat) res) = Inr k"
    unfolding mountain_height_def
    by (subst (asm) mountain_height_loop.simps) (auto simp: numeral_2_eq_2 split: if_splits)
  from mountain_height_loop_ge [OF this] show ?thesis by simp
qed

text \<open>
  The loop of \<open>height_at\<close>. Every pass but the first takes a whole mountain off \<open>reduced\<close>, which is
  why it ends: only the first pass starts from a mountain of height 0, which has no node.
\<close>

function height_at_loop :: "nat \<Rightarrow> nat \<Rightarrow> nat \<Rightarrow> ('e, nat) res" where
  "height_at_loop reduced peak height =
     (if reduced > peak then
        attempt (shl_one height) (\<lambda>m.
        attempt (nsub reduced (m - 1)) (\<lambda>r.
        attempt (mountain_height r) (\<lambda>h.
        attempt (shl_one h) (\<lambda>pk. height_at_loop r (pk - 1) h))))
      else nsub height (peak - reduced))"
  by pat_completeness auto

termination height_at_loop
proof (relation "measure (\<lambda>(r, _, h). 2 * r + (if h = 0 then 1 else 0))")
  fix reduced peak height m r h pk :: nat
  assume a: "peak < reduced" "shl_one height = Inr m" "nsub reduced (m - 1) = Inr r"
    "mountain_height r = Inr h" "shl_one h = Inr pk"
  have m: "m = 2 ^ height" "m - 1 \<le> reduced" "r = reduced - (m - 1)" using a by (auto simp: res_simps)
  show "((r, pk - 1, h), reduced, peak, height) \<in> measure (\<lambda>(r, _, h). 2 * r + (if h = 0 then 1 else 0))"
  proof (cases "height = 0")
    case True
    then have "r = reduced" using m by simp
    with a(1) mountain_height_pos [OF a(4)] True show ?thesis by simp
  next
    case False
    then have "2 \<le> m" using m(1) by (cases height) auto
    then have "r < reduced" using m a(1) by linarith
    then show ?thesis by simp
  qed
qed simp

declare height_at_loop.simps [simp del]

definition height_at :: "nat \<Rightarrow> ('e, nat) res" where
  "height_at index = height_at_loop index 0 0"

definition is_leaf :: "nat \<Rightarrow> ('e, bool) res" where
  "is_leaf index = attempt (height_at index) (\<lambda>h. Ok (h = 1))"

definition get_children :: "nat \<Rightarrow> ('e, nat \<times> nat) res" where
  "get_children index =
     attempt (height_at index) (\<lambda>h.
     attempt (nsub h 1) (\<lambda>h1.
     attempt (shl_one h1) (\<lambda>m.
     attempt (nsub index m) (\<lambda>left.
     attempt (nsub index 1) (\<lambda>right.
     attempt (guarded (left \<noteq> right)) (\<lambda>_. Ok (left, right)))))))"

section \<open>Hashing\<close>

definition DOMAIN_TAG :: bytes32 where
  "DOMAIN_TAG = 0x1007fd40caf0e39d3ffbecd91e2d9469b3f2294a6794c372eb5406a496b6e4ec"

definition hash_leaf :: "crypto \<Rightarrow> nat \<Rightarrow> bytes32 \<Rightarrow> bytes32" where
  "hash_leaf C index data_hash = poseidon C [of_nat index, data_hash]"

definition hash_branch :: "crypto \<Rightarrow> nat \<Rightarrow> bytes32 \<Rightarrow> bytes32 \<Rightarrow> bytes32" where
  "hash_branch C index left right = poseidon C [of_nat index, left, right]"

definition encode_leaf :: "crypto \<Rightarrow> bytes32 \<Rightarrow> u32 \<Rightarrow> bytes32" where
  "encode_leaf C order_hash side = poseidon C [fr_reduce C order_hash, ucast side]"

definition peak_bagging :: "crypto \<Rightarrow> nat \<Rightarrow> bytes32 list \<Rightarrow> ('e, bytes32) res" where
  "peak_bagging C width peaks =
     (if width = 0 then Ok 0
      else attempt (calc_size width) (\<lambda>size'.
        attempt (guarded (num_of_peaks width = length peaks)) (\<lambda>_.
        case peaks of
          [] \<Rightarrow> Trapped
        | p # ps \<Rightarrow>
            let acc = foldl (\<lambda>acc peak. poseidon C [acc, peak]) p ps
            in Ok (poseidon C [DOMAIN_TAG, of_nat size', acc]))))"

section \<open>State and append\<close>

record mmr =
  mr_root :: bytes32
  mr_size :: nat
  mr_width :: nat
  mr_hashes :: "nat \<rightharpoonup> bytes32"
  mr_history :: "nat \<rightharpoonup> bytes32"

definition mmr_empty :: mmr where
  "mmr_empty = \<lparr>mr_root = 0, mr_size = 0, mr_width = 0, mr_hashes = Map.empty,
     mr_history = Map.empty\<rparr>"

text \<open>\<open>get_or_create_node\<close>: a stored non-zero hash, else the branch over its children, stored.\<close>

function get_or_create_node ::
  "crypto \<Rightarrow> nat \<Rightarrow> nat \<Rightarrow> (nat \<rightharpoonup> bytes32) \<Rightarrow> ('e, bytes32 \<times> (nat \<rightharpoonup> bytes32)) res" where
  "get_or_create_node C size' index hashes =
     (if \<not> index \<le> size' then Trapped
      else if hashes index \<noteq> None \<and> hashes index \<noteq> Some 0 then Ok (the (hashes index), hashes)
      else attempt (get_children index) (\<lambda>(left_idx, right_idx).
        attempt (get_or_create_node C size' left_idx hashes) (\<lambda>(left_hash, h1).
        attempt (get_or_create_node C size' right_idx h1) (\<lambda>(right_hash, h2).
        let branch_hash = hash_branch C index left_hash right_hash in
        Ok (branch_hash, h2(index \<mapsto> branch_hash))))))"
  by pat_completeness auto

lemma get_children_less: "get_children index = Inr (l, r) \<Longrightarrow> l < index \<and> r < index"
  by (auto simp: get_children_def res_simps)

termination get_or_create_node
  by (relation "measure (\<lambda>(_, _, index, _). index)") (auto dest: get_children_less)

declare get_or_create_node.simps [simp del]

text \<open>The hashes of the peaks, in order.\<close>

fun peaks_of ::
  "crypto \<Rightarrow> nat \<Rightarrow> nat list \<Rightarrow> (nat \<rightharpoonup> bytes32) \<Rightarrow> ('e, bytes32 list \<times> (nat \<rightharpoonup> bytes32)) res" where
  "peaks_of C size' [] hashes = Ok ([], hashes)"
| "peaks_of C size' (i # is) hashes =
     attempt (get_or_create_node C size' i hashes) (\<lambda>(p, h1).
     attempt (peaks_of C size' is h1) (\<lambda>(ps, h2). Ok (p # ps, h2)))"

definition mmr_append :: "crypto \<Rightarrow> bytes32 \<Rightarrow> mmr \<Rightarrow> ('e, nat \<times> mmr) res" where
  "mmr_append C data_hash m =
     (let data_hash_mod = fr_reduce C data_hash in
      attempt (nadd (mr_width m) 1) (\<lambda>width.
      attempt (get_leaf_index width) (\<lambda>leaf_index.
      let leaf_node = hash_leaf C leaf_index data_hash_mod;
          hashes = (mr_hashes m)(leaf_index \<mapsto> leaf_node) in
      attempt (get_peak_indexes width) (\<lambda>peak_indexes.
      attempt (calc_size width) (\<lambda>size'.
      attempt (peaks_of C size' peak_indexes hashes) (\<lambda>(peaks, hashes').
      attempt (peak_bagging C width peaks) (\<lambda>new_root.
      Ok (leaf_index, \<lparr>mr_root = new_root, mr_size = size', mr_width = width, mr_hashes = hashes',
        mr_history = (mr_history m)(width \<mapsto> new_root)\<rparr>))))))))"

section \<open>Proofs\<close>

definition node_or_zero :: "mmr \<Rightarrow> nat \<Rightarrow> bytes32" where
  "node_or_zero m i = (case mr_hashes m i of None \<Rightarrow> 0 | Some h \<Rightarrow> h)"

definition get_peaks :: "mmr \<Rightarrow> ('e, bytes32 list) res" where
  "get_peaks m = attempt (get_peak_indexes (mr_width m)) (\<lambda>ps. Ok (map (node_or_zero m) ps))"

text \<open>
  The descent of \<open>get_merkle_proof\<close>: \<open>level\<close> starts at the peak's height and indexes the sibling
  list from the top; running out of levels traps (\<open>level -= 1\<close> underflows or \<open>set\<close> is out of range).
\<close>

fun proof_descent :: "mmr \<Rightarrow> nat \<Rightarrow> nat \<Rightarrow> nat \<Rightarrow> bytes32 list \<Rightarrow> ('e, bytes32 list) res" where
  "proof_descent m index 0 cur siblings = (if cur = index then Ok siblings else Trapped)"
| "proof_descent m index (Suc level) cur siblings =
     (if cur = index then Ok siblings
      else attempt (get_children cur) (\<lambda>(left, right).
        let (nxt, sibling_idx) = (if index \<le> left then (left, right) else (right, left)) in
        if level = 0 then Trapped
        else proof_descent m index level nxt
          (siblings[level - 1 := node_or_zero m sibling_idx])))"

definition get_merkle_proof ::
  "mmr \<Rightarrow> nat \<Rightarrow> ('e, bytes32 \<times> nat \<times> bytes32 list \<times> bytes32 list) res" where
  "get_merkle_proof m index =
     attempt (guarded (index \<le> mr_size m)) (\<lambda>_.
     attempt (is_leaf index) (\<lambda>leaf.
     attempt (guarded leaf) (\<lambda>_.
     attempt (get_peak_indexes (mr_width m)) (\<lambda>peak_idxs.
     let peak_bag = map (node_or_zero m) peak_idxs;
         cursor = (case find (\<lambda>p. p \<ge> index) peak_idxs of None \<Rightarrow> 0 | Some p \<Rightarrow> p) in
     attempt (guarded (cursor \<noteq> 0)) (\<lambda>_.
     attempt (height_at cursor) (\<lambda>h.
     attempt (nsub h 1) (\<lambda>h1.
     attempt (proof_descent m index h cursor (replicate h1 0)) (\<lambda>siblings.
     Ok (mr_root m, mr_width m, peak_bag, siblings)))))))))"

text \<open>
  \<open>verify_inclusion\<close>: down from the peak, recording the path from the top; then up, hashing. \<open>h\<close> is
  the position the descent stopped at, \<open>path\<close> the cursors from that position upwards.
\<close>

fun walk_down :: "nat \<Rightarrow> nat \<Rightarrow> nat \<Rightarrow> nat list \<Rightarrow> ('e, nat \<times> nat list) res" where
  "walk_down index 0 cursor path = Trapped"
| "walk_down index (Suc h) cursor path =
     (if cursor = index then Ok (h, cursor # path)
      else attempt (get_children cursor) (\<lambda>(l, r).
        walk_down index h (if index > l then r else l) (cursor # path)))"

text \<open>Below the stop the path holds the zeros it was filled with.\<close>

fun walk_up ::
  "crypto \<Rightarrow> bytes32 \<Rightarrow> bytes32 list \<Rightarrow> nat \<Rightarrow> nat \<Rightarrow> nat list \<Rightarrow> bytes32 \<Rightarrow> ('e, bytes32) res" where
  "walk_up C value_hash siblings h prev [] node = Ok node"
| "walk_up C value_hash siblings h prev (cursor # path) node =
     (if h = 0 then walk_up C value_hash siblings 1 cursor path (hash_leaf C cursor value_hash)
      else if h - 1 < length siblings then
        attempt (nsub cursor 1) (\<lambda>c1.
        walk_up C value_hash siblings (h + 1) cursor path
          (if c1 = prev then hash_branch C cursor (siblings ! (h - 1)) node
           else hash_branch C cursor node (siblings ! (h - 1))))
      else Trapped)"

definition verify_inclusion ::
  "crypto \<Rightarrow> bytes32 \<Rightarrow> nat \<Rightarrow> nat \<Rightarrow> bytes32 \<Rightarrow> bytes32 list \<Rightarrow> bytes32 list \<Rightarrow> ('e, bool) res" where
  "verify_inclusion C root width index value_hash peak_bag siblings =
     attempt (calc_size width) (\<lambda>size'.
     attempt (guarded (size' \<ge> index)) (\<lambda>_.
     attempt (peak_bagging C width peak_bag) (\<lambda>bagged.
     attempt (guarded (root = bagged)) (\<lambda>_.
     attempt (get_peak_indexes width) (\<lambda>peak_idxs.
     let (target_peak, cursor) =
           (case find (\<lambda>(p, _). p \<ge> index) (zip peak_idxs peak_bag) of
              None \<Rightarrow> (0, 0) | Some (p, h) \<Rightarrow> (h, p)) in
     attempt (guarded (target_peak \<noteq> 0)) (\<lambda>_.
     attempt (walk_down index (length siblings + 1) cursor []) (\<lambda>(h, path).
     attempt (walk_up C value_hash siblings h 0 path 0) (\<lambda>node.
     attempt (guarded (node = target_peak)) (\<lambda>_. Ok True)))))))))"

end
