(* ===== verification/Mmr_Spec.thy ===== *)
theory Mmr_Spec
  imports Mmr
begin

text \<open>
  What the Merkle Mountain Range means: over a list of leaves, the node of height \<open>k + 1\<close> that starts
  at leaf \<open>j\<close>, its index in the append order, its hash, the peaks and the root. Here the index
  arithmetic of \<open>Mmr\<close> is shown to compute these: the node count, the peak indexes, the height and
  the children of a node. \<open>Mmr_Refinement\<close> builds the append on it.
\<close>

unbundle bit_operations_syntax

section \<open>Counting nodes\<close>

fun pc :: "nat \<Rightarrow> nat" where
  "pc n = (if n = 0 then 0 else n mod 2 + pc (n div 2))"

declare pc.simps [simp del]

lemma pc_0 [simp]: "pc 0 = 0"
  by (simp add: pc.simps)

lemma pc_double [simp]: "pc (2 * n) = pc n"
  by (cases "n = 0") (simp_all add: pc.simps [of "2 * n"])

lemma pc_double_Suc [simp]: "pc (Suc (2 * n)) = Suc (pc n)"
  by (simp add: pc.simps [of "Suc (2 * n)"])

lemma nat_parity_cases:
  fixes n :: nat
  obtains (1) m where "n = 2 * m" | (2) m where "n = Suc (2 * m)"
  by (cases "even n") (auto elim: evenE oddE)

lemma pc_le: "pc n \<le> n"
proof (induction n rule: less_induct)
  case (less n)
  show ?case
  proof (cases n rule: nat_parity_cases)
    case (1 m)
    then show ?thesis using less [of m] by (cases "m = 0") simp_all
  next
    case (2 m)
    then show ?thesis using less [of m] by simp
  qed
qed

lemma pc_Suc_le: "pc (Suc n) \<le> Suc (pc n)"
proof (induction n rule: less_induct)
  case (less n)
  show ?case
  proof (cases n rule: nat_parity_cases)
    case (1 m)
    then show ?thesis by simp
  next
    case (2 m)
    then have "pc (Suc n) = pc (Suc m)" using pc_double [of "Suc m"] by simp
    also have "\<dots> \<le> Suc (pc m)" using 2 by (intro less) simp
    finally show ?thesis using 2 by simp
  qed
qed

lemma pc_shift: "b < 2 ^ k \<Longrightarrow> pc (a * 2 ^ k + b) = pc a + pc b"
proof (induction k arbitrary: b)
  case (Suc k)
  let ?c = "b div 2"
  have c: "?c < 2 ^ k" using Suc.prems by (simp add: less_mult_imp_div_less)
  show ?case
  proof (cases b rule: nat_parity_cases)
    case (1 m)
    then have e: "a * 2 ^ Suc k + b = 2 * (a * 2 ^ k + m)" by simp
    show ?thesis unfolding e pc_double using 1 Suc.IH [of m] c by simp
  next
    case (2 m)
    then have e: "a * 2 ^ Suc k + b = Suc (2 * (a * 2 ^ k + m))" by simp
    show ?thesis unfolding e pc_double_Suc using 2 Suc.IH [of m] c by simp
  qed
qed simp

lemma pc_pow [simp]: "pc (2 ^ k) = 1"
  by (induction k) (simp_all add: pc.simps [of 1] pc.simps [of "Suc 0"])

lemma pc_add_pow: "2 ^ Suc k dvd j \<Longrightarrow> pc (j + 2 ^ k) = Suc (pc j)"
  using pc_shift [of "2 ^ k" "Suc k" "j div 2 ^ Suc k"] pc_shift [of 0 "Suc k" "j div 2 ^ Suc k"]
  by simp

lemma pc_mask: "pc (2 ^ m - 1) = m"
proof (induction m)
  case (Suc m)
  have "(1::nat) \<le> 2 ^ m" by simp
  then have "(2::nat) ^ Suc m - 1 = Suc (2 * (2 ^ m - 1))" unfolding power_Suc by arith
  then show ?case using Suc by (simp only: pc_double_Suc)
qed simp

text \<open>The loop of the source counts the same bits.\<close>

lemma and_pred_odd: "Suc (2 * m) AND (2 * m) = 2 * m" for m :: nat
  by (subst and_rec) simp

lemma and_pred_even: "2 * Suc m AND Suc (2 * m) = 2 * (Suc m AND m)" for m :: nat
  by (subst and_rec) simp

lemma pc_clear_bit: "0 < n \<Longrightarrow> pc n = Suc (pc (n AND (n - 1)))"
proof (induction n rule: less_induct)
  case (less n)
  show ?case
  proof (cases n rule: nat_parity_cases)
    case (1 m)
    then obtain m' where m: "m = Suc m'" using less.prems by (cases m) auto
    have "n AND (n - 1) = 2 * (Suc m' AND m')" using and_pred_even [of m'] 1 m by simp
    moreover have "pc m = Suc (pc (m AND (m - 1)))" using 1 m by (intro less.IH) simp_all
    ultimately show ?thesis using 1 m by (simp del: mult_Suc_right)
  next
    case (2 m)
    then show ?thesis by (simp add: and_pred_odd)
  qed
qed

lemma num_of_peaks_loop_pc: "num_of_peaks_loop n c = c + pc n"
proof (induction n arbitrary: c rule: less_induct)
  case (less n)
  show ?case
  proof (cases "n = 0")
    case True
    then show ?thesis by (simp add: num_of_peaks_loop.simps)
  next
    case False
    have "num_of_peaks_loop n c = num_of_peaks_loop (n AND (n - 1)) (c + 1)"
      using False by (subst num_of_peaks_loop.simps) simp
    also have "\<dots> = c + 1 + pc (n AND (n - 1))"
      using and_pred_less [of n] False by (intro less.IH) simp
    finally show ?thesis using pc_clear_bit [of n] False by simp
  qed
qed

lemma num_of_peaks_pc: "num_of_peaks n = pc n"
  by (simp add: num_of_peaks_def num_of_peaks_loop_pc)

text \<open>\<open>sz n\<close>: how many nodes \<open>n\<close> leaves make.\<close>

definition sz :: "nat \<Rightarrow> nat" where
  "sz n = 2 * n - pc n"

lemma calc_size_sz: "n < 2 ^ 127 \<Longrightarrow> calc_size n = Inr (sz n)"
  using pc_le [of n] by (simp add: calc_size_def sz_def nsub_def num_of_peaks_pc)

lemma sz_0 [simp]: "sz 0 = 0"
  by (simp add: sz_def)

lemma sz_Suc: "sz n < sz (Suc n)"
  using pc_Suc_le [of n] pc_le [of n] pc_le [of "Suc n"] by (simp add: sz_def)

lemma sz_strict: "m < n \<Longrightarrow> sz m < sz n"
  by (rule strict_monoD [OF strict_mono_Suc_iff [THEN iffD2]]) (simp_all add: sz_Suc)

lemma sz_mono: "m \<le> n \<Longrightarrow> sz m \<le> sz n"
  using sz_strict [of m n] by (cases "m = n") auto

lemma sz_inj: "sz m = sz n \<Longrightarrow> m = n"
  using sz_strict [of m n] sz_strict [of n m] by (cases m n rule: linorder_cases) auto

lemma sz_le: "sz n \<le> 2 * n"
  by (simp add: sz_def)

section \<open>Nodes\<close>

text \<open>\<open>idx k j\<close>: the node over the \<open>2 ^ k\<close> leaves that start at leaf \<open>j\<close> (0-based), \<open>2 ^ k\<close> dividing \<open>j\<close>.\<close>

definition idx :: "nat \<Rightarrow> nat \<Rightarrow> nat" where
  "idx k j = sz j + (2 * 2 ^ k - 1)"

lemma sz_plus: "sz n + pc n = 2 * n"
  using pc_le [of n] by (simp add: sz_def)

lemma idx_plus: "idx k j + 1 = sz j + 2 * 2 ^ k"
proof -
  have "(1::nat) \<le> 2 ^ k" by simp
  then show ?thesis unfolding idx_def by arith
qed

lemma idx_pos: "0 < idx k j"
proof -
  have "(1::nat) \<le> 2 ^ k" by simp
  then show ?thesis using idx_plus [of k j] by arith
qed

lemma sz_add_pow:
  assumes "2 ^ Suc k dvd j"
  shows "sz (j + 2 ^ k) = idx k j"
  using pc_add_pow [OF assms] sz_plus [of j] sz_plus [of "j + 2 ^ k"] idx_plus [of k j] by simp

lemma pc_aligned_Suc: "2 ^ k dvd j \<Longrightarrow> pc (j + 2 ^ k) \<le> Suc (pc j)"
proof -
  assume "2 ^ k dvd j"
  then obtain a where j: "j = a * 2 ^ k" by (metis dvd_def mult.commute)
  have e: "j + 2 ^ k = Suc a * 2 ^ k + 0" using j by simp
  have "pc (j + 2 ^ k) = pc (Suc a) + pc 0" unfolding e by (rule pc_shift) simp
  moreover have "pc j = pc a" using pc_shift [of 0 k a] j by simp
  ultimately show ?thesis using pc_Suc_le [of a] by simp
qed

lemma idx_le_sz:
  assumes "2 ^ k dvd j" "j + 2 ^ k \<le> n"
  shows "idx k j \<le> sz n"
proof -
  have "idx k j \<le> sz (j + 2 ^ k)"
    using pc_aligned_Suc [OF assms(1)] sz_plus [of j] sz_plus [of "j + 2 ^ k"] idx_plus [of k j] by simp
  also have "\<dots> \<le> sz n" using assms(2) by (rule sz_mono)
  finally show ?thesis .
qed

text \<open>The node that ends with the last leaf lies beyond every node of the leaves before.\<close>

lemma sz_less_idx:
  assumes "2 ^ k dvd j" "j + 2 ^ k = Suc n"
  shows "sz n < idx k j"
proof -
  have one: "(1::nat) \<le> 2 ^ k" by simp
  obtain a where j: "j = a * 2 ^ k" using assms(1) by (metis dvd_def mult.commute)
  have n: "n = a * 2 ^ k + (2 ^ k - 1)" using assms(2) j one by arith
  have "pc n = pc a + k" unfolding n by (subst pc_shift) (simp_all only: pc_mask, simp)
  moreover have "pc j = pc a" using pc_shift [of 0 k a] j by simp
  ultimately show ?thesis using assms(2) sz_plus [of j] sz_plus [of n] idx_plus [of k j] by simp
qed

lemma sz_pow_add:
  assumes "j < 2 ^ m"
  shows "sz (2 ^ m + j) = (2 * 2 ^ m - 1) + sz j"
proof -
  have "pc (2 ^ m + j) = Suc (pc j)" using pc_shift [of j m 1] assms by (simp add: pc.simps [of "Suc 0"])
  moreover have "(1::nat) \<le> 2 ^ m" by simp
  ultimately show ?thesis using sz_plus [of j] sz_plus [of "2 ^ m + j"] by simp
qed

section \<open>The height of a node\<close>

lemma pow_gap: "h \<le> H \<Longrightarrow> (2::nat) ^ h + (H - h) \<le> 2 ^ H"
proof (induction H)
  case (Suc H)
  show ?case
  proof (cases "h = Suc H")
    case False
    then have "(2::nat) ^ h + (H - h) \<le> 2 ^ H" "h \<le> H" using Suc by simp_all
    moreover have "(1::nat) \<le> 2 ^ H" by simp
    ultimately show ?thesis unfolding power_Suc by arith
  qed simp
qed simp

lemma mountain_height_eq:
  assumes "1 \<le> H" "2 ^ H \<le> s + H" "s + Suc H < 2 ^ Suc H" "Suc H < 128"
  shows "mountain_height s = Ok H"
proof -
  have big: "s + Suc H < 2 ^ 128"
    using assms(3,4) power_increasing [of "Suc H" 128 "2::nat"] by linarith
  have "h \<le> Suc H \<Longrightarrow> mountain_height_loop s h = Ok H" for h
  proof (induction rule: inc_induct)
    case base
    show ?case using assms big by (subst mountain_height_loop.simps) simp
  next
    case (step h)
    have "2 ^ h \<le> s + h" using pow_gap [of h H] step.hyps assms(2) by arith
    then show ?case using step big assms(4) by (subst mountain_height_loop.simps) simp
  qed
  from this [of 1] show ?thesis unfolding mountain_height_def using assms(1) by simp
qed

lemma leading_power:
  fixes j :: nat
  assumes "0 < j"
  obtains m where "2 ^ m \<le> j" "j < 2 * 2 ^ m"
proof -
  have "\<exists>m. 2 ^ m \<le> j \<and> j < 2 * 2 ^ m" using assms
  proof (induction j rule: less_induct)
    case (less j)
    show ?case
    proof (cases "j = 1")
      case True
      then show ?thesis by (intro exI [of _ 0]) simp
    next
      case False
      then have "\<exists>m. 2 ^ m \<le> j div 2 \<and> j div 2 < 2 * 2 ^ m" using less.prems by (intro less.IH) simp_all
      then obtain m where "2 ^ m \<le> j div 2" "j div 2 < 2 * 2 ^ m" by blast
      then show ?thesis by (intro exI [of _ "Suc m"]) (simp, arith)
    qed
  qed
  then show ?thesis using that by blast
qed

lemma aligned_room:
  fixes j :: nat
  assumes "2 ^ k dvd j" "2 ^ k dvd b" "j < b"
  shows "j + 2 ^ k \<le> b"
proof -
  have "2 ^ k dvd b - j" using assms(1,2) by simp
  then show ?thesis using assms(3) by (auto dest: dvd_imp_le)
qed

text \<open>On the right spine of a perfect tree of \<open>2 ^ m\<close> leaves.\<close>

lemma idx_spine:
  assumes "2 ^ k dvd j" "j + 2 ^ k = 2 ^ m"
  shows "k \<le> m \<and> idx k j + (m - k) = 2 * 2 ^ m - 1"
proof -
  have km: "k \<le> m" using assms(2) by (metis le_add2 power_le_imp_le_exp one_less_numeral_iff semiring_norm(76))
  obtain d where m: "m = k + d" using km le_Suc_ex by blast
  have one: "(1::nat) \<le> 2 ^ k" "(1::nat) \<le> 2 ^ d" by simp_all
  have j: "j = (2 ^ d - 1) * 2 ^ k + 0" using assms(2) m by (simp add: power_add algebra_simps)
  have "pc j = d" unfolding j by (subst pc_shift) (simp_all only: pc_mask, simp_all)
  moreover have "d \<le> j" using calculation pc_le [of j] by simp
  ultimately show ?thesis using assms(2) m one unfolding idx_def sz_def by simp
qed

text \<open>The bound on the leaf count that keeps every shift of the index arithmetic below 128.\<close>

definition width_bound :: nat where
  "width_bound = 2 ^ 120"

lemma pow_le_bound: "(2::nat) ^ m \<le> width_bound \<Longrightarrow> m \<le> 120"
  using power_le_imp_le_exp [of "2::nat" m 120] unfolding width_bound_def by simp

lemma height_at_loop_idx:
  assumes "2 ^ k dvd j" "j + 2 ^ k \<le> width_bound" "h < 128" "pk < idx k j + (2 ^ h - 1)"
  shows "height_at_loop (idx k j + (2 ^ h - 1)) pk h = (Ok (Suc k) :: ('e, nat) res)"
  using assms
proof (induction j arbitrary: h pk rule: less_induct)
  case (less j)
  have step: "(height_at_loop (idx k j + (2 ^ h - 1)) pk h :: ('e, nat) res) =
      attempt (mountain_height (idx k j)) (\<lambda>H.
      attempt (shl_one H) (\<lambda>p. height_at_loop (idx k j) (p - 1) H))"
  proof -
    have r: "nsub (idx k j + (2 ^ h - 1)) (2 ^ h - 1) = Ok (idx k j)" by (simp add: nsub_def)
    show ?thesis
      by (subst height_at_loop.simps) (simp only: less.prems(3,4) shl_one_def if_True attempt_simps r)
  qed
  show ?case
  proof (cases "\<exists>m. j + 2 ^ k = 2 ^ m")
    case True
    then obtain m where m: "j + 2 ^ k = 2 ^ m" by blast
    have m120: "m \<le> 120" using less.prems(2) m pow_le_bound by simp
    have sp: "k \<le> m" "idx k j + (m - k) = 2 * 2 ^ m - 1"
      using idx_spine [OF less.prems(1) m] by simp_all
    have one: "m < 2 ^ m" by (rule less_exp)
    have at: "idx k j + Suc m = 2 ^ Suc m + k" using sp one unfolding power_Suc by linarith
    have "(mountain_height (idx k j) :: ('e, nat) res) = Ok (Suc m)"
    proof (rule mountain_height_eq)
      show "2 ^ Suc m \<le> idx k j + Suc m" using at by linarith
      show "idx k j + Suc (Suc m) < 2 ^ Suc (Suc m)" using at sp(1) one unfolding power_Suc by linarith
    qed (use m120 in simp_all)
    moreover have "(height_at_loop (idx k j) (2 ^ Suc m - 1) (Suc m) :: ('e, nat) res) = Ok (Suc k)"
      using sp by (subst height_at_loop.simps) (simp add: nsub_def, arith?)
    ultimately show ?thesis using step m120 by (simp add: shl_one_def)
  next
    case False
    have "j \<noteq> 0" using False by (metis add_0)
    then obtain m where m: "2 ^ m \<le> j" "j < 2 * 2 ^ m" using leading_power by blast
    have km: "k \<le> m"
    proof -
      have "2 ^ k \<le> j" using less.prems(1) \<open>j \<noteq> 0\<close> by (simp add: dvd_imp_le)
      then have "(2::nat) ^ k < 2 ^ Suc m" using m(2) by simp
      then show ?thesis by (metis less_Suc_eq_le one_less_numeral_iff power_less_imp_less_exp semiring_norm(76))
    qed
    have "j + 2 ^ k \<le> 2 ^ Suc m"
      using m(2) km by (intro aligned_room less.prems(1)) (simp_all add: le_imp_power_dvd)
    then have room: "j + 2 ^ k < 2 ^ Suc m" using False by (metis le_neq_implies_less)
    have m120: "m \<le> 120" using m(1) less.prems(2) by (intro pow_le_bound) simp
    let ?j = "j - 2 ^ m"
    have j: "j = 2 ^ m + ?j" "?j < 2 ^ m" "?j < j" using m by simp_all
    have al: "2 ^ k dvd ?j" using less.prems(1) km by (simp add: le_imp_power_dvd)
    have idx: "idx k j = idx k ?j + (2 ^ Suc m - 1)"
    proof -
      have "sz j = (2 * 2 ^ m - 1) + sz ?j" using sz_pow_add [OF j(2)] j(1) by simp
      moreover have "(1::nat) \<le> 2 ^ m" by simp
      ultimately show ?thesis using idx_plus [of k j] idx_plus [of k ?j] unfolding power_Suc by linarith
    qed
    have "idx k j \<le> sz (2 ^ Suc m - 1)" using room by (intro idx_le_sz less.prems(1)) simp
    moreover have "sz (2 ^ Suc m - 1) + Suc m = 2 * (2 ^ Suc m - 1)"
      using sz_plus [of "2 ^ Suc m - 1"] by (simp only: pc_mask)
    ultimately have hi: "idx k j + Suc m \<le> 2 * (2 ^ Suc m - 1)" by simp
    have "(mountain_height (idx k j) :: ('e, nat) res) = Ok (Suc m)"
      by (rule mountain_height_eq) (use hi idx m120 idx_pos [of k ?j] in \<open>simp_all\<close>)
    moreover have "(height_at_loop (idx k ?j + (2 ^ Suc m - 1)) (2 ^ Suc m - 1) (Suc m) :: ('e, nat) res) = Ok (Suc k)"
    proof (rule less.IH [OF j(3) al])
      show "2 ^ Suc m - 1 < idx k ?j + (2 ^ Suc m - 1)" using idx_pos [of k ?j] by linarith
    qed (use less.prems(2) m120 in simp_all)
    ultimately show ?thesis using step m120 idx by (simp add: shl_one_def)
  qed
qed

lemma height_at_idx:
  assumes "2 ^ k dvd j" "j + 2 ^ k \<le> width_bound"
  shows "height_at (idx k j) = Ok (Suc k)"
  using height_at_loop_idx [OF assms, of 0 0] idx_pos [of k j] by (simp add: height_at_def)

lemma idx_inject:
  assumes "2 ^ k dvd j" "j + 2 ^ k \<le> width_bound" "2 ^ k' dvd j'" "j' + 2 ^ k' \<le> width_bound"
    and "idx k j = idx k' j'"
  shows "k = k' \<and> j = j'"
proof -
  have "(Ok (Suc k) :: (unit, nat) res) = Ok (Suc k')"
    using height_at_idx [OF assms(1,2)] height_at_idx [OF assms(3,4)] assms(5) by metis
  then have k: "k = k'" by simp
  then have "sz j = sz j'" using assms(5) idx_plus [of k j] idx_plus [of k j'] by simp
  then show ?thesis using k sz_inj by blast
qed

text \<open>A node of height above one has its two halves as children.\<close>

lemma idx_children:
  assumes "2 ^ Suc k dvd j"
  shows "idx (Suc k) j = idx k j + 2 * 2 ^ k"
    and "idx (Suc k) j = idx k (j + 2 ^ k) + 1"
  using sz_add_pow [OF assms] idx_plus [of k j] idx_plus [of k "j + 2 ^ k"] idx_plus [of "Suc k" j] by simp_all

lemma get_children_idx:
  assumes "2 ^ Suc k dvd j" "j + 2 ^ Suc k \<le> width_bound"
  shows "get_children (idx (Suc k) j) = Ok (idx k j, idx k (j + 2 ^ k))"
proof -
  have "(2::nat) ^ Suc k \<le> width_bound" using assms(2) by linarith
  then have k: "Suc k \<le> 120" by (rule pow_le_bound)
  have one: "(1::nat) \<le> 2 ^ k" by simp
  have "idx k j < idx k (j + 2 ^ k)"
    using sz_add_pow [OF assms(1)] idx_plus [of k "j + 2 ^ k"] one by linarith
  moreover have "idx k j + 2 * 2 ^ k - Suc 0 = idx k (j + 2 ^ k)"
    using idx_children [OF assms(1)] by simp
  ultimately show ?thesis
    unfolding get_children_def height_at_idx [OF assms] using k idx_children(1) [OF assms(1)]
    by (simp add: nsub_def shl_one_def)
qed

section \<open>Peaks\<close>

text \<open>The mountains of \<open>n\<close> leaves, from the left: height and first leaf, below height \<open>i\<close> and from leaf \<open>j\<close>.\<close>

fun mountains :: "nat \<Rightarrow> nat \<Rightarrow> nat \<Rightarrow> (nat \<times> nat) list" where
  "mountains n 0 j = []"
| "mountains n (Suc i) j =
     (if odd (n div 2 ^ i) then (i, j) # mountains n i (j + 2 ^ i) else mountains n i j)"

lemma mod_pow_Suc: "n mod 2 ^ Suc i = (if odd (n div 2 ^ i) then 2 ^ i else 0) + n mod 2 ^ i" for n :: nat
  by (simp add: mod2_eq_if mod_mult2_eq [of n "2 ^ i" 2, simplified mult.commute [of "2 ^ i" 2]])

text \<open>A mountain list covers the leaves from \<open>j\<close> on, aligned, without a gap.\<close>

lemma mountains_in:
  assumes "(k, a) \<in> set (mountains n i j)" "2 ^ i dvd j"
  shows "k < i \<and> 2 ^ k dvd a \<and> a + 2 ^ k \<le> j + n mod 2 ^ i"
  using assms
proof (induction i arbitrary: j)
  case (Suc i)
  have al: "2 ^ i dvd j" "2 ^ i dvd j + 2 ^ i"
    using Suc.prems(2) by (auto intro: dvd_trans [OF le_imp_power_dvd] dvd_add)
  show ?case
  proof (cases "odd (n div 2 ^ i)")
    case True
    then have "k = i \<and> a = j \<or> (k, a) \<in> set (mountains n i (j + 2 ^ i))" using Suc.prems by auto
    then show ?thesis using Suc.IH [OF _ al(2)] True al mod_pow_Suc [of n i] by auto
  next
    case False
    then have "(k, a) \<in> set (mountains n i j)" using Suc.prems by auto
    then show ?thesis using Suc.IH [OF _ al(1)] False mod_pow_Suc [of n i] by auto
  qed
qed simp

lemma length_mountains: "length (mountains n i j) = pc (n mod 2 ^ i)"
proof (induction i arbitrary: j)
  case (Suc i)
  have "pc (2 ^ i + n mod 2 ^ i) = Suc (pc (n mod 2 ^ i))"
    using pc_shift [of "n mod 2 ^ i" i 1] by (simp add: pc.simps [of "Suc 0"])
  then show ?case using Suc mod_pow_Suc [of n i] by simp
qed simp

definition idx_of :: "nat \<times> nat \<Rightarrow> nat" where
  "idx_of m = idx (fst m) (snd m)"

lemma bit_test: "n AND 2 ^ i \<noteq> 0 \<longleftrightarrow> odd (n div 2 ^ i)" for n :: nat
  by (simp add: and_exp_eq_0_iff_not_bit bit_iff_odd)

lemma peak_loop_mountains:
  assumes "2 ^ i dvd j" "j + n mod 2 ^ i < width_bound" "i < 128"
  shows "peak_loop n i (sz j) = (Ok (map idx_of (mountains n i j)) :: ('e, nat list) res)"
  using assms
proof (induction i arbitrary: j)
  case (Suc i)
  have al: "2 ^ i dvd j" "2 ^ i dvd j + 2 ^ i"
    using Suc.prems(1) by (auto intro: dvd_trans [OF le_imp_power_dvd] dvd_add)
  show ?case
  proof (cases "odd (n div 2 ^ i)")
    case True
    have b: "j + 2 ^ i + n mod 2 ^ i < width_bound" using Suc.prems(2) mod_pow_Suc [of n i] True by simp
    have r: "sz j + 2 * 2 ^ i = idx i j + 1" by (simp only: idx_plus)
    have s: "sz (j + 2 ^ i) = idx i j" by (rule sz_add_pow [OF Suc.prems(1)])
    have "idx i j \<le> 2 * (j + 2 ^ i)" using s sz_le [of "j + 2 ^ i"] by simp
    then have fit: "idx i j + 1 < 2 ^ 128" using b unfolding width_bound_def by simp
    have "(peak_loop n i (idx i j) :: ('e, nat list) res) = Ok (map idx_of (mountains n i (j + 2 ^ i)))"
      using Suc.IH [OF al(2) b] Suc.prems(3) s by simp
    then show ?thesis using True fit r Suc.prems(3) bit_test [of n i]
      by (simp add: shl_one_def nadd_def nsub_def idx_of_def)
  next
    case False
    then show ?thesis using Suc.IH [OF al(1)] Suc.prems mod_pow_Suc [of n i] bit_test [of n i] by simp
  qed
qed simp

lemma max_height_loop_eq:
  assumes "n < 2 ^ H" "H < 128" "h \<le> H"
  shows "\<exists>h'. max_height_loop n h = Ok h' \<and> n < 2 ^ h' \<and> h' \<le> H"
  using assms(3)
proof (induction rule: inc_induct)
  case base
  show ?case using assms by (subst max_height_loop.simps) auto
next
  case (step h)
  then show ?case using assms by (subst max_height_loop.simps) auto
qed

text \<open>Any bound above the leading bit gives the same mountains.\<close>

lemma mountains_bound: "n < 2 ^ i \<Longrightarrow> i \<le> k \<Longrightarrow> mountains n k 0 = mountains n i 0"
proof (induction k)
  case (Suc k)
  show ?case
  proof (cases "i = Suc k")
    case False
    then have ik: "i \<le> k" using Suc.prems by simp
    then have "(2::nat) ^ i \<le> 2 ^ k" by (intro power_increasing) simp_all
    then have "n < 2 ^ k" using Suc.prems by linarith
    then show ?thesis using Suc ik by simp
  qed simp
qed simp

lemma get_peak_indexes_mountains:
  assumes "n < width_bound"
  shows "get_peak_indexes n = Ok (map idx_of (mountains n 120 0))"
proof (cases "n = 0")
  case True
  then show ?thesis using mountains_bound [of 0 0 120] by (simp add: get_peak_indexes_def)
next
  case False
  have n: "n < 2 ^ 120" using assms by (simp only: width_bound_def)
  from max_height_loop_eq [OF n, of 1] obtain h where
    h: "(max_height_loop n 1 :: ('a, nat) res) = Ok h" "n < 2 ^ h" "h \<le> 120" by auto
  have "(peak_loop n h 0 :: ('a, nat list) res) = Ok (map idx_of (mountains n h 0))"
    using peak_loop_mountains [of h 0 n] h assms by simp
  moreover have "length (mountains n h 0) = num_of_peaks n"
    using h by (simp add: length_mountains num_of_peaks_pc)
  ultimately show ?thesis using h mountains_bound [OF h(2,3)] False by (simp add: get_peak_indexes_def)
qed

lemma get_leaf_index_idx:
  assumes "Suc n < width_bound"
  shows "get_leaf_index (Suc n) = (Ok (idx 0 n) :: ('e, nat) res)"
proof -
  have n: "Suc n < 2 ^ 127" using assms by (simp add: width_bound_def)
  have leaf: "idx 0 n = sz n + 1" by (simp add: idx_def)
  show ?thesis
  proof (cases "even n")
    case True
    then have "sz (Suc n) = idx 0 n" using sz_add_pow [of 0 n] by simp
    moreover have "(calc_size (Suc n) :: ('e, nat) res) = Ok (sz (Suc n))" by (rule calc_size_sz [OF n])
    ultimately show ?thesis using True by (simp add: get_leaf_index_def mod2_eq_if)
  next
    case False
    moreover have "sz n + 1 < 2 ^ 128" using sz_le [of n] n by simp
    moreover have "(calc_size n :: ('e, nat) res) = Ok (sz n)" using n by (intro calc_size_sz) simp
    ultimately show ?thesis using leaf by (simp add: get_leaf_index_def mod2_eq_if nsub_def nadd_def)
  qed
qed

end
