(* ===== verification/Mmr_Refinement.thy ===== *)
theory Mmr_Refinement
  imports Mmr_Spec
begin

text \<open>
  The append of \<open>Mmr\<close> against its meaning: \<open>value_at\<close> is the hash of a node over a list of leaves,
  \<open>mmr_root_spec\<close> the bagged root, \<open>mmr_of\<close> says that a stored range is the range of a list. An
  append to the range of \<open>ls\<close> returns the range of \<open>ls @ [x]\<close>; the stored nodes are reused, so each
  is shown to hold the hash it would be recomputed to.
\<close>

section \<open>The meaning of a range\<close>

fun value_at :: "crypto \<Rightarrow> bytes32 list \<Rightarrow> nat \<Rightarrow> nat \<Rightarrow> bytes32" where
  "value_at C ls 0 j = hash_leaf C (idx 0 j) (fr_reduce C (ls ! j))"
| "value_at C ls (Suc k) j =
     hash_branch C (idx (Suc k) j) (value_at C ls k j) (value_at C ls k (j + 2 ^ k))"

definition peaks_spec :: "crypto \<Rightarrow> bytes32 list \<Rightarrow> bytes32 list" where
  "peaks_spec C ls = map (\<lambda>(k, j). value_at C ls k j) (mountains (length ls) 120 0)"

definition mmr_root_spec :: "crypto \<Rightarrow> bytes32 list \<Rightarrow> bytes32" where
  "mmr_root_spec C ls =
     (case peaks_spec C ls of
        [] \<Rightarrow> 0
      | p # ps \<Rightarrow>
          poseidon C [DOMAIN_TAG, of_nat (sz (length ls)), foldl (\<lambda>acc peak. poseidon C [acc, peak]) p ps])"

lemma value_at_append: "j + 2 ^ k \<le> length ls \<Longrightarrow> value_at C (ls @ xs) k j = value_at C ls k j"
  by (induction k arbitrary: j) (simp_all add: nth_append)

declare value_at.simps [simp del]

text \<open>
  The store of hashes while an append runs. \<open>full\<close>: every node under \<open>(k, j)\<close> holds its hash; \<open>stored\<close>:
  over the first \<open>n\<close> leaves a node is absent or full, and the leaves are there and not zero.
\<close>

definition full :: "crypto \<Rightarrow> bytes32 list \<Rightarrow> (nat \<rightharpoonup> bytes32) \<Rightarrow> nat \<Rightarrow> nat \<Rightarrow> bool" where
  "full C ls H k j \<longleftrightarrow>
     (\<forall>k' j'. 2 ^ k' dvd j' \<longrightarrow> j \<le> j' \<longrightarrow> j' + 2 ^ k' \<le> j + 2 ^ k \<longrightarrow>
        H (idx k' j') = Some (value_at C ls k' j'))"

definition stored :: "crypto \<Rightarrow> bytes32 list \<Rightarrow> nat \<Rightarrow> (nat \<rightharpoonup> bytes32) \<Rightarrow> bool" where
  "stored C ls n H \<longleftrightarrow>
     (\<forall>k j. 2 ^ k dvd j \<longrightarrow> j + 2 ^ k \<le> n \<longrightarrow> H (idx k j) = None \<or> full C ls H k j) \<and>
     (\<forall>j<n. H (idx 0 j) = Some (value_at C ls 0 j) \<and> value_at C ls 0 j \<noteq> 0)"

text \<open>Between appends every node over the leaves holds its hash, and no leaf hashes to zero.\<close>

definition all_nodes :: "crypto \<Rightarrow> bytes32 list \<Rightarrow> (nat \<rightharpoonup> bytes32) \<Rightarrow> bool" where
  "all_nodes C ls H \<longleftrightarrow>
     (\<forall>k j. 2 ^ k dvd j \<longrightarrow> j + 2 ^ k \<le> length ls \<longrightarrow> H (idx k j) = Some (value_at C ls k j)) \<and>
     (\<forall>j<length ls. value_at C ls 0 j \<noteq> 0)"

definition mmr_of :: "crypto \<Rightarrow> bytes32 list \<Rightarrow> mmr \<Rightarrow> bool" where
  "mmr_of C ls m \<longleftrightarrow>
     mr_width m = length ls \<and> mr_size m = sz (length ls) \<and> mr_root m = mmr_root_spec C ls \<and>
     all_nodes C ls (mr_hashes m) \<and> (\<forall>i>sz (length ls). mr_hashes m i = None) \<and>
     (\<forall>n. 0 < n \<and> n \<le> length ls \<longrightarrow> mr_history m n = Some (mmr_root_spec C (take n ls)))"

lemma mmr_of_empty: "mmr_of C [] mmr_empty"
  using mountains_bound [of 0 0 120]
  by (simp add: mmr_of_def mmr_empty_def mmr_root_spec_def peaks_spec_def all_nodes_def, arith)

lemma idx_of_pair [simp]: "idx_of (k, j) = idx k j"
  by (simp add: idx_of_def)

section \<open>Reading and filling nodes\<close>

lemma fullD: "full C ls H k j \<Longrightarrow> 2 ^ k dvd j \<Longrightarrow> H (idx k j) = Some (value_at C ls k j)"
  unfolding full_def by blast

lemma full_mono: "full C ls H k j \<Longrightarrow> H \<subseteq>\<^sub>m H' \<Longrightarrow> full C ls H' k j"
  unfolding full_def map_le_def by (metis domI)

text \<open>A node under \<open>(k + 1, j)\<close> is that node or lies under one of its halves.\<close>

lemma under_cases:
  fixes j j' :: nat
  assumes "2 ^ Suc k dvd j" "2 ^ k' dvd j'" "j \<le> j'" "j' + 2 ^ k' \<le> j + 2 ^ Suc k"
  shows "k' = Suc k \<and> j' = j \<or> j' + 2 ^ k' \<le> j + 2 ^ k \<or> j + 2 ^ k \<le> j'"
proof -
  have le: "(2::nat) ^ k' \<le> 2 ^ Suc k" using assms(3,4) by linarith
  then have "k' \<le> Suc k" by (metis one_less_numeral_iff power_le_imp_le_exp semiring_norm(76))
  then consider "k' = Suc k" | "k' \<le> k" by linarith
  then show ?thesis
  proof cases
    case 1
    then show ?thesis using assms(3,4) by simp
  next
    case 2
    have "2 ^ k' dvd j" by (rule dvd_trans [OF le_imp_power_dvd assms(1)]) (use 2 in simp)
    then have "2 ^ k' dvd j + 2 ^ k" using 2 by (intro dvd_add le_imp_power_dvd)
    then show ?thesis using aligned_room [OF assms(2), of "j + 2 ^ k"] by linarith
  qed
qed

lemma full_join:
  assumes "2 ^ Suc k dvd j" "full C ls H k j" "full C ls H k (j + 2 ^ k)"
    "H (idx (Suc k) j) = Some (value_at C ls (Suc k) j)"
  shows "full C ls H (Suc k) j"
  unfolding full_def
proof (intro allI impI)
  fix k' j' :: nat
  assume a: "2 ^ k' dvd j'" "j \<le> j'" "j' + 2 ^ k' \<le> j + 2 ^ Suc k"
  from under_cases [OF assms(1) a] show "H (idx k' j') = Some (value_at C ls k' j')"
    using assms a unfolding full_def by (elim disjE) auto
qed

text \<open>Storing a node that is full keeps what is stored.\<close>

lemma stored_node:
  assumes "stored C ls n H" "2 ^ Suc k dvd j" "j + 2 ^ Suc k \<le> n" "n \<le> width_bound"
    "full C ls H k j" "full C ls H k (j + 2 ^ k)"
  defines "H' \<equiv> H(idx (Suc k) j \<mapsto> value_at C ls (Suc k) j)"
  shows "H \<subseteq>\<^sub>m H'" "full C ls H' (Suc k) j" "stored C ls n H'"
proof -
  have "H (idx (Suc k) j) = None \<or> full C ls H (Suc k) j"
    by (rule assms(1) [unfolded stored_def, THEN conjunct1, rule_format, OF assms(2,3)])
  then have "H (idx (Suc k) j) = None \<or> H (idx (Suc k) j) = Some (value_at C ls (Suc k) j)"
    using fullD [OF _ assms(2)] by blast
  then show le: "H \<subseteq>\<^sub>m H'" unfolding H'_def map_le_def by auto
  show here: "full C ls H' (Suc k) j"
    by (rule full_join [OF assms(2) full_mono [OF assms(5) le] full_mono [OF assms(6) le]])
      (simp add: H'_def)
  show "stored C ls n H'"
    unfolding stored_def
  proof (intro conjI allI impI)
    fix k' j' :: nat
    assume a: "2 ^ k' dvd j'" "j' + 2 ^ k' \<le> n"
    show "H' (idx k' j') = None \<or> full C ls H' k' j'"
    proof (cases "idx k' j' = idx (Suc k) j")
      case True
      then have "k' = Suc k \<and> j' = j" using a assms(2-4) by (intro idx_inject) simp_all
      then show ?thesis using here by simp
    next
      case False
      have "H (idx k' j') = None \<or> full C ls H k' j'"
        by (rule assms(1) [unfolded stored_def, THEN conjunct1, rule_format, OF a])
      then show ?thesis using False full_mono [OF _ le] by (auto simp: H'_def)
    qed
  next
    fix j' assume "j' < n"
    then have "H (idx 0 j') = Some (value_at C ls 0 j')" "value_at C ls 0 j' \<noteq> 0"
      using assms(1) by (simp_all add: stored_def)
    then show "H' (idx 0 j') = Some (value_at C ls 0 j')" "value_at C ls 0 j' \<noteq> 0"
      using le unfolding map_le_def by (auto dest: bspec [of _ _ "idx 0 j'"])
  qed
qed

lemma get_or_create_node_value:
  assumes "stored C ls n H" "2 ^ k dvd j" "j + 2 ^ k \<le> n" "n \<le> width_bound" "idx k j \<le> size'"
  shows "\<exists>H'. get_or_create_node C size' (idx k j) H = (Ok (value_at C ls k j, H') :: ('e, _) res) \<and>
    stored C ls n H' \<and> H \<subseteq>\<^sub>m H' \<and> full C ls H' k j \<and> (\<forall>i>sz n. H' i = H i)"
  using assms
proof (induction k arbitrary: j H)
  case 0
  then have v: "H (idx 0 j) = Some (value_at C ls 0 j)" "value_at C ls 0 j \<noteq> 0"
    by (simp_all add: stored_def)
  have "H (idx 0 j) = None \<or> full C ls H 0 j"
    by (rule 0(1) [unfolded stored_def, THEN conjunct1, rule_format, OF 0(2,3)])
  then show ?case using v 0 by (intro exI [of _ H]) (simp add: get_or_create_node.simps)
next
  case (Suc k)
  have here: "H (idx (Suc k) j) = None \<or> full C ls H (Suc k) j"
    by (rule Suc.prems(1) [unfolded stored_def, THEN conjunct1, rule_format, OF Suc.prems(2,3)])
  show ?case
  proof (cases "H (idx (Suc k) j) \<noteq> None \<and> H (idx (Suc k) j) \<noteq> Some 0")
    case True
    then have f: "full C ls H (Suc k) j" using here by auto
    have v: "H (idx (Suc k) j) = Some (value_at C ls (Suc k) j)" by (rule fullD [OF f Suc.prems(2)])
    then have "value_at C ls (Suc k) j \<noteq> 0" using True by simp
    then have "(get_or_create_node C size' (idx (Suc k) j) H :: ('e, _) res) =
        Ok (value_at C ls (Suc k) j, H)"
      using v Suc.prems(5) by (subst get_or_create_node.simps) simp
    then show ?thesis using Suc.prems(1) f by (intro exI [of _ H]) simp
  next
    case False
    have al: "2 ^ k dvd j" "2 ^ k dvd j + 2 ^ k"
      using Suc.prems(2) by (auto intro: dvd_trans [OF le_imp_power_dvd] dvd_add)
    have room: "j + 2 ^ k \<le> n" "j + 2 ^ k + 2 ^ k \<le> n" using Suc.prems(3) by simp_all
    have ch: "idx k j \<le> size'" "idx k (j + 2 ^ k) \<le> size'"
      using idx_children [OF Suc.prems(2)] Suc.prems(5) by simp_all
    have kids: "(get_children (idx (Suc k) j) :: ('e, _) res) = Ok (idx k j, idx k (j + 2 ^ k))"
      using Suc.prems by (intro get_children_idx) simp_all
    from Suc.IH [OF Suc.prems(1) al(1) room(1) Suc.prems(4) ch(1)] obtain H1 where
      l: "(get_or_create_node C size' (idx k j) H :: ('e, _) res) = Ok (value_at C ls k j, H1)"
        "stored C ls n H1" "H \<subseteq>\<^sub>m H1" "full C ls H1 k j" "\<forall>i>sz n. H1 i = H i" by blast
    from Suc.IH [OF l(2) al(2) room(2) Suc.prems(4) ch(2)] obtain H2 where
      r: "(get_or_create_node C size' (idx k (j + 2 ^ k)) H1 :: ('e, _) res) =
          Ok (value_at C ls k (j + 2 ^ k), H2)"
        "stored C ls n H2" "H1 \<subseteq>\<^sub>m H2" "full C ls H2 k (j + 2 ^ k)" "\<forall>i>sz n. H2 i = H1 i" by blast
    let ?H = "H2(idx (Suc k) j \<mapsto> value_at C ls (Suc k) j)"
    note kept = stored_node [OF r(2) Suc.prems(2-4) full_mono [OF l(4) r(3)] r(4)]
    have "(get_or_create_node C size' (idx (Suc k) j) H :: ('e, _) res) = Ok (value_at C ls (Suc k) j, ?H)"
      using Suc.prems(5) False kids l(1) r(1)
      by (subst get_or_create_node.simps) (auto simp: value_at.simps Let_def)
    moreover have "\<forall>i>sz n. ?H i = H i" using idx_le_sz [OF Suc.prems(2,3)] l(5) r(5) by auto
    moreover have "H \<subseteq>\<^sub>m ?H" by (rule map_le_trans [OF map_le_trans [OF l(3) r(3)] kept(1)])
    ultimately show ?thesis using kept by blast
  qed
qed

lemma peaks_of_values:
  assumes "stored C ls n H" "\<And>k j. (k, j) \<in> set ms \<Longrightarrow> 2 ^ k dvd j \<and> j + 2 ^ k \<le> n"
    "n \<le> width_bound" "sz n \<le> size'"
  shows "\<exists>H'. peaks_of C size' (map idx_of ms) H =
      (Ok (map (\<lambda>(k, j). value_at C ls k j) ms, H') :: ('e, _) res) \<and>
    stored C ls n H' \<and> H \<subseteq>\<^sub>m H' \<and> (\<forall>(k, j)\<in>set ms. full C ls H' k j) \<and> (\<forall>i>sz n. H' i = H i)"
  using assms
proof (induction ms arbitrary: H)
  case (Cons m ms)
  obtain k j where m: "m = (k, j)" by (cases m)
  have kj: "2 ^ k dvd j" "j + 2 ^ k \<le> n" using Cons.prems(2) [of k j] m by simp_all
  have "idx k j \<le> size'" using idx_le_sz [OF kj] Cons.prems(4) by simp
  from get_or_create_node_value [OF Cons.prems(1) kj Cons.prems(3) this] obtain H1 where
    p: "(get_or_create_node C size' (idx k j) H :: ('e, _) res) = Ok (value_at C ls k j, H1)"
      "stored C ls n H1" "H \<subseteq>\<^sub>m H1" "full C ls H1 k j" "\<forall>i>sz n. H1 i = H i" by blast
  have "\<exists>H'. peaks_of C size' (map idx_of ms) H1 =
      (Ok (map (\<lambda>(k, j). value_at C ls k j) ms, H') :: ('e, _) res) \<and>
    stored C ls n H' \<and> H1 \<subseteq>\<^sub>m H' \<and> (\<forall>(k, j)\<in>set ms. full C ls H' k j) \<and> (\<forall>i>sz n. H' i = H1 i)"
    using Cons.prems(2-4) by (intro Cons.IH p(2)) auto
  then obtain H2 where
    q: "(peaks_of C size' (map idx_of ms) H1 :: ('e, _) res) =
      Ok (map (\<lambda>(k, j). value_at C ls k j) ms, H2)"
    "stored C ls n H2" "H1 \<subseteq>\<^sub>m H2" "\<forall>(k, j)\<in>set ms. full C ls H2 k j" "\<forall>i>sz n. H2 i = H1 i" by blast
  have "full C ls H2 k j" by (rule full_mono [OF p(4) q(3)])
  then show ?case using p q m map_le_trans [OF p(3) q(3)] by (intro exI [of _ H2]) simp
qed auto

section \<open>Append\<close>

lemma stored_extend:
  assumes "all_nodes C ls H" "\<forall>i>sz (length ls). H i = None"
    "length ls < width_bound" "value_at C (ls @ [x]) 0 (length ls) \<noteq> 0"
  defines "H' \<equiv> H(idx 0 (length ls) \<mapsto> value_at C (ls @ [x]) 0 (length ls))"
  shows "stored C (ls @ [x]) (Suc (length ls)) H'"
proof -
  let ?n = "length ls" and ?ls = "ls @ [x]"
  have old: "H' (idx k j) = Some (value_at C ?ls k j)" if "2 ^ k dvd j" "j + 2 ^ k \<le> ?n" for k j
  proof -
    have "H (idx k j) = Some (value_at C ls k j)" using assms(1) that by (simp add: all_nodes_def)
    moreover have "idx k j \<noteq> idx 0 ?n" using idx_le_sz [OF that] sz_less_idx [of 0 ?n ?n] by simp
    ultimately show ?thesis using value_at_append [OF that(2), of C "[x]"] by (simp add: H'_def)
  qed
  have leaf: "value_at C ?ls 0 j \<noteq> 0 \<and> H' (idx 0 j) = Some (value_at C ?ls 0 j)" if "j \<le> ?n" for j
    using assms(1,4) old [of 0 j] that value_at_append [of j 0 ls C "[x]"]
    by (cases "j = ?n") (auto simp: all_nodes_def H'_def)
  have below: "full C ?ls H' k j" if "j + 2 ^ k \<le> ?n" for k j
    using old that unfolding full_def by auto
  show ?thesis
    unfolding stored_def
  proof (intro conjI allI impI)
    fix k j :: nat
    assume a: "2 ^ k dvd j" "j + 2 ^ k \<le> Suc ?n"
    show "H' (idx k j) = None \<or> full C ?ls H' k j"
    proof (cases "j + 2 ^ k = Suc ?n")
      case True
      show ?thesis
      proof (cases k)
        case 0
        have "k' = 0 \<and> j' = j" if "j \<le> j'" "j' + 2 ^ k' \<le> j + 1" for k' j' :: nat
          using that less_exp [of k'] by (intro conjI) linarith+
        then show ?thesis using True 0 leaf [of j] unfolding full_def by auto
      next
        case (Suc k')
        have "idx k j \<noteq> idx 0 ?n" using idx_inject [of k j 0 ?n] a assms(3) Suc by auto
        then show ?thesis using sz_less_idx [OF a(1) True] assms(2) by (simp add: H'_def)
      qed
    next
      case False
      then show ?thesis using a(2) below by simp
    qed
  next
    fix j assume "j < Suc ?n"
    then have "value_at C ?ls 0 j \<noteq> 0 \<and> H' (idx 0 j) = Some (value_at C ?ls 0 j)" by (intro leaf) simp
    then show "H' (idx 0 j) = Some (value_at C ?ls 0 j)" "value_at C ?ls 0 j \<noteq> 0" by simp_all
  qed
qed

text \<open>Every aligned node over the first \<open>n\<close> leaves lies in one of the mountains.\<close>

lemma mountains_cover:
  assumes "2 ^ k dvd j" "a \<le> j" "j + 2 ^ k \<le> a + n mod 2 ^ i" "2 ^ i dvd a"
  shows "\<exists>(k', j')\<in>set (mountains n i a). j' \<le> j \<and> j + 2 ^ k \<le> j' + 2 ^ k'"
  using assms
proof (induction i arbitrary: a)
  case 0
  then have "j + 2 ^ k \<le> a" by simp
  with 0(2) have "j + 2 ^ k \<le> j" by linarith
  then show ?case by simp
next
  case (Suc i)
  have al: "2 ^ i dvd a" "2 ^ i dvd a + 2 ^ i"
    using Suc.prems(4) by (auto intro: dvd_trans [OF le_imp_power_dvd] dvd_add)
  show ?case
  proof (cases "odd (n div 2 ^ i)")
    case False
    then show ?thesis using Suc.IH [OF Suc.prems(1,2) _ al(1)] Suc.prems(3) mod_pow_Suc [of n i] by simp
  next
    case True
    then have nm: "n mod 2 ^ Suc i = 2 ^ i + n mod 2 ^ i" using mod_pow_Suc [of n i] by simp
    show ?thesis
    proof (cases "j < a + 2 ^ i")
      case False
      have "\<exists>(k', j')\<in>set (mountains n i (a + 2 ^ i)). j' \<le> j \<and> j + 2 ^ k \<le> j' + 2 ^ k'"
        using False Suc.prems(1,3) nm al(2) by (intro Suc.IH) simp_all
      then show ?thesis using True by auto
    next
      case below: True
      have "n mod 2 ^ Suc i < 2 ^ Suc i" by simp
      then have "(2::nat) ^ k < 2 ^ Suc i" using Suc.prems(2,3) by linarith
      then have ki: "k \<le> i" by (metis less_Suc_eq_le one_less_numeral_iff power_less_imp_less_exp semiring_norm(76))
      have "2 ^ k dvd a + 2 ^ i" by (rule dvd_trans [OF le_imp_power_dvd [OF ki] al(2)])
      then have "j + 2 ^ k \<le> a + 2 ^ i" by (rule aligned_room [OF Suc.prems(1) _ below])
      then show ?thesis using True Suc.prems(2) by simp
    qed
  qed
qed

lemma all_nodes_full:
  assumes "\<forall>(k, j)\<in>set (mountains (length ls) 120 0). full C ls H k j" "stored C ls (length ls) H"
    "length ls < width_bound"
  shows "all_nodes C ls H"
proof -
  have "H (idx k j) = Some (value_at C ls k j)" if a: "2 ^ k dvd j" "j + 2 ^ k \<le> length ls" for k j
  proof -
    have "j + 2 ^ k \<le> 0 + length ls mod 2 ^ 120" using a(2) assms(3) by (simp add: width_bound_def)
    from mountains_cover [OF a(1) _ this] obtain k' j' where
      m: "(k', j') \<in> set (mountains (length ls) 120 0)" "j' \<le> j" "j + 2 ^ k \<le> j' + 2 ^ k'" by auto
    then have "full C ls H k' j'" using assms(1) by auto
    then show ?thesis using m a(1) unfolding full_def by blast
  qed
  then show ?thesis using assms(2) by (simp add: all_nodes_def stored_def)
qed

lemma mountains_aligned:
  assumes "(k, j) \<in> set (mountains n 120 0)" "n < width_bound"
  shows "2 ^ k dvd j \<and> j + 2 ^ k \<le> n"
  using mountains_in [OF assms(1)] assms(2) by (simp add: width_bound_def)

lemma peak_bagging_spec:
  assumes "0 < length ls" "length ls < width_bound"
  shows "peak_bagging C (length ls) (peaks_spec C ls) = (Ok (mmr_root_spec C ls) :: ('e, _) res)"
proof -
  have "length (peaks_spec C ls) = num_of_peaks (length ls)"
    using assms(2) by (simp add: peaks_spec_def length_mountains num_of_peaks_pc width_bound_def)
  moreover have "0 < pc (length ls)"
    using assms(1) pc_clear_bit [of "length ls"] by simp
  moreover have "(calc_size (length ls) :: ('e, _) res) = Ok (sz (length ls))"
    using assms(2) by (intro calc_size_sz) (simp add: width_bound_def)
  ultimately show ?thesis using assms(1)
    by (cases "peaks_spec C ls") (simp_all add: peak_bagging_def mmr_root_spec_def num_of_peaks_pc)
qed

lemma mmr_append_of:
  assumes m: "mmr_of C ls m" and n: "Suc (length ls) < width_bound"
    and nz: "hash_leaf C (idx 0 (length ls)) (fr_reduce C x) \<noteq> 0"
  shows "\<exists>m'. mmr_append C x m = (Ok (idx 0 (length ls), m') :: ('e, _) res) \<and> mmr_of C (ls @ [x]) m'"
proof -
  let ?n = "length ls" and ?ls = "ls @ [x]"
  have leaf: "hash_leaf C (idx 0 ?n) (fr_reduce C x) = value_at C ?ls 0 ?n" by (simp add: value_at.simps)
  let ?H = "(mr_hashes m)(idx 0 ?n \<mapsto> value_at C ?ls 0 ?n)"
  have st: "stored C ?ls (Suc ?n) ?H"
    using m n nz leaf by (intro stored_extend) (simp_all add: mmr_of_def)
  have "idx 0 ?n \<le> sz (Suc ?n)" by (rule idx_le_sz) simp_all
  then have out: "\<forall>i>sz (Suc ?n). ?H i = None"
    using m sz_Suc [of ?n] by (auto simp: mmr_of_def)
  have len: "length ?ls = Suc ?n" by simp
  from peaks_of_values [OF st, of "mountains (Suc ?n) 120 0" "sz (Suc ?n)"]
  obtain H' where H': "(peaks_of C (sz (Suc ?n)) (map idx_of (mountains (Suc ?n) 120 0)) ?H :: ('e, _) res) =
      Ok (peaks_spec C ?ls, H')" "stored C ?ls (Suc ?n) H'" "\<forall>(k, j)\<in>set (mountains (Suc ?n) 120 0). full C ?ls H' k j"
      "\<forall>i>sz (Suc ?n). H' i = ?H i"
    using mountains_aligned [OF _ n] n by (auto simp: peaks_spec_def)
  have pk: "(get_peak_indexes (Suc ?n) :: ('e, _) res) = Ok (map idx_of (mountains (Suc ?n) 120 0))"
    by (rule get_peak_indexes_mountains [OF n])
  have sz': "(calc_size (Suc ?n) :: ('e, _) res) = Ok (sz (Suc ?n))"
    using n by (intro calc_size_sz) (simp add: width_bound_def)
  have bag: "(peak_bagging C (Suc ?n) (peaks_spec C ?ls) :: ('e, _) res) = Ok (mmr_root_spec C ?ls)"
    using peak_bagging_spec [of ?ls C] n by simp
  have li: "(get_leaf_index (Suc ?n) :: ('e, _) res) = Ok (idx 0 ?n)" by (rule get_leaf_index_idx [OF n])
  have w: "(nadd (mr_width m) 1 :: ('e, _) res) = Ok (Suc ?n)"
    using m n by (simp add: mmr_of_def nadd_def width_bound_def)
  let ?m = "\<lparr>mr_root = mmr_root_spec C ?ls, mr_size = sz (Suc ?n), mr_width = Suc ?n, mr_hashes = H',
    mr_history = (mr_history m)(Suc ?n \<mapsto> mmr_root_spec C ?ls)\<rparr>"
  have "(mmr_append C x m :: ('e, _) res) = Ok (idx 0 ?n, ?m)"
    unfolding mmr_append_def Let_def w attempt_simps li leaf pk sz' H'(1) prod.case bag by simp
  moreover have "mmr_of C ?ls ?m"
    using m H'(4) out all_nodes_full [of ?ls C H'] H'(2,3) n
    by (auto simp: mmr_of_def take_append le_Suc_eq)
  ultimately show ?thesis by blast
qed

text \<open>A run of appends.\<close>

fun mmr_appends :: "crypto \<Rightarrow> bytes32 list \<Rightarrow> mmr \<Rightarrow> ('e, mmr) res" where
  "mmr_appends C [] m = Ok m"
| "mmr_appends C (x # xs) m = attempt (mmr_append C x m) (\<lambda>(_, m'). mmr_appends C xs m')"

definition leaves_nonzero :: "crypto \<Rightarrow> bytes32 list \<Rightarrow> bool" where
  "leaves_nonzero C ls \<longleftrightarrow>
     (\<forall>j<length ls. hash_leaf C (idx 0 j) (fr_reduce C (ls ! j)) \<noteq> 0)"

lemma mmr_appends_of:
  assumes "mmr_of C ls m" "leaves_nonzero C (ls @ xs)" "length (ls @ xs) < width_bound"
  shows "\<exists>m'. mmr_appends C xs m = (Ok m' :: ('e, _) res) \<and> mmr_of C (ls @ xs) m'"
  using assms
proof (induction xs arbitrary: ls m)
  case (Cons x xs)
  have "hash_leaf C (idx 0 (length ls)) (fr_reduce C x) \<noteq> 0"
    using Cons.prems(2) by (auto simp: leaves_nonzero_def dest: spec [of _ "length ls"])
  moreover have "Suc (length ls) < width_bound" using Cons.prems(3) by simp
  ultimately obtain m1 where m1: "(mmr_append C x m :: ('e, _) res) = Ok (idx 0 (length ls), m1)"
    "mmr_of C (ls @ [x]) m1" using mmr_append_of [OF Cons.prems(1)] by blast
  with Cons.IH [OF m1(2)] Cons.prems show ?case by simp
qed simp

end
