(* ===== verification/Mmr_Proofs.thy ===== *)
theory Mmr_Proofs
  imports Mmr_Refinement
begin

text \<open>
  Membership proofs of the range: for every leaf, \<open>get_merkle_proof\<close> returns a proof and
  \<open>verify_inclusion\<close> accepts it. The path of leaf \<open>j\<close> runs through its ancestors \<open>anc i j\<close>.
\<close>

definition anc :: "nat \<Rightarrow> nat \<Rightarrow> nat" where
  "anc i j = j div 2 ^ i * 2 ^ i"

definition sib_of :: "crypto \<Rightarrow> bytes32 list \<Rightarrow> nat \<Rightarrow> nat \<Rightarrow> bytes32" where
  "sib_of C ls i j =
     value_at C ls i (if even (j div 2 ^ i) then anc i j + 2 ^ i else anc i j - 2 ^ i)"

lemma anc_0 [simp]: "anc 0 j = j"
  by (simp add: anc_def)

lemma anc_aligned: "2 ^ k dvd anc k j"
  by (simp add: anc_def)

lemma anc_eq:
  assumes "2 ^ k dvd a" "a \<le> j" "j < a + 2 ^ k"
  shows "anc k j = a"
proof -
  obtain c where a: "a = c * 2 ^ k" using assms(1) by (metis dvd_def mult.commute)
  have "j div 2 ^ k = c"
    using assms(2,3) a by (intro div_nat_eqI) (simp_all add: algebra_simps)
  then show ?thesis by (simp add: anc_def a)
qed

lemma anc_Suc:
  "anc (Suc k) j = (if even (j div 2 ^ k) then anc k j else anc k j - 2 ^ k)"
proof -
  have d: "j div 2 ^ Suc k = j div 2 ^ k div 2" by (simp only: power_Suc2 div_mult2_eq)
  show ?thesis
  proof (cases "even (j div 2 ^ k)")
    case True
    then obtain c where "j div 2 ^ k = 2 * c" by blast
    then show ?thesis using d by (simp add: anc_def)
  next
    case False
    then obtain c where "j div 2 ^ k = 2 * c + 1" by (auto elim: oddE)
    then show ?thesis using d by (simp add: anc_def)
  qed
qed

lemma anc_odd_ge: "odd (j div 2 ^ k) \<Longrightarrow> 2 ^ k \<le> anc k j"
  by (auto simp: anc_def elim!: oddE)

lemma value_at_anc:
  "value_at C ls (Suc k) (anc (Suc k) j) =
     (if even (j div 2 ^ k)
      then hash_branch C (idx (Suc k) (anc (Suc k) j)) (value_at C ls k (anc k j)) (sib_of C ls k j)
      else hash_branch C (idx (Suc k) (anc (Suc k) j)) (sib_of C ls k j) (value_at C ls k (anc k j)))"
  using anc_odd_ge [of j k] by (auto simp: value_at.simps(2) anc_Suc sib_of_def)

text \<open>Where a leaf lies relative to the left half of a node.\<close>

lemma leaf_left_iff:
  assumes "2 ^ Suc k dvd a"
  shows "idx 0 j \<le> idx k a \<longleftrightarrow> j < a + 2 ^ k"
proof -
  have s: "sz (a + 2 ^ k) = idx k a" by (rule sz_add_pow [OF assms])
  have "idx 0 j \<le> idx k a" if "j < a + 2 ^ k"
    using idx_le_sz [of 0 j "a + 2 ^ k"] that s by simp
  moreover have "idx k a < idx 0 j" if "a + 2 ^ k \<le> j"
    using sz_mono [OF that] s idx_plus [of 0 j] by simp
  ultimately show ?thesis by (meson not_less)
qed

section \<open>Finding the mountain\<close>

lemma find_map: "find P (map f xs) = map_option f (find (\<lambda>x. P (f x)) xs)"
  by (induction xs) auto

lemma mountains_find:
  assumes "a \<le> j" "j < a + n mod 2 ^ i" "2 ^ i dvd a"
  shows "\<exists>k b. find (\<lambda>m. idx 0 j \<le> idx_of m) (mountains n i a) = Some (k, b) \<and>
    2 ^ k dvd b \<and> b \<le> j \<and> j < b + 2 ^ k"
  using assms
proof (induction i arbitrary: a)
  case (Suc i)
  have al: "2 ^ i dvd a" "2 ^ i dvd a + 2 ^ i"
    using Suc.prems(3) by (auto intro: dvd_trans [OF le_imp_power_dvd] dvd_add)
  show ?case
  proof (cases "odd (n div 2 ^ i)")
    case False
    then show ?thesis using Suc.IH [OF Suc.prems(1) _ al(1)] Suc.prems(2) mod_pow_Suc [of n i] by simp
  next
    case odd: True
    show ?thesis
    proof (cases "j < a + 2 ^ i")
      case True
      then show ?thesis using odd Suc.prems(1) al(1) leaf_left_iff [OF Suc.prems(3)] by simp
    next
      case False
      then have "\<exists>k b. find (\<lambda>m. idx 0 j \<le> idx_of m) (mountains n i (a + 2 ^ i)) = Some (k, b) \<and>
          2 ^ k dvd b \<and> b \<le> j \<and> j < b + 2 ^ k"
        using odd Suc.prems(2) mod_pow_Suc [of n i] al(2) by (intro Suc.IH) simp_all
      then show ?thesis using False odd leaf_left_iff [OF Suc.prems(3)] by simp
    qed
  qed
qed simp

section \<open>The descent\<close>

lemma node_or_zero_all:
  "all_nodes C ls (mr_hashes m) \<Longrightarrow> 2 ^ k dvd j \<Longrightarrow> j + 2 ^ k \<le> length ls \<Longrightarrow>
    node_or_zero m (idx k j) = value_at C ls k j"
  by (simp add: all_nodes_def node_or_zero_def)

lemma sib_of_step:
  assumes "2 ^ Suc k dvd a" "a \<le> j" "j < a + 2 ^ Suc k"
  shows "sib_of C ls k j = value_at C ls k (if j < a + 2 ^ k then a + 2 ^ k else a)"
proof -
  have al: "2 ^ k dvd a" "2 ^ k dvd a + 2 ^ k"
    using assms(1) by (auto intro: dvd_trans [OF le_imp_power_dvd] dvd_add)
  obtain c where a: "a = c * 2 ^ Suc k" using assms(1) by (metis dvd_def mult.commute)
  show ?thesis
  proof (cases "j < a + 2 ^ k")
    case True
    then have e: "anc k j = a" using assms(2) al(1) by (intro anc_eq)
    then have "j div 2 ^ k * 2 ^ k = 2 * c * 2 ^ k" using a by (simp add: anc_def)
    then have "j div 2 ^ k = 2 * c" by simp
    then show ?thesis using e True by (simp add: sib_of_def)
  next
    case False
    then have e: "anc k j = a + 2 ^ k" using assms(3) al(2) by (intro anc_eq) simp_all
    then have "j div 2 ^ k * 2 ^ k = (2 * c + 1) * 2 ^ k" using a by (simp add: anc_def)
    then have "j div 2 ^ k = 2 * c + 1" by (simp only: mult_cancel2) simp
    then show ?thesis using e False by (simp add: sib_of_def)
  qed
qed

lemma proof_descent_siblings:
  assumes "all_nodes C ls (mr_hashes m)" "length ls < width_bound"
    and "2 ^ k dvd a" "a \<le> j" "j < a + 2 ^ k" "a + 2 ^ k \<le> length ls" "k \<le> length sibs"
  shows "proof_descent m (idx 0 j) (Suc k) (idx k a) sibs =
    (Ok (map (\<lambda>i. sib_of C ls i j) [0..<k] @ drop k sibs) :: ('e, _) res)"
  using assms(3-)
proof (induction k arbitrary: a sibs)
  case (Suc k)
  have al: "2 ^ k dvd a" "2 ^ k dvd a + 2 ^ k"
    using Suc.prems(1) by (auto intro: dvd_trans [OF le_imp_power_dvd] dvd_add)
  have ne: "idx (Suc k) a \<noteq> idx 0 j"
    using idx_inject [of "Suc k" a 0 j] Suc.prems(1,3,4) assms(2) by auto
  have kids: "(get_children (idx (Suc k) a) :: ('e, _) res) = Ok (idx k a, idx k (a + 2 ^ k))"
    using Suc.prems(1,4) assms(2) by (intro get_children_idx) simp_all
  let ?b = "if j < a + 2 ^ k then a else a + 2 ^ k"
  let ?o = "if j < a + 2 ^ k then a + 2 ^ k else a"
  have nz: "node_or_zero m (idx k ?o) = sib_of C ls k j"
    unfolding sib_of_step [OF Suc.prems(1-3)]
    using Suc.prems(4) al by (intro node_or_zero_all [OF assms(1)]) (auto split: if_splits)
  have "(proof_descent m (idx 0 j) (Suc (Suc k)) (idx (Suc k) a) sibs :: ('e, _) res) =
      proof_descent m (idx 0 j) (Suc k) (idx k ?b) (sibs[k := sib_of C ls k j])"
    using ne kids nz leaf_left_iff [OF Suc.prems(1), of j] by (auto simp del: proof_descent.simps(2)
      simp: proof_descent.simps(2) [of m "idx 0 j" "Suc k"])
  also have "\<dots> = Ok (map (\<lambda>i. sib_of C ls i j) [0..<k] @ drop k (sibs[k := sib_of C ls k j]))"
    using Suc.prems al by (intro Suc.IH) (auto split: if_splits)
  also have "drop k (sibs[k := sib_of C ls k j]) = sib_of C ls k j # drop (Suc k) sibs"
    using Suc.prems(5) by (simp add: drop_update_swap Cons_nth_drop_Suc [symmetric])
  finally show ?case by simp
next
  case 0
  then have "a = j" by simp
  then show ?case by simp
qed

lemma walk_down_path:
  assumes "j < width_bound" "2 ^ k dvd a" "a \<le> j" "j < a + 2 ^ k" "a + 2 ^ k \<le> width_bound"
  shows "walk_down (idx 0 j) (Suc k) (idx k a) path =
    (Ok (0, map (\<lambda>i. idx i (anc i j)) [0..<Suc k] @ path) :: ('e, _) res)"
  using assms(2-)
proof (induction k arbitrary: a path)
  case (Suc k)
  have al: "2 ^ k dvd a" "2 ^ k dvd a + 2 ^ k"
    using Suc.prems(1) by (auto intro: dvd_trans [OF le_imp_power_dvd] dvd_add)
  have ne: "idx (Suc k) a \<noteq> idx 0 j"
    using idx_inject [of "Suc k" a 0 j] Suc.prems(1,3,4) assms(1) by auto
  have kids: "(get_children (idx (Suc k) a) :: ('e, _) res) = Ok (idx k a, idx k (a + 2 ^ k))"
    using Suc.prems(1,4) by (intro get_children_idx)
  let ?b = "if j < a + 2 ^ k then a else a + 2 ^ k"
  have "(walk_down (idx 0 j) (Suc (Suc k)) (idx (Suc k) a) path :: ('e, _) res) =
      walk_down (idx 0 j) (Suc k) (idx k ?b) (idx (Suc k) a # path)"
    using ne kids leaf_left_iff [OF Suc.prems(1), of j]
    by (auto simp del: walk_down.simps(2) simp: walk_down.simps(2) [of "idx 0 j" "Suc k"] not_le not_less)
  also have "\<dots> = Ok (0, map (\<lambda>i. idx i (anc i j)) [0..<Suc k] @ idx (Suc k) a # path)"
    using Suc.prems al by (intro Suc.IH) (auto split: if_splits)
  finally show ?case using anc_eq [OF Suc.prems(1-3)] by simp
next
  case 0
  then have "a = j" by simp
  then show ?case by simp
qed

section \<open>The way up\<close>

lemma idx_child_anc:
  "idx (Suc k) (anc (Suc k) j) - 1 = idx k (anc k j) \<longleftrightarrow> odd (j div 2 ^ k)"
proof -
  have al: "2 ^ Suc k dvd anc (Suc k) j" by (rule anc_aligned)
  have r: "idx (Suc k) (anc (Suc k) j) - 1 = idx k (anc (Suc k) j + 2 ^ k)"
    using idx_children(2) [OF al] by simp
  show ?thesis
  proof (cases "even (j div 2 ^ k)")
    case True
    have "idx k (anc k j) < idx k (anc k j + 2 ^ k)"
      using sz_strict [of "anc k j" "anc k j + 2 ^ k"] idx_plus [of k "anc k j"] idx_plus [of k "anc k j + 2 ^ k"]
      by simp
    then show ?thesis using True r by (simp add: anc_Suc)
  next
    case False
    then show ?thesis using r anc_odd_ge [of j k] by (simp add: anc_Suc)
  qed
qed

lemma walk_up_values:
  assumes "h \<le> k" "length sibs = k" "\<And>i. i < k \<Longrightarrow> sibs ! i = sib_of C ls i j"
  shows "walk_up C v sibs (Suc h) (idx h (anc h j)) (map (\<lambda>i. idx i (anc i j)) [Suc h..<Suc k])
      (value_at C ls h (anc h j)) = (Ok (value_at C ls k (anc k j)) :: ('e, _) res)"
  using assms(1)
proof (induction rule: inc_induct)
  case base
  show ?case by simp
next
  case (step h)
  let ?c = "idx (Suc h) (anc (Suc h) j)"
  have l: "[Suc h..<Suc k] = Suc h # [Suc (Suc h)..<Suc k]" using step.hyps by (intro upt_rec [THEN trans]) simp
  let ?node = "if ?c - 1 = idx h (anc h j) then hash_branch C ?c (sibs ! h) (value_at C ls h (anc h j))
    else hash_branch C ?c (value_at C ls h (anc h j)) (sibs ! h)"
  have "nsub ?c 1 = (Ok (?c - 1) :: ('e, _) res)" using idx_pos [of "Suc h" "anc (Suc h) j"] by (simp add: nsub_def)
  then have "(walk_up C v sibs (Suc h) (idx h (anc h j)) (?c # path) (value_at C ls h (anc h j)) :: ('e, _) res) =
      walk_up C v sibs (Suc (Suc h)) ?c path ?node" for path
    using step.hyps assms(2) by simp
  moreover have "?node = value_at C ls (Suc h) (anc (Suc h) j)"
    unfolding idx_child_anc value_at_anc using assms(3) step.hyps by simp
  ultimately show ?case unfolding l list.map using step.IH by simp
qed

section \<open>A proof made is a proof accepted\<close>

lemma anc_next_upt: "map f [0..<Suc k] = f 0 # map f [Suc 0..<Suc k]"
  by (simp add: upt_rec)

lemma merkle_proof_accepted:
  assumes m: "mmr_of C ls m" and j: "j < length ls" and n: "length ls < width_bound"
    and nz: "0 \<notin> set (peaks_spec C ls)"
  shows "\<exists>sibs. get_merkle_proof m (idx 0 j) =
      (Ok (mmr_root_spec C ls, length ls, peaks_spec C ls, sibs) :: ('e, _) res) \<and>
    verify_inclusion C (mmr_root_spec C ls) (length ls) (idx 0 j) (fr_reduce C (ls ! j)) (peaks_spec C ls) sibs =
      (Ok True :: ('e, _) res)"
proof -
  let ?n = "length ls" and ?ms = "mountains (length ls) 120 0"
  have all: "all_nodes C ls (mr_hashes m)" and wd: "mr_width m = ?n" "mr_size m = sz ?n"
    "mr_root m = mmr_root_spec C ls" using m by (simp_all add: mmr_of_def)
  have small: "idx 0 j \<le> sz ?n" using j by (intro idx_le_sz) simp_all
  have pk: "(get_peak_indexes ?n :: ('e, _) res) = Ok (map idx_of ?ms)"
    by (rule get_peak_indexes_mountains [OF n])
  have "?n mod 2 ^ 120 = ?n" using n by (simp add: width_bound_def)
  then obtain k b where f: "find (\<lambda>m. idx 0 j \<le> idx_of m) ?ms = Some (k, b)"
    and kb: "2 ^ k dvd b" "b \<le> j" "j < b + 2 ^ k"
    using mountains_find [of 0 j ?n 120] j by auto
  have mem: "(k, b) \<in> set ?ms" using f by (auto simp: find_Some_iff)
  have room: "b + 2 ^ k \<le> ?n" using mountains_aligned [OF mem n] by simp
  have bag: "map (node_or_zero m) (map idx_of ?ms) = peaks_spec C ls"
    unfolding peaks_spec_def map_map
    using node_or_zero_all [OF all] mountains_aligned [OF _ n] by (auto simp: comp_def)
  let ?sibs = "map (\<lambda>i. sib_of C ls i j) [0..<k]"
  have ht: "(height_at (idx k b) :: ('e, _) res) = Ok (Suc k)" "(height_at (idx 0 j) :: ('e, _) res) = Ok (Suc 0)"
    using kb room j n by (intro height_at_idx; simp)+
  have descent: "(proof_descent m (idx 0 j) (Suc k) (idx k b) (replicate k 0) :: ('e, _) res) = Ok ?sibs"
    using proof_descent_siblings [OF all n kb room, of "replicate k 0"] by simp
  have "(get_merkle_proof m (idx 0 j) :: ('e, _) res) = Ok (mmr_root_spec C ls, ?n, peaks_spec C ls, ?sibs)"
    using small f ht descent idx_pos [of k b] bag
    by (simp add: get_merkle_proof_def wd is_leaf_def pk find_map nsub_def comp_def del: map_map proof_descent.simps)
  moreover have "verify_inclusion C (mmr_root_spec C ls) ?n (idx 0 j) (fr_reduce C (ls ! j)) (peaks_spec C ls) ?sibs =
      (Ok True :: ('e, _) res)"
  proof -
    have z: "zip (map idx_of ?ms) (peaks_spec C ls) = map (\<lambda>m. (idx_of m, case m of (k, j) \<Rightarrow> value_at C ls k j)) ?ms"
      by (simp add: peaks_spec_def zip_map_map zip_same_conv_map)
    have v: "value_at C ls k b \<noteq> 0"
      using nz mem by (force simp: peaks_spec_def image_iff)
    have cz: "(calc_size ?n :: ('e, _) res) = Ok (sz ?n)"
      using n by (intro calc_size_sz) (simp add: width_bound_def)
    have pb: "(peak_bagging C ?n (peaks_spec C ls) :: ('e, _) res) = Ok (mmr_root_spec C ls)"
      using j n by (intro peak_bagging_spec) auto
    have down: "(walk_down (idx 0 j) (Suc k) (idx k b) [] :: ('e, _) res) =
        Ok (0, map (\<lambda>i. idx i (anc i j)) [0..<Suc k])"
      using walk_down_path [OF _ kb, of "[]"] j n room by simp
    have up: "(walk_up C (fr_reduce C (ls ! j)) ?sibs 0 0 (map (\<lambda>i. idx i (anc i j)) [0..<Suc k]) 0 :: ('e, _) res) =
        Ok (value_at C ls k b)"
      using walk_up_values [of 0 k ?sibs C ls j "fr_reduce C (ls ! j)"] anc_eq [OF kb]
      by (simp only: anc_next_upt walk_up.simps) (simp add: value_at.simps(1))
    have fz: "find (\<lambda>(p, _). idx 0 j \<le> p) (zip (map idx_of ?ms) (peaks_spec C ls)) =
        Some (idx k b, value_at C ls k b)"
      unfolding z find_map using f by simp
    show ?thesis
      unfolding verify_inclusion_def cz attempt_simps pb pk fz option.case prod.case
      using small v down up by simp
  qed
  ultimately show ?thesis by blast
qed

end
