(* ===== verification/Merkle_Manager.thy ===== *)
theory Merkle_Manager
  imports Mmr_Proofs Timelock
begin

text \<open>
  The merkle manager (\<open>contracts/merkle-manager/src/{lib,storage,errors}.rs\<close>): its store, every entry
  point, the states it can reach and what they keep: the range is the range of the leaves appended
  so far, only managers append, and an escrow stays an appender until its delayed removal.
\<close>

section \<open>Errors and state\<close>

datatype merkle_error =
    MeAlreadyInitialized | MeNotInitialized | MeNotManager | MeZeroAddress | MeNotPendingAdmin
  | MeTimelockAlreadyActive | MeTimelockAlreadyProposed | MeTimelockNotProposed
  | MeTimelockTooEarly | MeTimelockBadArgs | MeTimelockExpired | MeTimelockCancelledByBrake
  | MeEscrowAppender

fun merkle_error_code :: "merkle_error \<Rightarrow> nat" where
  "merkle_error_code MeAlreadyInitialized = 1"
| "merkle_error_code MeNotInitialized = 2"
| "merkle_error_code MeNotManager = 3"
| "merkle_error_code MeZeroAddress = 4"
| "merkle_error_code MeNotPendingAdmin = 10"
| "merkle_error_code MeTimelockAlreadyActive = 11"
| "merkle_error_code MeTimelockAlreadyProposed = 12"
| "merkle_error_code MeTimelockNotProposed = 13"
| "merkle_error_code MeTimelockTooEarly = 14"
| "merkle_error_code MeTimelockBadArgs = 15"
| "merkle_error_code MeTimelockExpired = 16"
| "merkle_error_code MeTimelockCancelledByBrake = 17"
| "merkle_error_code MeEscrowAppender = 18"

definition mg_timelock_error :: "fault \<Rightarrow> merkle_error" where
  "mg_timelock_error f =
     (case f of
        TimelockAlreadyActive \<Rightarrow> MeTimelockAlreadyActive
      | TimelockAlreadyProposed \<Rightarrow> MeTimelockAlreadyProposed
      | TimelockTooEarly \<Rightarrow> MeTimelockTooEarly
      | TimelockBadArgs \<Rightarrow> MeTimelockBadArgs
      | TimelockExpired \<Rightarrow> MeTimelockExpired
      | TimelockCancelledByBrake \<Rightarrow> MeTimelockCancelledByBrake
      | _ \<Rightarrow> MeTimelockNotProposed)"

record merkle_store =
  mg_init :: bool
  mg_admin :: "address option"
  mg_pending :: "address option"
  mg_managers :: "address \<rightharpoonup> bool"
  mg_escapp :: "address \<rightharpoonup> bool"
  mg_mmr :: mmr
  mg_timelock :: timelock

definition mg_empty :: merkle_store where
  "mg_empty = \<lparr>mg_init = False, mg_admin = None, mg_pending = None, mg_managers = Map.empty,
     mg_escapp = Map.empty, mg_mmr = mmr_empty, mg_timelock = tl_init\<rparr>"

definition is_manager :: "merkle_store \<Rightarrow> address \<Rightarrow> bool" where
  "is_manager s a = (case mg_managers s a of None \<Rightarrow> False | Some v \<Rightarrow> v)"

definition is_escrow_appender :: "merkle_store \<Rightarrow> address \<Rightarrow> bool" where
  "is_escrow_appender s a = (case mg_escapp s a of None \<Rightarrow> False | Some v \<Rightarrow> v)"

section \<open>Administration\<close>

definition mg_initialize :: "env \<Rightarrow> address \<Rightarrow> merkle_store \<Rightarrow> (merkle_error, merkle_store) res" where
  "mg_initialize E adm s =
     (if mg_init s then Fail MeAlreadyInitialized
      else if adm = self E then Fail MeZeroAddress
      else Ok (s\<lparr>mg_admin := Some adm, mg_init := True\<rparr>))"

definition mg_transfer_admin :: "env \<Rightarrow> address \<Rightarrow> merkle_store \<Rightarrow> (merkle_error, merkle_store) res" where
  "mg_transfer_admin E to s =
     attempt (ok_or (mg_admin s) MeNotInitialized) (\<lambda>adm.
     attempt (require_auth E adm) (\<lambda>_. Ok (s\<lparr>mg_pending := Some to\<rparr>)))"

definition mg_accept_admin :: "env \<Rightarrow> merkle_store \<Rightarrow> (merkle_error, merkle_store) res" where
  "mg_accept_admin E s =
     attempt (ok_or (mg_pending s) MeNotPendingAdmin) (\<lambda>pending.
     attempt (require_auth E pending) (\<lambda>_.
     attempt (ok_or (mg_admin s) MeNotInitialized) (\<lambda>old.
     attempt (map_err mg_timelock_error (bump_epoch (mg_timelock s))) (\<lambda>tlk.
     Ok (s\<lparr>mg_admin := Some pending, mg_pending := None, mg_timelock := tlk\<rparr>)))))"

definition mg_as_admin ::
  "env \<Rightarrow> merkle_store \<Rightarrow> (merkle_error, 'a) res \<Rightarrow> (merkle_error, 'a) res" where
  "mg_as_admin E s k =
     attempt (ok_or (mg_admin s) MeNotInitialized) (\<lambda>adm. attempt (require_auth E adm) (\<lambda>_. k))"

definition mg_activate_timelock :: "env \<Rightarrow> merkle_store \<Rightarrow> (merkle_error, merkle_store) res" where
  "mg_activate_timelock E s =
     mg_as_admin E s (attempt (map_err mg_timelock_error (activate (mg_timelock s))) (\<lambda>tlk.
       Ok (s\<lparr>mg_timelock := tlk\<rparr>)))"

definition mg_propose_action ::
  "env \<Rightarrow> string \<Rightarrow> bytes \<Rightarrow> merkle_store \<Rightarrow> (merkle_error, bytes32 \<times> merkle_store) res" where
  "mg_propose_action E fn_name args s =
     mg_as_admin E s (attempt (map_err mg_timelock_error (propose E fn_name args (mg_timelock s)))
       (\<lambda>(ident, tlk). Ok (ident, s\<lparr>mg_timelock := tlk\<rparr>)))"

definition mg_cancel_action :: "env \<Rightarrow> bytes32 \<Rightarrow> merkle_store \<Rightarrow> (merkle_error, merkle_store) res" where
  "mg_cancel_action E ident s =
     mg_as_admin E s (attempt (map_err mg_timelock_error (cancel_proposal ident (mg_timelock s))) (\<lambda>tlk.
       Ok (s\<lparr>mg_timelock := tlk\<rparr>)))"

definition mg_set_manager ::
  "env \<Rightarrow> address \<Rightarrow> bool \<Rightarrow> merkle_store \<Rightarrow> (merkle_error, merkle_store) res" where
  "mg_set_manager E manager enabled s =
     (if \<not> mg_init s then Fail MeNotInitialized
      else if is_escrow_appender s manager then Fail MeEscrowAppender
      else attempt (ok_or (mg_admin s) MeNotInitialized) (\<lambda>adm.
        attempt (map_err mg_timelock_error
          (gate_unless E adm (\<not> enabled) ''set_manager'' [VAddr manager, VBool enabled]
             (brake_key E ''set_manager'' (VAddr manager)) (mg_timelock s))) (\<lambda>tlk.
        Ok (s\<lparr>mg_managers := (mg_managers s)(manager \<mapsto> enabled), mg_timelock := tlk\<rparr>))))"

definition mg_set_escrow_appender ::
  "env \<Rightarrow> address \<Rightarrow> bool \<Rightarrow> merkle_store \<Rightarrow> (merkle_error, merkle_store) res" where
  "mg_set_escrow_appender E escrow enabled s =
     attempt (ok_or (mg_admin s) MeNotInitialized) (\<lambda>adm.
     attempt (map_err mg_timelock_error
       (gate E adm ''set_escrow_appender'' [VAddr escrow, VBool enabled] (mg_timelock s))) (\<lambda>tlk.
     Ok (s\<lparr>mg_escapp := (mg_escapp s)(escrow \<mapsto> enabled),
           mg_managers := (mg_managers s)(escrow \<mapsto> enabled), mg_timelock := tlk\<rparr>)))"

section \<open>Appending and reading\<close>

definition append_order_hash ::
  "env \<Rightarrow> address \<Rightarrow> bytes32 \<Rightarrow> u32 \<Rightarrow> merkle_store \<Rightarrow> (merkle_error, merkle_store) res" where
  "append_order_hash E manager order_hash side s =
     (if \<not> mg_init s then Fail MeNotInitialized
      else attempt (require_auth E manager) (\<lambda>_.
        if \<not> is_manager s manager then Fail MeNotManager
        else
          let leaf = encode_leaf (prims E) order_hash side in
          attempt (mmr_append (prims E) leaf (mg_mmr s)) (\<lambda>(leaf_index, m).
          Ok (s\<lparr>mg_mmr := m\<rparr>))))"

definition mg_get_root :: "merkle_store \<Rightarrow> bytes32" where
  "mg_get_root s = mr_root (mg_mmr s)"

definition mg_get_root_at_index :: "merkle_store \<Rightarrow> nat \<Rightarrow> bytes32" where
  "mg_get_root_at_index s width = (case mr_history (mg_mmr s) width of None \<Rightarrow> 0 | Some r \<Rightarrow> r)"

definition mg_get_width :: "merkle_store \<Rightarrow> nat" where
  "mg_get_width s = mr_width (mg_mmr s)"

definition mg_get_size :: "merkle_store \<Rightarrow> nat" where
  "mg_get_size s = mr_size (mg_mmr s)"

definition mg_get_node :: "merkle_store \<Rightarrow> nat \<Rightarrow> bytes32" where
  "mg_get_node s i = node_or_zero (mg_mmr s) i"

section \<open>Reachable states\<close>

datatype merkle_call =
    GTransferAdmin address | GAcceptAdmin | GActivate | GPropose string bytes | GCancel bytes32
  | GSetManager address bool | GSetEscrowAppender address bool
  | GAppend address bytes32 u32

fun mg_exec :: "env \<Rightarrow> merkle_call \<Rightarrow> merkle_store \<Rightarrow> (merkle_error, merkle_store) res" where
  "mg_exec E (GTransferAdmin to) s = mg_transfer_admin E to s"
| "mg_exec E GAcceptAdmin s = mg_accept_admin E s"
| "mg_exec E GActivate s = mg_activate_timelock E s"
| "mg_exec E (GPropose f args) s = attempt (mg_propose_action E f args s) (\<lambda>(_, s'). Ok s')"
| "mg_exec E (GCancel ident) s = mg_cancel_action E ident s"
| "mg_exec E (GSetManager a v) s = mg_set_manager E a v s"
| "mg_exec E (GSetEscrowAppender a v) s = mg_set_escrow_appender E a v s"
| "mg_exec E (GAppend a h side) s = append_order_hash E a h side s"

text \<open>What a call appends.\<close>

fun appended :: "merkle_call \<Rightarrow> (bytes32 \<times> u32) list" where
  "appended (GAppend a h side) = [(h, side)]"
| "appended _ = []"

text \<open>Reached from the deployment after the appends of \<open>L\<close>, in order.\<close>

inductive mg_reach :: "crypto \<Rightarrow> (bytes32 \<times> u32) list \<Rightarrow> merkle_store \<Rightarrow> bool" for C :: crypto where
  mg_reach_init: "mg_initialize E adm mg_empty = Inr s \<Longrightarrow> mg_reach C [] s"
| mg_reach_call: "mg_reach C L s \<Longrightarrow> prims E = C \<Longrightarrow> mg_exec E c s = Inr s' \<Longrightarrow>
    mg_reach C (L @ appended c) s'"

inductive_cases mg_reach_nilE: "mg_reach C [] s"

lemma mg_as_admin_Ok [res_simps]:
  "mg_as_admin E s k = Inr r \<longleftrightarrow> (\<exists>adm. mg_admin s = Some adm \<and> authed E adm) \<and> k = Inr r"
  by (auto simp: mg_as_admin_def res_simps)

lemmas mg_defs =
  mg_transfer_admin_def mg_accept_admin_def mg_activate_timelock_def mg_propose_action_def
  mg_cancel_action_def mg_set_manager_def mg_set_escrow_appender_def append_order_hash_def

text \<open>A call other than an append leaves the range alone; an append leaves everything else alone.\<close>

lemma mg_exec_range:
  assumes "mg_exec E c s = Inr s'" "appended c = []"
  shows "mg_mmr s' = mg_mmr s"
  using assms by (cases c) (auto simp: mg_defs res_simps split: if_splits)

lemma append_order_hash_Ok:
  "append_order_hash E a h side s = Inr s' \<longleftrightarrow>
     mg_init s \<and> authed E a \<and> is_manager s a \<and>
     (\<exists>i m. mmr_append (prims E) (encode_leaf (prims E) h side) (mg_mmr s) =
        (Inr (i, m) :: (merkle_error, _) res) \<and> s' = s\<lparr>mg_mmr := m\<rparr>)"
  by (auto simp: append_order_hash_def res_simps)

definition leaves_of :: "crypto \<Rightarrow> (bytes32 \<times> u32) list \<Rightarrow> bytes32 list" where
  "leaves_of C L = map (\<lambda>(h, side). encode_leaf C h side) L"

text \<open>No appended leaf hashes to zero, and the range stays below its bound.\<close>

definition range_ok :: "crypto \<Rightarrow> (bytes32 \<times> u32) list \<Rightarrow> bool" where
  "range_ok C L \<longleftrightarrow> leaves_nonzero C (leaves_of C L) \<and> length L < width_bound"

lemma leaves_nonzero_append:
  "leaves_nonzero C (xs @ [x]) \<Longrightarrow>
     leaves_nonzero C xs \<and> hash_leaf C (idx 0 (length xs)) (fr_reduce C x) \<noteq> 0"
  unfolding leaves_nonzero_def
  by (auto simp: nth_append dest: spec [of _ "length xs"] less_SucI)

lemma range_ok_prefix: "range_ok C (L @ M) \<Longrightarrow> range_ok C L"
proof -
  have pre: "leaves_nonzero C (xs @ ys) \<Longrightarrow> leaves_nonzero C xs" for xs ys
    unfolding leaves_nonzero_def
  proof (intro allI impI)
    fix j assume a: "\<forall>j<length (xs @ ys). hash_leaf C (idx 0 j) (fr_reduce C ((xs @ ys) ! j)) \<noteq> 0" "j < length xs"
    then show "hash_leaf C (idx 0 j) (fr_reduce C (xs ! j)) \<noteq> 0"
      using spec [OF a(1), of j] by (simp add: nth_append)
  qed
  assume "range_ok C (L @ M)"
  then show ?thesis using pre [of "leaves_of C L" "leaves_of C M"] by (simp add: range_ok_def leaves_of_def)
qed

lemma mg_reach_range: "mg_reach C L s \<Longrightarrow> range_ok C L \<Longrightarrow> mmr_of C (leaves_of C L) (mg_mmr s)"
proof (induction rule: mg_reach.induct)
  case (mg_reach_init E adm s)
  then show ?case
    by (auto simp: mg_initialize_def mg_empty_def leaves_of_def mmr_of_empty split: if_splits)
next
  case (mg_reach_call L s E c s')
  have IH: "mmr_of C (leaves_of C L) (mg_mmr s)"
    using mg_reach_call.IH range_ok_prefix [OF mg_reach_call.prems] by blast
  show ?case
  proof (cases c)
    case (GAppend a h side)
    let ?x = "encode_leaf C h side"
    have ls: "leaves_of C (L @ appended c) = leaves_of C L @ [?x]" and len: "length (leaves_of C L) = length L"
      using GAppend by (simp_all add: leaves_of_def)
    have "hash_leaf C (idx 0 (length (leaves_of C L))) (fr_reduce C ?x) \<noteq> 0"
      using mg_reach_call.prems leaves_nonzero_append [of C "leaves_of C L" ?x] ls
      by (simp add: range_ok_def)
    moreover have "Suc (length (leaves_of C L)) < width_bound"
      using mg_reach_call.prems len GAppend by (simp add: range_ok_def)
    ultimately obtain m' where "mmr_append C ?x (mg_mmr s) =
        (Inr (idx 0 (length (leaves_of C L)), m') :: (merkle_error, _) res)" "mmr_of C (leaves_of C L @ [?x]) m'"
      using mmr_append_of [OF IH] by blast
    then show ?thesis using mg_reach_call.hyps GAppend ls by (auto simp: append_order_hash_Ok)
  next
    case (GPropose f args)
    then show ?thesis using IH mg_exec_range [OF mg_reach_call.hyps(3)] by simp
  qed (use IH mg_exec_range [OF mg_reach_call.hyps(3)] in simp_all)
qed

text \<open>An escrow appender is a manager, through every call.\<close>

lemma mg_exec_appenders:
  assumes "mg_exec E c s = Inr s'" "\<forall>a. is_escrow_appender s a \<longrightarrow> is_manager s a"
  shows "\<forall>a. is_escrow_appender s' a \<longrightarrow> is_manager s' a"
  using assms
  by (cases c) (auto simp: mg_defs res_simps is_manager_def is_escrow_appender_def split: if_splits)

lemma mg_reach_appenders: "mg_reach C L s \<Longrightarrow> is_escrow_appender s a \<Longrightarrow> is_manager s a"
proof -
  have "mg_reach C L s \<Longrightarrow> \<forall>a. is_escrow_appender s a \<longrightarrow> is_manager s a"
  proof (induction rule: mg_reach.induct)
    case (mg_reach_init E adm s)
    then show ?case
      by (auto simp: mg_initialize_def mg_empty_def is_escrow_appender_def split: if_splits)
  next
    case (mg_reach_call L s E c s')
    then show ?case using mg_exec_appenders by blast
  qed
  then show "mg_reach C L s \<Longrightarrow> is_escrow_appender s a \<Longrightarrow> is_manager s a" by blast
qed

text \<open>How an appender's right can end: only through \<open>set_escrow_appender\<close>, past the gate.\<close>

lemma mg_appender_removed:
  assumes "mg_exec E c s = Inr s'" "is_escrow_appender s a" "is_manager s a"
    "\<not> (is_escrow_appender s' a \<and> is_manager s' a)"
  shows "c = GSetEscrowAppender a False \<and> (\<exists>adm tlk. mg_admin s = Some adm \<and>
    gate E adm ''set_escrow_appender'' [VAddr a, VBool False] (mg_timelock s) = Inr tlk)"
  using assms
  by (cases c) (auto simp: mg_defs res_simps is_manager_def is_escrow_appender_def
      split: if_splits option.splits)

end
