(* ===== verification/Merkle_Properties.thy ===== *)
theory Merkle_Properties
  imports Merkle_Manager
begin

text \<open>
  The properties of the merkle manager over its reachable states, with a run of three appends as
  witness: the roots, the membership proofs, and who may append.
\<close>

section \<open>A run on concrete data\<close>

text \<open>A sponge whose results are odd, so never zero.\<close>

definition mg_demo_crypto :: crypto where
  "mg_demo_crypto = \<lparr>keccak256 = (\<lambda>bs. of_nat (length bs)), xdr_hash = (\<lambda>_ _. 1),
     xdr_args = (\<lambda>_. Some []), fr_reduce = (\<lambda>x. x),
     poseidon = (\<lambda>xs. 2 * foldl (\<lambda>a x. 5 * a + x) 7 xs + 1)\<rparr>"

definition mg_demo_env :: env where
  "mg_demo_env = \<lparr>now = 100, self = ContractAddr 5, authed = (\<lambda>a. a = AccountAddr 1 \<or> a = ContractAddr 9),
     prims = mg_demo_crypto\<rparr>"

definition mg_demo_calls :: "merkle_call list" where
  "mg_demo_calls = [GSetEscrowAppender (ContractAddr 9) True,
     GAppend (ContractAddr 9) 11 0, GAppend (ContractAddr 9) 12 1, GAppend (ContractAddr 9) 13 2]"

definition mg_demo_log :: "(bytes32 \<times> u32) list" where
  "mg_demo_log = [(11, 0), (12, 1), (13, 2)]"

lemma mg_demo_simps [simp]:
  "prims mg_demo_env = mg_demo_crypto" "authed mg_demo_env (ContractAddr 9)"
  "fr_reduce mg_demo_crypto x = x"
  by (simp_all add: mg_demo_env_def mg_demo_crypto_def)

lemma odd_nonzero: "2 * x + 1 \<noteq> (0 :: bytes32)"
proof
  assume "2 * x + 1 = (0 :: bytes32)"
  moreover have "odd (2 * x + 1)" by simp
  ultimately show False by simp
qed

lemma mg_demo_nonzero: "poseidon mg_demo_crypto xs \<noteq> 0"
  by (simp add: mg_demo_crypto_def odd_nonzero)

lemma mg_demo_range_ok: "length L < 100 \<Longrightarrow> range_ok mg_demo_crypto L"
  by (simp add: range_ok_def leaves_nonzero_def hash_leaf_def mg_demo_nonzero width_bound_def)

text \<open>An append by a manager goes through whenever the range has room.\<close>

lemma append_goes_through:
  assumes "mg_reach C L s" "range_ok C (L @ [(h, side)])" "prims E = C"
    and "authed E a" "is_manager s a" "mg_init s"
  shows "\<exists>s'. append_order_hash E a h side s = Inr s' \<and> mg_mmr s' \<noteq> mg_mmr s \<and>
    s' = s\<lparr>mg_mmr := mg_mmr s'\<rparr> \<and> mr_width (mg_mmr s') = Suc (length L)"
proof -
  let ?ls = "leaves_of C L" and ?x = "encode_leaf C h side"
  have len: "length ?ls = length L" by (simp add: leaves_of_def)
  have of: "mmr_of C ?ls (mg_mmr s)" by (rule mg_reach_range [OF assms(1) range_ok_prefix [OF assms(2)]])
  have "hash_leaf C (idx 0 (length ?ls)) (fr_reduce C ?x) \<noteq> 0"
    using assms(2) leaves_nonzero_append [of C ?ls ?x] by (simp add: range_ok_def leaves_of_def)
  moreover have "Suc (length ?ls) < width_bound" using assms(2) len by (simp add: range_ok_def)
  ultimately obtain m' where m': "mmr_append C ?x (mg_mmr s) =
      (Inr (idx 0 (length ?ls), m') :: (merkle_error, _) res)" "mmr_of C (?ls @ [?x]) m'"
    using mmr_append_of [OF of] by blast
  have w: "mr_width m' = Suc (length L)" "mr_width (mg_mmr s) = length L"
    using m'(2) of len by (simp_all add: mmr_of_def)
  then have "m' \<noteq> mg_mmr s" by auto
  then show ?thesis using assms(3-6) m' w by (auto simp: append_order_hash_Ok)
qed

lemma mg_reach_init_flag: "mg_reach C L s \<Longrightarrow> mg_init s"
proof (induction rule: mg_reach.induct)
  case (mg_reach_call L s E c s')
  then show ?case by (cases c) (auto simp: mg_defs res_simps split: if_splits)
qed (auto simp: mg_initialize_def mg_empty_def split: if_splits)

lemma mg_demo_appends:
  assumes "mg_reach mg_demo_crypto L s" "is_manager s (ContractAddr 9)" "length L < 50"
  shows "\<exists>s'. mg_reach mg_demo_crypto (L @ [(h, side)]) s' \<and> is_manager s' (ContractAddr 9)"
proof -
  have "range_ok mg_demo_crypto (L @ [(h, side)])" using assms(3) by (intro mg_demo_range_ok) simp
  from append_goes_through [OF assms(1) this, of mg_demo_env "ContractAddr 9"] assms(2)
    mg_reach_init_flag [OF assms(1)]
  obtain s' where s': "append_order_hash mg_demo_env (ContractAddr 9) h side s = Inr s'"
    "s' = s\<lparr>mg_mmr := mg_mmr s'\<rparr>" by auto
  have "mg_reach mg_demo_crypto (L @ appended (GAppend (ContractAddr 9) h side)) s'"
    by (rule mg_reach_call [OF assms(1), of mg_demo_env]) (simp_all add: s'(1))
  moreover have "is_manager s' (ContractAddr 9)"
    using assms(2) by (subst s'(2)) (simp add: is_manager_def)
  ultimately show ?thesis by auto
qed

text \<open>The deployment with one escrow as appender.\<close>

definition mg_demo_start :: merkle_store where
  "mg_demo_start = mg_empty\<lparr>mg_admin := Some (AccountAddr 1), mg_init := True,
     mg_escapp := [ContractAddr 9 \<mapsto> True], mg_managers := [ContractAddr 9 \<mapsto> True]\<rparr>"

lemma mg_demo_start_reach: "mg_reach mg_demo_crypto [] mg_demo_start"
proof -
  let ?s = "mg_empty\<lparr>mg_admin := Some (AccountAddr 1), mg_init := True\<rparr>"
  have "mg_initialize mg_demo_env (AccountAddr 1) mg_empty = Inr ?s"
    by (simp add: mg_initialize_def mg_demo_env_def mg_empty_def)
  then have "mg_reach mg_demo_crypto [] ?s" by (rule mg_reach_init)
  moreover have "mg_exec mg_demo_env (GSetEscrowAppender (ContractAddr 9) True) ?s = Inr mg_demo_start"
    by (simp add: mg_set_escrow_appender_def mg_empty_def gate_def gate_keyed_def is_active_def
        tl_init_def require_auth_def mg_demo_env_def mg_demo_start_def)
  ultimately show ?thesis
    using mg_reach_call [of mg_demo_crypto "[]" ?s mg_demo_env "GSetEscrowAppender (ContractAddr 9) True" mg_demo_start]
    by simp
qed

lemma mg_demo_reach: "\<exists>s. mg_reach mg_demo_crypto mg_demo_log s \<and> is_manager s (ContractAddr 9)"
proof -
  have "is_manager mg_demo_start (ContractAddr 9)" by (simp add: mg_demo_start_def is_manager_def mg_empty_def)
  from mg_demo_appends [OF mg_demo_start_reach this, of 11 0] obtain s1 where
    s1: "mg_reach mg_demo_crypto [(11, 0)] s1" "is_manager s1 (ContractAddr 9)" by auto
  from mg_demo_appends [OF s1, of 12 1] obtain s2 where
    s2: "mg_reach mg_demo_crypto [(11, 0), (12, 1)] s2" "is_manager s2 (ContractAddr 9)" by auto
  from mg_demo_appends [OF s2, of 13 2] show ?thesis by (auto simp: mg_demo_log_def)
qed

section \<open>The range\<close>

text \<open>C7: After any run of calls the root, the width, the node count and every historical root are those
  of the leaves appended so far, in order: the incremental range computes what a recomputation from
  scratch over the leaf list gives. The leaf hashes must not be zero (a zero reads as absent).\<close>

theorem roots_are_the_logs:
  assumes "mg_reach C L s" "range_ok C L"
  shows "mg_get_root s = mmr_root_spec C (leaves_of C L) \<and> mg_get_width s = length L \<and>
    mg_get_size s = sz (length L) \<and>
    (\<forall>n. 0 < n \<and> n \<le> length L \<longrightarrow>
      mg_get_root_at_index s n = mmr_root_spec C (leaves_of C (take n L)))"
  using mg_reach_range [OF assms]
  by (auto simp: mmr_of_def mg_get_root_def mg_get_width_def mg_get_size_def mg_get_root_at_index_def
      leaves_of_def take_map)

theorem roots_are_the_logs_witness:
  "\<exists>s. mg_reach mg_demo_crypto mg_demo_log s \<and> mg_get_width s = 3 \<and> mg_get_size s = 4 \<and>
    mg_get_root_at_index s 2 = mmr_root_spec mg_demo_crypto (leaves_of mg_demo_crypto [(11, 0), (12, 1)])"
proof -
  obtain s where s: "mg_reach mg_demo_crypto mg_demo_log s" using mg_demo_reach by blast
  have "range_ok mg_demo_crypto mg_demo_log" by (rule mg_demo_range_ok) (simp add: mg_demo_log_def)
  from roots_are_the_logs [OF s this] have
    "mg_get_width s = 3" "mg_get_size s = sz 3"
    "mg_get_root_at_index s 2 = mmr_root_spec mg_demo_crypto (leaves_of mg_demo_crypto (take 2 mg_demo_log))"
    by (auto simp: mg_demo_log_def numeral_3_eq_3)
  moreover have "sz 3 = 4" by (simp add: sz_def pc.simps)
  ultimately show ?thesis using s by (auto simp: mg_demo_log_def)
qed

text \<open>C8: The membership proof the manager builds for any appended leaf is accepted by its own
  stateless verifier against the current root and width.\<close>

theorem proof_roundtrip:
  assumes "mg_reach C L s" "range_ok C L" "j < length L" "0 \<notin> set (peaks_spec C (leaves_of C L))"
  shows "\<exists>root width bag sibs. get_merkle_proof (mg_mmr s) (idx 0 j) = (Inr (root, width, bag, sibs) :: ('e, _) res) \<and>
    root = mg_get_root s \<and> width = mg_get_width s \<and>
    verify_inclusion C root width (idx 0 j) (fr_reduce C (leaves_of C L ! j)) bag sibs = (Inr True :: ('e, _) res)"
proof -
  have of: "mmr_of C (leaves_of C L) (mg_mmr s)" by (rule mg_reach_range [OF assms(1,2)])
  have j: "j < length (leaves_of C L)" and n: "length (leaves_of C L) < width_bound"
    using assms(2,3) by (simp_all add: leaves_of_def range_ok_def)
  from merkle_proof_accepted [OF of j n assms(4), where 'e = 'e] show ?thesis
    using of by (auto simp: mmr_of_def mg_get_root_def mg_get_width_def)
qed

lemma mg_demo_value_nonzero: "value_at mg_demo_crypto ls k j \<noteq> 0"
  by (cases k) (simp_all add: value_at.simps hash_leaf_def hash_branch_def mg_demo_nonzero)

theorem proof_roundtrip_witness:
  "\<exists>(s :: merkle_store) root bag sibs. get_merkle_proof (mg_mmr s) 2 = (Inr (root, 3, bag, sibs) :: (merkle_error, _) res) \<and>
    verify_inclusion mg_demo_crypto root 3 2 (encode_leaf mg_demo_crypto 12 1) bag sibs =
      (Inr True :: (merkle_error, _) res)"
proof -
  obtain s where s: "mg_reach mg_demo_crypto mg_demo_log s" using mg_demo_reach by blast
  have ok: "range_ok mg_demo_crypto mg_demo_log" by (rule mg_demo_range_ok) (simp add: mg_demo_log_def)
  have w: "mg_get_width s = 3" using roots_are_the_logs [OF s ok] by (simp add: mg_demo_log_def)
  have i: "idx 0 1 = 2" by (simp add: idx_def sz_def pc.simps)
  have "0 \<notin> set (peaks_spec mg_demo_crypto (leaves_of mg_demo_crypto mg_demo_log))"
    using mg_demo_value_nonzero by (auto simp: peaks_spec_def)
  moreover have "leaves_of mg_demo_crypto mg_demo_log ! 1 = encode_leaf mg_demo_crypto 12 1"
    by (simp add: leaves_of_def mg_demo_log_def)
  moreover have "1 < length mg_demo_log" by (simp add: mg_demo_log_def)
  ultimately show ?thesis
    using proof_roundtrip [OF s ok, of 1, where 'e = merkle_error] unfolding i w by auto
qed

text \<open>C9: An append by an authorized manager always goes through while the range has room: no stored
  node, however it got there, can block it, and it changes nothing but the range.\<close>

theorem append_never_blocked:
  assumes "mg_reach C L s" "range_ok C (L @ [(h, side)])" "prims E = C" "authed E a" "is_manager s a"
  shows "\<exists>s'. append_order_hash E a h side s = Inr s' \<and> mg_get_width s' = Suc (mg_get_width s) \<and>
    mg_managers s' = mg_managers s \<and> mg_escapp s' = mg_escapp s \<and> mg_admin s' = mg_admin s \<and>
    mg_timelock s' = mg_timelock s"
proof -
  obtain s' where s': "append_order_hash E a h side s = Inr s'" "s' = s\<lparr>mg_mmr := mg_mmr s'\<rparr>"
    "mr_width (mg_mmr s') = Suc (length L)"
    using append_goes_through [OF assms mg_reach_init_flag [OF assms(1)]] by blast
  have "mg_get_width s = length L"
    using mg_reach_range [OF assms(1) range_ok_prefix [OF assms(2)]]
    by (simp add: mg_get_width_def mmr_of_def leaves_of_def)
  moreover have "mg_managers s' = mg_managers s" "mg_escapp s' = mg_escapp s" "mg_admin s' = mg_admin s"
    "mg_timelock s' = mg_timelock s" by (subst s'(2), simp)+
  ultimately show ?thesis using s' by (auto simp: mg_get_width_def)
qed

theorem append_never_blocked_witness:
  "\<exists>s s'. mg_reach mg_demo_crypto mg_demo_log s \<and>
    append_order_hash mg_demo_env (ContractAddr 9) 14 0 s = Inr s' \<and> mg_get_width s' = Suc (mg_get_width s)"
proof -
  obtain s where s: "mg_reach mg_demo_crypto mg_demo_log s" "is_manager s (ContractAddr 9)"
    using mg_demo_reach by blast
  have "range_ok mg_demo_crypto (mg_demo_log @ [(14, 0)])" by (rule mg_demo_range_ok) (simp add: mg_demo_log_def)
  from append_never_blocked [OF s(1) this _ _ s(2), of mg_demo_env] show ?thesis
    using s by auto
qed

section \<open>Who appends\<close>

text \<open>An escrow's right to append, which its exits depend on, can end in no other way than a call of
  \<open>set_escrow_appender\<close> that removes it and passed the timelock's gate.\<close>

theorem escrow_keeps_appending:
  assumes "mg_reach C L s" "prims E = C" "mg_exec E c s = Inr s'" "is_escrow_appender s a"
  shows "is_escrow_appender s' a \<and> is_manager s' a \<or>
    c = GSetEscrowAppender a False \<and> (\<exists>adm tlk. mg_admin s = Some adm \<and>
      gate E adm ''set_escrow_appender'' [VAddr a, VBool False] (mg_timelock s) = Inr tlk)"
  using mg_appender_removed [OF assms(3,4) mg_reach_appenders [OF assms(1,4)]] by blast

theorem escrow_keeps_appending_witness:
  "\<exists>s'. mg_exec mg_demo_env (GSetManager (ContractAddr 8) True) mg_demo_start = Inr s' \<and>
     is_manager s' (ContractAddr 9)"
proof -
  obtain s' where s': "mg_exec mg_demo_env (GSetManager (ContractAddr 8) True) mg_demo_start = Inr s'"
    by (simp add: mg_set_manager_def mg_demo_start_def mg_empty_def is_escrow_appender_def gate_unless_def
        gate_keyed_def is_active_def tl_init_def require_auth_def mg_demo_env_def)
  from escrow_keeps_appending [OF mg_demo_start_reach _ this, of "ContractAddr 9"]
  have "is_manager s' (ContractAddr 9)"
    by (simp add: mg_demo_start_def is_escrow_appender_def mg_empty_def)
  with s' show ?thesis by blast
qed

end
