(* ===== verification/Dispute_Manager.thy ===== *)
theory Dispute_Manager
  imports Dispute_Rules Token_Ops Timelock
begin

text \<open>
  The dispute manager (\<open>contracts/dispute-manager/src/{lib,storage,errors}.rs\<close>): its store, its admin
  setters, the edge the escrows call, the arbiter's ruling, the payouts it credits, and its views.
  Token calls go through the parameter \<open>'w ext\<close>, as the escrows' do.
\<close>

section \<open>Errors and state\<close>

datatype dispute_error =
    DeAlreadyInitialized | DeNotInitialized | DeNotEscrow | DeDisputeExists | DeNotDisputed
  | DeArbiterCannotSettle | DeChallengeClosed | DeNotResponder | DeNoDisputeParams
  | DeInvalidChallengePeriod | DeInvalidBondFloor | DeWrongEscrow | DeNothingToClaim | DeAlreadyRuled
  | DeBondTransferFailed | DeResponseWindowClosed | DeAlreadyResponded | DeZeroResponse
  | DeInvalidBondConfig | DeBondTransferShort | DeTimelockAlreadyActive
  | DeTimelockAlreadyProposed | DeTimelockNotProposed | DeTimelockTooEarly | DeTimelockBadArgs
  | DeTimelockExpired | DeTimelockCancelledByBrake

fun dispute_error_code :: "dispute_error \<Rightarrow> nat" where
  "dispute_error_code DeAlreadyInitialized = 1"
| "dispute_error_code DeNotInitialized = 2"
| "dispute_error_code DeNotEscrow = 3"
| "dispute_error_code DeDisputeExists = 10"
| "dispute_error_code DeNotDisputed = 11"
| "dispute_error_code DeArbiterCannotSettle = 12"
| "dispute_error_code DeChallengeClosed = 15"
| "dispute_error_code DeNotResponder = 16"
| "dispute_error_code DeNoDisputeParams = 17"
| "dispute_error_code DeInvalidChallengePeriod = 18"
| "dispute_error_code DeInvalidBondFloor = 19"
| "dispute_error_code DeWrongEscrow = 21"
| "dispute_error_code DeNothingToClaim = 22"
| "dispute_error_code DeAlreadyRuled = 23"
| "dispute_error_code DeBondTransferFailed = 24"
| "dispute_error_code DeResponseWindowClosed = 25"
| "dispute_error_code DeAlreadyResponded = 26"
| "dispute_error_code DeZeroResponse = 27"
| "dispute_error_code DeInvalidBondConfig = 28"
| "dispute_error_code DeBondTransferShort = 29"
| "dispute_error_code DeTimelockAlreadyActive = 30"
| "dispute_error_code DeTimelockAlreadyProposed = 31"
| "dispute_error_code DeTimelockNotProposed = 32"
| "dispute_error_code DeTimelockTooEarly = 33"
| "dispute_error_code DeTimelockBadArgs = 34"
| "dispute_error_code DeTimelockExpired = 35"
| "dispute_error_code DeTimelockCancelledByBrake = 36"

definition ds_timelock_error :: "fault \<Rightarrow> dispute_error" where
  "ds_timelock_error f =
     (case f of
        TimelockAlreadyActive \<Rightarrow> DeTimelockAlreadyActive
      | TimelockAlreadyProposed \<Rightarrow> DeTimelockAlreadyProposed
      | TimelockTooEarly \<Rightarrow> DeTimelockTooEarly
      | TimelockBadArgs \<Rightarrow> DeTimelockBadArgs
      | TimelockExpired \<Rightarrow> DeTimelockExpired
      | TimelockCancelledByBrake \<Rightarrow> DeTimelockCancelledByBrake
      | _ \<Rightarrow> DeTimelockNotProposed)"

record dispute_store =
  ds_admin :: "address option"
  ds_pending :: "address option"
  ds_arbiter :: "address option"
  ds_fee_pool :: "address option"
  ds_w_native :: "address option"
  ds_escrows :: "address \<rightharpoonup> bool"
  ds_params :: "u128 \<rightharpoonup> dispute_params"
  ds_disputes :: "bytes32 \<rightharpoonup> dispute_record"
  ds_claims :: "address \<rightharpoonup> u128"
  ds_bond_configs :: "address \<times> u128 \<rightharpoonup> bond_config"
  ds_token_claims :: "address \<times> address \<rightharpoonup> u128"
  ds_timelock :: timelock

definition ds_empty :: dispute_store where
  "ds_empty = \<lparr>ds_admin = None, ds_pending = None, ds_arbiter = None, ds_fee_pool = None,
     ds_w_native = None, ds_escrows = Map.empty, ds_params = Map.empty, ds_disputes = Map.empty,
     ds_claims = Map.empty, ds_bond_configs = Map.empty, ds_token_claims = Map.empty,
     ds_timelock = tl_init\<rparr>"

definition is_escrow :: "dispute_store \<Rightarrow> address \<Rightarrow> bool" where
  "is_escrow s who = (case ds_escrows s who of None \<Rightarrow> False | Some b \<Rightarrow> b)"

definition ds_get_claimable :: "dispute_store \<Rightarrow> address \<Rightarrow> u128" where
  "ds_get_claimable s who = (case ds_claims s who of None \<Rightarrow> 0 | Some a \<Rightarrow> a)"

definition ds_set_claimable :: "address \<Rightarrow> u128 \<Rightarrow> dispute_store \<Rightarrow> dispute_store" where
  "ds_set_claimable who a s = s\<lparr>ds_claims := (ds_claims s)(who \<mapsto> a)\<rparr>"

definition get_token_claimable :: "dispute_store \<Rightarrow> address \<Rightarrow> address \<Rightarrow> u128" where
  "get_token_claimable s who token = (case ds_token_claims s (who, token) of None \<Rightarrow> 0 | Some a \<Rightarrow> a)"

definition set_token_claimable :: "address \<Rightarrow> address \<Rightarrow> u128 \<Rightarrow> dispute_store \<Rightarrow> dispute_store" where
  "set_token_claimable who token a s =
     s\<lparr>ds_token_claims := (ds_token_claims s)((who, token) \<mapsto> a)\<rparr>"

definition store_bond_config :: "address \<Rightarrow> u128 \<Rightarrow> bond_config \<Rightarrow> dispute_store \<Rightarrow> dispute_store" where
  "store_bond_config token c cfg s =
     s\<lparr>ds_bond_configs := (if min_bond cfg = 0 then (ds_bond_configs s)((token, c) := None)
        else (ds_bond_configs s)((token, c) \<mapsto> cfg))\<rparr>"

definition set_dispute :: "bytes32 \<Rightarrow> dispute_record \<Rightarrow> dispute_store \<Rightarrow> dispute_store" where
  "set_dispute h d s = s\<lparr>ds_disputes := (ds_disputes s)(h \<mapsto> d)\<rparr>"

definition remove_dispute :: "bytes32 \<Rightarrow> dispute_store \<Rightarrow> dispute_store" where
  "remove_dispute h s = s\<lparr>ds_disputes := (ds_disputes s)(h := None)\<rparr>"

section \<open>Administration\<close>

definition ds_initialize :: "address \<Rightarrow> address \<Rightarrow> dispute_store \<Rightarrow> (dispute_error, dispute_store) res" where
  "ds_initialize adm w_native s =
     (if ds_admin s \<noteq> None then Fail DeAlreadyInitialized
      else Ok (s\<lparr>ds_admin := Some adm, ds_w_native := Some w_native\<rparr>))"

definition ds_require_admin :: "env \<Rightarrow> dispute_store \<Rightarrow> (dispute_error, address) res" where
  "ds_require_admin E s =
     attempt (ok_or (ds_admin s) DeNotInitialized) (\<lambda>adm.
     attempt (require_auth E adm) (\<lambda>_. Ok adm))"

text \<open>\<open>Self::gate\<close>: the timelock of this module's setters; what follows runs on the store it leaves.\<close>

definition ds_gate :: "env \<Rightarrow> string \<Rightarrow> val list \<Rightarrow> dispute_store \<Rightarrow> (dispute_error, dispute_store) res" where
  "ds_gate E fn_name args s =
     attempt (ok_or (ds_admin s) DeNotInitialized) (\<lambda>adm.
     attempt (map_err ds_timelock_error (gate E adm fn_name args (ds_timelock s))) (\<lambda>tlk.
     Ok (s\<lparr>ds_timelock := tlk\<rparr>)))"

definition ds_set_escrow :: "env \<Rightarrow> address \<Rightarrow> bool \<Rightarrow> dispute_store \<Rightarrow> (dispute_error, dispute_store) res" where
  "ds_set_escrow E escrow allowed s =
     attempt (ok_or (ds_admin s) DeNotInitialized) (\<lambda>adm.
     attempt (map_err ds_timelock_error
       (gate_unless E adm (\<not> allowed) ''set_escrow'' [VAddr escrow, VBool allowed]
          (brake_key E ''set_escrow'' (VAddr escrow)) (ds_timelock s))) (\<lambda>tlk.
     Ok (s\<lparr>ds_timelock := tlk, ds_escrows := (ds_escrows s)(escrow \<mapsto> allowed)\<rparr>)))"

definition params_error :: "u8 \<Rightarrow> dispute_error stop" where
  "params_error f = (if f = 1 then Err DeInvalidChallengePeriod else if f = 2 then Err DeInvalidBondFloor else Trap)"

definition set_dispute_params ::
  "env \<Rightarrow> u128 \<Rightarrow> dispute_params \<Rightarrow> dispute_store \<Rightarrow> (dispute_error, dispute_store) res" where
  "set_dispute_params E c p s =
     attempt (ds_gate E ''set_dispute_params''
       [VU128 c, VVec [VU128 (bond_floor p), VU64 (challenge_period p)]] s) (\<lambda>s.
     case validate_dispute p of
       Inl (Err f) \<Rightarrow> Inl (params_error f)
     | Inl Trap \<Rightarrow> Trapped
     | Inr _ \<Rightarrow> Ok (s\<lparr>ds_params := (ds_params s)(c \<mapsto> p)\<rparr>))"

definition set_arbiter :: "env \<Rightarrow> address \<Rightarrow> dispute_store \<Rightarrow> (dispute_error, dispute_store) res" where
  "set_arbiter E a s =
     attempt (ds_gate E ''set_arbiter'' [VAddr a] s) (\<lambda>s. Ok (s\<lparr>ds_arbiter := Some a\<rparr>))"

definition ds_set_protocol_fee_pool :: "env \<Rightarrow> address \<Rightarrow> dispute_store \<Rightarrow> (dispute_error, dispute_store) res" where
  "ds_set_protocol_fee_pool E pl s =
     attempt (ds_gate E ''set_protocol_fee_pool'' [VAddr pl] s) (\<lambda>s. Ok (s\<lparr>ds_fee_pool := Some pl\<rparr>))"

definition set_bond_config ::
  "env \<Rightarrow> address \<Rightarrow> u128 \<Rightarrow> bond_config \<Rightarrow> dispute_store \<Rightarrow> (dispute_error, dispute_store) res" where
  "set_bond_config E token c cfg s =
     attempt (ds_gate E ''set_bond_config''
       [VAddr token, VU128 c, VVec [VU32 (bond_bps cfg), VU128 (min_bond cfg)]] s) (\<lambda>s.
     if \<not> validate_bond cfg then Fail DeInvalidBondConfig
     else Ok (store_bond_config token c cfg s))"

definition ds_activate_timelock :: "env \<Rightarrow> dispute_store \<Rightarrow> (dispute_error, dispute_store) res" where
  "ds_activate_timelock E s =
     attempt (ds_require_admin E s) (\<lambda>_.
     attempt (map_err ds_timelock_error (activate (ds_timelock s))) (\<lambda>tlk.
     Ok (s\<lparr>ds_timelock := tlk\<rparr>)))"

definition ds_propose_action ::
  "env \<Rightarrow> string \<Rightarrow> bytes \<Rightarrow> dispute_store \<Rightarrow> (dispute_error, bytes32 \<times> dispute_store) res" where
  "ds_propose_action E fn_name args s =
     attempt (ds_require_admin E s) (\<lambda>_.
     attempt (map_err ds_timelock_error (propose E fn_name args (ds_timelock s))) (\<lambda>(ident, tlk).
     Ok (ident, s\<lparr>ds_timelock := tlk\<rparr>)))"

definition ds_cancel_action :: "env \<Rightarrow> bytes32 \<Rightarrow> dispute_store \<Rightarrow> (dispute_error, dispute_store) res" where
  "ds_cancel_action E ident s =
     attempt (ds_require_admin E s) (\<lambda>_.
     attempt (map_err ds_timelock_error (cancel_proposal ident (ds_timelock s))) (\<lambda>tlk.
     Ok (s\<lparr>ds_timelock := tlk\<rparr>)))"

definition ds_transfer_admin :: "env \<Rightarrow> address \<Rightarrow> dispute_store \<Rightarrow> (dispute_error, dispute_store) res" where
  "ds_transfer_admin E to s = attempt (ds_require_admin E s) (\<lambda>_. Ok (s\<lparr>ds_pending := Some to\<rparr>))"

definition ds_accept_admin :: "env \<Rightarrow> dispute_store \<Rightarrow> (dispute_error, dispute_store) res" where
  "ds_accept_admin E s =
     attempt (ok_or (ds_pending s) DeNotInitialized) (\<lambda>pending.
     attempt (require_auth E pending) (\<lambda>_.
     attempt (ok_or (ds_admin s) DeNotInitialized) (\<lambda>old.
     attempt (map_err ds_timelock_error (bump_epoch (ds_timelock s))) (\<lambda>tlk.
     Ok (s\<lparr>ds_admin := Some pending, ds_pending := None, ds_timelock := tlk\<rparr>)))))"

section \<open>The bond\<close>

definition bond_of ::
  "dispute_store \<Rightarrow> dispute_params \<Rightarrow> address \<Rightarrow> u128 \<Rightarrow> u128 \<Rightarrow> (dispute_error, address \<times> u128) res" where
  "bond_of s p token peer amount =
     (case ds_bond_configs s (token, peer) of
        Some c \<Rightarrow> attempt (route_bond c amount) (\<lambda>b. Ok (token, b))
      | None \<Rightarrow> attempt (ok_or (ds_w_native s) DeNotInitialized) (\<lambda>wn. Ok (wn, bond_for p)))"

text \<open>Best effort, then credit: in the bond's own token, the wrapped native token's in its own ledger.\<close>

definition ds_pay_or_credit ::
  "'w ext \<Rightarrow> env \<Rightarrow> address \<Rightarrow> address \<Rightarrow> u128 \<Rightarrow> dispute_store \<times> 'w \<Rightarrow>
   (dispute_error, dispute_store \<times> 'w) res" where
  "ds_pay_or_credit X E to token amount = (\<lambda>(s, w).
     case tok_transfer X E token (self E) to (as_i128 amount) w of
       Some w' \<Rightarrow> Ok (s, w')
     | None \<Rightarrow>
         attempt (ok_or (ds_w_native s) DeNotInitialized) (\<lambda>wn.
         if token = wn then
           attempt (cadd (ds_get_claimable s to) amount) (\<lambda>owed. Ok (ds_set_claimable to owed s, w))
         else
           attempt (cadd (get_token_claimable s to token) amount) (\<lambda>owed.
           Ok (set_token_claimable to token owed s, w))))"

section \<open>The edge the escrows call\<close>

definition require_escrow :: "env \<Rightarrow> dispute_store \<Rightarrow> address \<Rightarrow> (dispute_error, unit) res" where
  "require_escrow E s escrow =
     attempt (require_auth E escrow) (\<lambda>_. ensure (is_escrow s escrow) DeNotEscrow)"

definition ds_open_dispute ::
  "'w ext \<Rightarrow> env \<Rightarrow> address \<Rightarrow> bytes32 \<Rightarrow> u128 \<Rightarrow> address \<Rightarrow> bytes32 \<Rightarrow> u64 \<Rightarrow> u64 \<Rightarrow> address \<Rightarrow> u128 \<Rightarrow>
   dispute_store \<times> 'w \<Rightarrow> (dispute_error, u128 \<times> dispute_store \<times> 'w) res" where
  "ds_open_dispute X E escrow h peer filer evidence deadline buf token amount = (\<lambda>(s, w).
     attempt (require_escrow E s escrow) (\<lambda>_.
     if ds_disputes s h \<noteq> None then Fail DeDisputeExists
     else attempt (ok_or (ds_params s peer) DeNoDisputeParams) (\<lambda>p.
       attempt (bond_of s p token peer amount) (\<lambda>(bond_tok, b).
       attempt (require_auth E filer) (\<lambda>_.
       let before = tok_balance X bond_tok (self E) w in
       attempt (ok_or (tok_transfer X E bond_tok filer (self E) (as_i128 b) w) DeBondTransferFailed) (\<lambda>w'.
       if tok_balance X bond_tok (self E) w' - before \<noteq> as_i128 b then Fail DeBondTransferShort
       else
         attempt (cadd (now E) (challenge_period p)) (\<lambda>floor_end.
         attempt (cadd deadline buf) (\<lambda>order_end.
         Ok (b, set_dispute h \<lparr>initiator = filer, bond = b, challenge_deadline = max floor_end order_end,
                  initiator_evidence = evidence, responder_evidence = 0, ruling = NoOutcome,
                  dr_escrow = escrow, order_deadline = deadline, dr_buffer = buf,
                  bond_token = bond_tok\<rparr> s, w')))))))))"

definition ds_settle_bond ::
  "'w ext \<Rightarrow> env \<Rightarrow> address \<Rightarrow> bytes32 \<Rightarrow> dispute_outcome \<Rightarrow> bool \<Rightarrow> bool \<Rightarrow> dispute_store \<times> 'w \<Rightarrow>
   (dispute_error, dispute_store \<times> 'w) res" where
  "ds_settle_bond X E escrow h outcome filer_is_bridger return_to_filer = (\<lambda>(s, w).
     attempt (require_auth E escrow) (\<lambda>_.
     attempt (ok_or (ds_disputes s h) DeNotDisputed) (\<lambda>d.
     if dr_escrow d \<noteq> escrow then Fail DeWrongEscrow
     else
       let s1 = remove_dispute h s in
       if bond d \<noteq> 0 then
         let to_filer = bond_returns_to_filer outcome filer_is_bridger return_to_filer;
             to = (if to_filer then initiator d
                   else case ds_fee_pool s1 of None \<Rightarrow> initiator d | Some pl \<Rightarrow> pl)
         in ds_pay_or_credit X E to (bond_token d) (bond d) (s1, w)
       else Ok (s1, w))))"

definition ds_record_response ::
  "env \<Rightarrow> address \<Rightarrow> bytes32 \<Rightarrow> address \<Rightarrow> bytes32 \<Rightarrow> dispute_store \<Rightarrow> (dispute_error, dispute_store) res" where
  "ds_record_response E escrow h responder evidence s =
     attempt (require_auth E escrow) (\<lambda>_.
     attempt (require_auth E responder) (\<lambda>_.
     attempt (ok_or (ds_disputes s h) DeNotDisputed) (\<lambda>d.
     if dr_escrow d \<noteq> escrow then Fail DeWrongEscrow
     else if initiator d = responder then Fail DeNotResponder
     else if evidence = 0 then Fail DeZeroResponse
     else if responder_evidence d \<noteq> 0 then Fail DeAlreadyResponded
     else if ruling d \<noteq> NoOutcome then Fail DeAlreadyRuled
     else if now E \<ge> challenge_deadline d then Fail DeResponseWindowClosed
     else Ok (set_dispute h (d\<lparr>responder_evidence := evidence\<rparr>) s))))"

definition resolve_dispute ::
  "env \<Rightarrow> bytes32 \<Rightarrow> dispute_outcome \<Rightarrow> dispute_store \<Rightarrow> (dispute_error, dispute_store) res" where
  "resolve_dispute E h outcome s =
     attempt (ok_or (ds_arbiter s) DeNotInitialized) (\<lambda>arb.
     attempt (require_auth E arb) (\<lambda>_.
     if outcome = TradeProceeds \<or> outcome = NoOutcome then Fail DeArbiterCannotSettle
     else attempt (ok_or (ds_disputes s h) DeNotDisputed) (\<lambda>d.
       if now E \<ge> challenge_deadline d then Fail DeChallengeClosed
       else attempt (cadd (max (now E) (order_deadline d)) (dr_buffer d)) (\<lambda>at.
         Ok (set_dispute h (d\<lparr>ruling := outcome, challenge_deadline := at\<rparr>) s)))))"

section \<open>Views and claims\<close>

definition outcome_of :: "env \<Rightarrow> bytes32 \<Rightarrow> dispute_store \<Rightarrow> dispute_outcome \<times> bool \<times> address option" where
  "outcome_of E h s =
     (case ds_disputes s h of
        None \<Rightarrow> (NoOutcome, False, None)
      | Some d \<Rightarrow> (ruling d, now E \<ge> challenge_deadline d, Some (initiator d)))"

definition initiator_of :: "bytes32 \<Rightarrow> dispute_store \<Rightarrow> address option" where
  "initiator_of h s = map_option initiator (ds_disputes s h)"

definition is_disputed :: "bytes32 \<Rightarrow> dispute_store \<Rightarrow> bool" where
  "is_disputed h s \<longleftrightarrow> ds_disputes s h \<noteq> None"

definition effective_challenge_deadline :: "bytes32 \<Rightarrow> dispute_store \<Rightarrow> u64" where
  "effective_challenge_deadline h s = (case ds_disputes s h of None \<Rightarrow> 0 | Some d \<Rightarrow> challenge_deadline d)"

definition ds_bond_for :: "u128 \<Rightarrow> dispute_store \<Rightarrow> (dispute_error, u128) res" where
  "ds_bond_for peer s = attempt (ok_or (ds_params s peer) DeNoDisputeParams) (\<lambda>p. Ok (bond_for p))"

definition ds_route_bond ::
  "u128 \<Rightarrow> address \<Rightarrow> u128 \<Rightarrow> dispute_store \<Rightarrow> (dispute_error, address \<times> u128) res" where
  "ds_route_bond peer token amount s =
     attempt (ok_or (ds_params s peer) DeNoDisputeParams) (\<lambda>p. bond_of s p token peer amount)"

definition claimable_token :: "address \<Rightarrow> address \<Rightarrow> dispute_store \<Rightarrow> u128" where
  "claimable_token who token s =
     (if ds_w_native s = Some token then ds_get_claimable s who else get_token_claimable s who token)"

definition ds_claim ::
  "'w ext \<Rightarrow> env \<Rightarrow> address \<Rightarrow> dispute_store \<times> 'w \<Rightarrow> (dispute_error, dispute_store \<times> 'w) res" where
  "ds_claim X E recipient = (\<lambda>(s, w).
     let amount = ds_get_claimable s recipient in
     if amount = 0 then Fail DeNothingToClaim
     else
       let s1 = ds_set_claimable recipient 0 s in
       attempt (ok_or (ds_w_native s1) DeNotInitialized) (\<lambda>wn.
       attempt (ok_or (tok_transfer X E wn (self E) recipient (as_i128 amount) w) DeBondTransferFailed)
         (\<lambda>w'. Ok (s1, w'))))"

definition ds_claim_token ::
  "'w ext \<Rightarrow> env \<Rightarrow> address \<Rightarrow> address \<Rightarrow> dispute_store \<times> 'w \<Rightarrow> (dispute_error, dispute_store \<times> 'w) res" where
  "ds_claim_token X E recipient token = (\<lambda>(s, w).
     if ds_w_native s = Some token then ds_claim X E recipient (s, w)
     else
       let amount = get_token_claimable s recipient token in
       if amount = 0 then Fail DeNothingToClaim
       else
         let s1 = set_token_claimable recipient token 0 s in
         attempt (ok_or (tok_transfer X E token (self E) recipient (as_i128 amount) w) DeBondTransferFailed)
           (\<lambda>w'. Ok (s1, w')))"

end
