(* ===== verification/Custody.thy ===== *)
theory Custody
  imports Token_Ops
begin

text \<open>
  What a contract that holds tokens relies on: the documented behaviour of the token interface
  (SEP-41), as laws on the parameter \<open>'w ext\<close> for one holder. A transfer never moves a negative
  amount; it takes from the holder at most what it says, in the token it names, and only when the
  holder is the sender; nothing else in the world spends the holder's tokens.
\<close>

definition token_laws :: "'w ext \<Rightarrow> address \<Rightarrow> ('w \<Rightarrow> 'w \<Rightarrow> bool) \<Rightarrow> bool" where
  "token_laws X me R \<longleftrightarrow>
     (\<forall>E t from to a w w'. tok_transfer X E t from to a w = Some w' \<longrightarrow> 0 \<le> a) \<and>
     (\<forall>E t to a w w' u. tok_transfer X E t me to a w = Some w' \<longrightarrow>
        tok_balance X u me w - (if u = t then a else 0) \<le> tok_balance X u me w') \<and>
     (\<forall>E t from to a w w' u. from \<noteq> me \<longrightarrow> tok_transfer X E t from to a w = Some w' \<longrightarrow>
        tok_balance X u me w \<le> tok_balance X u me w') \<and>
     (\<forall>w w' u. R w w' \<longrightarrow> tok_balance X u me w \<le> tok_balance X u me w')"

lemma token_lawsD:
  assumes "token_laws X me R"
  shows "tok_transfer X E t from to a w = Some w' \<Longrightarrow> 0 \<le> a"
    and "tok_transfer X E t me to a w = Some w' \<Longrightarrow>
      tok_balance X u me w - (if u = t then a else 0) \<le> tok_balance X u me w'"
    and "from \<noteq> me \<Longrightarrow> tok_transfer X E t from to a w = Some w' \<Longrightarrow>
      tok_balance X u me w \<le> tok_balance X u me w'"
    and "R w w' \<Longrightarrow> tok_balance X u me w \<le> tok_balance X u me w'"
proof -
  note laws = assms [unfolded token_laws_def]
  show "tok_transfer X E t from to a w = Some w' \<Longrightarrow> 0 \<le> a"
    using laws [THEN conjunct1] by blast
  show "tok_transfer X E t me to a w = Some w' \<Longrightarrow>
      tok_balance X u me w - (if u = t then a else 0) \<le> tok_balance X u me w'"
    using laws [THEN conjunct2, THEN conjunct1] by blast
  show "from \<noteq> me \<Longrightarrow> tok_transfer X E t from to a w = Some w' \<Longrightarrow>
      tok_balance X u me w \<le> tok_balance X u me w'"
    using laws [THEN conjunct2, THEN conjunct2, THEN conjunct1] by blast
  show "R w w' \<Longrightarrow> tok_balance X u me w \<le> tok_balance X u me w'"
    using laws [THEN conjunct2, THEN conjunct2, THEN conjunct2] by blast
qed

text \<open>The cast \<open>as i128\<close>, where it is not negative, is the amount.\<close>

lemma as_i128_cases: "as_i128 a = uint a \<or> as_i128 a = uint a - 2 ^ 128 \<and> as_i128 a < 0"
proof -
  have t: "take_bit 128 (uint a) = uint a"
    by (rule take_bit_int_eq_self) (use uint_lt2p [of a] in simp_all)
  have "as_i128 a = uint a - 2 ^ Suc 127 * of_bool (bit (uint a) 127)"
    by (simp only: as_i128_def sint_uint signed_take_bit_eq_take_bit_minus) (simp add: t)
  then show ?thesis using uint_lt2p [of a] by (cases "bit (uint a) 127") simp_all
qed

lemma as_i128_nonneg: "0 \<le> as_i128 a \<Longrightarrow> as_i128 a = int (unat a)"
  using as_i128_cases [of a] by auto

lemma as_i128_le: "as_i128 a \<le> int (unat a)"
  using as_i128_cases [of a] by auto

section \<open>Sums over the entries of a map\<close>

text \<open>\<open>tally f m\<close>: the sum of \<open>f\<close> over the entries of a finite map.\<close>

definition tally :: "('k \<Rightarrow> 'v \<Rightarrow> nat) \<Rightarrow> ('k \<rightharpoonup> 'v) \<Rightarrow> nat" where
  "tally f m = (\<Sum>k\<in>dom m. f k (the (m k)))"

lemma tally_empty [simp]: "tally f Map.empty = 0"
  by (simp add: tally_def)

lemma tally_remove:
  assumes "finite (dom m)"
  shows "tally f (m(k := None)) + (case m k of None \<Rightarrow> 0 | Some v \<Rightarrow> f k v) = tally f m"
proof (cases "m k")
  case None
  then have "m(k := None) = m" by (simp add: fun_upd_idem)
  then show ?thesis using None by simp
next
  case (Some v)
  then have k: "k \<in> dom m" by blast
  have "(\<Sum>x\<in>dom m - {k}. f x (the ((m(k := None)) x))) = (\<Sum>x\<in>dom m - {k}. f x (the (m x)))"
    by (rule sum.cong) auto
  then show ?thesis using Some sum.remove [OF assms k, of "\<lambda>x. f x (the (m x))"] by (simp add: tally_def)
qed

lemma tally_update:
  assumes "finite (dom m)"
  shows "tally f (m(k \<mapsto> v)) + (case m k of None \<Rightarrow> 0 | Some u \<Rightarrow> f k u) = tally f m + f k v"
proof -
  have fin: "finite (dom (m(k \<mapsto> v)))" using assms by simp
  have "tally f ((m(k \<mapsto> v))(k := None)) + f k v = tally f (m(k \<mapsto> v))"
    using tally_remove [OF fin, of f k] by simp
  moreover have "(m(k \<mapsto> v))(k := None) = m(k := None)" by simp
  ultimately show ?thesis using tally_remove [OF assms, of f k] by simp
qed

lemma tally_member: "finite (dom m) \<Longrightarrow> m k = Some v \<Longrightarrow> f k v \<le> tally f m"
  using tally_remove [of m f k] by simp

end
