(* ===== verification/Dispute_Invariants.thy ===== *)
theory Dispute_Invariants
  imports Dispute_Manager Custody
begin

text \<open>
  The dispute manager as one machine: its calls, the states it reaches with other contracts acting
  in between, and the invariant: what it owes (the bonds of open disputes and the credited payouts)
  is covered by what it holds, and no open dispute can end before its order's own clock.
\<close>

section \<open>Calls and reachable states\<close>

datatype dispute_admin_call =
    DSetEscrow address bool | DSetParams u128 dispute_params | DSetArbiter address
  | DSetFeePool address | DSetBondConfig address u128 bond_config | DActivate
  | DPropose string bytes | DCancel bytes32 | DTransferAdmin address | DAcceptAdmin

datatype dispute_call =
    DAdmin dispute_admin_call
  | DOpen address bytes32 u128 address bytes32 u64 u64 address u128
  | DSettle address bytes32 dispute_outcome bool bool
  | DRespond address bytes32 address bytes32
  | DResolve bytes32 dispute_outcome
  | DClaim address
  | DClaimToken address address

fun ds_admin_exec :: "env \<Rightarrow> dispute_admin_call \<Rightarrow> dispute_store \<Rightarrow> (dispute_error, dispute_store) res" where
  "ds_admin_exec E (DSetEscrow a v) s = ds_set_escrow E a v s"
| "ds_admin_exec E (DSetParams c p) s = set_dispute_params E c p s"
| "ds_admin_exec E (DSetArbiter a) s = set_arbiter E a s"
| "ds_admin_exec E (DSetFeePool a) s = ds_set_protocol_fee_pool E a s"
| "ds_admin_exec E (DSetBondConfig t c cfg) s = set_bond_config E t c cfg s"
| "ds_admin_exec E DActivate s = ds_activate_timelock E s"
| "ds_admin_exec E (DPropose f args) s = attempt (ds_propose_action E f args s) (\<lambda>(_, s'). Ok s')"
| "ds_admin_exec E (DCancel ident) s = ds_cancel_action E ident s"
| "ds_admin_exec E (DTransferAdmin a) s = ds_transfer_admin E a s"
| "ds_admin_exec E DAcceptAdmin s = ds_accept_admin E s"

fun ds_exec ::
  "'w ext \<Rightarrow> env \<Rightarrow> dispute_call \<Rightarrow> dispute_store \<times> 'w \<Rightarrow> (dispute_error, dispute_store \<times> 'w) res" where
  "ds_exec X E (DAdmin c) (s, w) = attempt (ds_admin_exec E c s) (\<lambda>s'. Ok (s', w))"
| "ds_exec X E (DOpen esc h peer filer ev dl buf tok amt) sw =
     attempt (ds_open_dispute X E esc h peer filer ev dl buf tok amt sw) (\<lambda>(_, sw'). Ok sw')"
| "ds_exec X E (DSettle esc h out fb rf) sw = ds_settle_bond X E esc h out fb rf sw"
| "ds_exec X E (DRespond esc h who ev) (s, w) =
     attempt (ds_record_response E esc h who ev s) (\<lambda>s'. Ok (s', w))"
| "ds_exec X E (DResolve h out) (s, w) = attempt (resolve_dispute E h out s) (\<lambda>s'. Ok (s', w))"
| "ds_exec X E (DClaim who) sw = ds_claim X E who sw"
| "ds_exec X E (DClaimToken who tok) sw = ds_claim_token X E who tok sw"

text \<open>An invocation of the module at \<open>me\<close>, which never authorizes a call into itself.\<close>

definition ds_entry :: "address \<Rightarrow> env \<Rightarrow> bool" where
  "ds_entry me E \<longleftrightarrow> self E = me \<and> \<not> authed E me"

inductive ds_reach ::
  "'w ext \<Rightarrow> address \<Rightarrow> ('w \<Rightarrow> 'w \<Rightarrow> bool) \<Rightarrow> dispute_store \<times> 'w \<Rightarrow> bool"
  for X :: "'w ext" and me :: address and R :: "'w \<Rightarrow> 'w \<Rightarrow> bool" where
  ds_reach_init: "ds_initialize adm wn ds_empty = Inr s \<Longrightarrow> (\<And>u. 0 \<le> tok_balance X u me w) \<Longrightarrow>
    ds_reach X me R (s, w)"
| ds_reach_call: "ds_reach X me R sw \<Longrightarrow> ds_entry me E \<Longrightarrow> ds_exec X E c sw = Inr sw' \<Longrightarrow>
    ds_reach X me R sw'"
| ds_reach_world: "ds_reach X me R (s, w) \<Longrightarrow> R w w' \<Longrightarrow> ds_reach X me R (s, w')"

section \<open>What the module owes\<close>

definition bonds_owed :: "dispute_store \<Rightarrow> address \<Rightarrow> nat" where
  "bonds_owed s u = tally (\<lambda>_ d. if bond_token d = u then unat (bond d) else 0) (ds_disputes s)"

definition token_credits :: "dispute_store \<Rightarrow> address \<Rightarrow> nat" where
  "token_credits s u = tally (\<lambda>k a. if snd k = u then unat a else 0) (ds_token_claims s)"

definition native_credits :: "dispute_store \<Rightarrow> address \<Rightarrow> nat" where
  "native_credits s u = (if ds_w_native s = Some u then tally (\<lambda>_ a. unat a) (ds_claims s) else 0)"

definition owed :: "dispute_store \<Rightarrow> address \<Rightarrow> nat" where
  "owed s u = bonds_owed s u + token_credits s u + native_credits s u"

definition finite_store :: "dispute_store \<Rightarrow> bool" where
  "finite_store s \<longleftrightarrow> finite (dom (ds_disputes s)) \<and> finite (dom (ds_token_claims s)) \<and>
     finite (dom (ds_claims s))"

definition covered :: "'w ext \<Rightarrow> address \<Rightarrow> dispute_store \<times> 'w \<Rightarrow> bool" where
  "covered X me = (\<lambda>(s, w). \<forall>u. int (owed s u) \<le> tok_balance X u me w)"

text \<open>What every open record satisfies.\<close>

definition record_ok :: "dispute_record \<Rightarrow> bool" where
  "record_ok d \<longleftrightarrow>
     unat (order_deadline d) + unat (dr_buffer d) \<le> unat (challenge_deadline d) \<and>
     ruling d \<noteq> TradeProceeds"

definition records_ok :: "dispute_store \<Rightarrow> bool" where
  "records_ok s \<longleftrightarrow> (\<forall>h d. ds_disputes s h = Some d \<longrightarrow> record_ok d)"

definition ds_inv :: "'w ext \<Rightarrow> address \<Rightarrow> dispute_store \<times> 'w \<Rightarrow> bool" where
  "ds_inv X me sw \<longleftrightarrow> covered X me sw \<and> finite_store (fst sw) \<and> records_ok (fst sw) \<and>
     ds_admin (fst sw) \<noteq> None \<and> ds_w_native (fst sw) \<noteq> None"

lemmas owed_defs = owed_def bonds_owed_def token_credits_def native_credits_def

section \<open>One lemma per write\<close>

lemma owed_set_dispute:
  assumes "finite_store s" "ds_disputes s h = None"
  shows "owed (set_dispute h d s) u = owed s u + (if bond_token d = u then unat (bond d) else 0)"
  using tally_update [of "ds_disputes s" "\<lambda>_ d. if bond_token d = u then unat (bond d) else 0" h d] assms
  by (simp add: owed_defs set_dispute_def finite_store_def)

lemma owed_same_bond:
  assumes "finite_store s" "ds_disputes s h = Some d" "bond d' = bond d" "bond_token d' = bond_token d"
  shows "owed (set_dispute h d' s) u = owed s u"
  using tally_update [of "ds_disputes s" "\<lambda>_ d. if bond_token d = u then unat (bond d) else 0" h d'] assms
  by (cases "bond_token d = u") (simp_all add: owed_defs set_dispute_def finite_store_def)

lemma owed_remove_dispute:
  assumes "finite_store s" "ds_disputes s h = Some d"
  shows "owed (remove_dispute h s) u + (if bond_token d = u then unat (bond d) else 0) = owed s u"
  using tally_remove [of "ds_disputes s" "\<lambda>_ d. if bond_token d = u then unat (bond d) else 0" h] assms
  by (simp add: owed_defs remove_dispute_def finite_store_def)

lemma owed_set_claimable:
  assumes "finite_store s" "ds_w_native s = Some wn"
  shows "owed (ds_set_claimable who a s) u + (if u = wn then unat (ds_get_claimable s who) else 0) =
    owed s u + (if u = wn then unat a else 0)"
  using tally_update [of "ds_claims s" "\<lambda>_ a. unat a" who a] assms
  by (cases "u = wn"; cases "ds_claims s who")
    (simp_all add: owed_defs ds_set_claimable_def ds_get_claimable_def finite_store_def)

lemma owed_set_token_claimable:
  assumes "finite_store s"
  shows "owed (set_token_claimable who tok a s) u + (if u = tok then unat (get_token_claimable s who tok) else 0) =
    owed s u + (if u = tok then unat a else 0)"
  using tally_update [of "ds_token_claims s" "\<lambda>k a. if snd k = u then unat a else 0" "(who, tok)" a] assms
  by (cases "u = tok"; cases "ds_token_claims s (who, tok)")
    (simp_all add: owed_defs set_token_claimable_def get_token_claimable_def finite_store_def)

lemma finite_store_writes [simp]:
  "finite_store s \<Longrightarrow> finite_store (set_dispute h d s)"
  "finite_store s \<Longrightarrow> finite_store (remove_dispute h s)"
  "finite_store s \<Longrightarrow> finite_store (ds_set_claimable who a s)"
  "finite_store s \<Longrightarrow> finite_store (set_token_claimable who tok a s)"
  by (simp_all add: finite_store_def set_dispute_def remove_dispute_def ds_set_claimable_def
      set_token_claimable_def)

lemma native_writes [simp]:
  "ds_w_native (set_dispute h d s) = ds_w_native s" "ds_admin (set_dispute h d s) = ds_admin s"
  "ds_w_native (remove_dispute h s) = ds_w_native s" "ds_admin (remove_dispute h s) = ds_admin s"
  "ds_w_native (ds_set_claimable who a s) = ds_w_native s" "ds_admin (ds_set_claimable who a s) = ds_admin s"
  "ds_w_native (set_token_claimable who tok a s) = ds_w_native s"
  "ds_admin (set_token_claimable who tok a s) = ds_admin s"
  "ds_disputes (ds_set_claimable who a s) = ds_disputes s"
  "ds_disputes (set_token_claimable who tok a s) = ds_disputes s"
  "ds_disputes (set_dispute h d s) = (ds_disputes s)(h \<mapsto> d)"
  "ds_disputes (remove_dispute h s) = (ds_disputes s)(h := None)"
  "ds_fee_pool (remove_dispute h s) = ds_fee_pool s"
  by (simp_all add: set_dispute_def remove_dispute_def ds_set_claimable_def set_token_claimable_def)

text \<open>A payout that was owed is either paid or credited.\<close>

lemma pay_or_credit_covered:
  assumes "token_laws X me R" "self E = me" "finite_store s"
    and pay: "ds_pay_or_credit X E to tok amt (s, w) = Inr (s', w')"
    and cov: "\<And>u. int (owed s u) + (if u = tok then int (unat amt) else 0) \<le> tok_balance X u me w"
  shows "covered X me (s', w') \<and> finite_store s' \<and> ds_disputes s' = ds_disputes s \<and>
    ds_w_native s' = ds_w_native s \<and> ds_admin s' = ds_admin s"
proof (cases "tok_transfer X E tok me to (as_i128 amt) w")
  case (Some w1)
  then have r: "s' = s" "w' = w1" using pay assms(2) by (simp_all add: ds_pay_or_credit_def)
  have "int (owed s u) \<le> tok_balance X u me w1" for u
    using token_lawsD(2) [OF assms(1) Some, of u] cov [of u] as_i128_le [of amt] by (auto split: if_splits)
  then show ?thesis using r assms(3) by (simp add: covered_def)
next
  case None
  note none = this
  from none pay assms(2) obtain wn where wn: "ds_w_native s = Some wn"
    by (auto simp: ds_pay_or_credit_def res_simps)
  show ?thesis
  proof (cases "tok = wn")
    case True
    then obtain o' where o': "unat o' = unat (ds_get_claimable s to) + unat amt"
      "s' = ds_set_claimable to o' s" "w' = w"
      using none pay assms(2) wn by (auto simp: ds_pay_or_credit_def res_simps chk_simps)
    have "int (owed s' u) \<le> tok_balance X u me w" for u
      using cov [of u] owed_set_claimable [OF assms(3) wn, of to o' u] o' True
      by (cases "u = wn") simp_all
    then show ?thesis using o' assms(3) by (simp add: covered_def)
  next
    case False
    then obtain o' where o': "unat o' = unat (get_token_claimable s to tok) + unat amt"
      "s' = set_token_claimable to tok o' s" "w' = w"
      using none pay assms(2) wn by (auto simp: ds_pay_or_credit_def res_simps chk_simps)
    have "int (owed s' u) \<le> tok_balance X u me w" for u
      using cov [of u] owed_set_token_claimable [OF assms(3), of to tok o' u] o'
      by (cases "u = tok") simp_all
    then show ?thesis using o' assms(3) by (simp add: covered_def)
  qed
qed

section \<open>Every call keeps the invariant\<close>

definition holdings ::
  "dispute_store \<Rightarrow> (bytes32 \<rightharpoonup> dispute_record) \<times> (address \<rightharpoonup> u128) \<times> (address \<times> address \<rightharpoonup> u128) \<times> address option"
where
  "holdings s = (ds_disputes s, ds_claims s, ds_token_claims s, ds_w_native s)"

lemma same_holdings:
  assumes "holdings s' = holdings s"
  shows "owed s' u = owed s u" "finite_store s' = finite_store s" "records_ok s' = records_ok s"
    "ds_w_native s' = ds_w_native s"
  using assms by (simp_all add: holdings_def owed_defs finite_store_def records_ok_def)

lemma ds_gate_frame:
  "ds_gate E f args s = Inr s1 \<Longrightarrow> holdings s1 = holdings s \<and> ds_admin s1 = ds_admin s \<and> ds_admin s \<noteq> None"
  by (auto simp: ds_gate_def holdings_def res_simps)

lemmas ds_admin_defs = ds_set_escrow_def set_dispute_params_def set_arbiter_def
  ds_set_protocol_fee_pool_def set_bond_config_def ds_activate_timelock_def ds_propose_action_def
  ds_cancel_action_def ds_transfer_admin_def ds_accept_admin_def ds_require_admin_def

lemma set_dispute_params_Ok:
  "set_dispute_params E c p s = Inr s' \<longleftrightarrow>
     (\<exists>s1. ds_gate E ''set_dispute_params''
        [VU128 c, VVec [VU128 (bond_floor p), VU64 (challenge_period p)]] s = Inr s1 \<and>
      validate_dispute p = Inr () \<and> s' = s1\<lparr>ds_params := (ds_params s1)(c \<mapsto> p)\<rparr>)"
  by (cases "validate_dispute p") (auto simp: set_dispute_params_def attempt_Ok params_error_def
      split: stop.splits)

lemma admin_frame:
  assumes "ds_admin_exec E c s = Inr s'"
  shows "holdings s' = holdings s \<and> (ds_admin s \<noteq> None \<longrightarrow> ds_admin s' \<noteq> None)"
proof (cases c)
  case (DSetParams ch p)
  then show ?thesis using assms
    by (auto simp: set_dispute_params_Ok holdings_def dest!: ds_gate_frame)
next
  case (DSetBondConfig t ch cfg)
  then show ?thesis using assms
    by (auto simp: set_bond_config_def store_bond_config_def res_simps holdings_def
        dest!: ds_gate_frame split: if_splits)
qed (use assms in \<open>auto simp: ds_admin_defs res_simps holdings_def dest!: ds_gate_frame\<close>)

lemma ds_open_Ok:
  assumes "ds_open_dispute X E escrow h peer filer ev dl buf tok amt (s, w) = Inr (b, s', w')"
  obtains p bt d where "authed E escrow" "is_escrow s escrow" "ds_disputes s h = None"
    "ds_params s peer = Some p" "bond_of s p tok peer amt = Inr (bt, b)" "authed E filer"
    "tok_transfer X E bt filer (self E) (as_i128 b) w = Some w'"
    "tok_balance X bt (self E) w' = tok_balance X bt (self E) w + as_i128 b"
    "s' = set_dispute h d s" "initiator d = filer" "bond d = b" "bond_token d = bt" "dr_escrow d = escrow"
    "order_deadline d = dl" "dr_buffer d = buf" "ruling d = NoOutcome" "responder_evidence d = 0"
    "unat dl + unat buf \<le> unat (challenge_deadline d)"
    "unat (now E) + unat (challenge_period p) \<le> unat (challenge_deadline d)"
  using assms unfolding ds_open_dispute_def require_escrow_def Let_def
  by (clarsimp simp: res_simps chk_simps unat_max_word split: if_splits)

definition bond_goes_to :: "dispute_store \<Rightarrow> dispute_record \<Rightarrow> bool \<Rightarrow> address" where
  "bond_goes_to s d to_filer =
     (if to_filer then initiator d else case ds_fee_pool s of None \<Rightarrow> initiator d | Some pl \<Rightarrow> pl)"

lemma ds_settle_Ok:
  "ds_settle_bond X E escrow h out fb rf (s, w) = Inr (s', w') \<longleftrightarrow>
     (\<exists>d. authed E escrow \<and> ds_disputes s h = Some d \<and> dr_escrow d = escrow \<and>
       (if bond d = 0 then s' = remove_dispute h s \<and> w' = w
        else ds_pay_or_credit X E (bond_goes_to s d (bond_returns_to_filer out fb rf))
          (bond_token d) (bond d) (remove_dispute h s, w) = Inr (s', w')))"
  by (auto simp: ds_settle_bond_def Let_def res_simps bond_goes_to_def
      simp del: bond_returns_to_filer.simps split: if_splits)

lemma ds_respond_Ok:
  "ds_record_response E escrow h who ev s = Inr s' \<longleftrightarrow>
     (\<exists>d. authed E escrow \<and> authed E who \<and> ds_disputes s h = Some d \<and> dr_escrow d = escrow \<and>
       initiator d \<noteq> who \<and> ev \<noteq> 0 \<and> responder_evidence d = 0 \<and> ruling d = NoOutcome \<and>
       now E < challenge_deadline d \<and> s' = set_dispute h (d\<lparr>responder_evidence := ev\<rparr>) s)"
  by (auto simp: ds_record_response_def res_simps not_le split: if_splits)

lemma ds_resolve_Ok:
  "resolve_dispute E h out s = Inr s' \<longleftrightarrow>
     (\<exists>arb d at. ds_arbiter s = Some arb \<and> authed E arb \<and> out \<noteq> TradeProceeds \<and> out \<noteq> NoOutcome \<and>
       ds_disputes s h = Some d \<and> now E < challenge_deadline d \<and>
       unat at = max (unat (now E)) (unat (order_deadline d)) + unat (dr_buffer d) \<and>
       s' = set_dispute h (d\<lparr>ruling := out, challenge_deadline := at\<rparr>) s)"
  by (auto simp: resolve_dispute_def res_simps chk_simps not_le unat_max_word split: if_splits)

lemma ds_claim_Ok:
  "ds_claim X E who (s, w) = Inr (s', w') \<longleftrightarrow>
     ds_get_claimable s who \<noteq> 0 \<and> s' = ds_set_claimable who 0 s \<and>
     (\<exists>wn. ds_w_native s = Some wn \<and>
        tok_transfer X E wn (self E) who (as_i128 (ds_get_claimable s who)) w = Some w')"
  by (auto simp: ds_claim_def Let_def res_simps)

lemma ds_claim_token_Ok:
  "ds_claim_token X E who tok (s, w) = Inr (s', w') \<longleftrightarrow>
     (if ds_w_native s = Some tok then ds_claim X E who (s, w) = Inr (s', w')
      else get_token_claimable s who tok \<noteq> 0 \<and> s' = set_token_claimable who tok 0 s \<and>
        tok_transfer X E tok (self E) who (as_i128 (get_token_claimable s who tok)) w = Some w')"
  by (auto simp: ds_claim_token_def Let_def res_simps)

lemma payout_covered:
  assumes "o' + (if u = t then unat a else 0) = (n :: nat)" "int n \<le> bal"
    "bal - (if u = t then as_i128 a else 0) \<le> bal'"
  shows "int o' \<le> bal'"
  using assms as_i128_le [of a] by (cases "u = t") (simp_all del: of_nat_unat)

lemma ds_exec_inv:
  assumes laws: "token_laws X me R" and E: "ds_entry me E" and run: "ds_exec X E c sw = Inr sw'"
    and inv: "ds_inv X me sw"
  shows "ds_inv X me sw'"
proof -
  obtain s w s' w' where sw: "sw = (s, w)" "sw' = (s', w')" by (cases sw, cases sw')
  have cov: "\<And>u. int (owed s u) \<le> tok_balance X u me w" and fin: "finite_store s"
    and rec: "records_ok s" and adm: "ds_admin s \<noteq> None" and wn: "ds_w_native s \<noteq> None"
    using inv sw by (simp_all add: ds_inv_def covered_def)
  have me: "self E = me" "\<not> authed E me" using E by (simp_all add: ds_entry_def)
  show ?thesis
  proof (cases c)
    case (DAdmin d)
    then have s': "ds_admin_exec E d s = Inr s'" "w' = w" using run sw by (auto simp: res_simps)
    have same: "holdings s' = holdings s" and "ds_admin s' \<noteq> None" using admin_frame [OF s'(1)] adm by auto
    then show ?thesis using cov fin rec wn sw s'(2) same_holdings [OF same] by (simp add: ds_inv_def covered_def)
  next
    case (DOpen esc h peer filer ev dl buf tok amt)
    then obtain b where "ds_open_dispute X E esc h peer filer ev dl buf tok amt (s, w) = Inr (b, s', w')"
      using run sw by (auto simp: res_simps)
    then obtain bt d where o': "ds_disputes s h = None" "authed E filer"
      "tok_transfer X E bt filer me (as_i128 b) w = Some w'"
      "tok_balance X bt me w' = tok_balance X bt me w + as_i128 b" "s' = set_dispute h d s"
      "bond d = b" "bond_token d = bt" and ok: "record_ok d"
      using me(1) by (auto simp: record_ok_def elim!: ds_open_Ok)
    have ne: "filer \<noteq> me" using o'(2) me(2) by auto
    have "as_i128 b = int (unat b)" using token_lawsD(1) [OF laws o'(3)] by (rule as_i128_nonneg)
    then have "int (owed s' u) \<le> tok_balance X u me w'" for u
      using owed_set_dispute [OF fin o'(1), of d u] cov [of u] token_lawsD(3) [OF laws ne o'(3), of u] o'
      by (cases "u = bt") auto
    then show ?thesis using o' ok fin rec adm wn sw
      by (auto simp: ds_inv_def covered_def records_ok_def)
  next
    case (DSettle esc h out fb rf)
    then obtain d where d: "ds_disputes s h = Some d"
      "if bond d = 0 then s' = remove_dispute h s \<and> w' = w
        else ds_pay_or_credit X E (bond_goes_to s d (bond_returns_to_filer out fb rf))
          (bond_token d) (bond d) (remove_dispute h s, w) = Inr (s', w')"
      using run sw by (auto simp: ds_settle_Ok)
    have less: "int (owed (remove_dispute h s) u) + (if u = bond_token d then int (unat (bond d)) else 0)
        \<le> tok_balance X u me w" for u
      using owed_remove_dispute [OF fin d(1), of u] cov [of u]
      by (cases "u = bond_token d") (simp_all del: of_nat_unat)
    have rec': "records_ok (remove_dispute h s)" using rec by (auto simp: records_ok_def)
    show ?thesis
    proof (cases "bond d = 0")
      case True
      then have e: "s' = remove_dispute h s" "w' = w" using d(2) by simp_all
      have "int (owed (remove_dispute h s) u) \<le> tok_balance X u me w" for u
        using less [of u] True by (simp split: if_splits)
      then show ?thesis using e rec' fin adm wn sw by (simp add: ds_inv_def covered_def)
    next
      case False
      then have "ds_pay_or_credit X E (bond_goes_to s d (bond_returns_to_filer out fb rf))
          (bond_token d) (bond d) (remove_dispute h s, w) = Inr (s', w')" using d(2) by simp
      from pay_or_credit_covered [OF laws me(1) _ this less] show ?thesis
        using fin rec' adm wn sw by (auto simp: ds_inv_def records_ok_def)
    qed
  next
    case (DRespond esc h who ev)
    then obtain d where d: "ds_disputes s h = Some d" "s' = set_dispute h (d\<lparr>responder_evidence := ev\<rparr>) s"
      "w' = w" using run sw by (auto simp: res_simps ds_respond_Ok)
    then have "record_ok (d\<lparr>responder_evidence := ev\<rparr>)" using rec by (auto simp: records_ok_def record_ok_def)
    moreover have "owed s' u = owed s u" for u using d by (simp add: owed_same_bond [OF fin d(1)])
    ultimately show ?thesis using d cov fin rec adm wn sw by (auto simp: ds_inv_def covered_def records_ok_def)
  next
    case (DResolve h out)
    then obtain d at where d: "ds_disputes s h = Some d" "out \<noteq> TradeProceeds"
      "unat at = max (unat (now E)) (unat (order_deadline d)) + unat (dr_buffer d)"
      "s' = set_dispute h (d\<lparr>ruling := out, challenge_deadline := at\<rparr>) s" "w' = w"
      using run sw by (auto simp: res_simps ds_resolve_Ok)
    then have "record_ok (d\<lparr>ruling := out, challenge_deadline := at\<rparr>)" by (simp add: record_ok_def)
    moreover have "owed s' u = owed s u" for u using d by (simp add: owed_same_bond [OF fin d(1)])
    ultimately show ?thesis using d cov fin rec adm wn sw by (auto simp: ds_inv_def covered_def records_ok_def)
  next
    case (DClaim who)
    then have "ds_claim X E who (s, w) = Inr (s', w')" using run sw by simp
    then obtain n where c: "s' = ds_set_claimable who 0 s" "ds_w_native s = Some n"
      "tok_transfer X E n me who (as_i128 (ds_get_claimable s who)) w = Some w'"
      using me(1) by (auto simp: ds_claim_Ok)
    have "int (owed s' u) \<le> tok_balance X u me w'" for u
      by (rule payout_covered [OF _ cov token_lawsD(2) [OF laws c(3)]])
        (use owed_set_claimable [OF fin c(2), of who 0 u] c(1) in simp)
    then show ?thesis using c fin rec adm wn sw by (auto simp: ds_inv_def covered_def records_ok_def)
  next
    case (DClaimToken who tok)
    then have run': "ds_claim_token X E who tok (s, w) = Inr (s', w')" using run sw by simp
    show ?thesis
    proof (cases "ds_w_native s = Some tok")
      case True
      then have c: "s' = ds_set_claimable who 0 s"
        "tok_transfer X E tok me who (as_i128 (ds_get_claimable s who)) w = Some w'"
        using run' me(1) by (auto simp: ds_claim_token_Ok ds_claim_Ok)
      have "int (owed s' u) \<le> tok_balance X u me w'" for u
        by (rule payout_covered [OF _ cov token_lawsD(2) [OF laws c(2)]])
          (use owed_set_claimable [OF fin True, of who 0 u] c(1) in simp)
      then show ?thesis using c fin rec adm wn sw by (auto simp: ds_inv_def covered_def records_ok_def)
    next
      case False
      then have c: "s' = set_token_claimable who tok 0 s"
        "tok_transfer X E tok me who (as_i128 (get_token_claimable s who tok)) w = Some w'"
        using run' me(1) by (auto simp: ds_claim_token_Ok)
      have "int (owed s' u) \<le> tok_balance X u me w'" for u
        by (rule payout_covered [OF _ cov token_lawsD(2) [OF laws c(2)]])
          (use owed_set_token_claimable [OF fin, of who tok 0 u] c(1) in simp)
      then show ?thesis using c fin rec adm wn sw by (auto simp: ds_inv_def covered_def records_ok_def)
    qed
  qed
qed

lemma ds_reach_inv:
  assumes "ds_reach X me R sw" "token_laws X me R"
  shows "ds_inv X me sw"
  using assms(1)
proof (induction rule: ds_reach.induct)
  case (ds_reach_init adm wn s w)
  then show ?case
    by (auto simp: ds_initialize_def ds_empty_def ds_inv_def covered_def owed_defs finite_store_def
        records_ok_def split: if_splits)
next
  case (ds_reach_call sw E c sw')
  then show ?case using ds_exec_inv [OF assms(2)] by blast
next
  case (ds_reach_world s w w')
  have "int (owed s u) \<le> tok_balance X u me w'" for u
    using ds_reach_world.IH token_lawsD(4) [OF assms(2) ds_reach_world.hyps(2), of u]
    by (auto simp: ds_inv_def covered_def intro: order_trans)
  then show ?case using ds_reach_world.IH by (simp add: ds_inv_def covered_def)
qed

end
