(* ===== verification/Dispute_Interface.thy ===== *)
theory Dispute_Interface
  imports Dispute_Invariants
begin

text \<open>
  What an escrow may rely on in the dispute module, as an interface: a ledger of dispute records that
  anyone's calls move. The laws are about single calls; what follows for runs of calls is proved once
  inside the interface. The module of \<open>Dispute_Manager\<close> is shown to be such a ledger.
\<close>

text \<open>What identifies a dispute: who filed it, through which escrow, and the bond at stake.\<close>

definition same_case :: "dispute_record \<Rightarrow> dispute_record \<Rightarrow> bool" where
  "same_case d d' \<longleftrightarrow> initiator d' = initiator d \<and> dr_escrow d' = dr_escrow d \<and> bond d' = bond d \<and>
     bond_token d' = bond_token d \<and> order_deadline d' = order_deadline d \<and> dr_buffer d' = dr_buffer d \<and>
     (responder_evidence d \<noteq> 0 \<longrightarrow> responder_evidence d' = responder_evidence d)"

text \<open>The record cannot end before the order's own clock.\<close>

definition clock_floor :: "dispute_record \<Rightarrow> bool" where
  "clock_floor d \<longleftrightarrow> unat (order_deadline d) + unat (dr_buffer d) \<le> unat (challenge_deadline d)"

lemma same_case_refl [simp]: "same_case d d"
  by (simp add: same_case_def)

lemma same_case_trans: "same_case a b \<Longrightarrow> same_case b c \<Longrightarrow> same_case a c"
  by (auto simp: same_case_def)

text \<open>A run of calls, each with the environment it is made in.\<close>

inductive chain :: "(env \<Rightarrow> 's \<Rightarrow> 's \<Rightarrow> bool) \<Rightarrow> 's \<Rightarrow> env list \<Rightarrow> 's \<Rightarrow> bool"
  for step :: "env \<Rightarrow> 's \<Rightarrow> 's \<Rightarrow> bool" where
  chain_nil: "chain step s [] s"
| chain_snoc: "chain step s Es s' \<Longrightarrow> step E s' s'' \<Longrightarrow> chain step s (Es @ [E]) s''"

inductive_cases chain_nilE: "chain step s [] s'"

locale dispute_ledger =
  fixes step :: "env \<Rightarrow> 's \<Rightarrow> 's \<Rightarrow> bool"
    and rec_of :: "'s \<Rightarrow> bytes32 \<Rightarrow> dispute_record option"
    and arbiter_of :: "'s \<Rightarrow> address option"
  assumes opens: "step E s s' \<Longrightarrow> rec_of s h = None \<Longrightarrow> rec_of s' h = Some d \<Longrightarrow>
      clock_floor d \<and> ruling d = NoOutcome \<and> authed E (initiator d) \<and> authed E (dr_escrow d)"
    and keeps: "step E s s' \<Longrightarrow> rec_of s h = Some d \<Longrightarrow> rec_of s' h = Some d' \<Longrightarrow>
      same_case d d' \<and> (clock_floor d \<longrightarrow> clock_floor d')"
    and rules: "step E s s' \<Longrightarrow> rec_of s h = Some d \<Longrightarrow> rec_of s' h = Some d' \<Longrightarrow>
      challenge_deadline d' \<noteq> challenge_deadline d \<or> ruling d' \<noteq> ruling d \<Longrightarrow>
      ruling d' \<noteq> TradeProceeds \<and> ruling d' \<noteq> NoOutcome \<and> now E < challenge_deadline d \<and>
      (\<exists>arb. arbiter_of s = Some arb \<and> authed E arb) \<and>
      unat (challenge_deadline d') = max (unat (now E)) (unat (order_deadline d)) + unat (dr_buffer d)"
    and closes: "step E s s' \<Longrightarrow> rec_of s h = Some d \<Longrightarrow> rec_of s' h = None \<Longrightarrow> authed E (dr_escrow d)"
begin

text \<open>As long as its escrow does not act, a dispute stays, and stays the same case.\<close>

lemma case_kept:
  assumes "chain step s Es s'" "rec_of s h = Some d" "\<forall>E\<in>set Es. \<not> authed E (dr_escrow d)"
  shows "\<exists>d'. rec_of s' h = Some d' \<and> same_case d d'"
  using assms
proof (induction rule: chain.induct)
  case (chain_snoc s Es s' E s'')
  then obtain d1 where d1: "rec_of s' h = Some d1" "same_case d d1" by auto
  then have esc: "dr_escrow d1 = dr_escrow d" by (simp add: same_case_def)
  show ?case
  proof (cases "rec_of s'' h")
    case None
    then show ?thesis using closes [OF chain_snoc.hyps(2) d1(1)] chain_snoc.prems esc by simp
  next
    case (Some d2)
    then show ?thesis using keeps [OF chain_snoc.hyps(2) d1(1) Some] d1(2) same_case_trans by blast
  qed
qed simp

text \<open>From an empty ledger, every record satisfies the clock floor and no arbiter settles a trade.\<close>

lemma records_legal:
  assumes "chain step s Es s'" "\<And>h. rec_of s h = None" "rec_of s' h = Some d"
  shows "clock_floor d \<and> ruling d \<noteq> TradeProceeds"
  using assms
proof (induction arbitrary: d rule: chain.induct)
  case (chain_snoc s Es s' E s'')
  show ?case
  proof (cases "rec_of s' h")
    case None
    then show ?thesis using opens [OF chain_snoc.hyps(2) None chain_snoc.prems(2)] by auto
  next
    case (Some d1)
    then have "clock_floor d1 \<and> ruling d1 \<noteq> TradeProceeds" using chain_snoc.IH chain_snoc.prems by blast
    then show ?thesis
      using keeps [OF chain_snoc.hyps(2) Some chain_snoc.prems(2)]
        rules [OF chain_snoc.hyps(2) Some chain_snoc.prems(2)] by (cases "ruling d = ruling d1") auto
  qed
qed simp

text \<open>A ruling on record was made by one of the calls, which no later call overrode.\<close>

lemma ruling_made:
  assumes "chain step s Es s'" "rec_of s h = None" "rec_of s' h = Some d" "ruling d \<noteq> NoOutcome"
  obtains Es1 E Es2 s1 s2 d1 d2 where "Es = Es1 @ E # Es2" "chain step s Es1 s1" "step E s1 s2" "chain step s2 Es2 s'"
    "rec_of s1 h = Some d1" "rec_of s2 h = Some d2" "challenge_deadline d2 \<noteq> challenge_deadline d1 \<or> ruling d2 \<noteq> ruling d1"
    "same_case d1 d" "ruling d2 = ruling d" "challenge_deadline d2 = challenge_deadline d"
proof -
  have "\<exists>Es1 E Es2 s1 s2 d1 d2. Es = Es1 @ E # Es2 \<and> chain step s Es1 s1 \<and> step E s1 s2 \<and> chain step s2 Es2 s' \<and>
    rec_of s1 h = Some d1 \<and> rec_of s2 h = Some d2 \<and>
    (challenge_deadline d2 \<noteq> challenge_deadline d1 \<or> ruling d2 \<noteq> ruling d1) \<and>
    same_case d1 d \<and> ruling d2 = ruling d \<and> challenge_deadline d2 = challenge_deadline d"
    using assms
  proof (induction arbitrary: d rule: chain.induct)
    case (chain_snoc s Es s' E s'')
    note last = chain_snoc.hyps(2)
    obtain d1 where d1: "rec_of s' h = Some d1"
      using opens [OF last _ chain_snoc.prems(2)] chain_snoc.prems(3) by (cases "rec_of s' h") auto
    note sc = keeps [OF last d1 chain_snoc.prems(2), THEN conjunct1]
    show ?case
    proof (cases "challenge_deadline d \<noteq> challenge_deadline d1 \<or> ruling d \<noteq> ruling d1")
      case True
      then show ?thesis
        by (intro exI [of _ Es] exI [of _ E] exI [of _ "[]"] exI [of _ s'] exI [of _ s'']
            exI [of _ d1] exI [of _ d] conjI)
          (use chain_snoc.hyps d1 chain_snoc.prems(2) sc in \<open>simp_all add: chain_nil\<close>)
    next
      case False
      then have "ruling d1 \<noteq> NoOutcome" using chain_snoc.prems(3) by simp
      from chain_snoc.IH [OF chain_snoc.prems(1) d1 this] obtain Es1 E1 Es2 s1 s2 e1 e2 where
        i: "Es = Es1 @ E1 # Es2" "chain step s Es1 s1" "step E1 s1 s2" "chain step s2 Es2 s'"
          "rec_of s1 h = Some e1" "rec_of s2 h = Some e2" "challenge_deadline e2 \<noteq> challenge_deadline e1 \<or> ruling e2 \<noteq> ruling e1"
          "same_case e1 d1" "ruling e2 = ruling d1" "challenge_deadline e2 = challenge_deadline d1"
        by (elim exE conjE) (rule that)
      have "Es @ [E] = Es1 @ E1 # (Es2 @ [E])" "chain step s2 (Es2 @ [E]) s''" "same_case e1 d"
        "ruling e2 = ruling d" "challenge_deadline e2 = challenge_deadline d"
        using i False last sc same_case_trans by (auto intro: chain.chain_snoc)
      then show ?thesis
        by (intro exI [of _ Es1] exI [of _ E1] exI [of _ "Es2 @ [E]"] exI [of _ s1] exI [of _ s2]
            exI [of _ e1] exI [of _ e2] conjI) (use i in simp_all)
    qed
  qed simp
  then show thesis by (elim exE conjE) (rule that)
qed

end

section \<open>The module is such a ledger\<close>

definition ds_step :: "'w ext \<Rightarrow> env \<Rightarrow> dispute_store \<times> 'w \<Rightarrow> dispute_store \<times> 'w \<Rightarrow> bool" where
  "ds_step X E sw sw' \<longleftrightarrow> (\<exists>c. ds_exec X E c sw = Inr sw') \<or> fst sw' = fst sw"

lemma pay_or_credit_disputes:
  "ds_pay_or_credit X E to tok amt (s, w) = Inr (s', w') \<Longrightarrow> ds_disputes s' = ds_disputes s"
  by (auto simp: ds_pay_or_credit_def res_simps split: option.splits if_splits)

text \<open>What a call does to the records: nothing, or one of the four writes.\<close>

lemma ds_exec_records:
  assumes "ds_exec X E c (s, w) = Inr (s', w')"
  shows "ds_disputes s' = ds_disputes s \<or>
    (\<exists>h d. ds_disputes s h = None \<and> ds_disputes s' = (ds_disputes s)(h \<mapsto> d) \<and> clock_floor d \<and>
       ruling d = NoOutcome \<and> authed E (initiator d) \<and> authed E (dr_escrow d)) \<or>
    (\<exists>h d. ds_disputes s h = Some d \<and> ds_disputes s' = (ds_disputes s)(h := None) \<and> authed E (dr_escrow d)) \<or>
    (\<exists>h d ev. ds_disputes s h = Some d \<and> responder_evidence d = 0 \<and>
       ds_disputes s' = (ds_disputes s)(h \<mapsto> d\<lparr>responder_evidence := ev\<rparr>)) \<or>
    (\<exists>h d out at. resolve_dispute E h out s = Inr s' \<and> (\<exists>arb. ds_arbiter s = Some arb \<and> authed E arb) \<and>
       ds_disputes s h = Some d \<and> now E < challenge_deadline d \<and> out \<noteq> TradeProceeds \<and>
       out \<noteq> NoOutcome \<and> unat at = max (unat (now E)) (unat (order_deadline d)) + unat (dr_buffer d) \<and>
       ds_disputes s' = (ds_disputes s)(h \<mapsto> d\<lparr>ruling := out, challenge_deadline := at\<rparr>))"
proof (cases c)
  case (DAdmin d)
  then show ?thesis using assms admin_frame by (auto simp: res_simps holdings_def)
next
  case (DOpen esc h peer filer ev dl buf tok amt)
  then obtain b where "ds_open_dispute X E esc h peer filer ev dl buf tok amt (s, w) = Inr (b, s', w')"
    using assms by (auto simp: res_simps)
  then obtain d where "ds_disputes s h = None" "ds_disputes s' = (ds_disputes s)(h \<mapsto> d)" "clock_floor d"
    "ruling d = NoOutcome" "authed E (initiator d)" "authed E (dr_escrow d)"
    by (auto simp: clock_floor_def elim!: ds_open_Ok)
  then show ?thesis by blast
next
  case (DSettle esc h out fb rf)
  then obtain d where "ds_disputes s h = Some d" "authed E (dr_escrow d)"
    "ds_disputes s' = (ds_disputes s)(h := None)"
    using assms by (auto simp: ds_settle_Ok dest!: pay_or_credit_disputes split: if_splits)
  then show ?thesis by blast
next
  case (DRespond esc h who ev)
  then obtain d where "ds_disputes s h = Some d" "responder_evidence d = 0"
    "ds_disputes s' = (ds_disputes s)(h \<mapsto> d\<lparr>responder_evidence := ev\<rparr>)"
    using assms by (auto simp: res_simps ds_respond_Ok)
  then show ?thesis by blast
next
  case (DResolve h out)
  then have run: "resolve_dispute E h out s = Inr s'" using assms by (simp add: res_simps)
  then obtain arb d at where "ds_arbiter s = Some arb" "authed E arb" "ds_disputes s h = Some d"
    "now E < challenge_deadline d" "out \<noteq> TradeProceeds" "out \<noteq> NoOutcome" "unat at = max (unat (now E)) (unat (order_deadline d)) + unat (dr_buffer d)"
    "ds_disputes s' = (ds_disputes s)(h \<mapsto> d\<lparr>ruling := out, challenge_deadline := at\<rparr>)"
    by (auto simp: ds_resolve_Ok set_dispute_def)
  with run show ?thesis by blast
next
  case (DClaim who)
  then show ?thesis using assms by (auto simp: ds_claim_Ok)
next
  case (DClaimToken who tok)
  then show ?thesis using assms by (auto simp: ds_claim_token_Ok ds_claim_Ok split: if_splits)
qed

interpretation dsp: dispute_ledger "ds_step X" "\<lambda>sw. ds_disputes (fst sw)" "\<lambda>sw. ds_arbiter (fst sw)" for X :: "'w ext"
proof (unfold_locales, goal_cases)
  case (1 E sw sw' h d)
  obtain s w s' w' where sw: "sw = (s, w)" "sw' = (s', w')" by (cases sw, cases sw')
  from 1 sw obtain c where c: "ds_exec X E c (s, w) = Inr (s', w')" by (auto simp: ds_step_def)
  show ?case using ds_exec_records [OF c] 1(2,3) sw by (auto split: if_splits)
next
  case (2 E sw sw' h d d')
  obtain s w s' w' where sw: "sw = (s, w)" "sw' = (s', w')" by (cases sw, cases sw')
  show ?case
  proof (cases "s' = s")
    case False
    then obtain c where c: "ds_exec X E c (s, w) = Inr (s', w')" using 2(1) sw by (auto simp: ds_step_def)
    show ?thesis using ds_exec_records [OF c] 2(2,3) sw
      by (auto simp: same_case_def clock_floor_def split: if_splits)
  qed (use 2 sw in simp)
next
  case (3 E sw sw' h d d')
  obtain s w s' w' where sw: "sw = (s, w)" "sw' = (s', w')" by (cases sw, cases sw')
  have "s' \<noteq> s" using 3(2-4) sw by auto
  then obtain c where c: "ds_exec X E c (s, w) = Inr (s', w')" using 3(1) sw by (auto simp: ds_step_def)
  show ?case using ds_exec_records [OF c] 3(2-4) sw by (auto split: if_splits)
next
  case (4 E sw sw' h d)
  obtain s w s' w' where sw: "sw = (s, w)" "sw' = (s', w')" by (cases sw, cases sw')
  then have "s' \<noteq> s" using 4(2,3) by auto
  then obtain c where c: "ds_exec X E c (s, w) = Inr (s', w')" using 4(1) sw by (auto simp: ds_step_def)
  show ?case using ds_exec_records [OF c] 4(2,3) sw by (auto split: if_splits)
qed

text \<open>A step that changes a ruling or its window is a ruling of the arbiter.\<close>

lemma ds_step_ruling:
  assumes "ds_step X E (s, w) (s', w')" "ds_disputes s h = Some d" "ds_disputes s' h = Some d'"
    and "challenge_deadline d' \<noteq> challenge_deadline d \<or> ruling d' \<noteq> ruling d"
  shows "resolve_dispute E h (ruling d') s = Inr s'"
proof -
  have "s' \<noteq> s" using assms(2-4) by auto
  then obtain c where c: "ds_exec X E c (s, w) = Inr (s', w')" using assms(1) by (auto simp: ds_step_def)
  show ?thesis using ds_exec_records [OF c] assms(2-4) by (auto split: if_splits)
qed

end
