(* ===== verification/Token_Ledger.thy ===== *)
theory Token_Ledger
  imports Custody
begin

text \<open>
  A token ledger that keeps the laws of \<open>Custody\<close>, built from plain balances: the instance at which
  the properties that assume the laws are shown to apply.
\<close>

type_synonym ledger = "address \<Rightarrow> address \<Rightarrow> int"

text \<open>\<open>L t a\<close>: what \<open>a\<close> holds of token \<open>t\<close>.\<close>

definition ledger_transfer :: "env \<Rightarrow> address \<Rightarrow> address \<Rightarrow> address \<Rightarrow> int \<Rightarrow> ledger \<Rightarrow> ledger option" where
  "ledger_transfer E t from to a L =
     (if a < 0 \<or> L t from < a then None
      else let L1 = L(t := (L t)(from := L t from - a))
           in Some (L1(t := (L1 t)(to := L1 t to + a))))"

text \<open>Deposits and other people's transfers: nothing that spends what \<open>me\<close> holds.\<close>

definition ledger_moves :: "address \<Rightarrow> ledger \<Rightarrow> ledger \<Rightarrow> bool" where
  "ledger_moves me L L' \<longleftrightarrow> (\<forall>t. L t me \<le> L' t me)"

lemma ledger_transfer_Some:
  "ledger_transfer E t from to a L = Some L' \<Longrightarrow> 0 \<le> a \<and> a \<le> L t from \<and>
     L' u who = L u who - (if u = t \<and> who = from then a else 0) + (if u = t \<and> who = to then a else 0)"
  by (auto simp: ledger_transfer_def Let_def split: if_splits)

lemma ledger_laws:
  assumes "tok_transfer X = ledger_transfer" "tok_balance X = (\<lambda>t who L. L t who)"
  shows "token_laws X me (ledger_moves me)"
  unfolding token_laws_def assms ledger_moves_def
proof (intro conjI allI impI)
  fix E t sr to a L L' u
  assume "ledger_transfer E t sr to a L = Some L'"
  then show "0 \<le> a" by (auto simp: ledger_transfer_def split: if_splits)
next
  fix E t to a u and L L' :: ledger
  assume "ledger_transfer E t me to a L = Some L'"
  from ledger_transfer_Some [OF this, of u me] show "L u me - (if u = t then a else 0) \<le> L' u me" by simp
next
  fix E t sr to a u and L L' :: ledger
  assume "sr \<noteq> me" "ledger_transfer E t sr to a L = Some L'"
  with ledger_transfer_Some [OF this(2), of u me] show "L u me \<le> L' u me" by simp
next
  fix u and L L' :: ledger
  assume "\<forall>t. L t me \<le> L' t me"
  then show "L u me \<le> L' u me" by blast
qed

section \<open>A world of one ledger\<close>

text \<open>The contracts around answer as working ones would; only the tokens have a state.\<close>

definition ledger_ext :: "ledger ext" where
  "ledger_ext = \<lparr>tok_transfer = ledger_transfer, tok_balance = (\<lambda>t who L. L t who),
     tok_decimals = (\<lambda>_ _. Some 7), mm_append = (\<lambda>_ _ _ _ _ w. Some w),
     zk_verify = (\<lambda>_ _ _ _. True), rv_root_valid = (\<lambda>_ _ _ _ _ _. Some True),
     rv_registry = (\<lambda>_ _. None), ra_is_anchored = (\<lambda>_ _ _ _ _. True),
     ra_anchor_delay = (\<lambda>_ _ _. Some 600), kr_has_usable_slot = (\<lambda>_ _ _ _. Some True),
     kr_is_approved_maker = (\<lambda>_ _ _ _ _. True), kr_commitment_at = (\<lambda>_ _ _ _ _. Some 1),
     kr_expired_at = (\<lambda>_ _ _ _. Some 0), kr_repin_approval = (\<lambda>_ _ _ _. Some (0, 1, 1)),
     dm_open_dispute = (\<lambda>_ _ _ _ _ _ _ _ _ _ _ w. Inr (5, w)),
     dm_settle_bond = (\<lambda>_ _ _ _ _ _ _ w. Inr w), dm_record_response = (\<lambda>_ _ _ _ _ _ w. Inr w),
     dm_outcome_of = (\<lambda>_ _ _ _. Inr (NoOutcome, True, None)),
     dm_initiator_of = (\<lambda>_ _ _. Inr None), dm_challenge_deadline_of = (\<lambda>_ _ _. Inr 0)\<rparr>"

lemma ledger_ext_simps [simp]:
  "tok_transfer ledger_ext = ledger_transfer" "tok_balance ledger_ext t who L = L t who"
  "tok_decimals ledger_ext t L = Some 7" "mm_append ledger_ext E a b h k L = Some L"
  "zk_verify ledger_ext a xs ys L" "rv_root_valid ledger_ext E a c r bs L = Some True"
  "ra_is_anchored ledger_ext E a c r L"
  by (simp_all add: ledger_ext_def)

lemma ledger_ext_laws: "token_laws ledger_ext me (ledger_moves me)"
  by (rule ledger_laws) (simp_all add: ledger_ext_def)

end
