(* ===== verification/Dispute_Properties.thy ===== *)
theory Dispute_Properties
  imports Dispute_Interface Token_Ledger
begin

text \<open>
  The properties of the dispute manager: it can always pay what it owes, a dispute runs at least to
  its order's own clock and never ends for the filer by an arbiter's trade, an outcome it reports is its
  arbiter's ruling with a full window after it, only its escrow can end it, the escrow's settlement always goes through, and a bond is bounded by what it insures.
\<close>

section \<open>A run on concrete data\<close>

definition dd_me :: address where "dd_me = ContractAddr 70"
definition dd_escrow :: address where "dd_escrow = ContractAddr 10"
definition dd_filer :: address where "dd_filer = AccountAddr 3"
definition dd_token :: address where "dd_token = ContractAddr 16"

definition dd_env :: "u64 \<Rightarrow> env" where
  "dd_env t = \<lparr>now = t, self = dd_me, authed = (\<lambda>a. a = AccountAddr 1 \<or> a = dd_escrow \<or> a = dd_filer),
     prims = \<lparr>keccak256 = (\<lambda>_. 1), xdr_hash = (\<lambda>_ _. 1), xdr_args = (\<lambda>_. Some []),
       fr_reduce = (\<lambda>x. x), poseidon = (\<lambda>_. 0)\<rparr>\<rparr>"

definition dd_world :: ledger where
  "dd_world = (\<lambda>_ who. if who = dd_filer then 1000 else 0)"

definition dd_start :: dispute_store where
  "dd_start = ds_empty\<lparr>ds_admin := Some (AccountAddr 1), ds_w_native := Some dd_token,
     ds_escrows := [dd_escrow \<mapsto> True],
     ds_params := [7 \<mapsto> \<lparr>challenge_period = 3600, bond_floor = 50\<rparr>], ds_arbiter := Some (AccountAddr 1)\<rparr>"

definition dd_record :: dispute_record where
  "dd_record = \<lparr>initiator = dd_filer, bond = 50, challenge_deadline = 10500, initiator_evidence = 5,
     responder_evidence = 0, ruling = NoOutcome, dr_escrow = dd_escrow, order_deadline = 10000,
     dr_buffer = 500, bond_token = dd_token\<rparr>"

definition dd_open :: dispute_store where
  "dd_open = dd_start\<lparr>ds_disputes := [66 \<mapsto> dd_record]\<rparr>"

definition dd_after :: ledger where
  "dd_after = dd_world(dd_token := (dd_world dd_token)(dd_filer := 950, dd_me := 50))"

lemmas dd_addresses = dd_me_def dd_escrow_def dd_filer_def dd_token_def

lemma dd_entry: "ds_entry dd_me (dd_env t)"
  by (simp add: ds_entry_def dd_env_def dd_addresses)

lemma dd_simps [simp]: "now (dd_env t) = t" "self (dd_env t) = dd_me"
  "authed (dd_env t) a \<longleftrightarrow> a = AccountAddr 1 \<or> a = dd_escrow \<or> a = dd_filer"
  by (simp_all add: dd_env_def)

lemma dd_start_reach: "ds_reach ledger_ext dd_me R (dd_start, dd_world)"
proof -
  let ?s0 = "ds_empty\<lparr>ds_admin := Some (AccountAddr 1), ds_w_native := Some dd_token\<rparr>"
  let ?s1 = "?s0\<lparr>ds_escrows := [dd_escrow \<mapsto> True]\<rparr>"
  let ?s2 = "?s1\<lparr>ds_params := [7 \<mapsto> \<lparr>challenge_period = 3600, bond_floor = 50\<rparr>]\<rparr>"
  have gates: "gate_keyed E adm f args k tl_init = (if authed E adm then Ok tl_init else Trapped)"
    for E adm f args k by (simp add: gate_keyed_def is_active_def tl_init_def require_auth_def guarded_def)
  have "ds_initialize (AccountAddr 1) dd_token ds_empty = Inr ?s0"
    by (simp add: ds_initialize_def ds_empty_def)
  then have "ds_reach ledger_ext dd_me R (?s0, dd_world)"
    by (rule ds_reach_init) (simp add: dd_world_def)
  moreover have "ds_exec ledger_ext (dd_env 0) (DAdmin (DSetEscrow dd_escrow True)) (?s0, dd_world) = Inr (?s1, dd_world)"
    by (simp add: ds_set_escrow_def ds_empty_def gate_unless_def gates)
  ultimately have "ds_reach ledger_ext dd_me R (?s1, dd_world)" using dd_entry by (blast intro: ds_reach_call)
  moreover have "ds_exec ledger_ext (dd_env 0) (DAdmin (DSetParams 7 \<lparr>challenge_period = 3600, bond_floor = 50\<rparr>))
      (?s1, dd_world) = Inr (?s2, dd_world)"
    by (simp add: set_dispute_params_def ds_gate_def ds_empty_def gate_def gates validate_dispute_def
        MIN_CHALLENGE_PERIOD_def MAX_CHALLENGE_PERIOD_def I128_MAX_def)
  ultimately have "ds_reach ledger_ext dd_me R (?s2, dd_world)" using dd_entry by (blast intro: ds_reach_call)
  moreover have "ds_exec ledger_ext (dd_env 0) (DAdmin (DSetArbiter (AccountAddr 1))) (?s2, dd_world) =
      Inr (dd_start, dd_world)"
    by (simp add: set_arbiter_def ds_gate_def ds_empty_def gate_def gates dd_start_def)
  ultimately show ?thesis using dd_entry by (blast intro: ds_reach_call)
qed

lemma dd_open_exec:
  "ds_exec ledger_ext (dd_env 400) (DOpen dd_escrow 66 7 dd_filer 5 10000 500 dd_token 900)
     (dd_start, dd_world) = Inr (dd_open, dd_after)"
  by (simp add: ds_open_dispute_def require_escrow_def require_auth_def is_escrow_def dd_start_def ds_empty_def
      bond_of_def bond_for_def ledger_transfer_def dd_world_def dd_addresses as_i128_def cadd_def
      set_dispute_def dd_open_def dd_record_def dd_after_def Let_def fun_upd_twist)

lemma dd_open_reach: "ds_reach ledger_ext dd_me R (dd_open, dd_after)"
  by (rule ds_reach_call [OF dd_start_reach dd_entry dd_open_exec])

section \<open>It can pay what it owes\<close>

text \<open>C14: In every reachable state, for every token, the bonds of the open disputes plus the credited
  payouts never exceed what the module holds of that token.\<close>

theorem dispute_solvent:
  assumes "ds_reach X me R (s, w)" "token_laws X me R"
  shows "int (owed s u) \<le> tok_balance X u me w"
  using ds_reach_inv [OF assms] by (simp add: ds_inv_def covered_def)

theorem dispute_solvent_witness:
  "int (owed dd_open dd_token) \<le> tok_balance ledger_ext dd_token dd_me dd_after \<and> owed dd_open dd_token = 50"
proof -
  have "owed dd_open dd_token = 50"
    by (simp add: owed_defs dd_open_def dd_start_def ds_empty_def tally_def dd_record_def)
  then show ?thesis using dispute_solvent [OF dd_open_reach ledger_ext_laws, of dd_token] by simp
qed

section \<open>The clock and the ruling\<close>

text \<open>C15: A dispute read as over (\<open>outcome_of\<close> with its window past) is over by right. It is read so only
  from the order's own deadline plus buffer on, whatever happened; and an outcome other than none was ruled
  by the arbiter while the window was open, never as a settled trade, and the parties then had a fresh
  window of the whole buffer, from the ruling or from the order's deadline, whichever is later.\<close>

theorem no_early_outcome:
  assumes "chain (ds_step X) (s0, w0) Es (s, w)" "ds_disputes s0 = Map.empty"
    and "outcome_of E h s = (out, True, Some who)"
  shows "\<exists>d. ds_disputes s h = Some d \<and> initiator d = who \<and>
    unat (order_deadline d) + unat (dr_buffer d) \<le> unat (now E) \<and>
    (out = NoOutcome \<or>
     (\<exists>Es1 E1 Es2 s1 w1 s2 w2 d1 arb. Es = Es1 @ E1 # Es2 \<and> chain (ds_step X) (s0, w0) Es1 (s1, w1) \<and>
        resolve_dispute E1 h out s1 = Inr s2 \<and> chain (ds_step X) (s2, w2) Es2 (s, w) \<and>
        ds_arbiter s1 = Some arb \<and> authed E1 arb \<and> out \<noteq> TradeProceeds \<and>
        ds_disputes s1 h = Some d1 \<and> same_case d1 d \<and> now E1 < challenge_deadline d1 \<and>
        max (unat (now E1)) (unat (order_deadline d)) + unat (dr_buffer d) \<le> unat (now E)))"
proof -
  obtain d where d: "ds_disputes s h = Some d" "ruling d = out" "initiator d = who"
    "challenge_deadline d \<le> now E"
    using assms(3) by (auto simp: outcome_of_def split: option.splits)
  have "clock_floor d" using dsp.records_legal [OF assms(1), of h d] assms(2) d(1) by simp
  then have floor: "unat (order_deadline d) + unat (dr_buffer d) \<le> unat (now E)"
    using d(4) by (simp add: clock_floor_def word_le_nat_alt)
  show ?thesis
  proof (cases "out = NoOutcome")
    case True
    then show ?thesis using d floor by blast
  next
    case False
    have rec: "ds_disputes (fst (s0, w0)) h = None" "ds_disputes (fst (s, w)) h = Some d" "ruling d \<noteq> NoOutcome"
      using assms(2) d(1,2) False by simp_all
    obtain Es1 E1 Es2 sw1 sw2 d1 d2 where r: "Es = Es1 @ E1 # Es2" "chain (ds_step X) (s0, w0) Es1 sw1"
      "ds_step X E1 sw1 sw2" "chain (ds_step X) sw2 Es2 (s, w)"
      "ds_disputes (fst sw1) h = Some d1" "ds_disputes (fst sw2) h = Some d2"
      "challenge_deadline d2 \<noteq> challenge_deadline d1 \<or> ruling d2 \<noteq> ruling d1"
      "same_case d1 d" "ruling d2 = ruling d" "challenge_deadline d2 = challenge_deadline d"
      by (rule dsp.ruling_made [OF assms(1) rec])
    obtain s1 w1 s2 w2 where sw: "sw1 = (s1, w1)" "sw2 = (s2, w2)" by (cases sw1, cases sw2)
    have call: "resolve_dispute E1 h out s1 = Inr s2"
      using ds_step_ruling [OF r(3) [unfolded sw], of h d1 d2] r(5-7,9) d(2) sw by simp
    have law: "ruling d2 \<noteq> TradeProceeds" "now E1 < challenge_deadline d1"
      "\<exists>arb. ds_arbiter s1 = Some arb \<and> authed E1 arb"
      "unat (challenge_deadline d2) = max (unat (now E1)) (unat (order_deadline d1)) + unat (dr_buffer d1)"
      using dsp.rules [OF r(3,5,6,7)] sw by simp_all
    have "max (unat (now E1)) (unat (order_deadline d)) + unat (dr_buffer d) \<le> unat (now E)"
      using law(4) r(8,10) d(4) by (simp add: same_case_def word_le_nat_alt)
    then show ?thesis using d floor r(1,2,4,5,8,9) sw call law(1-3) by fastforce
  qed
qed

lemma dd_chain: "chain (ds_step ledger_ext) (dd_start, dd_world) [dd_env 400] (dd_open, dd_after)"
proof -
  have "ds_step ledger_ext (dd_env 400) (dd_start, dd_world) (dd_open, dd_after)"
    using dd_open_exec unfolding ds_step_def by blast
  from chain_snoc [of "ds_step ledger_ext", OF chain_nil this] show ?thesis by simp
qed

text \<open>The arbiter rules late, at 10200: the window, which would have closed at 10500, closes at 10700.\<close>

definition dd_ruled :: dispute_store where
  "dd_ruled = set_dispute 66 (dd_record\<lparr>ruling := BridgerForfeit, challenge_deadline := 10700\<rparr>) dd_open"

lemma dd_ruled_chain: "chain (ds_step ledger_ext) (dd_start, dd_world) ([dd_env 400] @ [dd_env 10200]) (dd_ruled, dd_after)"
proof -
  have "ds_exec ledger_ext (dd_env 10200) (DResolve 66 BridgerForfeit) (dd_open, dd_after) = Inr (dd_ruled, dd_after)"
    by (simp add: resolve_dispute_def dd_open_def dd_start_def ds_empty_def require_auth_def dd_ruled_def
        dd_record_def cadd_def)
  then have "ds_step ledger_ext (dd_env 10200) (dd_open, dd_after) (dd_ruled, dd_after)"
    unfolding ds_step_def by blast
  with dd_chain show ?thesis by (rule chain_snoc)
qed

theorem no_early_outcome_witness:
  "outcome_of (dd_env 10699) 66 dd_ruled = (BridgerForfeit, False, Some dd_filer) \<and>
   outcome_of (dd_env 10700) 66 dd_ruled = (BridgerForfeit, True, Some dd_filer) \<and>
   (\<exists>s1 E1 s2. resolve_dispute E1 66 BridgerForfeit s1 = Inr s2 \<and> unat (now E1) + 500 \<le> 10700)"
proof -
  have o': "outcome_of (dd_env 10699) 66 dd_ruled = (BridgerForfeit, False, Some dd_filer)"
    "outcome_of (dd_env 10700) 66 dd_ruled = (BridgerForfeit, True, Some dd_filer)"
    by (simp_all add: outcome_of_def dd_ruled_def set_dispute_def dd_open_def dd_record_def)
  have "ds_disputes dd_start = Map.empty" by (simp add: dd_start_def ds_empty_def)
  note no_early_outcome [OF dd_ruled_chain this o'(2)]
  then obtain d s1 E1 s2 where d: "ds_disputes dd_ruled 66 = Some d" "resolve_dispute E1 66 BridgerForfeit s1 = Inr s2"
    "max (unat (now E1)) (unat (order_deadline d)) + unat (dr_buffer d) \<le> unat (now (dd_env 10700))"
    by auto
  then have "dr_buffer d = 500" by (auto simp: dd_ruled_def set_dispute_def dd_record_def)
  then have "unat (now E1) + 500 \<le> 10700" using d(3) by simp
  then show ?thesis using d(2) o' by blast
qed

section \<open>Only its escrow ends a dispute\<close>

text \<open>Through any run of calls that the dispute's escrow does not authorize, by anyone, the dispute
  stays open and stays the same case: its filer, its bond, its order's clock, and an answer once given.\<close>

theorem dispute_case_kept:
  assumes "chain (ds_step X) (s, w) Es (s', w')" "ds_disputes s h = Some d"
    and "\<forall>E\<in>set Es. \<not> authed E (dr_escrow d)"
  shows "\<exists>d'. ds_disputes s' h = Some d' \<and> same_case d d'"
  using dsp.case_kept [OF assms(1), of h d] assms(2,3) by simp

definition dd_stranger :: "u64 \<Rightarrow> env" where
  "dd_stranger t = (dd_env t)\<lparr>authed := (\<lambda>a. a = AccountAddr 1)\<rparr>"

theorem dispute_case_kept_witness:
  "\<exists>s'. ds_exec ledger_ext (dd_stranger 500) (DResolve 66 BridgerForfeit) (dd_open, dd_after) = Inr (s', dd_after) \<and>
    (\<exists>d'. ds_disputes s' 66 = Some d' \<and> same_case dd_record d')"
proof -
  let ?d = "dd_record\<lparr>ruling := BridgerForfeit, challenge_deadline := 10500\<rparr>"
  have run: "ds_exec ledger_ext (dd_stranger 500) (DResolve 66 BridgerForfeit) (dd_open, dd_after) =
      Inr (set_dispute 66 ?d dd_open, dd_after)"
    by (simp add: resolve_dispute_def dd_open_def dd_start_def ds_empty_def require_auth_def dd_stranger_def
        dd_env_def dd_record_def cadd_def)
  then have "ds_step ledger_ext (dd_stranger 500) (dd_open, dd_after) (set_dispute 66 ?d dd_open, dd_after)"
    unfolding ds_step_def by blast
  with chain_nil have "chain (ds_step ledger_ext) (dd_open, dd_after) ([] @ [dd_stranger 500])
      (set_dispute 66 ?d dd_open, dd_after)" by (rule chain_snoc)
  from dispute_case_kept [OF this, of 66 dd_record] show ?thesis
    using run by (auto simp: dd_open_def dd_stranger_def dd_record_def dd_addresses)
qed

section \<open>The escrow's settlement goes through\<close>

lemma claimable_le_owed:
  assumes "finite_store s"
  shows "unat (claimable_token who u s) \<le> owed s u"
proof (cases "ds_w_native s = Some u")
  case True
  then show ?thesis using tally_member [of "ds_claims s" who _ "\<lambda>_ a. unat a"] assms
    by (cases "ds_claims s who")
      (force simp: claimable_token_def ds_get_claimable_def owed_defs finite_store_def)+
next
  case False
  then show ?thesis
    using tally_member [of "ds_token_claims s" "(who, u)" _ "\<lambda>k a. if snd k = u then unat a else 0"] assms
    by (cases "ds_token_claims s (who, u)")
      (force simp: claimable_token_def get_token_claimable_def owed_defs finite_store_def)+
qed

text \<open>A payout is made or credited, whoever is paid and in whatever token.\<close>

lemma pay_or_credit_total:
  assumes "ds_w_native s \<noteq> None" "unat (claimable_token who tok s) + unat a < 2 ^ 128"
  shows "\<exists>s' w'. ds_pay_or_credit X E who tok a (s, w) = Inr (s', w') \<and>
    ds_disputes s' = ds_disputes s \<and> ds_admin s' = ds_admin s \<and>
    (case tok_transfer X E tok (self E) who (as_i128 a) w of
       Some w1 \<Rightarrow> w' = w1 \<and> claimable_token who tok s' = claimable_token who tok s
     | None \<Rightarrow> w' = w \<and> unat (claimable_token who tok s') = unat (claimable_token who tok s) + unat a)"
proof (cases "tok_transfer X E tok (self E) who (as_i128 a) w")
  case None
  obtain wn where wn: "ds_w_native s = Some wn" using assms(1) by blast
  have "unat (claimable_token who tok s + a) = unat (claimable_token who tok s) + unat a"
    using assms(2) by (simp add: unat_add_small)
  then show ?thesis using None wn assms(2)
    by (cases "tok = wn") (simp_all add: ds_pay_or_credit_def cadd_def claimable_token_def ds_get_claimable_def
        ds_set_claimable_def get_token_claimable_def set_token_claimable_def)
qed (simp add: ds_pay_or_credit_def)

text \<open>C16: The escrow that opened a dispute can always settle it: the record is erased and the bond goes to
  the filer or the protocol pool exactly as the outcome says, paid if the token's transfer works and
  credited in full to the same party if it does not. No token and no recipient can block an order's end.\<close>

theorem bond_always_settles:
  assumes "ds_reach X (self E) R (s, w)" "token_laws X (self E) R"
    and "ds_disputes s h = Some d" "authed E (dr_escrow d)"
    and "\<And>u. tok_balance X u (self E) w < 2 ^ 127"
  shows "\<exists>s' w'. ds_settle_bond X E (dr_escrow d) h out fb rf (s, w) = Inr (s', w') \<and>
    \<not> is_disputed h s' \<and> ds_admin s' = ds_admin s \<and>
    (bond d = 0 \<or> (let payee = bond_goes_to s d (bond_returns_to_filer out fb rf) in
      case tok_transfer X E (bond_token d) (self E) payee (as_i128 (bond d)) w of
        Some w1 \<Rightarrow> w' = w1 \<and> claimable_token payee (bond_token d) s' = claimable_token payee (bond_token d) s
      | None \<Rightarrow> w' = w \<and> unat (claimable_token payee (bond_token d) s') =
          unat (claimable_token payee (bond_token d) s) + unat (bond d)))"
proof -
  have inv: "ds_inv X (self E) (s, w)" by (rule ds_reach_inv [OF assms(1,2)])
  then have fin: "finite_store s" and wn: "ds_w_native s \<noteq> None"
    and cov: "int (owed s u) \<le> tok_balance X u (self E) w" for u by (auto simp: ds_inv_def covered_def)
  let ?s1 = "remove_dispute h s" and ?who = "bond_goes_to s d (bond_returns_to_filer out fb rf)"
  show ?thesis
  proof (cases "bond d = 0")
    case True
    then have "ds_settle_bond X E (dr_escrow d) h out fb rf (s, w) = Inr (?s1, w)"
      using assms(3,4) by (simp add: ds_settle_Ok)
    then show ?thesis using True by (auto simp: is_disputed_def)
  next
    case False
    have "int (owed s (bond_token d)) < 2 ^ 127" using cov [of "bond_token d"] assms(5) [of "bond_token d"] by linarith
    then have "owed s (bond_token d) < 2 ^ 127" by simp
    moreover have "owed ?s1 (bond_token d) + unat (bond d) = owed s (bond_token d)"
      using owed_remove_dispute [OF fin assms(3), of "bond_token d"] by simp
    moreover have same: "claimable_token who t ?s1 = claimable_token who t s" for who t
      by (simp add: claimable_token_def ds_get_claimable_def get_token_claimable_def remove_dispute_def)
    moreover have "unat (claimable_token ?who (bond_token d) ?s1) \<le> owed ?s1 (bond_token d)"
      using fin by (intro claimable_le_owed) simp
    ultimately have "unat (claimable_token ?who (bond_token d) ?s1) + unat (bond d) < 2 ^ 128" by simp
    from pay_or_credit_total [OF _ this, of X E w] wn obtain s' w' where
      "ds_pay_or_credit X E ?who (bond_token d) (bond d) (?s1, w) = Inr (s', w')"
      "ds_disputes s' = ds_disputes ?s1" "ds_admin s' = ds_admin ?s1"
      "case tok_transfer X E (bond_token d) (self E) ?who (as_i128 (bond d)) w of
         Some w1 \<Rightarrow> w' = w1 \<and> claimable_token ?who (bond_token d) s' = claimable_token ?who (bond_token d) s
       | None \<Rightarrow> w' = w \<and> unat (claimable_token ?who (bond_token d) s') =
           unat (claimable_token ?who (bond_token d) s) + unat (bond d)"
      unfolding same by auto
    then show ?thesis using False assms(3,4)
      by (auto simp: ds_settle_Ok is_disputed_def Let_def simp del: bond_returns_to_filer.simps)
  qed
qed

theorem bond_always_settles_witness:
  "\<exists>s' w'. ds_settle_bond ledger_ext (dd_env 600) dd_escrow 66 MutualRefund True False (dd_open, dd_after) = Inr (s', w') \<and>
    \<not> is_disputed 66 s'"
proof -
  have r: "ds_reach ledger_ext (self (dd_env 600)) (ledger_moves dd_me) (dd_open, dd_after)"
    using dd_open_reach by simp
  have l: "token_laws ledger_ext (self (dd_env 600)) (ledger_moves dd_me)" by (simp add: ledger_ext_laws)
  have d: "ds_disputes dd_open 66 = Some dd_record" by (simp add: dd_open_def)
  have e: "dr_escrow dd_record = dd_escrow" by (simp add: dd_record_def)
  have "tok_balance ledger_ext u (self (dd_env 600)) dd_after < 2 ^ 127" for u
    by (simp add: dd_after_def dd_world_def dd_addresses)
  from bond_always_settles [OF r l d _ this, of MutualRefund True False] show ?thesis
    unfolding e by (auto simp del: split_paired_Ex)
qed

section \<open>The bond is bounded by what it insures\<close>

text \<open>The settings a bond is computed from are validated ones.\<close>

definition settings_ok :: "dispute_store \<Rightarrow> bool" where
  "settings_ok s \<longleftrightarrow>
     (\<forall>c p. ds_params s c = Some p \<longrightarrow> validate_dispute p = (Inr () :: (u8, unit) res)) \<and>
     (\<forall>k cfg. ds_bond_configs s k = Some cfg \<longrightarrow> validate_bond cfg \<and> min_bond cfg \<noteq> 0)"

definition settings :: "dispute_store \<Rightarrow> (u128 \<rightharpoonup> dispute_params) \<times> (address \<times> u128 \<rightharpoonup> bond_config)" where
  "settings s = (ds_params s, ds_bond_configs s)"

lemma settings_ok_cong: "settings s' = settings s \<Longrightarrow> settings_ok s \<Longrightarrow> settings_ok s'"
  by (simp add: settings_def settings_ok_def)

lemma ds_gate_settings: "ds_gate E f args s = Inr s1 \<Longrightarrow> settings s1 = settings s"
  by (auto simp: ds_gate_def settings_def res_simps)

lemma pay_or_credit_settings:
  "ds_pay_or_credit X E who tok a (s, w) = Inr (s', w') \<Longrightarrow> settings s' = settings s"
  by (auto simp: ds_pay_or_credit_def ds_set_claimable_def set_token_claimable_def settings_def res_simps
      split: option.splits if_splits)

lemma settings_writes [simp]:
  "settings (set_dispute h d s) = settings s" "settings (remove_dispute h s) = settings s"
  "settings (ds_set_claimable who a s) = settings s" "settings (set_token_claimable who tok a s) = settings s"
  by (simp_all add: settings_def set_dispute_def remove_dispute_def ds_set_claimable_def set_token_claimable_def)

lemma admin_settings_ok:
  assumes "ds_admin_exec E c s = Inr s'" "settings_ok s"
  shows "settings_ok s'"
proof (cases c)
  case (DSetParams ch p)
  then show ?thesis using assms
    by (auto simp: set_dispute_params_Ok settings_ok_def settings_def dest!: ds_gate_settings split: if_splits)
next
  case (DSetBondConfig t ch cfg)
  then show ?thesis using assms
    by (auto simp: set_bond_config_def store_bond_config_def res_simps settings_ok_def settings_def
        dest!: ds_gate_settings split: if_splits)
qed (use assms in \<open>auto simp: ds_admin_defs res_simps settings_def settings_ok_def dest!: ds_gate_settings\<close>)

lemma call_settings:
  assumes "ds_exec X E c (s, w) = Inr (s', w')" "\<And>d. c \<noteq> DAdmin d"
  shows "settings s' = settings s"
proof (cases c)
  case (DSettle esc h out fb rf)
  then show ?thesis using assms(1) by (auto simp: ds_settle_Ok dest!: pay_or_credit_settings split: if_splits)
qed (use assms in \<open>auto simp: res_simps ds_respond_Ok ds_resolve_Ok ds_claim_Ok ds_claim_token_Ok
    elim!: ds_open_Ok split: if_splits\<close>)

lemma ds_reach_settings: "ds_reach X me R sw \<Longrightarrow> settings_ok (fst sw)"
proof (induction rule: ds_reach.induct)
  case (ds_reach_call sw E c sw')
  obtain s w s' w' where sw: "sw = (s, w)" "sw' = (s', w')" by (cases sw, cases sw')
  show ?case
  proof (cases "\<exists>d. c = DAdmin d")
    case True
    then show ?thesis using ds_reach_call sw by (auto simp: res_simps intro: admin_settings_ok)
  next
    case False
    have "ds_exec X E c (s, w) = Inr (s', w')" using ds_reach_call.hyps(3) sw by simp
    from call_settings [OF this] False have "settings s' = settings s" by blast
    then show ?thesis using settings_ok_cong ds_reach_call.IH sw by simp
  qed
qed (auto simp: ds_initialize_def ds_empty_def settings_ok_def split: if_splits)

text \<open>For a chain whose disputes are configured, the bond is always computable; on a configured route it
  is in the order's own token, at least the floor and at most a twentieth of the order or the floor;
  elsewhere it is the chain's floor in the wrapped native token. It is never zero.\<close>

theorem bond_bounded:
  assumes "ds_reach X me R (s, w)" "token_laws X me R" "ds_params s peer = Some p"
  shows "\<exists>bt b. ds_route_bond peer tok amt s = Inr (bt, b) \<and> 0 < unat b \<and>
    (case ds_bond_configs s (tok, peer) of
       Some cfg \<Rightarrow> bt = tok \<and> unat (min_bond cfg) \<le> unat b \<and>
         unat b \<le> max (unat amt div 20) (unat (min_bond cfg))
     | None \<Rightarrow> ds_w_native s = Some bt \<and> b = bond_floor p)"
proof -
  have ok: "settings_ok s" using ds_reach_settings [OF assms(1)] by simp
  obtain wn where wn: "ds_w_native s = Some wn" using ds_reach_inv [OF assms(1,2)] by (auto simp: ds_inv_def)
  show ?thesis
  proof (cases "ds_bond_configs s (tok, peer)")
    case None
    have "0 < unat (bond_floor p)" using ok assms(3) by (auto simp: settings_ok_def validate_dispute_Ok)
    then show ?thesis using None wn assms(3) by (simp add: ds_route_bond_def bond_of_def bond_for_def)
  next
    case (Some cfg)
    then have v: "validate_bond cfg" "min_bond cfg \<noteq> 0" using ok by (auto simp: settings_ok_def)
    obtain b where b: "route_bond cfg amt = (Inr b :: (dispute_error, u128) res)" "unat (min_bond cfg) \<le> unat b"
      using route_bond_legal [OF v, of amt, where 'e = dispute_error] by blast
    have "unat (bond_bps cfg) \<le> 500" using v by (auto simp: validate_bond_iff)
    then have "unat amt * unat (bond_bps cfg) div 10000 \<le> unat amt * 500 div 10000"
      by (intro div_le_mono mult_le_mono2)
    also have "unat amt * 500 div 10000 = unat amt div 20" by simp
    finally have "unat b \<le> max (unat amt div 20) (unat (min_bond cfg))"
      using b(1) by (auto simp: route_bond_Ok)
    moreover have "0 < unat b" using b(2) v(2) by (simp add: word_unat_eq_iff)
    ultimately show ?thesis using Some b assms(3) by (simp add: ds_route_bond_def bond_of_def)
  qed
qed

theorem bond_bounded_witness:
  "ds_route_bond 7 dd_token 900 dd_start = Inr (dd_token, 50)"
proof -
  have "ds_params dd_start 7 = Some \<lparr>challenge_period = 3600, bond_floor = 50\<rparr>" by (simp add: dd_start_def)
  from bond_bounded [OF dd_start_reach ledger_ext_laws this, of dd_token 900] show ?thesis
    by (auto simp: dd_start_def ds_empty_def)
qed

end
