(* ===== verification/Portal_Types.thy ===== *)
theory Portal_Types
  imports Escrow_Ops Decimal_Scaling
begin

text \<open>
  The order-portal's own data, error table, storage, order hash and validation
  (\<open>contracts/order-portal/src/{types,errors,storage,eip712,validation}.rs\<close>). Error constructors carry
  the prefix \<open>Op\<close>, operations the prefix \<open>op_\<close>, order fields the prefix \<open>q_\<close>.
\<close>

section \<open>Errors\<close>

datatype portal_error =
  OpFault fault | OpZeroAmount | OpBridgerMustBeSender | OpInvalidAdRecipient | OpRoutesZeroAddress |
  OpInsufficientLiquidity | OpAdChainNotSupported | OpAdManagerMismatch | OpMissingRoute |
  OpAdTokenMismatch | OpOrderExists | OpOrderNotOpen | OpNullifierUsed | OpZeroAddress |
  OpVerifierCallFailed | OpAlreadyInitialized | OpNotInitialized | OpOrderDecimalsMismatch |
  OpAdDecimalsMismatch | OpRootNotValid | OpRootVerifierNotSet | OpOrderExpired | OpInvalidFee |
  OpRecipientZero | OpRecipientIsMaker

fun op_fault_code :: "fault \<Rightarrow> nat" where
  "op_fault_code ContractPaused = 71"
| "op_fault_code NoRouteTiming = 75"
| "op_fault_code DeadlineTooSoon = 77"
| "op_fault_code DeadlineTooFar = 90"
| "op_fault_code TooEarly = 79"
| "op_fault_code NotClaimable = 78"
| "op_fault_code NotClaimed = 80"
| "op_fault_code NoRootAnchor = 81"
| "op_fault_code RootNotAnchored = 82"
| "op_fault_code NotFilled = 84"
| "op_fault_code SettledRecorded = 83"
| "op_fault_code NothingToClaim = 73"
| "op_fault_code InvalidTiming = 76"
| "op_fault_code NotPendingAdmin = 72"
| "op_fault_code NonCanonicalInput = 89"
| "op_fault_code TokenZeroAddress = 1"
| "op_fault_code MerkleAppendFailed = 40"
| "op_fault_code InvalidProof = 23"
| "op_fault_code DecimalsOutOfRange = 60"
| "op_fault_code NonExactDownscale = 61"
| "op_fault_code DecimalOverflow = 62"
| "op_fault_code InvalidAccountAddress = 70"
| "op_fault_code TransferShort = 106"
| "op_fault_code TimelockAlreadyActive = 108"
| "op_fault_code TimelockAlreadyProposed = 109"
| "op_fault_code TimelockNotProposed = 110"
| "op_fault_code TimelockTooEarly = 111"
| "op_fault_code TimelockBadArgs = 112"
| "op_fault_code TimelockExpired = 114"
| "op_fault_code TimelockCancelledByBrake = 115"
| "op_fault_code NoDisputeManager = 92"
| "op_fault_code NotDisputable = 92"
| "op_fault_code DisputeNotResolved = 92"
| "op_fault_code DisputeWindowClosed = 92"
| "op_fault_code DisputeModuleRejected = 92"
| "op_fault_code DisputeNoParams = 92"
| "op_fault_code DisputeNotEscrow = 92"
| "op_fault_code DisputeExists = 92"
| "op_fault_code DisputeWrongEscrow = 92"
| "op_fault_code DisputeNotResponder = 92"
| "op_fault_code DisputeBondTransferFailed = 92"
| "op_fault_code DisputeResponseWindowClosed = 92"
| "op_fault_code DisputeAlreadyResponded = 92"
| "op_fault_code DisputeZeroResponse = 92"
| "op_fault_code DisputeAlreadyRuled = 92"

fun op_error_code :: "portal_error \<Rightarrow> nat" where
  "op_error_code (OpFault f) = op_fault_code f"
| "op_error_code OpZeroAmount = 2"
| "op_error_code OpBridgerMustBeSender = 3"
| "op_error_code OpInvalidAdRecipient = 4"
| "op_error_code OpRoutesZeroAddress = 5"
| "op_error_code OpInsufficientLiquidity = 6"
| "op_error_code OpAdChainNotSupported = 10"
| "op_error_code OpAdManagerMismatch = 11"
| "op_error_code OpMissingRoute = 12"
| "op_error_code OpAdTokenMismatch = 13"
| "op_error_code OpOrderExists = 20"
| "op_error_code OpOrderNotOpen = 21"
| "op_error_code OpNullifierUsed = 22"
| "op_error_code OpZeroAddress = 30"
| "op_error_code OpVerifierCallFailed = 41"
| "op_error_code OpAlreadyInitialized = 50"
| "op_error_code OpNotInitialized = 51"
| "op_error_code OpOrderDecimalsMismatch = 63"
| "op_error_code OpAdDecimalsMismatch = 64"
| "op_error_code OpRootNotValid = 65"
| "op_error_code OpRootVerifierNotSet = 66"
| "op_error_code OpOrderExpired = 74"
| "op_error_code OpInvalidFee = 113"
| "op_error_code OpRecipientZero = 116"
| "op_error_code OpRecipientIsMaker = 117"

text \<open>The question mark on a shared check: \<open>From<Fault>\<close>.\<close>

definition opl :: "(fault, 'v) res \<Rightarrow> (portal_error, 'v) res" where
  "opl m = map_err OpFault m"

lemma opl_Ok [res_simps]: "opl m = Inr v \<longleftrightarrow> m = Inr v"
  by (simp add: opl_def res_simps)

section \<open>Data and storage\<close>

record portal_params =
  q_order_chain_token :: bytes32
  q_ad_chain_token :: bytes32
  q_amount :: u128
  q_bridger :: bytes32
  q_order_recipient :: bytes32
  q_ad_chain_id :: u128
  q_ad_manager :: bytes32
  q_ad_id :: string
  q_ad_creator :: bytes32
  q_ad_recipient :: bytes32
  q_salt :: bytes32
  q_order_decimals :: u32
  q_ad_decimals :: u32
  q_deadline :: u64
  q_ad_settlement_signer :: bytes32
  q_lp_fee_bps :: u32
  q_protocol_fee_bps :: u32

record portal_store = escrow_store +
  po_chains :: "u128 \<rightharpoonup> bytes32"

definition op_get_config :: "portal_store \<Rightarrow> (portal_error, contract_config) res" where
  "op_get_config s = ok_or (st_config s) OpNotInitialized"

definition op_get_chain :: "portal_store \<Rightarrow> u128 \<Rightarrow> bytes32 option" where
  "op_get_chain s c = po_chains s c"

definition store_chain :: "u128 \<Rightarrow> bytes32 \<Rightarrow> portal_store \<Rightarrow> portal_store" where
  "store_chain c m s = s\<lparr>po_chains := (po_chains s)(c \<mapsto> m)\<rparr>"

definition erase_chain :: "u128 \<Rightarrow> portal_store \<Rightarrow> portal_store" where
  "erase_chain c s = s\<lparr>po_chains := (po_chains s)(c := None)\<rparr>"

lemma op_get_config_Ok [res_simps]: "op_get_config s = Inr c \<longleftrightarrow> st_config s = Some c"
  by (simp add: op_get_config_def res_simps)

section \<open>The order hash\<close>

text \<open>The portal's view of the order: the order chain and portal are this chain and contract.\<close>

definition op_order_of :: "crypto \<Rightarrow> portal_params \<Rightarrow> u128 \<Rightarrow> bytes32 \<Rightarrow> ('e, eip_order) res" where
  "op_order_of C p order_chain_id' order_portal =
     attempt (abi_encode_string C (q_ad_id p)) (\<lambda>ad_id_hash.
     Ok \<lparr>eo_order_chain_token = q_order_chain_token p,
         eo_ad_chain_token = q_ad_chain_token p,
         eo_amount = q_amount p,
         eo_bridger = q_bridger p,
         eo_order_chain_id = order_chain_id',
         eo_order_portal = order_portal,
         eo_order_recipient = q_order_recipient p,
         eo_ad_chain_id = q_ad_chain_id p,
         eo_ad_manager = q_ad_manager p,
         eo_ad_id_hash = ad_id_hash,
         eo_ad_creator = q_ad_creator p,
         eo_ad_recipient = q_ad_recipient p,
         eo_salt = q_salt p,
         eo_order_decimals = q_order_decimals p,
         eo_ad_decimals = q_ad_decimals p,
         eo_deadline = q_deadline p,
         eo_ad_settlement_signer = q_ad_settlement_signer p,
         eo_lp_fee_bps = q_lp_fee_bps p,
         eo_protocol_fee_bps = q_protocol_fee_bps p\<rparr>)"

definition op_order_hash :: "env \<Rightarrow> contract_config \<Rightarrow> portal_params \<Rightarrow> ('e, bytes32) res" where
  "op_order_hash E cfg p =
     attempt (op_order_of (prims E) p (chain_id cfg) (address_to_bytes32 (self E))) (\<lambda>o'.
     Ok (typed_order_hash (prims E) o'))"

definition op_hash_order :: "env \<Rightarrow> portal_params \<Rightarrow> portal_store \<Rightarrow> (portal_error, bytes32) res" where
  "op_hash_order E p s = attempt (op_get_config s) (\<lambda>cfg. op_order_hash E cfg p)"

section \<open>Validation\<close>

definition op_validate_order :: "portal_store \<Rightarrow> portal_params \<Rightarrow> (portal_error, unit) res" where
  "op_validate_order s p =
     attempt (ensure (q_amount p \<noteq> 0) OpZeroAmount) (\<lambda>_.
     attempt (ensure (\<not> (q_lp_fee_bps p > MAX_FEE_BPS \<or> q_protocol_fee_bps p > MAX_FEE_BPS))
       OpInvalidFee) (\<lambda>_.
     attempt (ensure (\<not> is_zero_bytes32 (q_ad_recipient p)) OpInvalidAdRecipient) (\<lambda>_.
     attempt (opl (bytes32_to_account_address (q_ad_recipient p))) (\<lambda>_.
     attempt (ensure (\<not> is_zero_bytes32 (q_order_recipient p)) OpRecipientZero) (\<lambda>_.
     attempt (ensure (\<not> (q_order_recipient p = q_ad_creator p \<or>
                         q_order_recipient p = q_ad_settlement_signer p)) OpRecipientIsMaker) (\<lambda>_.
     attempt (opl (map_err fault_of_scaling (assert_in_range (q_order_decimals p)))) (\<lambda>_.
     attempt (opl (map_err fault_of_scaling (assert_in_range (q_ad_decimals p)))) (\<lambda>_.
     attempt (ok_or (op_get_chain s (q_ad_chain_id p)) OpAdChainNotSupported) (\<lambda>ad_manager.
     attempt (ensure (ad_manager = q_ad_manager p) OpAdManagerMismatch) (\<lambda>_.
     attempt (ok_or (get_token_route s (q_order_chain_token p) (q_ad_chain_id p)) OpMissingRoute)
       (\<lambda>route.
     ensure (route = q_ad_chain_token p) OpAdTokenMismatch)))))))))))"

definition assert_order_decimals ::
  "'w ext \<Rightarrow> portal_params \<Rightarrow> address \<Rightarrow> 'w \<Rightarrow> (portal_error, unit) res" where
  "assert_order_decimals X p w_native w =
     attempt (opl (token_decimals X (q_order_chain_token p) w_native w)) (\<lambda>on_chain.
     if on_chain \<noteq> q_order_decimals p then Fail OpOrderDecimalsMismatch else Ok ())"

end
