(* ===== verification/Portal.thy ===== *)
theory Portal
  imports Portal_Types
begin

text \<open>
  The order-portal's entry points (\<open>contracts/order-portal/src/lib.rs\<close>), in the order the source has
  them. This leg follows the ad leg: it opens orders, pays the maker on a co-signed unlock or on a
  proof of the ad leg's leaf, and refunds only on a proof of its CANCEL leaf.
\<close>

section \<open>Initialization, pause, handover, timelock\<close>

definition op_initialize ::
  "env \<Rightarrow> address \<Rightarrow> address \<Rightarrow> address \<Rightarrow> address \<Rightarrow> u128 \<Rightarrow> portal_store \<Rightarrow>
   (portal_error, portal_store) res" where
  "op_initialize E adm vf mm wn cid s =
     (if st_initialized s then Fail OpAlreadyInitialized
      else if adm = self E then Fail OpZeroAddress
      else Ok (s\<lparr>st_config := Some \<lparr>admin = adm, verifier = vf, merkle_manager = mm,
                  w_native_token = wn, chain_id = cid\<rparr>,
                st_initialized := True\<rparr>))"

text \<open>The opening of every admin entry point: the config, and the admin's authorization.\<close>

definition op_as_admin ::
  "env \<Rightarrow> portal_store \<Rightarrow> (contract_config \<Rightarrow> (portal_error, 'r) res) \<Rightarrow> (portal_error, 'r) res" where
  "op_as_admin E s k =
     attempt (op_get_config s) (\<lambda>cfg. attempt (require_auth E (admin cfg)) (\<lambda>_. k cfg))"

definition op_pause :: "env \<Rightarrow> portal_store \<Rightarrow> (portal_error, portal_store) res" where
  "op_pause E s = op_as_admin E s (\<lambda>_. Ok (pause s))"

definition op_unpause :: "env \<Rightarrow> portal_store \<Rightarrow> (portal_error, portal_store) res" where
  "op_unpause E s = op_as_admin E s (\<lambda>_. Ok (unpause s))"

definition op_transfer_admin :: "env \<Rightarrow> address \<Rightarrow> portal_store \<Rightarrow> (portal_error, portal_store) res" where
  "op_transfer_admin E to s = op_as_admin E s (\<lambda>_. Ok (transfer_admin to s))"

definition op_accept_admin :: "env \<Rightarrow> portal_store \<Rightarrow> (portal_error, portal_store) res" where
  "op_accept_admin E s =
     attempt (opl (pending_admin s)) (\<lambda>pending.
     attempt (require_auth E pending) (\<lambda>_.
     attempt (op_get_config s) (\<lambda>cfg. opl (accept_admin cfg pending s))))"

definition op_activate_timelock :: "env \<Rightarrow> portal_store \<Rightarrow> (portal_error, portal_store) res" where
  "op_activate_timelock E s = op_as_admin E s (\<lambda>_. opl (with_timelock activate s))"

definition op_propose_action ::
  "env \<Rightarrow> string \<Rightarrow> bytes \<Rightarrow> portal_store \<Rightarrow> (portal_error, bytes32 \<times> portal_store) res" where
  "op_propose_action E fn_name args s =
     op_as_admin E s (\<lambda>_. attempt (opl (propose E fn_name args (st_timelock s))) (\<lambda>(ident, tlk).
       Ok (ident, s\<lparr>st_timelock := tlk\<rparr>)))"

definition op_cancel_action :: "env \<Rightarrow> bytes32 \<Rightarrow> portal_store \<Rightarrow> (portal_error, portal_store) res" where
  "op_cancel_action E ident s = op_as_admin E s (\<lambda>_. opl (with_timelock (cancel_proposal ident) s))"

definition op_timelock_eta :: "env \<Rightarrow> bytes32 \<Rightarrow> portal_store \<Rightarrow> (portal_error, u64) res" where
  "op_timelock_eta E ident s = opl (eta E (st_timelock s) ident)"

section \<open>Timelocked setters\<close>

text \<open>The opening of a timelocked setter: the config, then the gate under the setter's name.\<close>

definition op_gated ::
  "env \<Rightarrow> string \<Rightarrow> val list \<Rightarrow> portal_store \<Rightarrow> (portal_store \<Rightarrow> (portal_error, 'r) res) \<Rightarrow>
   (portal_error, 'r) res" where
  "op_gated E fn_name args s k =
     attempt (op_get_config s) (\<lambda>cfg.
     attempt (opl (with_timelock (gate E (admin cfg) fn_name args) s)) k)"

definition op_set_chain :: "env \<Rightarrow> u128 \<Rightarrow> bytes32 \<Rightarrow> portal_store \<Rightarrow> (portal_error, portal_store) res" where
  "op_set_chain E c m s =
     op_gated E ''set_chain'' [VU128 c, VBytes32 m] s (\<lambda>s.
     if is_zero_bytes32 m then Fail OpZeroAddress else Ok (store_chain c m s))"

definition op_set_root_verifier ::
  "env \<Rightarrow> u128 \<Rightarrow> address \<Rightarrow> portal_store \<Rightarrow> (portal_error, portal_store) res" where
  "op_set_root_verifier E c m s =
     attempt (op_get_config s) (\<lambda>cfg. opl (set_root_verifier_gated E (admin cfg) c m s))"

definition op_unset_root_verifier :: "env \<Rightarrow> u128 \<Rightarrow> portal_store \<Rightarrow> (portal_error, portal_store) res" where
  "op_unset_root_verifier E c s =
     attempt (op_get_config s) (\<lambda>cfg. opl (unset_root_verifier E (admin cfg) c s))"

definition op_timing_val :: "route_timing \<Rightarrow> val" where
  "op_timing_val t =
     VVec [VU64 (buffer t), VU64 (claim_stagger t), VU64 (margin t), VU64 (min_window t)]"

definition op_set_route_timing ::
  "env \<Rightarrow> u128 \<Rightarrow> route_timing \<Rightarrow> portal_store \<Rightarrow> (portal_error, portal_store) res" where
  "op_set_route_timing E c t s =
     op_gated E ''set_route_timing'' [VU128 c, op_timing_val t] s (\<lambda>s. opl (set_route_timing c t s))"

definition op_set_root_anchor :: "env \<Rightarrow> address \<Rightarrow> portal_store \<Rightarrow> (portal_error, portal_store) res" where
  "op_set_root_anchor E a s =
     op_gated E ''set_root_anchor'' [VAddr a] s (\<lambda>s. Ok (set_root_anchor a s))"

definition op_remove_chain :: "env \<Rightarrow> u128 \<Rightarrow> portal_store \<Rightarrow> (portal_error, portal_store) res" where
  "op_remove_chain E c s =
     op_gated E ''remove_chain'' [VU128 c] s (\<lambda>s. Ok (erase_chain c s))"

definition op_set_token_route ::
  "env \<Rightarrow> bytes32 \<Rightarrow> u128 \<Rightarrow> bytes32 \<Rightarrow> portal_store \<Rightarrow> (portal_error, portal_store) res" where
  "op_set_token_route E order_tok c ad_tok s =
     op_gated E ''set_token_route'' [VBytes32 order_tok, VU128 c, VBytes32 ad_tok] s (\<lambda>s.
     if is_zero_bytes32 order_tok \<or> is_zero_bytes32 ad_tok then Fail OpRoutesZeroAddress
     else attempt (ok_or (op_get_chain s c) OpAdChainNotSupported) (\<lambda>_.
       Ok (store_token_route order_tok c ad_tok s)))"

definition op_remove_token_route ::
  "env \<Rightarrow> bytes32 \<Rightarrow> u128 \<Rightarrow> portal_store \<Rightarrow> (portal_error, portal_store) res" where
  "op_remove_token_route E order_tok c s =
     op_gated E ''remove_token_route'' [VBytes32 order_tok, VU128 c] s (\<lambda>s.
     Ok (erase_token_route order_tok c s))"

section \<open>Opening an order\<close>

definition create_order ::
  "'w ext \<Rightarrow> env \<Rightarrow> portal_params \<Rightarrow> portal_store \<times> 'w \<Rightarrow>
   (portal_error, bytes32 \<times> portal_store \<times> 'w) res" where
  "create_order X E p = (\<lambda>(s, w).
     if st_paused s then Fail (OpFault ContractPaused)
     else attempt (op_get_config s) (\<lambda>cfg.
     attempt (op_validate_order s p) (\<lambda>_.
     attempt (assert_order_decimals X p (w_native_token cfg) w) (\<lambda>_.
     attempt (opl (require_min_window E s (q_ad_chain_id p) (q_deadline p))) (\<lambda>tv.
     attempt (op_order_hash E cfg p) (\<lambda>h.
     attempt (ensure (get_order_status s h = StNone) OpOrderExists) (\<lambda>_.
     attempt (opl (bytes32_to_account_address (q_bridger p))) (\<lambda>bridger.
     attempt (require_auth E bridger) (\<lambda>_.
     attempt (opl (transfer_from_user X E (q_order_chain_token p) (w_native_token cfg) bridger
       (q_amount p) w)) (\<lambda>w1.
     attempt (opl (append_to_merkle X E (merkle_manager cfg) h LEAF_DOMAIN_AD w1)) (\<lambda>w2.
     let s1 = open_order E h tv 0 0 0 s in
     attempt (cadd (get_in_flight s1 (q_bridger p)) 1) (\<lambda>n.
     Ok (h, set_in_flight (q_bridger p) n s1, w2)))))))))))))"

section \<open>Payouts\<close>

definition pay_maker ::
  "'w ext \<Rightarrow> env \<Rightarrow> contract_config \<Rightarrow> portal_params \<Rightarrow> portal_store \<times> 'w \<Rightarrow>
   (portal_error, portal_store \<times> 'w) res" where
  "pay_maker X E cfg p sw =
     pay_or_credit X E (w_native_token cfg) (q_ad_recipient p) (q_order_chain_token p) (q_amount p) sw"

definition refund_bridger ::
  "'w ext \<Rightarrow> env \<Rightarrow> contract_config \<Rightarrow> portal_params \<Rightarrow> portal_store \<times> 'w \<Rightarrow>
   (portal_error, portal_store \<times> 'w) res" where
  "refund_bridger X E cfg p sw =
     pay_or_credit X E (w_native_token cfg) (q_bridger p) (q_order_chain_token p) (q_amount p) sw"

section \<open>The co-signed unlock\<close>

definition op_unlock ::
  "'w ext \<Rightarrow> env \<Rightarrow> portal_params \<Rightarrow> bytes32 \<Rightarrow> bytes32 \<Rightarrow> bytes \<Rightarrow> bytes \<Rightarrow> portal_store \<times> 'w \<Rightarrow>
   (portal_error, portal_store \<times> 'w) res" where
  "op_unlock X E p nullifier_hash target_root proof' cosig_data = (\<lambda>(s, w).
     attempt (op_get_config s) (\<lambda>cfg.
     attempt (op_order_hash E cfg p) (\<lambda>h.
     attempt (ensure (get_order_status s h = Open) OpOrderNotOpen) (\<lambda>_.
     attempt (ensure (\<not> is_nullifier_used s nullifier_hash) OpNullifierUsed) (\<lambda>_.
     attempt (opl (order_timing s h (q_ad_chain_id p))) (\<lambda>t.
     attempt (ensure (\<not> now E > saturating_sub (q_deadline p) (claim_stagger t)) OpOrderExpired) (\<lambda>_.
     attempt (opl (build_public_inputs (prims E) nullifier_hash target_root h 0)) (\<lambda>public_inputs.
     attempt (ok_or (st_root_verifiers s (q_ad_chain_id p)) OpRootVerifierNotSet) (\<lambda>module.
     attempt (is_root_valid X E module (q_ad_chain_id p) target_root (q_ad_settlement_signer p)
       (q_bridger p) h UNPINNED nullifier_hash ENVELOPE_SIDE_ORDER cosig_data w) (\<lambda>valid.
     attempt (ensure valid OpRootNotValid) (\<lambda>_.
     attempt (opl (verify_proof X (verifier cfg) public_inputs proof' w)) (\<lambda>_.
     attempt (fill h (q_bridger p) (set_nullifier_used nullifier_hash s)) (\<lambda>s2.
     pay_maker X E cfg p (s2, w))))))))))))))"

section \<open>Termination by evidence\<close>

text \<open>What the three evidence paths share up to the proof of the ad leg's leaf.\<close>

definition by_leaf ::
  "'w ext \<Rightarrow> env \<Rightarrow> portal_params \<Rightarrow> bytes32 \<Rightarrow> bytes \<Rightarrow> u32 \<Rightarrow> portal_store \<times> 'w \<Rightarrow>
   (contract_config \<Rightarrow> bytes32 \<Rightarrow> (portal_error, 'r) res) \<Rightarrow> (portal_error, 'r) res" where
  "by_leaf X E p target_root proof' leaf sw k =
     attempt (op_get_config (fst sw)) (\<lambda>cfg.
     attempt (op_order_hash E cfg p) (\<lambda>h.
     attempt (opl (require_presentable (fst sw) h)) (\<lambda>_.
     attempt (opl (require_anchored X E (q_ad_chain_id p) target_root sw)) (\<lambda>_.
     let inputs = build_event_public_inputs (prims E) target_root h leaf in
     attempt (opl (verify_proof X (verifier cfg) inputs proof' (snd sw))) (\<lambda>_. k cfg h)))))"

definition refund_by_cancel ::
  "'w ext \<Rightarrow> env \<Rightarrow> portal_params \<Rightarrow> bytes32 \<Rightarrow> bytes \<Rightarrow> portal_store \<times> 'w \<Rightarrow>
   (portal_error, portal_store \<times> 'w) res" where
  "refund_by_cancel X E p target_root proof' sw =
     by_leaf X E p target_root proof' LEAF_DOMAIN_CANCEL sw (\<lambda>cfg h.
     attempt (cancel h (q_bridger p) (fst sw)) (\<lambda>s2.
     refund_bridger X E cfg p (s2, snd sw)))"

definition op_present_settled ::
  "'w ext \<Rightarrow> env \<Rightarrow> portal_params \<Rightarrow> bytes32 \<Rightarrow> bytes \<Rightarrow> portal_store \<times> 'w \<Rightarrow>
   (portal_error, portal_store \<times> 'w) res" where
  "op_present_settled X E p target_root proof' sw =
     by_leaf X E p target_root proof' LEAF_DOMAIN_SETTLED sw (\<lambda>cfg h.
     attempt (fill h (q_bridger p) (fst sw)) (\<lambda>s2.
     pay_maker X E cfg p (s2, snd sw)))"

definition pay_maker_by_forfeit ::
  "'w ext \<Rightarrow> env \<Rightarrow> portal_params \<Rightarrow> bytes32 \<Rightarrow> bytes \<Rightarrow> portal_store \<times> 'w \<Rightarrow>
   (portal_error, portal_store \<times> 'w) res" where
  "pay_maker_by_forfeit X E p target_root proof' sw =
     by_leaf X E p target_root proof' LEAF_DOMAIN_FORFEIT sw (\<lambda>cfg h.
     attempt (fill h (q_bridger p) (fst sw)) (\<lambda>s2.
     pay_maker X E cfg p (set_settled_recorded h s2, snd sw)))"

definition op_record_settled ::
  "'w ext \<Rightarrow> env \<Rightarrow> portal_params \<Rightarrow> portal_store \<times> 'w \<Rightarrow> (portal_error, portal_store \<times> 'w) res" where
  "op_record_settled X E p sw =
     attempt (op_get_config (fst sw)) (\<lambda>cfg.
     attempt (op_order_hash E cfg p) (\<lambda>h.
     opl (record_settled X E (merkle_manager cfg) h sw)))"

definition op_claim ::
  "'w ext \<Rightarrow> env \<Rightarrow> bytes32 \<Rightarrow> bytes32 \<Rightarrow> portal_store \<times> 'w \<Rightarrow> (portal_error, portal_store \<times> 'w) res" where
  "op_claim X E recipient token sw =
     attempt (op_get_config (fst sw)) (\<lambda>cfg. opl (claim X E cfg recipient token sw))"

section \<open>Views\<close>

definition op_has_open_positions :: "portal_store \<Rightarrow> bytes32 \<Rightarrow> bool" where
  "op_has_open_positions s account \<longleftrightarrow> get_in_flight s account > 0"

definition op_get_dest_token :: "portal_store \<Rightarrow> bytes32 \<Rightarrow> u128 \<Rightarrow> bytes32" where
  "op_get_dest_token s order_tok c = or_default (get_token_route s order_tok c) 0"

definition op_get_chain_id :: "portal_store \<Rightarrow> (portal_error, u128) res" where
  "op_get_chain_id s = attempt (op_get_config s) (\<lambda>cfg. Ok (chain_id cfg))"

end
