(* ===== verification/Escrow_Custody.thy ===== *)
theory Escrow_Custody
  imports Escrow_Facts Custody
begin

text \<open>
  What an escrow owes through its pull payments against what it holds, for either escrow: how each
  payment operation moves the two, under the token laws of \<open>Custody\<close>.
\<close>

text \<open>The credited payouts of one token contract.\<close>

definition credited :: "address \<Rightarrow> 'a escrow_store_scheme \<Rightarrow> address \<Rightarrow> nat" where
  "credited wn s u =
     tally (\<lambda>k a. if token_contract wn (snd k) = u then unat a else 0) (st_claimables s)"

definition finite_claims :: "'a escrow_store_scheme \<Rightarrow> bool" where
  "finite_claims s \<longleftrightarrow> finite (dom (st_claimables s))"

text \<open>
  The wrapped native token credits the receiver what a transfer says (the Stellar asset contract's
  documented behaviour); the escrows measure every other token's receipt instead.
\<close>

definition exact_token :: "'w ext \<Rightarrow> address \<Rightarrow> address \<Rightarrow> bool" where
  "exact_token X me t \<longleftrightarrow> (\<forall>E sender a w w'. sender \<noteq> me \<longrightarrow> tok_transfer X E t sender me a w = Some w' \<longrightarrow>
     tok_balance X t me w + a \<le> tok_balance X t me w')"

text \<open>Appending a leaf spends no tokens (the merkle manager calls no token contract).\<close>

definition append_spends_nothing :: "'w ext \<Rightarrow> address \<Rightarrow> bool" where
  "append_spends_nothing X me \<longleftrightarrow> (\<forall>E mm h k w w' u. mm_append X E mm me h k w = Some w' \<longrightarrow>
     tok_balance X u me w \<le> tok_balance X u me w')"

definition escrow_laws :: "'w ext \<Rightarrow> address \<Rightarrow> address \<Rightarrow> ('w \<Rightarrow> 'w \<Rightarrow> bool) \<Rightarrow> bool" where
  "escrow_laws X me wn R \<longleftrightarrow> token_laws X me R \<and> exact_token X me wn \<and> append_spends_nothing X me"

lemma escrow_lawsD:
  assumes "escrow_laws X me wn R"
  shows "token_laws X me R" "exact_token X me wn"
    "mm_append X E mm me h k w = Some w' \<Longrightarrow> tok_balance X u me w \<le> tok_balance X u me w'"
proof -
  show "token_laws X me R" "exact_token X me wn" using assms by (simp_all add: escrow_laws_def)
  have "append_spends_nothing X me" using assms by (simp add: escrow_laws_def)
  then show "mm_append X E mm me h k w = Some w' \<Longrightarrow> tok_balance X u me w \<le> tok_balance X u me w'"
    unfolding append_spends_nothing_def by blast
qed

lemma credited_set_claimable:
  assumes "finite_claims s"
  shows "credited wn (set_claimable r t n s) u +
      (if token_contract wn t = u then unat (get_claimable s r t) else 0) =
    credited wn s u + (if token_contract wn t = u then unat n else 0)"
proof (cases "n = 0")
  case True
  then show ?thesis
    using tally_remove [of "st_claimables s" "\<lambda>k a. if token_contract wn (snd k) = u then unat a else 0" "(r, t)"]
      assms by (auto simp: credited_def set_claimable_def get_claimable_def finite_claims_def or_default_def
        split: option.splits)
next
  case False
  then show ?thesis
    using tally_update [of "st_claimables s" "\<lambda>k a. if token_contract wn (snd k) = u then unat a else 0" "(r, t)" n]
      assms by (auto simp: credited_def set_claimable_def get_claimable_def finite_claims_def or_default_def
        split: option.splits)
qed

lemma finite_claims_set [simp]: "finite_claims s \<Longrightarrow> finite_claims (set_claimable r t n s)"
  by (simp add: finite_claims_def set_claimable_def)

lemma credited_cong: "st_claimables s' = st_claimables s \<Longrightarrow> credited wn s' u = credited wn s u"
  "st_claimables s' = st_claimables s \<Longrightarrow> finite_claims s' = finite_claims s"
  by (simp_all add: credited_def finite_claims_def)

text \<open>How far the credits exceed the holdings of one token.\<close>

definition exposure :: "'w ext \<Rightarrow> address \<Rightarrow> address \<Rightarrow> 'a escrow_store_scheme \<times> 'w \<Rightarrow> address \<Rightarrow> int" where
  "exposure X me wn = (\<lambda>(s, w) u. int (credited wn s u) - tok_balance X u me w)"

lemma pay_or_credit_exposure:
  assumes "token_laws X me R" "self E = me" "finite_claims s"
    and "(pay_or_credit X E wn r t a (s, w) :: ('e, 'a escrow_store_scheme \<times> 'w) res) = Inr (s', w')"
  shows "exposure X me wn (s', w') u \<le> exposure X me wn (s, w) u +
      (if token_contract wn t = u then int (unat a) else 0) \<and> finite_claims s'"
  using assms(4) unfolding pay_or_credit_Ok
proof (elim disjE conjE exE)
  assume "try_transfer_to_recipient X E t wn r a w = Some w'" "s' = s"
  then have tr: "tok_transfer X E (token_contract wn t) me (AccountAddr r) (as_i128 a) w = Some w'"
    using assms(2) by (simp add: try_transfer_to_recipient_eq split: if_splits)
  show ?thesis using token_lawsD(2) [OF assms(1) tr, of u] as_i128_le [of a] assms(3) \<open>s' = s\<close>
    by (auto simp: exposure_def split: if_splits)
next
  fix owed :: u128
  assume "w' = w" "unat owed = unat (get_claimable s r t) + unat a" "s' = set_claimable r t owed s"
  then show ?thesis using credited_set_claimable [OF assms(3), of wn r t owed u] assms(3)
    by (auto simp: exposure_def split: if_splits)
qed

lemma claim_exposure:
  assumes "token_laws X me R" "self E = me" "finite_claims s" "w_native_token cfg = wn"
    and "claim X E cfg r t (s, w) = Inr (s', w')"
  shows "exposure X me wn (s', w') u \<le> exposure X me wn (s, w) u \<and> finite_claims s'"
proof -
  have s': "s' = set_claimable r t 0 s" and
    tr: "tok_transfer X E (token_contract wn t) me (AccountAddr r) (as_i128 (get_claimable s r t)) w = Some w'"
    using assms(2,4,5) by (auto simp: claim_def Let_def res_simps split: if_splits)
  show ?thesis
    using credited_set_claimable [OF assms(3), of wn r t 0 u] token_lawsD(2) [OF assms(1) tr, of u]
      as_i128_le [of "get_claimable s r t"] assms(3) s'
    by (cases "u = token_contract wn t") (simp_all add: exposure_def del: of_nat_unat)
qed

text \<open>A pull that returned brought in the whole amount.\<close>

lemma pull_received:
  assumes "escrow_laws X me wn R" "self E = me" "sender \<noteq> me"
    and "transfer_from_user X E t wn sender a w = Inr w'"
  shows "tok_balance X u me w + (if token_contract wn t = u then int (unat a) else 0) \<le> tok_balance X u me w'"
proof -
  have tr: "tok_transfer X E (token_contract wn t) sender me (as_i128 a) w = Some w'"
    and got: "is_native_token t \<or> tok_balance X (token_contract wn t) me w' =
      tok_balance X (token_contract wn t) me w + as_i128 a"
    using assms(2,4) by (auto simp: res_simps)
  have a: "as_i128 a = int (unat a)"
    by (rule as_i128_nonneg [OF token_lawsD(1) [OF escrow_lawsD(1) [OF assms(1)] tr]])
  have "tok_balance X (token_contract wn t) me w + as_i128 a \<le> tok_balance X (token_contract wn t) me w'"
  proof (cases "is_native_token t")
    case True
    then have "token_contract wn t = wn" by (simp add: token_contract_def)
    then show ?thesis using escrow_lawsD(2) [OF assms(1)] tr assms(3) unfolding exact_token_def by auto
  qed (use got in simp)
  moreover have "tok_balance X u me w \<le> tok_balance X u me w'"
    using token_lawsD(3) [OF escrow_lawsD(1) [OF assms(1)] assms(3) tr] .
  ultimately show ?thesis using a by auto
qed

end
