(* ===== verification/Portal_Calls.thy ===== *)
theory Portal_Calls
  imports Portal Escrow_Custody
begin

text \<open>
  The order-portal as one machine: its entry points as calls, what each does to the orders, the open
  counts and the credits, and the states it reaches from its deployment.
\<close>

section \<open>Calls\<close>

datatype portal_admin_call =
    PPause | PUnpause | PTransferAdmin address | PAcceptAdmin | PActivateTimelock
  | PProposeAction string bytes | PCancelAction bytes32 | PSetChain u128 bytes32 | PRemoveChain u128
  | PSetRootVerifier u128 address | PUnsetRootVerifier u128 | PSetRouteTiming u128 route_timing
  | PSetRootAnchor address | PSetTokenRoute bytes32 u128 bytes32 | PRemoveTokenRoute bytes32 u128

datatype portal_call =
    PAdmin portal_admin_call
  | PCreate portal_params
  | PUnlock portal_params bytes32 bytes32 bytes bytes
  | PRefund portal_params bytes32 bytes
  | PSettled portal_params bytes32 bytes
  | PForfeit portal_params bytes32 bytes
  | PRecord portal_params
  | PClaim bytes32 bytes32

fun op_admin_exec :: "env \<Rightarrow> portal_admin_call \<Rightarrow> portal_store \<Rightarrow> (portal_error, portal_store) res" where
  "op_admin_exec E PPause s = op_pause E s"
| "op_admin_exec E PUnpause s = op_unpause E s"
| "op_admin_exec E (PTransferAdmin to) s = op_transfer_admin E to s"
| "op_admin_exec E PAcceptAdmin s = op_accept_admin E s"
| "op_admin_exec E PActivateTimelock s = op_activate_timelock E s"
| "op_admin_exec E (PProposeAction f args) s = attempt (op_propose_action E f args s) (\<lambda>(_, s'). Ok s')"
| "op_admin_exec E (PCancelAction ident) s = op_cancel_action E ident s"
| "op_admin_exec E (PSetChain c m) s = op_set_chain E c m s"
| "op_admin_exec E (PRemoveChain c) s = op_remove_chain E c s"
| "op_admin_exec E (PSetRootVerifier c m) s = op_set_root_verifier E c m s"
| "op_admin_exec E (PUnsetRootVerifier c) s = op_unset_root_verifier E c s"
| "op_admin_exec E (PSetRouteTiming c t) s = op_set_route_timing E c t s"
| "op_admin_exec E (PSetRootAnchor a) s = op_set_root_anchor E a s"
| "op_admin_exec E (PSetTokenRoute ot c at) s = op_set_token_route E ot c at s"
| "op_admin_exec E (PRemoveTokenRoute ot c) s = op_remove_token_route E ot c s"

fun op_exec ::
  "'w ext \<Rightarrow> env \<Rightarrow> portal_call \<Rightarrow> portal_store \<times> 'w \<Rightarrow> (portal_error, portal_store \<times> 'w) res" where
  "op_exec X E (PAdmin c) (s, w) = attempt (op_admin_exec E c s) (\<lambda>s'. Ok (s', w))"
| "op_exec X E (PCreate p) sw = attempt (create_order X E p sw) (\<lambda>(_, sw'). Ok sw')"
| "op_exec X E (PUnlock p n r pf cosig) sw = op_unlock X E p n r pf cosig sw"
| "op_exec X E (PRefund p r pf) sw = refund_by_cancel X E p r pf sw"
| "op_exec X E (PSettled p r pf) sw = op_present_settled X E p r pf sw"
| "op_exec X E (PForfeit p r pf) sw = pay_maker_by_forfeit X E p r pf sw"
| "op_exec X E (PRecord p) sw = op_record_settled X E p sw"
| "op_exec X E (PClaim r t) sw = op_claim X E r t sw"

fun op_names_only :: "portal_params set \<Rightarrow> portal_call \<Rightarrow> bool" where
  "op_names_only S (PCreate p) \<longleftrightarrow> p \<in> S"
| "op_names_only S (PUnlock p _ _ _ _) \<longleftrightarrow> p \<in> S"
| "op_names_only S (PRefund p _ _) \<longleftrightarrow> p \<in> S"
| "op_names_only S (PSettled p _ _) \<longleftrightarrow> p \<in> S"
| "op_names_only S (PForfeit p _ _) \<longleftrightarrow> p \<in> S"
| "op_names_only S (PRecord p) \<longleftrightarrow> p \<in> S"
| "op_names_only S _ \<longleftrightarrow> True"

definition op_entry :: "crypto \<Rightarrow> address \<Rightarrow> env \<Rightarrow> bool" where
  "op_entry C me E \<longleftrightarrow> prims E = C \<and> self E = me \<and> \<not> authed E me"

definition po_empty :: portal_store where
  "po_empty = \<lparr>st_config = None, st_initialized = False, st_paused = False, st_pending_admin = None,
     st_root_anchor = None, st_dispute_manager = None, st_routes = Map.empty,
     st_orders = Map.empty, st_nullifiers = Map.empty, st_root_verifiers = Map.empty,
     st_rv_changed = Map.empty, st_wired_chains = [], st_in_flight = Map.empty,
     st_claimables = Map.empty, st_timings = Map.empty, st_timing_versions = Map.empty,
     st_claims = Map.empty, st_settled = Map.empty, st_order_dispute = Map.empty,
     st_timelock = tl_init, po_chains = Map.empty\<rparr>"

text \<open>Deployed with chain id \<open>cid\<close> and wrapped native token \<open>wn\<close>; calls name orders of \<open>S\<close>.\<close>

inductive op_reach ::
  "'w ext \<Rightarrow> crypto \<Rightarrow> address \<Rightarrow> u128 \<Rightarrow> address \<Rightarrow> portal_params set \<Rightarrow> ('w \<Rightarrow> 'w \<Rightarrow> bool) \<Rightarrow>
   portal_store \<times> 'w \<Rightarrow> bool"
  for X :: "'w ext" and C :: crypto and me :: address and cid :: u128 and wn :: address
    and S :: "portal_params set" and R :: "'w \<Rightarrow> 'w \<Rightarrow> bool" where
  op_reach_init: "op_entry C me E \<Longrightarrow> op_initialize E adm vf mm wn cid po_empty = Inr s \<Longrightarrow>
    (\<And>u. 0 \<le> tok_balance X u me w) \<Longrightarrow> op_reach X C me cid wn S R (s, w)"
| op_reach_call: "op_reach X C me cid wn S R sw \<Longrightarrow> op_entry C me E \<Longrightarrow> op_names_only S c \<Longrightarrow>
    op_exec X E c sw = Inr sw' \<Longrightarrow> op_reach X C me cid wn S R sw'"
| op_reach_world: "op_reach X C me cid wn S R (s, w) \<Longrightarrow> R w w' \<Longrightarrow> op_reach X C me cid wn S R (s, w')"

section \<open>What a call does\<close>

text \<open>The hash of an order on this leg.\<close>

definition op_hash_raw :: "crypto \<Rightarrow> u128 \<Rightarrow> address \<Rightarrow> portal_params \<Rightarrow> bytes32" where
  "op_hash_raw C cid me p = typed_order_hash C
     \<lparr>eo_order_chain_token = q_order_chain_token p, eo_ad_chain_token = q_ad_chain_token p,
      eo_amount = q_amount p, eo_bridger = q_bridger p, eo_order_chain_id = cid,
      eo_order_portal = address_to_bytes32 me, eo_order_recipient = q_order_recipient p,
      eo_ad_chain_id = q_ad_chain_id p, eo_ad_manager = q_ad_manager p,
      eo_ad_id_hash = keccak256 C (string_bytes (q_ad_id p)), eo_ad_creator = q_ad_creator p,
      eo_ad_recipient = q_ad_recipient p, eo_salt = q_salt p,
      eo_order_decimals = q_order_decimals p, eo_ad_decimals = q_ad_decimals p,
      eo_deadline = q_deadline p, eo_ad_settlement_signer = q_ad_settlement_signer p,
      eo_lp_fee_bps = q_lp_fee_bps p, eo_protocol_fee_bps = q_protocol_fee_bps p\<rparr>"

lemma op_order_hash_Ok [res_simps]:
  "op_order_hash E cfg p = Inr h \<longleftrightarrow>
     length (q_ad_id p) \<le> 1024 \<and> h = op_hash_raw (prims E) (chain_id cfg) (self E) p"
  by (auto simp: op_order_hash_def op_order_of_def abi_encode_string_def op_hash_raw_def res_simps)

text \<open>The part of the store the accounts are made of, and the part that stays as deployed.\<close>

definition accounts ::
  "portal_store \<Rightarrow> (bytes32 \<Rightarrow> status) \<times> (bytes32 \<Rightarrow> u64) \<times> (bytes32 \<times> bytes32 \<rightharpoonup> u128)" where
  "accounts s = (get_order_status s, get_in_flight s, st_claimables s)"

definition po_wired :: "u128 \<Rightarrow> address \<Rightarrow> portal_store \<Rightarrow> bool" where
  "po_wired cid wn s \<longleftrightarrow> st_initialized s \<and>
     (\<exists>cfg. st_config s = Some cfg \<and> chain_id cfg = cid \<and> w_native_token cfg = wn)"

lemmas op_setter_defs = op_pause_def op_unpause_def op_transfer_admin_def op_accept_admin_def
  op_activate_timelock_def op_propose_action_def op_cancel_action_def op_set_chain_def
  op_remove_chain_def op_set_root_verifier_def op_unset_root_verifier_def op_set_route_timing_def
  op_set_root_anchor_def op_set_token_route_def op_remove_token_route_def

lemmas shared_setter_defs = pause_def unpause_def transfer_admin_def pending_admin_def accept_admin_def
  set_root_verifier_gated_def set_root_verifier_def store_root_verifier_def
  unset_root_verifier_def remove_root_verifier_def add_wired_chain_def set_root_anchor_def
  store_token_route_def erase_token_route_def store_chain_def erase_chain_def

lemma op_as_admin_Ok [res_simps]:
  "op_as_admin E s k = Inr r \<longleftrightarrow> (\<exists>cfg. st_config s = Some cfg \<and> authed E (admin cfg) \<and> k cfg = Inr r)"
  by (auto simp: op_as_admin_def res_simps)

lemma op_gated_Ok [res_simps]:
  "op_gated E f args s k = Inr r \<longleftrightarrow>
     (\<exists>cfg tlk. st_config s = Some cfg \<and> gate E (admin cfg) f args (st_timelock s) = Inr tlk \<and>
        k (s\<lparr>st_timelock := tlk\<rparr>) = Inr r)"
  by (auto simp: op_gated_def res_simps)

lemma admin_accounts:
  assumes "op_admin_exec E c s = Inr s'"
  shows "st_orders s' = st_orders s \<and> st_in_flight s' = st_in_flight s \<and>
    st_claimables s' = st_claimables s \<and> st_initialized s' = st_initialized s \<and>
    map_option (\<lambda>cfg. (chain_id cfg, w_native_token cfg)) (st_config s') =
      map_option (\<lambda>cfg. (chain_id cfg, w_native_token cfg)) (st_config s)"
proof (cases c)
  case (PSetRootVerifier ch m)
  then show ?thesis using assms 
    by (auto simp: op_set_root_verifier_def set_root_verifier_eq res_simps elim!: set_root_verifier_gated_store)
qed (use assms in \<open>clarsimp simp: op_setter_defs shared_setter_defs Let_def res_simps split: if_splits\<close>)+

text \<open>A payout at an order's end.\<close>

lemma by_leaf_Ok [res_simps]:
  "by_leaf X E p root pf leaf (s, w) k = Inr r \<longleftrightarrow>
     (\<exists>cfg h. st_config s = Some cfg \<and> op_order_hash E cfg p = (Inr h :: (portal_error, bytes32) res) \<and>
        live (get_order_status s h) \<and> require_anchored X E (q_ad_chain_id p) root (s, w) = Inr () \<and>
        zk_verify X (verifier cfg) (build_event_public_inputs (prims E) root h leaf) pf w \<and>
        k cfg h = Inr r)"
  by (auto simp: by_leaf_def Let_def res_simps)

end
