(* ===== verification/Portal_Invariants.thy ===== *)
theory Portal_Invariants
  imports Portal_Calls
begin

text \<open>
  What holds of every reachable state of the order-portal: an order is open or ended, a bridger's count
  is its open orders, and the open deposits plus the credited payouts are covered by what the portal
  holds, token by token.
\<close>

section \<open>Totals over the open orders\<close>

definition total :: "'p set \<Rightarrow> ('p \<Rightarrow> bytes32) \<Rightarrow> ('p \<Rightarrow> nat) \<Rightarrow> (bytes32 \<Rightarrow> status) \<Rightarrow> nat" where
  "total S key f b = (\<Sum>p\<in>{p \<in> S. live (b (key p))}. f p)"

lemma total_enter:
  assumes "finite S" "inj_on key S" "p \<in> S" "\<not> live (b (key p))" "live st"
  shows "total S key f (b(key p := st)) = total S key f b + f p"
proof -
  have "{q \<in> S. live ((b(key p := st)) (key q))} = insert p {q \<in> S. live (b (key q))}"
    using assms(2,3,5) by (auto dest: inj_onD)
  then show ?thesis using assms(1,4) by (simp add: total_def)
qed

lemma total_leave:
  assumes "finite S" "inj_on key S" "p \<in> S" "live (b (key p))" "\<not> live st"
  shows "total S key f (b(key p := st)) + f p = total S key f b"
proof -
  have "total S key f ((b(key p := st))(key p := b (key p))) = total S key f (b(key p := st)) + f p"
    by (rule total_enter) (use assms in auto)
  then show ?thesis by simp
qed

lemma total_none: "(\<And>h. b h = StNone) \<Longrightarrow> total S key f b = 0"
  by (simp add: total_def)

section \<open>The invariant\<close>

definition opened_by :: "bytes32 \<Rightarrow> portal_params \<Rightarrow> nat" where
  "opened_by g p = (if q_bridger p = g then 1 else 0)"

definition deposited :: "address \<Rightarrow> address \<Rightarrow> portal_params \<Rightarrow> nat" where
  "deposited wn u p = (if token_contract wn (q_order_chain_token p) = u then unat (q_amount p) else 0)"

text \<open>What the creation of an order has checked of it, whatever the routes were.\<close>

definition creatable :: "portal_params \<Rightarrow> bool" where
  "creatable p \<longleftrightarrow> length (q_ad_id p) \<le> 1024 \<and> q_amount p \<noteq> 0 \<and> q_bridger p \<noteq> 0 \<and> q_ad_recipient p \<noteq> 0 \<and>
     q_order_recipient p \<notin> {0, q_ad_creator p, q_ad_settlement_signer p}"

definition po_inv ::
  "'w ext \<Rightarrow> crypto \<Rightarrow> address \<Rightarrow> u128 \<Rightarrow> address \<Rightarrow> portal_params set \<Rightarrow> portal_store \<times> 'w \<Rightarrow> bool" where
  "po_inv X C me cid wn S = (\<lambda>(s, w). po_wired cid wn s \<and> finite_claims s \<and>
     (\<forall>h. get_order_status s h \<noteq> StNone \<longrightarrow> h \<in> op_hash_raw C cid me ` S) \<and>
     (\<forall>h. get_order_status s h \<in> {StNone, Open, Filled, Cancelled}) \<and>
     (\<forall>p\<in>S. get_order_status s (op_hash_raw C cid me p) \<noteq> StNone \<longrightarrow> creatable p) \<and>
     (\<forall>g. unat (get_in_flight s g) = total S (op_hash_raw C cid me) (opened_by g) (get_order_status s)) \<and>
     (\<forall>u. int (total S (op_hash_raw C cid me) (deposited wn u) (get_order_status s)) +
        exposure X me wn (s, w) u \<le> 0))"

lemma po_invI:
  assumes "po_wired cid wn s" "finite_claims s"
    "\<And>h. get_order_status s h \<noteq> StNone \<Longrightarrow> h \<in> op_hash_raw C cid me ` S"
    "\<And>h. get_order_status s h \<in> {StNone, Open, Filled, Cancelled}"
    "\<And>g. unat (get_in_flight s g) = total S (op_hash_raw C cid me) (opened_by g) (get_order_status s)"
    "\<And>u. int (total S (op_hash_raw C cid me) (deposited wn u) (get_order_status s)) +
        exposure X me wn (s, w) u \<le> 0"
    "\<And>p. p \<in> S \<Longrightarrow> get_order_status s (op_hash_raw C cid me p) \<noteq> StNone \<Longrightarrow> creatable p"
  shows "po_inv X C me cid wn S (s, w)"
  using assms by (simp add: po_inv_def)

lemma po_invD:
  assumes "po_inv X C me cid wn S (s, w)"
  shows "po_wired cid wn s" "finite_claims s"
    "get_order_status s h \<noteq> StNone \<Longrightarrow> h \<in> op_hash_raw C cid me ` S"
    "get_order_status s h \<in> {StNone, Open, Filled, Cancelled}"
    "unat (get_in_flight s g) = total S (op_hash_raw C cid me) (opened_by g) (get_order_status s)"
    "int (total S (op_hash_raw C cid me) (deposited wn u) (get_order_status s)) +
        exposure X me wn (s, w) u \<le> 0"
    "p \<in> S \<Longrightarrow> get_order_status s (op_hash_raw C cid me p) \<noteq> StNone \<Longrightarrow> creatable p"
  using assms by (simp_all add: po_inv_def)

text \<open>The statuses and counts after the writes.\<close>

lemma status_writes [store_simps]:
  "get_order_status (set_order_status h st s) = (get_order_status s)(h := st)"
  "get_order_status (open_order E h tv ep d sl s) = (get_order_status s)(h := Open)"
  "get_order_status (remove_claim h s) = get_order_status s"
  "get_order_status (set_nullifier_used nu s) = get_order_status s"
  "get_order_status (set_settled_recorded h s) = get_order_status s"
  "get_order_status (set_in_flight g n s) = get_order_status s"
  "get_order_status (set_claimable r t a s) = get_order_status s"
  "get_order_status (s\<lparr>st_claimables := cl\<rparr>) = get_order_status s"
  by (simp_all add: fun_eq_iff get_order_status_def get_order_def open_order_def set_order_status_def
      set_order_def remove_claim_def set_nullifier_used_def set_settled_recorded_def set_in_flight_def
      set_claimable_def)

lemma flight_writes [store_simps]:
  "get_in_flight (set_order_status h st s) = get_in_flight s"
  "get_in_flight (open_order E h tv ep d sl s) = get_in_flight s"
  "get_in_flight (remove_claim h s) = get_in_flight s"
  "get_in_flight (set_nullifier_used nu s) = get_in_flight s"
  "get_in_flight (set_settled_recorded h s) = get_in_flight s"
  "get_in_flight (set_claimable r t a s) = get_in_flight s"
  "get_in_flight (s\<lparr>st_claimables := cl\<rparr>) = get_in_flight s"
  by (simp_all add: fun_eq_iff get_in_flight_def open_order_def set_order_status_def
      set_order_def remove_claim_def set_nullifier_used_def set_settled_recorded_def set_claimable_def)

lemma claimables_writes [store_simps]:
  "st_claimables (set_order_status h st s) = st_claimables s"
  "st_claimables (open_order E h tv ep d sl s) = st_claimables s"
  "st_claimables (remove_claim h s) = st_claimables s"
  "st_claimables (set_nullifier_used nu s) = st_claimables s"
  "st_claimables (set_settled_recorded h s) = st_claimables s"
  "st_claimables (set_in_flight g n s) = st_claimables s"
  by (simp_all add: open_order_def set_order_status_def set_order_def remove_claim_def
      set_nullifier_used_def set_settled_recorded_def set_in_flight_def)

lemma wired_writes [store_simps]:
  "po_wired cid wn (set_order_status h st s) = po_wired cid wn s"
  "po_wired cid wn (open_order E h tv ep d sl s) = po_wired cid wn s"
  "po_wired cid wn (remove_claim h s) = po_wired cid wn s"
  "po_wired cid wn (set_nullifier_used nu s) = po_wired cid wn s"
  "po_wired cid wn (set_settled_recorded h s) = po_wired cid wn s"
  "po_wired cid wn (set_in_flight g n s) = po_wired cid wn s"
  "po_wired cid wn (set_claimable r t a s) = po_wired cid wn s"
  "po_wired cid wn (s\<lparr>st_claimables := cl\<rparr>) = po_wired cid wn s"
  by (simp_all add: po_wired_def open_order_def set_order_status_def set_order_def remove_claim_def
      set_nullifier_used_def set_settled_recorded_def set_in_flight_def set_claimable_def)

lemma kept_writes [store_simps]:
  "st_config (set_in_flight g n s) = st_config s" "st_initialized (set_in_flight g n s) = st_initialized s"
  "st_nullifiers (set_in_flight g n s) = st_nullifiers s" "st_settled (set_in_flight g n s) = st_settled s"
  "st_config (remove_claim h s) = st_config s" "st_initialized (remove_claim h s) = st_initialized s"
  "st_nullifiers (remove_claim h s) = st_nullifiers s" "st_settled (remove_claim h s) = st_settled s"
  "st_config (set_order_status h st s) = st_config s"
  "st_initialized (set_order_status h st s) = st_initialized s"
  "st_nullifiers (set_order_status h st s) = st_nullifiers s"
  "st_settled (set_order_status h st s) = st_settled s"
  by (simp_all add: set_in_flight_def remove_claim_def set_order_status_def set_order_def)

section \<open>What each order call does\<close>

lemma create_Ok:
  assumes "create_order X E p (s, w) = Inr (h, s', w')"
  obtains cfg tv n w1 where "st_config s = Some cfg" "\<not> st_paused s" "op_validate_order s p = Inr ()" "creatable p"
    "h = op_hash_raw (prims E) (chain_id cfg) (self E) p" "get_order_status s h = StNone"
    "require_min_window E s (q_ad_chain_id p) (q_deadline p) = Inr tv"
    "authed E (AccountAddr (q_bridger p))"
    "transfer_from_user X E (q_order_chain_token p) (w_native_token cfg) (AccountAddr (q_bridger p))
       (q_amount p) w = Inr w1"
    "mm_append X E (merkle_manager cfg) (self E) h LEAF_DOMAIN_AD w1 = Some w'"
    "unat n = Suc (unat (get_in_flight s (q_bridger p)))"
    "s' = set_in_flight (q_bridger p) n (open_order E h tv 0 0 0 s)"
  using assms unfolding create_order_def Let_def
  by (clarsimp simp: attempt_Ok ensure_Ok ok_or_Ok opl_Ok op_get_config_Ok op_order_hash_Ok require_auth_Ok
      bytes32_to_account_address_Ok append_to_merkle_Ok cadd_Ok store_simps op_validate_order_def
      creatable_def is_zero_bytes32_def split: if_splits)

text \<open>An order's end: its status, its count, and one payout of its amount.\<close>

definition ends ::
  "'w ext \<Rightarrow> env \<Rightarrow> contract_config \<Rightarrow> portal_params \<Rightarrow> bytes32 \<Rightarrow> status \<Rightarrow> bytes32 \<Rightarrow>
   portal_store \<times> 'w \<Rightarrow> portal_store \<times> 'w \<Rightarrow> bool" where
  "ends X E cfg p h st payee = (\<lambda>(s, w) (s', w').
     st_config s = Some cfg \<and> h = op_hash_raw (prims E) (chain_id cfg) (self E) p \<and>
     live (get_order_status s h) \<and>
     (\<exists>n s2. unat (get_in_flight s (q_bridger p)) = Suc (unat n) \<and>
        get_order_status s2 = (get_order_status s)(h := st) \<and>
        get_in_flight s2 = (get_in_flight s)(q_bridger p := n) \<and>
        st_claimables s2 = st_claimables s \<and> st_config s2 = st_config s \<and>
        st_initialized s2 = st_initialized s \<and>
        (pay_or_credit X E (w_native_token cfg) payee (q_order_chain_token p) (q_amount p) (s2, w) ::
          (portal_error, portal_store \<times> 'w) res) = Inr (s', w')))"

lemma fill_frame:
  assumes "(fill h g s :: (portal_error, portal_store) res) = Inr s2"
  shows "\<exists>n. unat (get_in_flight s g) = Suc (unat n) \<and>
    get_order_status s2 = (get_order_status s)(h := Filled) \<and>
    get_in_flight s2 = (get_in_flight s)(g := n) \<and> st_claimables s2 = st_claimables s \<and>
    st_config s2 = st_config s \<and> st_initialized s2 = st_initialized s \<and>
    st_nullifiers s2 = st_nullifiers s \<and> st_settled s2 = st_settled s"
proof -
  from assms obtain n where "unat (get_in_flight s g) = Suc (unat n)"
    "s2 = set_in_flight g n (remove_claim h (set_order_status h Filled s))"
    by (auto simp: fill_def count_out_Ok store_simps)
  then show ?thesis by (intro exI [of _ n]) (simp add: store_simps fun_eq_iff)
qed

lemma cancel_frame:
  assumes "(cancel h g s :: (portal_error, portal_store) res) = Inr s2"
  shows "\<exists>n. unat (get_in_flight s g) = Suc (unat n) \<and>
    get_order_status s2 = (get_order_status s)(h := Cancelled) \<and>
    get_in_flight s2 = (get_in_flight s)(g := n) \<and> st_claimables s2 = st_claimables s \<and>
    st_config s2 = st_config s \<and> st_initialized s2 = st_initialized s \<and>
    st_nullifiers s2 = st_nullifiers s \<and> st_settled s2 = st_settled s"
proof -
  from assms obtain n where "unat (get_in_flight s g) = Suc (unat n)"
    "s2 = set_in_flight g n (remove_claim h (set_order_status h Cancelled s))"
    by (auto simp: cancel_def count_out_Ok store_simps)
  then show ?thesis by (intro exI [of _ n]) (simp add: store_simps fun_eq_iff)
qed

lemma op_unlock_Ok:
  assumes "op_unlock X E p nu root pf cosig (s, w) = Inr (s', w')"
  obtains cfg h t s2 where "st_config s = Some cfg" "h = op_hash_raw (prims E) (chain_id cfg) (self E) p"
    "get_order_status s h = Open" "\<not> is_nullifier_used s nu" "order_timing s h (q_ad_chain_id p) = Inr t"
    "now E \<le> saturating_sub (q_deadline p) (claim_stagger t)"
    "(fill h (q_bridger p) (set_nullifier_used nu s) :: (portal_error, portal_store) res) = Inr s2"
    "(pay_or_credit X E (w_native_token cfg) (q_ad_recipient p) (q_order_chain_token p) (q_amount p) (s2, w) ::
      (portal_error, _) res) = Inr (s', w')"
  using assms unfolding op_unlock_def pay_maker_def
  by (clarsimp simp: attempt_Ok ensure_Ok ok_or_Ok opl_Ok op_get_config_Ok op_order_hash_Ok not_less)

lemma op_unlock_ends:
  assumes "op_unlock X E p nu root pf cosig (s, w) = Inr (s', w')"
  obtains cfg h where "ends X E cfg p h Filled (q_ad_recipient p) (s, w) (s', w')"
  using assms
proof (rule op_unlock_Ok)
  fix cfg h t s2
  assume a: "st_config s = Some cfg" "h = op_hash_raw (prims E) (chain_id cfg) (self E) p"
    "get_order_status s h = Open"
    "(fill h (q_bridger p) (set_nullifier_used nu s) :: (portal_error, portal_store) res) = Inr s2"
    "(pay_or_credit X E (w_native_token cfg) (q_ad_recipient p) (q_order_chain_token p) (q_amount p) (s2, w) ::
      (portal_error, _) res) = Inr (s', w')"
  have "st_config (set_nullifier_used nu s) = st_config s" "st_initialized (set_nullifier_used nu s) = st_initialized s"
    by (simp_all add: set_nullifier_used_def)
  with a fill_frame [OF a(4)] have "ends X E cfg p h Filled (q_ad_recipient p) (s, w) (s', w')"
    by (auto simp: ends_def store_simps)
  then show ?thesis by (rule that)
qed

lemma refund_ends:
  assumes "refund_by_cancel X E p root pf (s, w) = Inr (s', w')"
  obtains cfg h where "ends X E cfg p h Cancelled (q_bridger p) (s, w) (s', w')"
proof -
  from assms obtain cfg h s2 where a: "st_config s = Some cfg"
    "h = op_hash_raw (prims E) (chain_id cfg) (self E) p" "live (get_order_status s h)"
    "(cancel h (q_bridger p) s :: (portal_error, portal_store) res) = Inr s2"
    "(pay_or_credit X E (w_native_token cfg) (q_bridger p) (q_order_chain_token p) (q_amount p) (s2, w) ::
      (portal_error, _) res) = Inr (s', w')"
    by (auto simp: refund_by_cancel_def refund_bridger_def res_simps)
  with cancel_frame [OF a(4)] have "ends X E cfg p h Cancelled (q_bridger p) (s, w) (s', w')"
    by (auto simp: ends_def)
  then show ?thesis by (rule that)
qed

lemma settled_ends:
  assumes "op_present_settled X E p root pf (s, w) = Inr (s', w')"
  obtains cfg h where "ends X E cfg p h Filled (q_ad_recipient p) (s, w) (s', w')"
proof -
  from assms obtain cfg h s2 where a: "st_config s = Some cfg"
    "h = op_hash_raw (prims E) (chain_id cfg) (self E) p" "live (get_order_status s h)"
    "(fill h (q_bridger p) s :: (portal_error, portal_store) res) = Inr s2"
    "(pay_or_credit X E (w_native_token cfg) (q_ad_recipient p) (q_order_chain_token p) (q_amount p) (s2, w) ::
      (portal_error, _) res) = Inr (s', w')"
    by (auto simp: op_present_settled_def pay_maker_def res_simps)
  with fill_frame [OF a(4)] have "ends X E cfg p h Filled (q_ad_recipient p) (s, w) (s', w')"
    by (auto simp: ends_def)
  then show ?thesis by (rule that)
qed

lemma forfeit_ends:
  assumes "pay_maker_by_forfeit X E p root pf (s, w) = Inr (s', w')"
  obtains cfg h where "ends X E cfg p h Filled (q_ad_recipient p) (s, w) (s', w')" "is_settled_recorded s' h"
proof -
  from assms obtain cfg h s2 where a: "st_config s = Some cfg"
    "h = op_hash_raw (prims E) (chain_id cfg) (self E) p" "live (get_order_status s h)"
    "(fill h (q_bridger p) s :: (portal_error, portal_store) res) = Inr s2"
    "(pay_or_credit X E (w_native_token cfg) (q_ad_recipient p) (q_order_chain_token p) (q_amount p)
      (set_settled_recorded h s2, w) :: (portal_error, _) res) = Inr (s', w')"
    by (auto simp: pay_maker_by_forfeit_def pay_maker_def res_simps)
  have "st_config (set_settled_recorded h s2) = st_config s2"
    "st_initialized (set_settled_recorded h s2) = st_initialized s2" by (simp_all add: set_settled_recorded_def)
  with a fill_frame [OF a(4)] have "ends X E cfg p h Filled (q_ad_recipient p) (s, w) (s', w')"
    unfolding ends_def by (auto simp: store_simps intro!: exI [of _ "set_settled_recorded h s2"])
  moreover have "is_settled_recorded s' h"
    using pay_or_credit_store [OF a(5)] by (auto simp: is_settled_recorded_def set_settled_recorded_def)
  ultimately show ?thesis by (rule that)
qed

section \<open>Every call keeps it\<close>

lemma opened_inv:
  assumes S: "finite S" "inj_on (op_hash_raw C cid me) S" "p \<in> S" and E: "op_entry C me E"
    and laws: "escrow_laws X me wn R" and inv: "po_inv X C me cid wn S (s, w)"
    and run: "create_order X E p (s, w) = Inr (h, s', w')"
  shows "po_inv X C me cid wn S (s', w')"
proof -
  let ?key = "op_hash_raw C cid me"
  note I = po_invD [OF inv]
  from run obtain cfg tv n w1 where ok: "creatable p" and c: "st_config s = Some cfg"
    "h = op_hash_raw (prims E) (chain_id cfg) (self E) p" "get_order_status s h = StNone"
    "authed E (AccountAddr (q_bridger p))"
    "transfer_from_user X E (q_order_chain_token p) (w_native_token cfg) (AccountAddr (q_bridger p))
       (q_amount p) w = Inr w1"
    "mm_append X E (merkle_manager cfg) (self E) h LEAF_DOMAIN_AD w1 = Some w'"
    "unat n = Suc (unat (get_in_flight s (q_bridger p)))"
    "s' = set_in_flight (q_bridger p) n (open_order E h tv 0 0 0 s)" by (rule create_Ok)
  have E': "prims E = C" "self E = me" "\<not> authed E me" using E by (simp_all add: op_entry_def)
  have cfg: "chain_id cfg = cid" "w_native_token cfg = wn" using I(1) c(1) by (auto simp: po_wired_def)
  then have h: "h = ?key p" using c(2) E' by simp
  have stat: "get_order_status s' = (get_order_status s)(?key p := Open)"
    using c(8) h by (simp add: store_simps)
  have enter: "total S ?key f (get_order_status s') = total S ?key f (get_order_status s) + f p" for f
    unfolding stat by (rule total_enter) (use S c(3) h in auto)
  have cl: "st_claimables s' = st_claimables s" using c(8) by (simp add: store_simps)
  have "AccountAddr (q_bridger p) \<noteq> me" using c(4) E'(3) by auto
  note pull = pull_received [OF laws E'(2) this c(5) [unfolded cfg(2)]]
  have "tok_balance X u me w + int (deposited wn u p) \<le> tok_balance X u me w'" for u
    using pull [of u] escrow_lawsD(3) [OF laws c(6) [unfolded E'(2)], of u]
    by (simp add: deposited_def split: if_splits)
  then have solv: "int (total S ?key (deposited wn u) (get_order_status s')) + exposure X me wn (s', w') u \<le> 0" for u
    using I(6) [of u] credited_cong(1) [OF cl, of wn u] unfolding enter exposure_def by (smt (verit) of_nat_add prod.case)
  show ?thesis
  proof (rule po_invI)
    show "int (total S ?key (deposited wn u) (get_order_status s')) + exposure X me wn (s', w') u \<le> 0" for u
      by (rule solv)
    show "po_wired cid wn s'" using I(1) c(8) by (simp add: store_simps)
    show "finite_claims s'" using I(2) credited_cong(2) [OF cl] by simp
    show "k \<in> op_hash_raw C cid me ` S" if "get_order_status s' k \<noteq> StNone" for k
      using that I(3) [of k] S(3) unfolding stat by (auto split: if_splits)
    show "get_order_status s' k \<in> {StNone, Open, Filled, Cancelled}" for k using I(4) [of k] unfolding stat by auto
    show "unat (get_in_flight s' g) = total S ?key (opened_by g) (get_order_status s')" for g
      using I(5) [of g] c(7,8) unfolding enter by (auto simp: store_simps opened_by_def)
    show "creatable q" if "q \<in> S" "get_order_status s' (?key q) \<noteq> StNone" for q
      using I(7) [of q] that ok S unfolding stat by (cases "q = p") (auto dest: inj_onD split: if_splits)
  qed
qed

lemma ended_inv:
  assumes S: "finite S" "inj_on (op_hash_raw C cid me) S" "p \<in> S" and E: "op_entry C me E"
    and laws: "escrow_laws X me wn R" and inv: "po_inv X C me cid wn S (s, w)"
    and run: "ends X E cfg p h st payee (s, w) (s', w')" and st: "st \<in> {Filled, Cancelled}"
  shows "po_inv X C me cid wn S (s', w')"
proof -
  let ?key = "op_hash_raw C cid me"
  note I = po_invD [OF inv]
  from run obtain n s2 where c: "st_config s = Some cfg"
    "h = op_hash_raw (prims E) (chain_id cfg) (self E) p" "live (get_order_status s h)"
    "unat (get_in_flight s (q_bridger p)) = Suc (unat n)"
    "get_order_status s2 = (get_order_status s)(h := st)"
    "get_in_flight s2 = (get_in_flight s)(q_bridger p := n)" "st_claimables s2 = st_claimables s"
    "st_config s2 = st_config s" "st_initialized s2 = st_initialized s"
    "(pay_or_credit X E (w_native_token cfg) payee (q_order_chain_token p) (q_amount p) (s2, w) ::
      (portal_error, _) res) = Inr (s', w')"
    by (auto simp: ends_def)
  have E': "prims E = C" "self E = me" using E by (simp_all add: op_entry_def)
  have cfg: "chain_id cfg = cid" "w_native_token cfg = wn" using I(1) c(1) by (auto simp: po_wired_def)
  then have h: "h = ?key p" using c(2) E' by simp
  obtain cl where s': "s' = s2\<lparr>st_claimables := cl\<rparr>" using pay_or_credit_store [OF c(10)] by blast
  have stat: "get_order_status s' = (get_order_status s)(?key p := st)"
    using c(5) h s' by (simp add: store_simps)
  have leave: "total S ?key f (get_order_status s') + f p = total S ?key f (get_order_status s)" for f
    unfolding stat by (rule total_leave) (use S c(3) h st in auto)
  have fin2: "finite_claims s2" using I(2) credited_cong(2) [OF c(7)] by simp
  note pay = pay_or_credit_exposure [OF escrow_lawsD(1) [OF laws] E'(2) fin2 c(10) [unfolded cfg(2)]]
  have same: "exposure X me wn (s2, w) u = exposure X me wn (s, w) u" for u
    using credited_cong(1) [OF c(7), of wn u] by (simp add: exposure_def)
  have "exposure X me wn (s', w') u \<le> exposure X me wn (s, w) u + int (deposited wn u p)" for u
    using pay [of u] same [of u]
    by (cases "token_contract wn (q_order_chain_token p) = u") (simp_all add: deposited_def)
  then have solv: "int (total S ?key (deposited wn u) (get_order_status s')) + exposure X me wn (s', w') u \<le> 0" for u
    using I(6) [of u] leave [of "deposited wn u"] by (smt (verit) of_nat_add)
  show ?thesis
  proof (rule po_invI)
    show "int (total S ?key (deposited wn u) (get_order_status s')) + exposure X me wn (s', w') u \<le> 0" for u
      by (rule solv)
    show "po_wired cid wn s'" using I(1) c(8,9) s' by (simp add: po_wired_def)
    show "finite_claims s'" using pay by blast
    show "k \<in> op_hash_raw C cid me ` S" if "get_order_status s' k \<noteq> StNone" for k
      using that I(3) [of k] S(3) unfolding stat by (auto split: if_splits)
    show "get_order_status s' k \<in> {StNone, Open, Filled, Cancelled}" for k
      using I(4) [of k] st unfolding stat by auto
    show "unat (get_in_flight s' g) = total S ?key (opened_by g) (get_order_status s')" for g
      using I(5) [of g] c(4,6) leave [of "opened_by g"] s' by (auto simp: store_simps opened_by_def)
    show "creatable q" if "q \<in> S" "get_order_status s' (?key q) \<noteq> StNone" for q
      using I(7) [of q] I(7) [of p] that c(3) h S unfolding stat
      by (cases "q = p"; cases "get_order_status s (?key p)") (auto dest: inj_onD split: if_splits)
  qed
qed

lemma idle_inv:
  assumes "po_inv X C me cid wn S (s, w)" "get_order_status s' = get_order_status s"
    "get_in_flight s' = get_in_flight s" "finite_claims s'" "po_wired cid wn s'"
    "\<And>u. exposure X me wn (s', w') u \<le> exposure X me wn (s, w) u"
  shows "po_inv X C me cid wn S (s', w')"
proof -
  note I = po_invD [OF assms(1)]
  show ?thesis
  proof (rule po_invI)
    show "int (total S (op_hash_raw C cid me) (deposited wn u) (get_order_status s')) +
        exposure X me wn (s', w') u \<le> 0" for u
      using I(6) [of u] assms(6) [of u] unfolding assms(2) by linarith
  qed (use I(3-5,7) assms(2-5) in simp_all)
qed

lemma op_exec_inv:
  assumes S: "finite S" "inj_on (op_hash_raw C cid me) S" and E: "op_entry C me E" and "op_names_only S c"
    and laws: "escrow_laws X me wn R" and inv: "po_inv X C me cid wn S (s, w)"
    and run: "op_exec X E c (s, w) = Inr (s', w')"
  shows "po_inv X C me cid wn S (s', w')"
proof -
  note I = po_invD [OF inv] and ended = ended_inv [OF S _ E laws inv]
  have me: "self E = me" using E by (simp add: op_entry_def)
  show ?thesis
  proof (cases c)
    case (PAdmin k)
    then have a: "op_admin_exec E k s = Inr s'" "w' = w" using run by (auto simp: res_simps)
    note same = admin_accounts [OF a(1)]
    then have "po_wired cid wn s'" using I(1) by (auto simp: po_wired_def)
    moreover have "get_order_status s' = get_order_status s" "get_in_flight s' = get_in_flight s"
      using same by (simp_all add: fun_eq_iff get_order_status_def get_order_def get_in_flight_def)
    moreover have "finite_claims s'" "exposure X me wn (s', w') u \<le> exposure X me wn (s, w) u" for u
      using same a(2) I(2) credited_cong [of s' s] by (simp_all add: exposure_def)
    ultimately show ?thesis by (intro idle_inv [OF inv])
  next
    case (PCreate p)
    then obtain h where "create_order X E p (s, w) = Inr (h, s', w')" using run by (auto simp: res_simps)
    then show ?thesis using opened_inv [OF S _ E laws inv] PCreate assms(4) by auto
  next
    case (PUnlock p nu root pf cosig)
    then show ?thesis using run assms(4) ended by (auto elim: op_unlock_ends)
  next
    case (PRefund p root pf)
    then show ?thesis using run assms(4) ended by (auto elim: refund_ends)
  next
    case (PSettled p root pf)
    then show ?thesis using run assms(4) ended by (auto elim: settled_ends)
  next
    case (PForfeit p root pf)
    then show ?thesis using run assms(4) ended by (auto elim: forfeit_ends)
  next
    case (PRecord p)
    then obtain mm h where r: "mm_append X E mm me h LEAF_DOMAIN_SETTLED w = Some w'" "s' = set_settled_recorded h s"
      using run me by (auto simp: op_record_settled_def record_settled_store res_simps)
    have "st_claimables s' = st_claimables s" using r by (simp add: store_simps)
    then show ?thesis using r I(1,2) escrow_lawsD(3) [OF laws r(1)] credited_cong [of s' s]
      by (intro idle_inv [OF inv]) (simp_all add: store_simps exposure_def)
  next
    case (PClaim r t)
    then obtain cfg where c: "st_config s = Some cfg" "claim X E cfg r t (s, w) = Inr (s', w')"
      using run by (auto simp: op_claim_def res_simps)
    have wn: "w_native_token cfg = wn" using c(1) I(1) by (auto simp: po_wired_def)
    have s': "s' = set_claimable r t 0 s" using c(2) by (auto simp: claim_def Let_def res_simps split: if_splits)
    show ?thesis
      using claim_exposure [OF escrow_lawsD(1) [OF laws] me I(2) wn c(2)] I(1) s'
      by (intro idle_inv [OF inv]) (simp_all add: store_simps)
  qed
qed

lemma op_reach_inv:
  assumes "op_reach X C me cid wn S R sw" "finite S" "inj_on (op_hash_raw C cid me) S" "escrow_laws X me wn R"
  shows "po_inv X C me cid wn S sw"
  using assms(1)
proof (induction rule: op_reach.induct)
  case (op_reach_init E adm vf mm s w)
  then have s: "s = po_empty\<lparr>st_config := Some \<lparr>admin = adm, verifier = vf, merkle_manager = mm,
      w_native_token = wn, chain_id = cid\<rparr>, st_initialized := True\<rparr>"
    by (auto simp: op_initialize_def po_empty_def split: if_splits)
  have none: "get_order_status s h = StNone" "get_in_flight s g = 0" for h g
    by (simp_all add: s po_empty_def get_order_status_def get_order_def no_order_def get_in_flight_def)
  have "st_claimables s = Map.empty" by (simp add: s po_empty_def)
  then show ?case using op_reach_init.hyps(3) none total_none [of "get_order_status s" S]
    by (intro po_invI) (simp_all add: s po_wired_def finite_claims_def exposure_def credited_def)
next
  case (op_reach_call sw E c sw')
  then show ?case using op_exec_inv [OF assms(2,3) _ _ assms(4)] by (cases sw, cases sw') blast
next
  case (op_reach_world s w w')
  have "exposure X me wn (s, w') u \<le> exposure X me wn (s, w) u" for u
    using token_lawsD(4) [OF escrow_lawsD(1) [OF assms(4)] op_reach_world.hyps(2), of u] by (simp add: exposure_def)
  then show ?case using idle_inv [OF op_reach_world.IH] po_invD(1,2) [OF op_reach_world.IH] by blast
qed

end
