(* ===== verification/Portal_Demo.thy ===== *)
theory Portal_Demo
  imports Portal_Invariants Token_Ledger
begin

text \<open>
  A deployment of the order-portal on concrete data over the token ledger of \<open>Token_Ledger\<close>: its
  wiring, one funded order, and the ways that order ends.
\<close>

definition pd_crypto :: crypto where
  "pd_crypto = \<lparr>keccak256 = (\<lambda>bs. of_nat (length bs)), xdr_hash = (\<lambda>_ _. 1),
     xdr_args = (\<lambda>_. Some []), fr_reduce = (\<lambda>x. x), poseidon = (\<lambda>_. 0)\<rparr>"

definition pd_me :: address where "pd_me = ContractAddr 60"
definition pd_native :: address where "pd_native = ContractAddr 16"

definition pd_env :: "u64 \<Rightarrow> env" where
  "pd_env t = \<lparr>now = t, self = pd_me, authed = (\<lambda>a. a = AccountAddr 1 \<or> a = AccountAddr 30),
     prims = pd_crypto\<rparr>"

definition pd_timing :: route_timing where
  "pd_timing = \<lparr>min_window = 3600, buffer = 1800, margin = 300, claim_stagger = 600\<rparr>"

definition pd_order :: portal_params where
  "pd_order = \<lparr>q_order_chain_token = 21, q_ad_chain_token = 20, q_amount = 500, q_bridger = 30,
     q_order_recipient = 31, q_ad_chain_id = 9, q_ad_manager = 10, q_ad_id = ''a1'', q_ad_creator = 2,
     q_ad_recipient = 50, q_salt = 99, q_order_decimals = 7, q_ad_decimals = 7, q_deadline = 10000,
     q_ad_settlement_signer = 2, q_lp_fee_bps = 0, q_protocol_fee_bps = 0\<rparr>"

definition pd_world :: ledger where
  "pd_world = (\<lambda>t who. if t = ContractAddr 21 \<and> who = AccountAddr 30 then 1000 else 0)"

definition pd_setup :: "(u64 \<times> portal_call) list" where
  "pd_setup =
     [(100, PAdmin (PSetChain 9 10)),
      (100, PAdmin (PSetTokenRoute 21 9 20)),
      (100, PAdmin (PSetRouteTiming 9 pd_timing)),
      (100, PAdmin (PSetRootVerifier 9 (ContractAddr 12))),
      (100, PAdmin (PSetRootAnchor (ContractAddr 13))),
      (300, PCreate pd_order)]"

text \<open>Running a list of calls; \<open>None\<close> as soon as one is refused.\<close>

fun op_run :: "'w ext \<Rightarrow> (u64 \<Rightarrow> env) \<Rightarrow> (u64 \<times> portal_call) list \<Rightarrow> portal_store \<times> 'w \<Rightarrow>
    (portal_store \<times> 'w) option" where
  "op_run X E [] sw = Some sw"
| "op_run X E ((t, c) # cs) sw =
     (case op_exec X (E t) c sw of Inl _ \<Rightarrow> None | Inr sw' \<Rightarrow> op_run X E cs sw')"

lemma op_run_reach:
  assumes "op_reach X C me cid wn S R sw" "\<And>t. op_entry C me (E t)" "\<forall>c \<in> set cs. op_names_only S (snd c)"
    "op_run X E cs sw = Some sw'"
  shows "op_reach X C me cid wn S R sw'"
  using assms
proof (induction cs arbitrary: sw)
  case (Cons tc cs)
  obtain t c where tc: "tc = (t, c)" by (cases tc)
  from Cons.prems(4) tc obtain sw1 where "op_exec X (E t) c sw = Inr sw1"
    and rest: "op_run X E cs sw1 = Some sw'" by (auto split: sum.splits)
  with Cons.prems tc have "op_reach X C me cid wn S R sw1" by (auto intro: op_reach_call)
  then show ?case using Cons rest by auto
qed simp

definition pd_config :: contract_config where
  "pd_config = \<lparr>admin = AccountAddr 1, verifier = ContractAddr 14,
     merkle_manager = ContractAddr 15, w_native_token = pd_native, chain_id = 7\<rparr>"

definition pd_init :: portal_store where
  "pd_init = po_empty\<lparr>st_config := Some pd_config, st_initialized := True\<rparr>"

definition pd_leg :: order_record where
  "pd_leg = \<lparr>status = Open, locked_at = 300, registry_epoch = 0, timing_version = 1,
     anchor_delay = 0, pinned_slot = 0, repinned = False\<rparr>"

definition pd_open :: portal_store where
  "pd_open = pd_init\<lparr>st_root_anchor := Some (ContractAddr 13), st_routes := [(21, 9) \<mapsto> 20],
     st_orders := [66 \<mapsto> pd_leg], st_root_verifiers := [9 \<mapsto> ContractAddr 12],
     st_rv_changed := [9 \<mapsto> 100], st_wired_chains := [9], st_in_flight := [30 \<mapsto> 1],
     st_timings := [(9, 1) \<mapsto> pd_timing], st_timing_versions := [9 \<mapsto> 1], po_chains := [9 \<mapsto> 10]\<rparr>"

definition pd_funded :: ledger where
  "pd_funded = pd_world(ContractAddr 21 := (pd_world (ContractAddr 21))(AccountAddr 30 := 500, pd_me := 500))"

lemma pd_typed_hash: "keccak256 C = (\<lambda>bs. of_nat (length bs)) \<Longrightarrow> typed_order_hash C o' = 66"
  by (simp add: typed_order_hash_def hash_typed_data_v4_def)

lemma pd_hash: "op_hash_raw pd_crypto 7 pd_me pd_order = 66"
  unfolding op_hash_raw_def by (rule pd_typed_hash) (simp add: pd_crypto_def)

lemma pd_entry: "op_entry pd_crypto pd_me (pd_env t)"
  by (simp add: op_entry_def pd_env_def pd_me_def)

lemma pd_init_reach: "op_reach ledger_ext pd_crypto pd_me 7 pd_native S R (pd_init, pd_world)"
  by (rule op_reach_init [OF pd_entry [of 0],
        where adm = "AccountAddr 1" and vf = "ContractAddr 14" and mm = "ContractAddr 15"])
    (simp_all add: op_initialize_def po_empty_def pd_init_def pd_config_def pd_env_def pd_me_def pd_world_def)

lemmas pd_defs = pd_setup_def pd_init_def pd_config_def pd_env_def pd_order_def pd_timing_def pd_crypto_def
  pd_me_def pd_native_def po_empty_def tl_init_def pd_leg_def pd_typed_hash ledger_transfer_def

lemmas pd_run_defs = op_setter_defs shared_setter_defs op_as_admin_def op_gated_def op_get_config_def
  with_timelock_def gate_def gate_keyed_def is_active_def require_auth_def is_zero_bytes32_def
  op_get_chain_def opl_def validate_timing_def timing_consts push_route_timing_def
  get_timing_version_def get_token_route_def set_route_timing_def cadd_def

lemmas pd_create_defs = create_order_def op_validate_order_def assert_in_range_def MAX_DECIMALS_def
  MAX_FEE_BPS_def bytes32_to_account_address_def assert_order_decimals_def token_decimals_def
  require_min_window_def current_timing_def get_route_timing_at_def op_order_hash_def op_order_of_def
  abi_encode_string_def get_order_status_def get_order_def no_order_def open_order_def set_order_def
  get_in_flight_def set_in_flight_def append_to_merkle_def transfer_from_user_def transfer_tokens_def
  is_native_token_def NATIVE_TOKEN_ADDRESS_def bytes32_to_token_address_def as_i128_def

lemma pd_setup_runs: "op_run ledger_ext pd_env pd_setup (pd_init, pd_world) = Some (pd_open, pd_funded)"
  by (simp add: pd_open_def pd_funded_def pd_world_def pd_defs pd_run_defs pd_create_defs Let_def fun_upd_twist)

lemma pd_open_reach: "op_reach ledger_ext pd_crypto pd_me 7 pd_native {pd_order} R (pd_open, pd_funded)"
  by (rule op_run_reach [OF pd_init_reach pd_entry _ pd_setup_runs]) (simp add: pd_setup_def)

lemma pd_laws: "escrow_laws ledger_ext pd_me pd_native (ledger_moves pd_me)"
proof -
  have "exact_token ledger_ext pd_me pd_native"
    unfolding exact_token_def using ledger_transfer_Some by fastforce
  moreover have "append_spends_nothing ledger_ext pd_me" by (simp add: append_spends_nothing_def)
  ultimately show ?thesis by (simp add: escrow_laws_def ledger_ext_laws)
qed

end
