(* ===== verification/Portal_Properties.thy ===== *)
theory Portal_Properties
  imports Portal_Demo
begin

text \<open>
  The properties of the order-portal over its reachable states, each applied to the deployment of
  \<open>Portal_Demo\<close>: solvency, the open counts, one payout per order, the refund that cannot be blocked,
  and the forfeit that leaves no SETTLED leaf.
\<close>

section \<open>What it owes and what it holds\<close>

text \<open>C17: In every reachable state and for every token, the deposits of the open orders plus the credited
  payouts are covered by what the portal holds of that token.\<close>

theorem portal_solvent:
  assumes "op_reach X C me cid wn S R (s, w)" "finite S" "inj_on (op_hash_raw C cid me) S"
    and "escrow_laws X me wn R"
  shows "int (total S (op_hash_raw C cid me) (deposited wn u) (get_order_status s)) +
    int (credited wn s u) \<le> tok_balance X u me w"
  using po_invD(6) [OF op_reach_inv [OF assms], of u] by (simp add: exposure_def)

theorem portal_solvent_witness:
  "int (total {pd_order} (op_hash_raw pd_crypto 7 pd_me) (deposited pd_native (ContractAddr 21))
     (get_order_status pd_open)) \<le> tok_balance ledger_ext (ContractAddr 21) pd_me pd_funded"
  using portal_solvent [OF pd_open_reach _ _ pd_laws, of "ContractAddr 21"] by simp

text \<open>A bridger's open-position count, which the key registry reads before it lets a key go, is
  exactly the number of their open orders, so it is positive while one is open and zero once none is.\<close>

theorem portal_in_flight_exact:
  assumes "op_reach X C me cid wn S R (s, w)" "finite S" "inj_on (op_hash_raw C cid me) S"
    and "escrow_laws X me wn R"
  shows "unat (get_in_flight s g) =
      card {p \<in> S. get_order_status s (op_hash_raw C cid me p) = Open \<and> q_bridger p = g} \<and>
    (op_has_open_positions s g \<longleftrightarrow>
      (\<exists>p \<in> S. get_order_status s (op_hash_raw C cid me p) = Open \<and> q_bridger p = g))"
proof -
  let ?key = "op_hash_raw C cid me"
  let ?A = "{p \<in> S. get_order_status s (?key p) = Open \<and> q_bridger p = g}"
  note I = po_invD [OF op_reach_inv [OF assms]]
  have live: "live (get_order_status s h) \<longleftrightarrow> get_order_status s h = Open" for h using I(4) [of h] by auto
  have "total S ?key (opened_by g) (get_order_status s) = card ?A"
    unfolding total_def live opened_by_def using assms(2)
    by (simp add: sum.If_cases Int_def conj_ac)
  then have n: "unat (get_in_flight s g) = card ?A" using I(5) [of g] by simp
  have "op_has_open_positions s g \<longleftrightarrow> 0 < card ?A"
    unfolding n [symmetric] op_has_open_positions_def by (simp add: word_less_nat_alt)
  then show ?thesis using n assms(2) by (auto simp: card_gt_0_iff)
qed

theorem portal_in_flight_exact_witness:
  "op_has_open_positions pd_open 30 \<and> unat (get_in_flight pd_open 30) = 1"
proof -
  have "get_order_status pd_open (op_hash_raw pd_crypto 7 pd_me pd_order) = Open"
    by (simp add: pd_hash pd_open_def pd_leg_def get_order_status_def get_order_def)
  moreover have "q_bridger pd_order = 30" by (simp add: pd_order_def)
  moreover have "{p. p = pd_order \<and> q_bridger p = 30 \<and> get_order_status pd_open (op_hash_raw pd_crypto 7 pd_me p) = Open} = {pd_order}"
    using calculation by auto
  ultimately show ?thesis using portal_in_flight_exact [OF pd_open_reach _ _ pd_laws, of 30]
    by (simp add: conj_ac)
qed

section \<open>An order pays out once\<close>

text \<open>Any calls later, whatever the world does in between.\<close>

inductive op_later :: "'w ext \<Rightarrow> portal_store \<times> 'w \<Rightarrow> portal_store \<times> 'w \<Rightarrow> bool" for X :: "'w ext" where
  op_later_refl: "op_later X sw sw"
| op_later_call: "op_later X sw sw1 \<Longrightarrow> op_exec X E c sw1 = Inr sw2 \<Longrightarrow> op_later X sw sw2"
| op_later_world: "op_later X sw (s, w) \<Longrightarrow> op_later X sw (s, w')"

lemma ends_status:
  assumes "ends X E cfg p h st payee (s, w) (s', w')"
  shows "get_order_status s' = (get_order_status s)(h := st)" "live (get_order_status s h)"
proof -
  from assms obtain s2 where s2: "get_order_status s2 = (get_order_status s)(h := st)"
    "(pay_or_credit X E (w_native_token cfg) payee (q_order_chain_token p) (q_amount p) (s2, w) ::
      (portal_error, _) res) = Inr (s', w')" by (auto simp: ends_def)
  obtain cl where "s' = s2\<lparr>st_claimables := cl\<rparr>" using pay_or_credit_store [OF s2(2)] by blast
  then show "get_order_status s' = (get_order_status s)(h := st)" using s2(1) by (simp add: store_simps)
  show "live (get_order_status s h)" using assms by (auto simp: ends_def)
qed

lemma op_exec_terminal:
  assumes "op_exec X E c (s, w) = Inr (s', w')" "terminal (get_order_status s h)"
  shows "get_order_status s' h = get_order_status s h"
proof -
  have ended: "get_order_status s' h = get_order_status s h"
    if "ends X E cfg p k st payee (s, w) (s', w')" for cfg p k st payee
    using ends_status [OF that] assms(2) by (cases "k = h"; cases "get_order_status s h") auto
  show ?thesis
  proof (cases c)
    case (PAdmin k)
    then show ?thesis using assms(1) admin_accounts [of E k s s']
      by (auto simp: res_simps get_order_status_def get_order_def)
  next
    case (PCreate p)
    then obtain k where "create_order X E p (s, w) = Inr (k, s', w')" using assms(1) by (auto simp: res_simps)
    then obtain tv n where "get_order_status s k = StNone" "s' = set_in_flight (q_bridger p) n (open_order E k tv 0 0 0 s)"
      by (rule create_Ok)
    then show ?thesis using assms(2) by (auto simp: store_simps)
  next
    case (PUnlock p nu root pf cosig)
    then show ?thesis using assms(1) ended by (auto elim: op_unlock_ends)
  next
    case (PRefund p root pf)
    then show ?thesis using assms(1) ended by (auto elim: refund_ends)
  next
    case (PSettled p root pf)
    then show ?thesis using assms(1) ended by (auto elim: settled_ends)
  next
    case (PForfeit p root pf)
    then show ?thesis using assms(1) ended by (auto elim: forfeit_ends)
  next
    case (PRecord p)
    then show ?thesis using assms(1) by (auto simp: op_record_settled_def record_settled_store res_simps store_simps)
  next
    case (PClaim r t)
    then show ?thesis using assms(1)
      by (auto simp: op_claim_def claim_def Let_def res_simps store_simps split: if_splits)
  qed
qed

lemma op_later_terminal:
  assumes "op_later X sw sw2" "terminal (get_order_status (fst sw) h)"
  shows "get_order_status (fst sw2) h = get_order_status (fst sw) h"
  using assms
proof (induction rule: op_later.induct)
  case (op_later_call sw sw1 E c sw2)
  then show ?case using op_exec_terminal [of X E c "fst sw1" "snd sw1" "fst sw2" "snd sw2" h] by simp
qed simp_all

text \<open>The order a call ends, and pays out, when it goes through.\<close>

fun ended_by :: "portal_call \<Rightarrow> portal_params option" where
  "ended_by (PUnlock p nu root pf cosig) = Some p"
| "ended_by (PRefund p root pf) = Some p"
| "ended_by (PSettled p root pf) = Some p"
| "ended_by (PForfeit p root pf) = Some p"
| "ended_by _ = None"

lemma op_exec_ends:
  assumes "op_exec X E c (s, w) = Inr (s', w')" "ended_by c = Some p"
  obtains cfg h st payee where "ends X E cfg p h st payee (s, w) (s', w')" "terminal st"
proof -
  show thesis
  proof (cases c)
    case (PUnlock q nu root pf cosig)
    then have "op_unlock X E p nu root pf cosig (s, w) = Inr (s', w')" using assms by simp
    then show thesis by (rule op_unlock_ends) (erule that, simp)
  next
    case (PRefund q root pf)
    then have "refund_by_cancel X E p root pf (s, w) = Inr (s', w')" using assms by simp
    then show thesis by (rule refund_ends) (erule that, simp)
  next
    case (PSettled q root pf)
    then have "op_present_settled X E p root pf (s, w) = Inr (s', w')" using assms by simp
    then show thesis by (rule settled_ends) (erule that, simp)
  next
    case (PForfeit q root pf)
    then have "pay_maker_by_forfeit X E p root pf (s, w) = Inr (s', w')" using assms by simp
    then show thesis by (rule forfeit_ends) (erule that, simp)
  qed (use assms(2) in simp_all)
qed

lemma ends_own:
  assumes "ends X E cfg p h st payee (s, w) (s', w')" "st_config s = Some cfg'"
  shows "get_order_status s' (op_hash_raw (prims E) (chain_id cfg') (self E) p) = st"
    "live (get_order_status s (op_hash_raw (prims E) (chain_id cfg') (self E) p))"
proof -
  have h: "h = op_hash_raw (prims E) (chain_id cfg') (self E) p" using assms unfolding ends_def by auto
  show "get_order_status s' (op_hash_raw (prims E) (chain_id cfg') (self E) p) = st"
    "live (get_order_status s (op_hash_raw (prims E) (chain_id cfg') (self E) p))"
    using ends_status [OF assms(1)] h by simp_all
qed

text \<open>C18: An order pays out once: when an unlock, a refund, a settlement or a forfeit of an order has gone
  through, the order has ended, and no later unlock, refund, settlement or forfeit of an order with that
  hash succeeds, by anyone, with any proof, at any time and whatever happens in between.\<close>

theorem order_pays_once:
  assumes "op_exec X E c (s, w) = Inr (s1, w1)" "ended_by c = Some p" "st_config s = Some cfg"
    and "op_later X (s1, w1) (s2, w2)" "st_config s2 = Some cfg'"
    and "op_hash_raw (prims E') (chain_id cfg') (self E') p' = op_hash_raw (prims E) (chain_id cfg) (self E) p"
  shows "terminal (get_order_status s1 (op_hash_raw (prims E) (chain_id cfg) (self E) p)) \<and> (\<forall>nu root pf cosig r.
    op_unlock X E' p' nu root pf cosig (s2, w2) \<noteq> Inr r \<and> refund_by_cancel X E' p' root pf (s2, w2) \<noteq> Inr r \<and>
    op_present_settled X E' p' root pf (s2, w2) \<noteq> Inr r \<and> pay_maker_by_forfeit X E' p' root pf (s2, w2) \<noteq> Inr r)"
proof -
  let ?h = "op_hash_raw (prims E) (chain_id cfg) (self E) p"
  obtain cfg1 h st payee where e: "ends X E cfg1 p h st payee (s, w) (s1, w1)" "terminal st"
    by (rule op_exec_ends [OF assms(1,2)])
  then have t: "terminal (get_order_status s1 ?h)" using ends_own(1) [OF e(1) assms(3)] by simp
  then have "terminal (get_order_status s2 ?h)" using op_later_terminal [OF assms(4), of ?h] by simp
  then have dead: "\<not> live (get_order_status s2 ?h)" by (cases "get_order_status s2 ?h") simp_all
  have no_end: "\<not> ends X E' cfg2 p' k st payee (s2, w2) r" for cfg2 k st payee r
    using ends_own(2) [of X E' cfg2 p' k st payee s2 w2 "fst r" "snd r", OF _ assms(5)] dead assms(6) by auto
  show ?thesis
    by (intro conjI [OF t] allI conjI; rule notI; case_tac r)
      (use no_end in \<open>blast elim: op_unlock_ends refund_ends settled_ends forfeit_ends\<close>)+
qed

definition pd_refunded :: portal_store where
  "pd_refunded = pd_open\<lparr>st_orders := [66 \<mapsto> pd_leg\<lparr>status := Cancelled\<rparr>], st_in_flight := Map.empty\<rparr>"

lemmas pd_end_defs = by_leaf_def require_presentable_def require_anchored_def is_anchored_def verify_proof_def
  cancel_def fill_def count_out_def csub_def remove_claim_def set_order_status_def pay_or_credit_def
  try_transfer_to_recipient_def pay_maker_def refund_bridger_def

lemma pd_refund_runs:
  "op_exec ledger_ext (pd_env 900) (PRefund pd_order 88 []) (pd_open, pd_funded) = Inr (pd_refunded, pd_world)"
  by (simp add: refund_by_cancel_def pd_refunded_def pd_open_def pd_funded_def pd_world_def pd_defs pd_run_defs
      pd_create_defs pd_end_defs Let_def fun_upd_twist fun_eq_iff)

theorem order_pays_once_witness:
  "op_present_settled ledger_ext (pd_env 950) pd_order 88 [] (pd_refunded, pd_world) \<noteq> Inr (pd_open, pd_funded)"
proof -
  have c: "st_config pd_open = Some pd_config" "st_config pd_refunded = Some pd_config"
    by (simp_all add: pd_refunded_def pd_open_def pd_init_def)
  have "op_hash_raw (prims (pd_env 950)) (chain_id pd_config) (self (pd_env 950)) pd_order =
      op_hash_raw (prims (pd_env 900)) (chain_id pd_config) (self (pd_env 900)) pd_order"
    by (simp add: pd_env_def)
  from order_pays_once [OF pd_refund_runs _ c(1) op_later_refl c(2) this] show ?thesis by simp
qed

section \<open>The refund cannot be blocked\<close>

lemma order_hash_of_creatable:
  assumes "creatable p" "prims E = C" "self E = me"
  shows "(op_order_hash E cfg p :: ('e, bytes32) res) = Inr (op_hash_raw C (chain_id cfg) me p)"
  using assms by (simp add: op_order_hash_Ok creatable_def)

lemma cancel_total:
  assumes "unat (get_in_flight s g) \<noteq> 0"
  shows "\<exists>s2. (cancel h g s :: (portal_error, portal_store) res) = Inr s2"
proof -
  obtain n where n: "unat (get_in_flight s g) = Suc n" using assms by (cases "unat (get_in_flight s g)") auto
  then have "n < 2 ^ 64" using unat_less_len [of "get_in_flight s g"] by simp
  then have "unat (get_in_flight s g) = Suc (unat (of_nat n :: u64))" using n by (simp add: unat_of_nat)
  then show ?thesis by (auto simp: cancel_def count_out_Ok store_simps)
qed

lemma credited_member:
  assumes "finite_claims s"
  shows "unat (get_claimable s r t) \<le> credited wn s (token_contract wn t)"
proof (cases "st_claimables s (r, t)")
  case (Some a)
  have "(if token_contract wn (snd (r, t)) = token_contract wn t then unat a else 0) \<le> credited wn s (token_contract wn t)"
    unfolding credited_def using assms Some by (intro tally_member) (simp_all add: finite_claims_def)
  then show ?thesis using Some by (simp add: get_claimable_def)
qed (simp add: get_claimable_def)

lemma pay_or_credit_returns:
  assumes "unat (get_claimable s r t) + unat a < 2 ^ 128"
  shows "\<exists>s' w'. (pay_or_credit X E wn r t a (s, w) :: ('e, 'a escrow_store_scheme \<times> 'w) res) = Inr (s', w')"
proof (cases "try_transfer_to_recipient X E t wn r a w")
  case None
  have "unat (get_claimable s r t + a) = unat (get_claimable s r t) + unat a" using assms by (simp add: unat_add_small)
  then show ?thesis using None unfolding pay_or_credit_Ok by blast
qed (auto simp: pay_or_credit_Ok)

text \<open>C19: A refund backed by the ad leg's CANCEL leaf under an anchored root always goes through, whenever
  it is presented: no pause, clock, admin, full credit slot, failing token or dead recipient can block
  it. The order ends Cancelled and the bridger is paid, or credited the whole deposit.\<close>

theorem refund_never_blocked:
  assumes "op_reach X C me cid wn S R (s, w)" "finite S" "inj_on (op_hash_raw C cid me) S"
    and "escrow_laws X me wn R" "op_entry C me E" "p \<in> S" "h = op_hash_raw C cid me p"
    and "get_order_status s h = Open" "st_config s = Some cfg" "st_root_anchor s = Some a"
    and "ra_is_anchored X E a (q_ad_chain_id p) root w"
    and "zk_verify X (verifier cfg) (build_event_public_inputs C root h LEAF_DOMAIN_CANCEL) pf w"
    and "tok_balance X (token_contract wn (q_order_chain_token p)) me w < 2 ^ 128"
  shows "\<exists>s' w'. refund_by_cancel X E p root pf (s, w) = Inr (s', w') \<and> get_order_status s' h = Cancelled \<and>
    (tok_transfer X E (token_contract wn (q_order_chain_token p)) me (AccountAddr (q_bridger p))
       (as_i128 (q_amount p)) w = Some w' \<or>
     w' = w \<and> unat (get_claimable s' (q_bridger p) (q_order_chain_token p)) =
       unat (get_claimable s (q_bridger p) (q_order_chain_token p)) + unat (q_amount p))"
proof -
  let ?key = "op_hash_raw C cid me" and ?u = "token_contract wn (q_order_chain_token p)"
  have inv: "po_inv X C me cid wn S (s, w)" by (rule op_reach_inv [OF assms(1-4)])
  note I = po_invD [OF inv]
  have cfg: "chain_id cfg = cid" "w_native_token cfg = wn" using I(1) assms(9) by (auto simp: po_wired_def)
  have E: "prims E = C" "self E = me" using assms(5) by (simp_all add: op_entry_def)
  have st: "get_order_status s (?key p) = Open" using assms(7,8) by simp
  have hash: "op_order_hash E cfg p = (Inr h :: (portal_error, bytes32) res)"
    using order_hash_of_creatable [where cfg = cfg and 'e = portal_error, OF I(7) E] st assms(6,7) cfg by simp
  have split: "total S ?key f ((get_order_status s)(?key p := Cancelled)) + f p = total S ?key f (get_order_status s)"
    for f by (rule total_leave [OF assms(2,3,6)]) (use st in simp_all)
  have "unat (get_in_flight s (q_bridger p)) \<noteq> 0"
    using I(5) [of "q_bridger p"] split [of "opened_by (q_bridger p)"] by (simp add: opened_by_def)
  then obtain s2 where s2: "(cancel h (q_bridger p) s :: (portal_error, portal_store) res) = Inr s2"
    using cancel_total by blast
  note frame = cancel_frame [OF s2]
  have cl: "get_claimable s2 r t = get_claimable s r t" for r t using frame by (auto simp: get_claimable_def)
  have "unat (q_amount p) \<le> total S ?key (deposited wn ?u) (get_order_status s)"
    using split [of "deposited wn ?u"] by (simp add: deposited_def)
  moreover have "unat (get_claimable s (q_bridger p) (q_order_chain_token p)) \<le> credited wn s ?u"
    by (rule credited_member [OF I(2)])
  moreover have "int (total S ?key (deposited wn ?u) (get_order_status s) + credited wn s ?u) < 2 ^ 128"
    using I(6) [of ?u] assms(13) by (simp add: exposure_def)
  then have "total S ?key (deposited wn ?u) (get_order_status s) + credited wn s ?u < 2 ^ 128" by simp
  ultimately have room: "unat (get_claimable s2 (q_bridger p) (q_order_chain_token p)) + unat (q_amount p) < 2 ^ 128"
    unfolding cl by linarith
  from pay_or_credit_returns [where 'e = portal_error and X = X and E = E and wn = wn and w = w, OF room]
  obtain s' w' where pay: "(pay_or_credit X E wn (q_bridger p) (q_order_chain_token p) (q_amount p) (s2, w) ::
      (portal_error, _) res) = Inr (s', w')" by blast
  obtain cl' where s': "s' = s2\<lparr>st_claimables := cl'\<rparr>" using pay_or_credit_store [OF pay] by blast
  have anch: "require_anchored X E (q_ad_chain_id p) root (s, w) = Inr ()"
    using assms(10,11) by (simp add: require_anchored_def is_anchored_def)
  have "refund_by_cancel X E p root pf (s, w) = Inr (s', w')"
    unfolding refund_by_cancel_def by_leaf_Ok refund_bridger_def fst_conv snd_conv
    using hash assms(8,9,12) anch s2 pay cfg E(1) by (intro exI [of _ cfg] exI [of _ h]) simp
  moreover have "get_order_status s' h = Cancelled" using s' frame by (auto simp: store_simps)
  moreover have "tok_transfer X E ?u me (AccountAddr (q_bridger p)) (as_i128 (q_amount p)) w = Some w' \<or>
     w' = w \<and> unat (get_claimable s' (q_bridger p) (q_order_chain_token p)) =
       unat (get_claimable s (q_bridger p) (q_order_chain_token p)) + unat (q_amount p)"
    using pay E(2) unfolding pay_or_credit_Ok cl
    by (auto simp: try_transfer_to_recipient_eq store_simps split: if_splits)
  ultimately show ?thesis by blast
qed

theorem refund_never_blocked_witness:
  "\<exists>s' w'. refund_by_cancel ledger_ext (pd_env 90000) pd_order 88 [] (pd_open, pd_funded) = Inr (s', w') \<and>
     get_order_status s' 66 = Cancelled"
proof -
  have 1: "get_order_status pd_open 66 = Open" "st_config pd_open = Some pd_config"
    "st_root_anchor pd_open = Some (ContractAddr 13)"
    by (simp_all add: pd_open_def pd_init_def pd_leg_def get_order_status_def get_order_def)
  have 2: "tok_balance ledger_ext (token_contract pd_native (q_order_chain_token pd_order)) pd_me pd_funded < 2 ^ 128"
    by (simp add: pd_funded_def pd_world_def pd_me_def)
  show ?thesis
    using refund_never_blocked [OF pd_open_reach _ _ pd_laws pd_entry _ pd_hash [symmetric] 1 _ _ 2, of 90000 88 "[]"]
    by auto
qed

section \<open>A forfeit leaves no SETTLED leaf\<close>

lemma admin_settled:
  assumes "op_admin_exec E c s = Inr s'"
  shows "st_settled s' = st_settled s"
proof (cases c)
  case (PSetRootVerifier ch m)
  then show ?thesis using assms
    by (auto simp: op_set_root_verifier_def set_root_verifier_eq res_simps elim!: set_root_verifier_gated_store)
qed (use assms in \<open>clarsimp simp: op_setter_defs shared_setter_defs Let_def res_simps split: if_splits\<close>)+

lemma op_exec_recorded:
  assumes "op_exec X E c (s, w) = Inr (s', w')" "is_settled_recorded s h"
  shows "is_settled_recorded s' h"
proof -
  have ended: "is_settled_recorded s' h"
    if "(fill k g s1 :: (portal_error, portal_store) res) = Inr s2 \<or> (cancel k g s1 :: (portal_error, portal_store) res) = Inr s2"
      "st_settled s1 = st_settled s" "s3 = s2 \<or> s3 = set_settled_recorded j s2"
      "(pay_or_credit X E wn r t a (s3, w) :: (portal_error, _) res) = Inr (s', w')" for k g s1 s2 s3 j wn r t a
  proof -
    have "st_settled s2 = st_settled s"
      using that(1,2) fill_frame [of k g s1 s2] cancel_frame [of k g s1 s2] by auto
    then show ?thesis using that(3) pay_or_credit_store [OF that(4)] assms(2)
      by (auto simp: is_settled_recorded_def set_settled_recorded_def)
  qed
  have nul: "st_settled (set_nullifier_used nu s) = st_settled s" for nu by (simp add: set_nullifier_used_def)
  show ?thesis
  proof (cases c)
    case (PAdmin k)
    then show ?thesis using assms(1,2) admin_settled [of E k s s'] by (auto simp: res_simps is_settled_recorded_def)
  next
    case (PCreate p)
    then obtain k where "create_order X E p (s, w) = Inr (k, s', w')" using assms(1) by (auto simp: res_simps)
    then obtain tv n where "s' = set_in_flight (q_bridger p) n (open_order E k tv 0 0 0 s)" by (rule create_Ok)
    then show ?thesis using assms(2) by (simp add: is_settled_recorded_def set_in_flight_def open_order_def set_order_def)
  next
    case (PUnlock p nu root pf cosig)
    with assms(1) have "op_unlock X E p nu root pf cosig (s, w) = Inr (s', w')" by simp
    then show ?thesis by (rule op_unlock_Ok) (use ended nul in blast)
  next
    case (PRefund p root pf)
    then show ?thesis using assms(1) by (auto simp: refund_by_cancel_def refund_bridger_def res_simps intro: ended)
  next
    case (PSettled p root pf)
    then show ?thesis using assms(1) by (auto simp: op_present_settled_def pay_maker_def res_simps intro: ended)
  next
    case (PForfeit p root pf)
    then show ?thesis using assms(1) by (auto simp: pay_maker_by_forfeit_def pay_maker_def res_simps intro: ended)
  next
    case (PRecord p)
    then show ?thesis using assms
      by (auto simp: op_record_settled_def record_settled_store res_simps is_settled_recorded_def set_settled_recorded_def)
  next
    case (PClaim r t)
    then show ?thesis using assms
      by (auto simp: op_claim_def claim_def Let_def res_simps is_settled_recorded_def set_claimable_def split: if_splits)
  qed
qed

lemma op_later_recorded:
  assumes "op_later X sw sw2" "is_settled_recorded (fst sw) h"
  shows "is_settled_recorded (fst sw2) h"
  using assms
proof (induction rule: op_later.induct)
  case (op_later_call sw sw1 E c sw2)
  then show ?case using op_exec_recorded [of X E c "fst sw1" "snd sw1" "fst sw2" "snd sw2" h] by simp
qed simp_all

text \<open>C20: An order whose deposit was forfeited to the maker never gets a SETTLED leaf: \<open>record_settled\<close>
  answers \<open>SettledRecorded\<close> for it ever after, so no proof of settlement can be made from it.\<close>

theorem forfeit_never_settles:
  assumes "pay_maker_by_forfeit X E p root pf (s, w) = Inr (s1, w1)" "op_later X (s1, w1) (s2, w2)"
    and "st_config s = Some cfg" "st_config s2 = Some cfg2" "chain_id cfg2 = chain_id cfg"
    and "prims E' = prims E" "self E' = self E"
  shows "op_record_settled X E' p (s2, w2) = Fail (OpFault SettledRecorded)"
proof -
  from assms(1,3) have "length (q_ad_id p) \<le> 1024"
    by (auto simp: pay_maker_by_forfeit_def res_simps)
  moreover obtain h where h: "ends X E cfg p h Filled (q_ad_recipient p) (s, w) (s1, w1)" "is_settled_recorded s1 h"
    using assms(1,3) by (auto elim!: forfeit_ends simp: ends_def)
  moreover have "h = op_hash_raw (prims E) (chain_id cfg) (self E) p" using h(1) by (auto simp: ends_def)
  ultimately have hash: "op_order_hash E' cfg2 p = (Inr h :: (portal_error, bytes32) res)"
    using assms(5-7) by (simp add: op_order_hash_Ok)
  have "get_order_status s1 h = Filled" using ends_status(1) [OF h(1)] by simp
  then have "get_order_status s2 h = Filled" using op_later_terminal [OF assms(2), of h] by simp
  moreover have "is_settled_recorded s2 h" using op_later_recorded [OF assms(2), of h] h(2) by simp
  ultimately show ?thesis using hash assms(4)
    by (simp add: op_record_settled_def op_get_config_def record_settled_def opl_def)
qed

definition pd_forfeited :: portal_store where
  "pd_forfeited = pd_open\<lparr>st_orders := [66 \<mapsto> pd_leg\<lparr>status := Filled\<rparr>], st_in_flight := Map.empty,
     st_settled := [66 \<mapsto> True]\<rparr>"

lemma pd_forfeit_runs:
  "\<exists>w'. pay_maker_by_forfeit ledger_ext (pd_env 900) pd_order 88 [] (pd_open, pd_funded) = Inr (pd_forfeited, w')"
  by (simp add: pay_maker_by_forfeit_def pd_forfeited_def pd_open_def pd_funded_def pd_world_def pd_defs pd_run_defs
      pd_create_defs pd_end_defs set_settled_recorded_def Let_def)

theorem forfeit_never_settles_witness:
  "\<exists>w'. op_record_settled ledger_ext (pd_env 950) pd_order (pd_forfeited, w') = Fail (OpFault SettledRecorded)"
proof -
  obtain w' where run: "pay_maker_by_forfeit ledger_ext (pd_env 900) pd_order 88 [] (pd_open, pd_funded) = Inr (pd_forfeited, w')"
    using pd_forfeit_runs by blast
  have "st_config pd_open = Some pd_config" "st_config pd_forfeited = Some pd_config"
    by (simp_all add: pd_forfeited_def pd_open_def pd_init_def)
  from forfeit_never_settles [OF run op_later_refl this, of "pd_env 950"] show ?thesis
    by (auto simp: pd_env_def)
qed

end
