(* ===== verification/Legs.thy ===== *)
theory Legs
  imports Ad_Demo Portal_Demo
begin

text \<open>
  The two legs of one order, the ad-manager's and the order-portal's: they name it by the same hash,
  and their clocks keep the order leg's unlock away from the ad leg's cancel.
\<close>

text \<open>The order as the ad leg is given it, when the order leg has it as \<open>q\<close>.\<close>

definition on_ad_leg :: "u128 \<Rightarrow> address \<Rightarrow> portal_params \<Rightarrow> order_params" where
  "on_ad_leg order_chain portal q =
     \<lparr>p_order_chain_token = q_order_chain_token q, p_ad_chain_token = q_ad_chain_token q,
      p_amount = q_amount q, p_bridger = q_bridger q, p_order_chain_id = order_chain,
      p_src_order_portal = address_to_bytes32 portal, p_order_recipient = q_order_recipient q,
      p_ad_id = q_ad_id q, p_ad_creator = q_ad_creator q, p_ad_recipient = q_ad_recipient q,
      p_salt = q_salt q, p_order_decimals = q_order_decimals q, p_ad_decimals = q_ad_decimals q,
      p_deadline = q_deadline q, p_ad_settlement_signer = q_ad_settlement_signer q,
      p_lp_fee_bps = q_lp_fee_bps q, p_protocol_fee_bps = q_protocol_fee_bps q\<rparr>"

text \<open>Both legs compute the same order hash for the same order, each from its own view of it: the
  ad-manager and the order-portal agree on every order that names the two of them, errors included.\<close>

theorem legs_agree_on_hash:
  assumes "prims E1 = prims E2" "q_ad_chain_id q = chain_id cfg2" "q_ad_manager q = address_to_bytes32 (self E2)"
  shows "(op_order_hash E1 cfg1 q :: ('e, bytes32) res) = order_hash E2 cfg2 (on_ad_leg (chain_id cfg1) (self E1) q)"
  using assms
  by (simp add: op_order_hash_def order_hash_def op_order_of_def order_of_def on_ad_leg_def attempt_assoc)

theorem legs_agree_on_hash_witness:
  "(op_order_hash (pd_env 1) pd_config pd_order :: (unit, bytes32) res) =
     order_hash (demo_env 1) demo_config (on_ad_leg 7 pd_me pd_order)"
proof -
  have "prims (pd_env 1) = prims (demo_env 1)" by (simp add: pd_env_def pd_crypto_def demo_env_def demo_crypto_def)
  moreover have "q_ad_chain_id pd_order = chain_id demo_config" by (simp add: pd_order_def demo_config_def)
  moreover have "q_ad_manager pd_order = address_to_bytes32 (self (demo_env 1))"
    by (simp add: pd_order_def demo_env_def demo_me_def)
  ultimately show ?thesis
    using legs_agree_on_hash [of "pd_env 1" "demo_env 1" pd_order demo_config pd_config, where 'e = unit]
    by (simp add: pd_env_def pd_config_def)
qed

text \<open>C23: The order leg's co-signed unlock is over, by the route's whole \<open>claim_stagger\<close>, before the ad leg
  lets anyone claim the cancel of the same order: whatever the two chains' states, an unlock that went
  through and a cancel claim that went through are at least the stagger apart, in that order.\<close>

theorem unlock_precedes_claim:
  assumes "op_unlock X E1 q nu root pf cosig (s, w) = Inr r1"
    and "claim_cancel E2 (on_ad_leg oc portal q) s2 = Inr r2"
    and "op_order_hash E1 cfg q = (Inr h :: (portal_error, bytes32) res)" "st_config s = Some cfg"
    and "order_timing s h (q_ad_chain_id q) = Inr t" "claim_stagger t \<le> q_deadline q"
  shows "unat (now E1) + unat (claim_stagger t) \<le> unat (now E2)"
proof -
  from assms(1) have "now E1 \<le> saturating_sub (q_deadline q) (claim_stagger t)"
    using assms(3-5) by (cases r1) (auto elim!: op_unlock_Ok simp: op_order_hash_Ok)
  then have "unat (now E1) + unat (claim_stagger t) \<le> unat (q_deadline q)"
    using assms(6) by (simp add: word_le_nat_alt unat_saturating_sub)
  moreover have "unat (q_deadline q) \<le> unat (now E2)"
    using assms(2) by (auto simp: claim_cancel_def Let_def res_simps on_ad_leg_def word_le_nat_alt)
  ultimately show ?thesis by simp
qed

lemma pd_unlock_runs:
  "\<exists>r. op_unlock ledger_ext (pd_env 9000) pd_order 77 88 [] [] (pd_open, pd_funded) = Inr r"
  by (simp add: op_unlock_def pd_open_def pd_funded_def pd_world_def pd_defs pd_run_defs pd_create_defs
      fill_def count_out_def csub_def remove_claim_def set_order_status_def pay_or_credit_def
      try_transfer_to_recipient_def pay_maker_def is_nullifier_used_def order_timing_def saturating_sub_def
      build_public_inputs_def is_canonical_def field_mod_def is_root_valid_def verify_proof_def
      set_nullifier_used_def Let_def)

lemma claim_other_leg_runs: "\<exists>r. claim_cancel (demo_env 10000) (on_ad_leg 7 pd_me pd_order) demo_locked = Inr r"
  by (simp add: on_ad_leg_def pd_order_def demo_locked_def demo_defs run_defs lock_defs unlock_defs cancel_defs)

theorem unlock_precedes_claim_witness:
  "\<exists>r1 r2. op_unlock ledger_ext (pd_env 9000) pd_order 77 88 [] [] (pd_open, pd_funded) = Inr r1 \<and>
     claim_cancel (demo_env 10000) (on_ad_leg 7 pd_me pd_order) demo_locked = Inr r2 \<and>
     unat (9000 :: u64) + unat (claim_stagger pd_timing) \<le> unat (10000 :: u64)"
proof -
  obtain r1 r2 where r: "op_unlock ledger_ext (pd_env 9000) pd_order 77 88 [] [] (pd_open, pd_funded) = Inr r1"
    "claim_cancel (demo_env 10000) (on_ad_leg 7 pd_me pd_order) demo_locked = Inr r2"
    using pd_unlock_runs claim_other_leg_runs by blast
  have "(op_order_hash (pd_env 9000) pd_config pd_order :: (portal_error, bytes32) res) = Inr 66"
    using pd_hash by (simp add: op_order_hash_Ok pd_config_def pd_env_def pd_order_def)
  moreover have "st_config pd_open = Some pd_config" "order_timing pd_open 66 (q_ad_chain_id pd_order) = Inr pd_timing"
    by (simp_all add: pd_open_def pd_init_def order_timing_def get_order_def pd_leg_def get_route_timing_at_def
        pd_order_def)
  moreover have "claim_stagger pd_timing \<le> q_deadline pd_order" by (simp add: pd_timing_def pd_order_def)
  ultimately have "unat (now (pd_env 9000)) + unat (claim_stagger pd_timing) \<le> unat (now (demo_env 10000))"
    by (rule unlock_precedes_claim [OF r])
  then show ?thesis using r by (simp add: pd_env_def demo_env_def)
qed

end
