(* ===== verification/Root_Anchor.thy ===== *)
theory Root_Anchor
  imports Timelock
begin

text \<open>
  The root anchor (\<open>contracts/root-anchor/src/{lib,storage,errors}.rs\<close>): a signer set notarizes the roots
  of other chains, and an anchored root becomes usable after the route's delay. Operations carry the
  prefix \<open>ra_\<close>; an approval stamp is the 64-bit word the source packs from the signer-set epoch and
  the root's generation.
\<close>

section \<open>Errors and state\<close>

datatype anchor_error =
    RaAlreadyInitialized | RaNotInitialized | RaContractPaused | RaNotPendingAdmin | RaNotSigner
  | RaBadThreshold | RaDuplicateSigner | RaSeqNotMonotonic | RaDelayTooLong | RaNoSuchAnchor
  | RaSeqMismatch | RaTimelockAlreadyActive | RaTimelockAlreadyProposed | RaTimelockNotProposed
  | RaTimelockTooEarly | RaTimelockBadArgs | RaTimelockExpired | RaTimelockCancelledByBrake

fun anchor_error_code :: "anchor_error \<Rightarrow> nat" where
  "anchor_error_code RaAlreadyInitialized = 1"
| "anchor_error_code RaNotInitialized = 2"
| "anchor_error_code RaContractPaused = 3"
| "anchor_error_code RaNotPendingAdmin = 4"
| "anchor_error_code RaNotSigner = 5"
| "anchor_error_code RaBadThreshold = 6"
| "anchor_error_code RaDuplicateSigner = 7"
| "anchor_error_code RaSeqNotMonotonic = 8"
| "anchor_error_code RaDelayTooLong = 9"
| "anchor_error_code RaNoSuchAnchor = 10"
| "anchor_error_code RaSeqMismatch = 11"
| "anchor_error_code RaTimelockAlreadyActive = 12"
| "anchor_error_code RaTimelockAlreadyProposed = 13"
| "anchor_error_code RaTimelockNotProposed = 14"
| "anchor_error_code RaTimelockTooEarly = 15"
| "anchor_error_code RaTimelockBadArgs = 16"
| "anchor_error_code RaTimelockExpired = 17"
| "anchor_error_code RaTimelockCancelledByBrake = 18"

definition ra_timelock_error :: "fault \<Rightarrow> anchor_error" where
  "ra_timelock_error f =
     (case f of
        TimelockAlreadyActive \<Rightarrow> RaTimelockAlreadyActive
      | TimelockAlreadyProposed \<Rightarrow> RaTimelockAlreadyProposed
      | TimelockTooEarly \<Rightarrow> RaTimelockTooEarly
      | TimelockBadArgs \<Rightarrow> RaTimelockBadArgs
      | TimelockExpired \<Rightarrow> RaTimelockExpired
      | TimelockCancelledByBrake \<Rightarrow> RaTimelockCancelledByBrake
      | _ \<Rightarrow> RaTimelockNotProposed)"

definition MAX_ANCHOR_DELAY :: u64 where
  "MAX_ANCHOR_DELAY = 7 * 24 * 60 * 60"

record anchor_rec =
  ar_ledger_seq :: u64
  ar_anchored :: bool
  ar_anchored_at :: u64
  ar_approvals :: u32
  ar_set_epoch :: u32
  ar_gen :: u32

record anchor_store =
  an_init :: bool
  an_admin :: "address option"
  an_pending :: "address option"
  an_paused :: bool
  an_signers :: "address list"
  an_threshold :: u32
  an_epoch :: u32
  an_monotonic :: bool
  an_delays :: "u128 \<rightharpoonup> u64"
  an_latest :: "u128 \<rightharpoonup> u64"
  an_anchors :: "u128 \<times> bytes32 \<rightharpoonup> anchor_rec"
  an_stamps :: "u128 \<times> bytes32 \<times> address \<rightharpoonup> u64"
  an_timelock :: timelock

definition an_empty :: anchor_store where
  "an_empty = \<lparr>an_init = False, an_admin = None, an_pending = None, an_paused = False, an_signers = [],
     an_threshold = 0, an_epoch = 0, an_monotonic = True, an_delays = Map.empty, an_latest = Map.empty,
     an_anchors = Map.empty, an_stamps = Map.empty, an_timelock = tl_init\<rparr>"

definition get_delay :: "anchor_store \<Rightarrow> u128 \<Rightarrow> u64" where
  "get_delay s c = (case an_delays s c of None \<Rightarrow> 0 | Some d \<Rightarrow> d)"

definition get_latest_seq :: "anchor_store \<Rightarrow> u128 \<Rightarrow> u64" where
  "get_latest_seq s c = (case an_latest s c of None \<Rightarrow> 0 | Some q \<Rightarrow> q)"

definition set_latest_seq :: "u128 \<Rightarrow> u64 \<Rightarrow> anchor_store \<Rightarrow> anchor_store" where
  "set_latest_seq c q s = s\<lparr>an_latest := (an_latest s)(c \<mapsto> q)\<rparr>"

definition get_anchor :: "anchor_store \<Rightarrow> u128 \<Rightarrow> bytes32 \<Rightarrow> anchor_rec option" where
  "get_anchor s c root = an_anchors s (c, root)"

definition set_anchor :: "u128 \<Rightarrow> bytes32 \<Rightarrow> anchor_rec \<Rightarrow> anchor_store \<Rightarrow> anchor_store" where
  "set_anchor c root r s = s\<lparr>an_anchors := (an_anchors s)((c, root) \<mapsto> r)\<rparr>"

definition set_approval_stamp :: "u128 \<Rightarrow> bytes32 \<Rightarrow> address \<Rightarrow> u64 \<Rightarrow> anchor_store \<Rightarrow> anchor_store" where
  "set_approval_stamp c root a t s = s\<lparr>an_stamps := (an_stamps s)((c, root, a) \<mapsto> t)\<rparr>"

section \<open>Administration\<close>

definition bump_set_epoch :: "anchor_store \<Rightarrow> (anchor_error, anchor_store) res" where
  "bump_set_epoch s = attempt (cadd (an_epoch s) 1) (\<lambda>e. Ok (s\<lparr>an_epoch := e\<rparr>))"

text \<open>Threshold in \<open>1..=len\<close>, no duplicates; the epoch moves.\<close>

definition apply_signers :: "address list \<Rightarrow> u32 \<Rightarrow> anchor_store \<Rightarrow> (anchor_error, anchor_store) res" where
  "apply_signers sgs thr s =
     (if thr = 0 \<or> unat thr > length sgs then Fail RaBadThreshold
      else if \<not> distinct sgs then Fail RaDuplicateSigner
      else bump_set_epoch (s\<lparr>an_signers := sgs, an_threshold := thr\<rparr>))"

definition ra_initialize ::
  "address \<Rightarrow> address list \<Rightarrow> u32 \<Rightarrow> anchor_store \<Rightarrow> (anchor_error, anchor_store) res" where
  "ra_initialize adm sgs thr s =
     (if an_init s then Fail RaAlreadyInitialized
      else attempt (apply_signers sgs thr s) (\<lambda>s.
        Ok (s\<lparr>an_admin := Some adm, an_monotonic := True, an_init := True\<rparr>)))"

definition admin_of :: "anchor_store \<Rightarrow> (anchor_error, address) res" where
  "admin_of s = (if \<not> an_init s then Fail RaNotInitialized else ok_or_trap (an_admin s))"

definition ra_require_admin :: "env \<Rightarrow> anchor_store \<Rightarrow> (anchor_error, address) res" where
  "ra_require_admin E s =
     (if \<not> an_init s then Fail RaNotInitialized
      else attempt (ok_or_trap (an_admin s)) (\<lambda>adm.
        attempt (require_auth E adm) (\<lambda>_. Ok adm)))"

definition ra_pause :: "env \<Rightarrow> anchor_store \<Rightarrow> (anchor_error, anchor_store) res" where
  "ra_pause E s = attempt (ra_require_admin E s) (\<lambda>_. Ok (s\<lparr>an_paused := True\<rparr>))"

definition ra_unpause :: "env \<Rightarrow> anchor_store \<Rightarrow> (anchor_error, anchor_store) res" where
  "ra_unpause E s = attempt (ra_require_admin E s) (\<lambda>_. Ok (s\<lparr>an_paused := False\<rparr>))"

definition ra_transfer_admin :: "env \<Rightarrow> address \<Rightarrow> anchor_store \<Rightarrow> (anchor_error, anchor_store) res" where
  "ra_transfer_admin E to s = attempt (ra_require_admin E s) (\<lambda>_. Ok (s\<lparr>an_pending := Some to\<rparr>))"

definition ra_accept_admin :: "env \<Rightarrow> anchor_store \<Rightarrow> (anchor_error, anchor_store) res" where
  "ra_accept_admin E s =
     attempt (ok_or (an_pending s) RaNotPendingAdmin) (\<lambda>pending.
     attempt (require_auth E pending) (\<lambda>_.
     attempt (ok_or_trap (an_admin s)) (\<lambda>old.
     attempt (map_err ra_timelock_error (bump_epoch (an_timelock s))) (\<lambda>tlk.
     Ok (s\<lparr>an_admin := Some pending, an_pending := None, an_timelock := tlk\<rparr>)))))"

definition ra_activate_timelock :: "env \<Rightarrow> anchor_store \<Rightarrow> (anchor_error, anchor_store) res" where
  "ra_activate_timelock E s =
     attempt (ra_require_admin E s) (\<lambda>_.
     attempt (map_err ra_timelock_error (activate (an_timelock s))) (\<lambda>tlk.
     Ok (s\<lparr>an_timelock := tlk\<rparr>)))"

definition ra_propose_action ::
  "env \<Rightarrow> string \<Rightarrow> bytes \<Rightarrow> anchor_store \<Rightarrow> (anchor_error, bytes32 \<times> anchor_store) res" where
  "ra_propose_action E fn_name args s =
     attempt (ra_require_admin E s) (\<lambda>_.
     attempt (map_err ra_timelock_error (propose E fn_name args (an_timelock s))) (\<lambda>(ident, tlk).
     Ok (ident, s\<lparr>an_timelock := tlk\<rparr>)))"

definition ra_cancel_action :: "env \<Rightarrow> bytes32 \<Rightarrow> anchor_store \<Rightarrow> (anchor_error, anchor_store) res" where
  "ra_cancel_action E ident s =
     attempt (ra_require_admin E s) (\<lambda>_.
     attempt (map_err ra_timelock_error (cancel_proposal ident (an_timelock s))) (\<lambda>tlk.
     Ok (s\<lparr>an_timelock := tlk\<rparr>)))"

definition set_signers ::
  "env \<Rightarrow> address list \<Rightarrow> u32 \<Rightarrow> anchor_store \<Rightarrow> (anchor_error, anchor_store) res" where
  "set_signers E sgs thr s =
     attempt (admin_of s) (\<lambda>adm.
     attempt (map_err ra_timelock_error
       (gate E adm ''set_signers'' [VVec (map VAddr sgs), VU32 thr] (an_timelock s))) (\<lambda>tlk.
     apply_signers sgs thr (s\<lparr>an_timelock := tlk\<rparr>)))"

definition revoke_anchor :: "env \<Rightarrow> u128 \<Rightarrow> bytes32 \<Rightarrow> anchor_store \<Rightarrow> (anchor_error, anchor_store) res" where
  "revoke_anchor E c root s =
     attempt (ra_require_admin E s) (\<lambda>_.
     attempt (ok_or (get_anchor s c root) RaNoSuchAnchor) (\<lambda>r.
     if \<not> ar_anchored r \<and> ar_approvals r = 0 then Fail RaNoSuchAnchor
     else attempt (cadd (ar_gen r) 1) (\<lambda>g.
       Ok (set_anchor c root (r\<lparr>ar_gen := g, ar_approvals := 0, ar_anchored := False,
             ar_anchored_at := 0, ar_ledger_seq := 0\<rparr>) s))))"

definition reset_latest_seq :: "env \<Rightarrow> u128 \<Rightarrow> u64 \<Rightarrow> anchor_store \<Rightarrow> (anchor_error, anchor_store) res" where
  "reset_latest_seq E c q s =
     attempt (admin_of s) (\<lambda>adm.
     attempt (map_err ra_timelock_error
       (gate_unless E adm (q \<ge> get_latest_seq s c) ''reset_latest_seq'' [VU128 c, VU64 q]
          (brake_key E ''reset_latest_seq'' (VU128 c)) (an_timelock s))) (\<lambda>tlk.
     Ok (set_latest_seq c q (s\<lparr>an_timelock := tlk\<rparr>))))"

definition set_anchor_delay :: "env \<Rightarrow> u128 \<Rightarrow> u64 \<Rightarrow> anchor_store \<Rightarrow> (anchor_error, anchor_store) res" where
  "set_anchor_delay E c d s =
     attempt (admin_of s) (\<lambda>adm.
     attempt (map_err ra_timelock_error
       (gate_unless E adm (d \<ge> get_delay s c) ''set_anchor_delay'' [VU128 c, VU64 d]
          (brake_key E ''set_anchor_delay'' (VU128 c)) (an_timelock s))) (\<lambda>tlk.
     if d > MAX_ANCHOR_DELAY then Fail RaDelayTooLong
     else Ok (s\<lparr>an_timelock := tlk, an_delays := (an_delays s)(c \<mapsto> d)\<rparr>)))"

definition set_monotonic :: "env \<Rightarrow> bool \<Rightarrow> anchor_store \<Rightarrow> (anchor_error, anchor_store) res" where
  "set_monotonic E m s =
     attempt (admin_of s) (\<lambda>adm.
     attempt (map_err ra_timelock_error
       (gate_unless E adm m ''set_monotonic'' [VBool m] (brake_key E ''set_monotonic'' VVoid)
          (an_timelock s))) (\<lambda>tlk.
     Ok (s\<lparr>an_timelock := tlk, an_monotonic := m\<rparr>)))"

section \<open>The notary\<close>

definition no_anchor :: anchor_rec where
  "no_anchor = \<lparr>ar_ledger_seq = 0, ar_anchored = False, ar_anchored_at = 0, ar_approvals = 0,
     ar_set_epoch = 0, ar_gen = 0\<rparr>"

text \<open>\<open>((set_epoch as u64) << 32) | gen as u64\<close>.\<close>

unbundle bit_operations_syntax

definition stamp_of :: "anchor_rec \<Rightarrow> u64" where
  "stamp_of r = push_bit 32 (ucast (ar_set_epoch r)) OR ucast (ar_gen r)"


definition anchor :: "env \<Rightarrow> address \<Rightarrow> u128 \<Rightarrow> bytes32 \<Rightarrow> u64 \<Rightarrow> anchor_store \<Rightarrow> (anchor_error, anchor_store) res" where
  "anchor E signer c root q s =
     (if \<not> an_init s then Fail RaNotInitialized
      else if an_paused s then Fail RaContractPaused
      else attempt (require_auth E signer) (\<lambda>_.
      if signer \<notin> set (an_signers s) then Fail RaNotSigner
      else
        let r0 = (case get_anchor s c root of None \<Rightarrow> no_anchor | Some r \<Rightarrow> r) in
        if ar_anchored r0 then Ok s
        else
          let r1 = (if ar_set_epoch r0 \<noteq> an_epoch s then r0\<lparr>ar_set_epoch := an_epoch s, ar_approvals := 0\<rparr> else r0);
              latest = get_latest_seq s c in
          attempt
            (if ar_approvals r1 = 0 then
               if an_monotonic s \<and> q \<le> latest then Fail RaSeqNotMonotonic
               else Ok (r1\<lparr>ar_ledger_seq := q\<rparr>)
             else if q \<noteq> ar_ledger_seq r1 then Fail RaSeqMismatch
             else Ok r1) (\<lambda>r2.
          attempt
            (if an_stamps s (c, root, signer) \<noteq> Some (stamp_of r2) then
               attempt (cadd (ar_approvals r2) 1) (\<lambda>n.
               Ok (r2\<lparr>ar_approvals := n\<rparr>, set_approval_stamp c root signer (stamp_of r2) s))
             else Ok (r2, s)) (\<lambda>(r3, s1).
          if ar_approvals r3 \<ge> an_threshold s then
            if an_monotonic s \<and> ar_ledger_seq r3 \<le> latest then Fail RaSeqNotMonotonic
            else Ok (set_anchor c root (r3\<lparr>ar_anchored := True, ar_anchored_at := now E\<rparr>)
                   (if ar_ledger_seq r3 > latest then set_latest_seq c (ar_ledger_seq r3) s1 else s1))
          else Ok (set_anchor c root r3 s1)))))"

section \<open>Views\<close>

definition an_is_anchored :: "env \<Rightarrow> u128 \<Rightarrow> bytes32 \<Rightarrow> anchor_store \<Rightarrow> bool" where
  "an_is_anchored E c root s =
     (case get_anchor s c root of
        Some r \<Rightarrow> ar_anchored r \<and> now E \<ge> ar_anchored_at r \<and> now E - ar_anchored_at r \<ge> get_delay s c
      | None \<Rightarrow> False)"

definition anchored_at :: "u128 \<Rightarrow> bytes32 \<Rightarrow> anchor_store \<Rightarrow> u64" where
  "anchored_at c root s =
     (case get_anchor s c root of
        Some r \<Rightarrow> if ar_anchored r then ar_anchored_at r else 0
      | None \<Rightarrow> 0)"

end
