(* ===== verification/Root_Anchor_Proofs.thy ===== *)
theory Root_Anchor_Proofs
  imports Root_Anchor
begin

text \<open>
  The root anchor as one machine, with the log of who approved what under which signer set, and the
  invariant that ties the stored stamps and counters to that log.
\<close>

section \<open>Stamps\<close>

text \<open>Epoch and generation, packed into one word, read back from it.\<close>

definition pack :: "u32 \<Rightarrow> u32 \<Rightarrow> u64" where
  "pack e g = stamp_of (no_anchor\<lparr>ar_set_epoch := e, ar_gen := g\<rparr>)"

lemma stamp_pack: "stamp_of r = pack (ar_set_epoch r) (ar_gen r)"
  by (simp add: pack_def stamp_of_def)

lemma pack_inject: "pack e g = pack e' g' \<longleftrightarrow> e = e' \<and> g = g'"
proof
  have low: "ucast (pack e g) = g" for e g
    by (rule bit_word_eqI) (auto simp: pack_def stamp_of_def bit_simps dest: bit_imp_le_length)
  have high: "ucast (drop_bit 32 (pack e g)) = e" for e g
    by (rule bit_word_eqI) (auto simp: pack_def stamp_of_def bit_simps dest: bit_imp_le_length)
  assume "pack e g = pack e' g'"
  then show "e = e' \<and> g = g'" by (metis low high)
qed simp

section \<open>Calls, log and reachable states\<close>

datatype anchor_call =
    RPause | RUnpause | RTransferAdmin address | RAcceptAdmin | RActivate | RPropose string bytes
  | RCancel bytes32 | RSetSigners "address list" u32 | RRevoke u128 bytes32 | RResetSeq u128 u64
  | RSetDelay u128 u64 | RSetMonotonic bool | RAnchor address u128 bytes32 u64

fun ra_exec :: "env \<Rightarrow> anchor_call \<Rightarrow> anchor_store \<Rightarrow> (anchor_error, anchor_store) res" where
  "ra_exec E RPause s = ra_pause E s"
| "ra_exec E RUnpause s = ra_unpause E s"
| "ra_exec E (RTransferAdmin a) s = ra_transfer_admin E a s"
| "ra_exec E RAcceptAdmin s = ra_accept_admin E s"
| "ra_exec E RActivate s = ra_activate_timelock E s"
| "ra_exec E (RPropose f args) s = attempt (ra_propose_action E f args s) (\<lambda>(_, s'). Ok s')"
| "ra_exec E (RCancel i) s = ra_cancel_action E i s"
| "ra_exec E (RSetSigners sgs thr) s = set_signers E sgs thr s"
| "ra_exec E (RRevoke c root) s = revoke_anchor E c root s"
| "ra_exec E (RResetSeq c q) s = reset_latest_seq E c q s"
| "ra_exec E (RSetDelay c d) s = set_anchor_delay E c d s"
| "ra_exec E (RSetMonotonic m) s = set_monotonic E m s"
| "ra_exec E (RAnchor a c root q) s = anchor E a c root q s"

text \<open>
  \<open>Appointed e A t\<close>: from epoch \<open>e\<close> the signers are \<open>A\<close> with threshold \<open>t\<close>. \<open>Approved a c root q e g\<close>: \<open>a\<close>
  authorized a call that names this root and sequence, and it was counted under epoch \<open>e\<close> and generation
  \<open>g\<close>. A call that \<open>a\<close> did not authorize leaves no such entry.
\<close>

datatype anchor_log = Appointed u32 "address set" nat | Approved address u128 bytes32 u64 u32 u32

fun ra_logged :: "env \<Rightarrow> anchor_call \<Rightarrow> anchor_store \<Rightarrow> anchor_store \<Rightarrow> anchor_log list" where
  "ra_logged E (RSetSigners sgs thr) s s' =
     [Appointed (an_epoch s') (set sgs) (unat thr)]"
| "ra_logged E (RAnchor a c root q) s s' =
     (case get_anchor s' c root of
        None \<Rightarrow> []
      | Some r \<Rightarrow>
          if (case get_anchor s c root of Some r0 \<Rightarrow> ar_anchored r0 | None \<Rightarrow> False) then []
          else if authed E a then [Approved a c root q (ar_set_epoch r) (ar_gen r)]
          else [])"
| "ra_logged E _ s s' = []"

inductive ra_reach :: "anchor_log list \<Rightarrow> anchor_store \<Rightarrow> bool" where
  ra_reach_init: "ra_initialize adm sgs thr an_empty = Inr s \<Longrightarrow>
    ra_reach [Appointed (an_epoch s) (set sgs) (unat thr)] s"
| ra_reach_call: "ra_reach L s \<Longrightarrow> ra_exec E c s = Inr s' \<Longrightarrow> ra_reach (L @ ra_logged E c s s') s'"

section \<open>What an approval does\<close>

text \<open>The record an approval starts from: fresh under a new signer set.\<close>

definition refreshed :: "anchor_store \<Rightarrow> u128 \<Rightarrow> bytes32 \<Rightarrow> anchor_rec" where
  "refreshed s c root =
     (let r0 = (case get_anchor s c root of None \<Rightarrow> no_anchor | Some r \<Rightarrow> r) in
      if ar_set_epoch r0 \<noteq> an_epoch s then r0\<lparr>ar_set_epoch := an_epoch s, ar_approvals := 0\<rparr> else r0)"

definition count_approval ::
  "address \<Rightarrow> u128 \<Rightarrow> bytes32 \<Rightarrow> anchor_rec \<Rightarrow> anchor_store \<Rightarrow> (anchor_error, anchor_rec \<times> anchor_store) res" where
  "count_approval a c root r s =
     (if an_stamps s (c, root, a) \<noteq> Some (stamp_of r) then
        attempt (cadd (ar_approvals r) 1) (\<lambda>n.
        Ok (r\<lparr>ar_approvals := n\<rparr>, set_approval_stamp c root a (stamp_of r) s))
      else Ok (r, s))"

definition bind_seq :: "u128 \<Rightarrow> u64 \<Rightarrow> anchor_rec \<Rightarrow> anchor_store \<Rightarrow> (anchor_error, anchor_rec) res" where
  "bind_seq c q r s =
     (if ar_approvals r = 0 then
        if an_monotonic s \<and> q \<le> get_latest_seq s c then Fail RaSeqNotMonotonic
        else Ok (r\<lparr>ar_ledger_seq := q\<rparr>)
      else if q \<noteq> ar_ledger_seq r then Fail RaSeqMismatch
      else Ok r)"

definition seal_root ::
  "env \<Rightarrow> u128 \<Rightarrow> bytes32 \<Rightarrow> anchor_rec \<Rightarrow> u64 \<Rightarrow> anchor_store \<Rightarrow> anchor_store \<Rightarrow> (anchor_error, anchor_store) res" where
  "seal_root E c root r latest s s1 =
     (if ar_approvals r \<ge> an_threshold s then
        if an_monotonic s \<and> ar_ledger_seq r \<le> latest then Fail RaSeqNotMonotonic
        else Ok (set_anchor c root (r\<lparr>ar_anchored := True, ar_anchored_at := now E\<rparr>)
               (if ar_ledger_seq r > latest then set_latest_seq c (ar_ledger_seq r) s1 else s1))
      else Ok (set_anchor c root r s1))"

lemma anchor_unfold:
  "anchor E a c root q s =
     (if \<not> an_init s then Fail RaNotInitialized
      else if an_paused s then Fail RaContractPaused
      else attempt (require_auth E a) (\<lambda>_.
      if a \<notin> set (an_signers s) then Fail RaNotSigner
      else if ar_anchored (case get_anchor s c root of None \<Rightarrow> no_anchor | Some r \<Rightarrow> r) then Ok s
      else attempt (bind_seq c q (refreshed s c root) s) (\<lambda>r.
      attempt (count_approval a c root r s) (\<lambda>(r, s1).
      seal_root E c root r (get_latest_seq s c) s s1))))"
  by (simp only: anchor_def Let_def refreshed_def bind_seq_def count_approval_def seal_root_def)

lemma stamp_keeps [simp]:
  "stamp_of (r\<lparr>ar_ledger_seq := q\<rparr>) = stamp_of r" "stamp_of (r\<lparr>ar_approvals := n\<rparr>) = stamp_of r"
  "stamp_of (r\<lparr>ar_anchored := b\<rparr>) = stamp_of r" "stamp_of (r\<lparr>ar_anchored_at := t\<rparr>) = stamp_of r"
  by (simp_all add: stamp_of_def)

lemma bind_seq_Ok:
  "bind_seq c q r s = Inr r' \<Longrightarrow> r' = r\<lparr>ar_ledger_seq := q\<rparr> \<and> (ar_approvals r \<noteq> 0 \<longrightarrow> q = ar_ledger_seq r)"
  by (cases r) (auto simp: bind_seq_def split: if_splits)

lemma count_approval_Ok:
  assumes "count_approval a c root r s = Inr (r', s')"
  shows "\<exists>n. r' = r\<lparr>ar_approvals := n\<rparr> \<and> unat n = unat (ar_approvals r) +
           (if an_stamps s (c, root, a) = Some (stamp_of r) then 0 else 1) \<and>
         s' = s\<lparr>an_stamps := (an_stamps s)((c, root, a) \<mapsto> stamp_of r)\<rparr>"
  using assms by (cases r; cases s)
    (auto simp: count_approval_def set_approval_stamp_def res_simps chk_simps fun_upd_idem split: if_splits)

lemma seal_root_Ok:
  assumes "seal_root E c root r latest s s1 = Inr s'" "\<not> ar_anchored r"
  obtains t lat where "an_threshold s \<le> ar_approvals r \<longrightarrow> t = now E"
    "s' = s1\<lparr>an_latest := lat, an_anchors := (an_anchors s1)((c, root) \<mapsto> r
       \<lparr>ar_anchored := an_threshold s \<le> ar_approvals r, ar_anchored_at := t\<rparr>)\<rparr>"
proof (cases "an_threshold s \<le> ar_approvals r")
  case True
  then show ?thesis using assms
    that [of "now E" "an_latest (if ar_ledger_seq r > latest then set_latest_seq c (ar_ledger_seq r) s1 else s1)"]
    by (auto simp: seal_root_def set_anchor_def set_latest_seq_def split: if_splits)
next
  case False
  have flag: "r\<lparr>ar_anchored := False\<rparr> = r" using assms(2) by (cases r) simp
  show ?thesis using assms False that [of "ar_anchored_at r" "an_latest s1"]
    by (auto simp: seal_root_def set_anchor_def flag)
qed

lemma anchor_Ok:
  assumes "anchor E a c root q s = Inr s'"
  obtains (again) r where "get_anchor s c root = Some r" "ar_anchored r" "s' = s" "authed E a"
  | (counted) r n t lat where "a \<in> set (an_signers s)" "authed E a" "an_init s" "\<not> an_paused s"
      "case get_anchor s c root of None \<Rightarrow> True | Some r \<Rightarrow> \<not> ar_anchored r"
      "r = refreshed s c root" "ar_approvals r \<noteq> 0 \<longrightarrow> q = ar_ledger_seq r"
      "unat n = unat (ar_approvals r) + (if an_stamps s (c, root, a) = Some (stamp_of r) then 0 else 1)"
      "an_threshold s \<le> n \<longrightarrow> t = now E"
      "s' = s\<lparr>an_stamps := (an_stamps s)((c, root, a) \<mapsto> stamp_of r), an_latest := lat,
          an_anchors := (an_anchors s)((c, root) \<mapsto> r
            \<lparr>ar_ledger_seq := q, ar_approvals := n, ar_anchored := an_threshold s \<le> n, ar_anchored_at := t\<rparr>)\<rparr>"
proof (cases "\<exists>r. get_anchor s c root = Some r \<and> ar_anchored r")
  case True
  then show ?thesis using assms again
    unfolding anchor_unfold by (clarsimp simp: res_simps chk_simps split: if_splits)
next
  case False
  define r where "r = refreshed s c root"
  have fresh: "\<not> ar_anchored (case get_anchor s c root of None \<Rightarrow> no_anchor | Some r \<Rightarrow> r)"
    "case get_anchor s c root of None \<Rightarrow> True | Some r \<Rightarrow> \<not> ar_anchored r"
    using False by (auto simp: no_anchor_def split: option.splits)
  have flag: "\<not> ar_anchored r" using fresh by (simp add: r_def refreshed_def Let_def)
  obtain r2 r3 s1 where guards: "a \<in> set (an_signers s)" "authed E a" "an_init s" "\<not> an_paused s"
    and b: "bind_seq c q r s = Inr r2" and k: "count_approval a c root r2 s = Inr (r3, s1)"
    and z: "seal_root E c root r3 (get_latest_seq s c) s s1 = Inr s'"
    using assms fresh(1) unfolding anchor_unfold r_def
    by (clarsimp simp: res_simps chk_simps split: if_splits)
  have r2: "r2 = r\<lparr>ar_ledger_seq := q\<rparr>" "ar_approvals r \<noteq> 0 \<longrightarrow> q = ar_ledger_seq r"
    using bind_seq_Ok [OF b] by simp_all
  obtain n where n: "r3 = r2\<lparr>ar_approvals := n\<rparr>"
    "unat n = unat (ar_approvals r) + (if an_stamps s (c, root, a) = Some (stamp_of r) then 0 else 1)"
    "s1 = s\<lparr>an_stamps := (an_stamps s)((c, root, a) \<mapsto> stamp_of r)\<rparr>"
    using count_approval_Ok [OF k] r2 by auto
  have "\<not> ar_anchored r3" using flag by (simp add: n r2)
  then obtain t lat where "an_threshold s \<le> n \<longrightarrow> t = now E"
    "s' = s1\<lparr>an_latest := lat, an_anchors := (an_anchors s1)((c, root) \<mapsto> r3
       \<lparr>ar_anchored := an_threshold s \<le> n, ar_anchored_at := t\<rparr>)\<rparr>"
    using seal_root_Ok [OF z] by (auto simp: n)
  then show ?thesis
    using counted [OF guards fresh(2) r_def r2(2) n(2)] by (simp add: n r2)
qed

section \<open>The invariant\<close>

definition appointments_ok :: "anchor_log list \<Rightarrow> anchor_store \<Rightarrow> bool" where
  "appointments_ok L s \<longleftrightarrow>
     Appointed (an_epoch s) (set (an_signers s)) (unat (an_threshold s)) \<in> set L \<and>
     (\<forall>e A T. Appointed e A T \<in> set L \<longrightarrow> e \<le> an_epoch s \<and> 0 < T) \<and>
     (\<forall>e A T A' T'. Appointed e A T \<in> set L \<longrightarrow> Appointed e A' T' \<in> set L \<longrightarrow> A = A' \<and> T = T')"

text \<open>An entry is bound to its root's record: not newer, and counted there when it is of the same term.\<close>

definition entry_ok :: "anchor_rec \<Rightarrow> u64 option \<Rightarrow> u64 \<Rightarrow> u32 \<Rightarrow> u32 \<Rightarrow> bool" where
  "entry_ok r st q e g \<longleftrightarrow> e \<le> ar_set_epoch r \<and> g \<le> ar_gen r \<and>
     (e = ar_set_epoch r \<and> g = ar_gen r \<longrightarrow> q = ar_ledger_seq r \<and> st = Some (stamp_of r))"

definition approvals_ok :: "anchor_log list \<Rightarrow> anchor_store \<Rightarrow> bool" where
  "approvals_ok L s \<longleftrightarrow> (\<forall>a c root q e g. Approved a c root q e g \<in> set L \<longrightarrow>
     (\<exists>A T. Appointed e A T \<in> set L \<and> a \<in> A) \<and>
     (\<exists>r. an_anchors s (c, root) = Some r \<and> entry_ok r (an_stamps s (c, root, a)) q e g))"

definition stamps_ok :: "anchor_log list \<Rightarrow> anchor_store \<Rightarrow> bool" where
  "stamps_ok L s \<longleftrightarrow> (\<forall>c root a t. an_stamps s (c, root, a) = Some t \<longrightarrow>
     (\<exists>q e g. t = pack e g \<and> Approved a c root q e g \<in> set L))"

definition counted :: "anchor_store \<Rightarrow> u128 \<Rightarrow> bytes32 \<Rightarrow> anchor_rec \<Rightarrow> address set" where
  "counted s c root r = {a. an_stamps s (c, root, a) = Some (stamp_of r)}"

definition ra_records_ok :: "anchor_log list \<Rightarrow> anchor_store \<Rightarrow> bool" where
  "ra_records_ok L s \<longleftrightarrow> (\<forall>c root r. an_anchors s (c, root) = Some r \<longrightarrow>
     ar_set_epoch r \<le> an_epoch s \<and> finite (counted s c root r) \<and>
     unat (ar_approvals r) = card (counted s c root r) \<and>
     (ar_anchored r \<longrightarrow> (\<exists>A T. Appointed (ar_set_epoch r) A T \<in> set L \<and> T \<le> unat (ar_approvals r))) \<and>
     (\<not> ar_anchored r \<and> ar_set_epoch r = an_epoch s \<longrightarrow> ar_approvals r < an_threshold s))"

definition ra_inv :: "anchor_log list \<Rightarrow> anchor_store \<Rightarrow> bool" where
  "ra_inv L s \<longleftrightarrow> appointments_ok L s \<and> approvals_ok L s \<and> stamps_ok L s \<and> ra_records_ok L s"

lemma stamp_logged:
  assumes "ra_inv L s" "an_stamps s (c, root, a) = Some t"
  obtains q e g where "t = pack e g" "Approved a c root q e g \<in> set L"
proof -
  have "stamps_ok L s" using assms(1) by (simp add: ra_inv_def)
  then have "\<exists>q e g. t = pack e g \<and> Approved a c root q e g \<in> set L"
    unfolding stamps_ok_def using assms(2) by blast
  then show thesis using that by blast
qed

lemma ra_inv_cong:
  assumes "ra_inv L s" "an_epoch s' = an_epoch s" "an_signers s' = an_signers s"
    "an_threshold s' = an_threshold s" "an_anchors s' = an_anchors s" "an_stamps s' = an_stamps s"
  shows "ra_inv L s'"
  using assms(1)
  unfolding ra_inv_def appointments_ok_def approvals_ok_def stamps_ok_def ra_records_ok_def counted_def assms(2-6) .

text \<open>The record an approval starts from keeps what the invariant says of the stored one.\<close>

lemma refreshed_ok:
  assumes inv: "ra_inv L s" and fresh: "case get_anchor s c root of None \<Rightarrow> True | Some r \<Rightarrow> \<not> ar_anchored r"
    and r: "r = refreshed s c root"
  shows "ar_set_epoch r = an_epoch s" "\<not> ar_anchored r"
    "finite (counted s c root r)" "unat (ar_approvals r) = card (counted s c root r)"
    "\<And>a q e g. Approved a c root q e g \<in> set L \<Longrightarrow> entry_ok r (an_stamps s (c, root, a)) q e g"
proof -
  show "ar_set_epoch r = an_epoch s" "\<not> ar_anchored r"
    using fresh by (auto simp: r refreshed_def Let_def no_anchor_def split: option.splits)
  have "finite (counted s c root r) \<and> unat (ar_approvals r) = card (counted s c root r) \<and>
    (\<forall>a q e g. Approved a c root q e g \<in> set L \<longrightarrow> entry_ok r (an_stamps s (c, root, a)) q e g)"
  proof (cases "\<exists>r0. an_anchors s (c, root) = Some r0 \<and> ar_set_epoch r0 = an_epoch s")
    case True
    then obtain r0 where r0: "an_anchors s (c, root) = Some r0" and e0: "ar_set_epoch r0 = an_epoch s" by auto
    then have "r = r0" by (simp add: r refreshed_def get_anchor_def)
    moreover have "finite (counted s c root r0) \<and> unat (ar_approvals r0) = card (counted s c root r0)"
      using inv r0 by (simp add: ra_inv_def ra_records_ok_def)
    moreover have "entry_ok r0 (an_stamps s (c, root, a)) q e g" if "Approved a c root q e g \<in> set L" for a q e g
      using inv r0 that unfolding ra_inv_def approvals_ok_def by fastforce
    ultimately show ?thesis by simp
  next
    case False
    have new: "ar_set_epoch r = an_epoch s \<and> ar_approvals r = 0"
      using False by (auto simp: r refreshed_def Let_def get_anchor_def no_anchor_def split: option.splits)
    have older: "e < an_epoch s \<and> g \<le> ar_gen r" if ap: "Approved a c root q e g \<in> set L" for a q e g
    proof -
      obtain r0 where r0: "an_anchors s (c, root) = Some r0" "e \<le> ar_set_epoch r0" "g \<le> ar_gen r0"
        using inv ap unfolding ra_inv_def approvals_ok_def entry_ok_def by blast
      then have "ar_set_epoch r0 \<le> an_epoch s" "ar_set_epoch r0 \<noteq> an_epoch s" "ar_gen r = ar_gen r0"
        using inv False by (auto simp: ra_inv_def ra_records_ok_def r refreshed_def Let_def get_anchor_def)
      then show ?thesis using r0 by (metis order_le_less order_le_less_trans)
    qed
    have "a \<notin> counted s c root r" for a
    proof
      assume "a \<in> counted s c root r"
      then have "an_stamps s (c, root, a) = Some (stamp_of r)" by (simp add: counted_def)
      then obtain q e g where "stamp_of r = pack e g" and ap: "Approved a c root q e g \<in> set L"
        by (rule stamp_logged [OF inv])
      then show False using older [OF ap] new by (simp add: stamp_pack pack_inject)
    qed
    then have none: "counted s c root r = {}" by blast
    show ?thesis using new older unfolding none entry_ok_def by fastforce
  qed
  then show "finite (counted s c root r)" "unat (ar_approvals r) = card (counted s c root r)"
    "\<And>a q e g. Approved a c root q e g \<in> set L \<Longrightarrow> entry_ok r (an_stamps s (c, root, a)) q e g"
    by auto
qed

section \<open>Every call keeps it\<close>

lemma anchor_keeps:
  assumes inv: "ra_inv L s" and fresh: "case get_anchor s c root of None \<Rightarrow> True | Some r \<Rightarrow> \<not> ar_anchored r"
    and r: "r = refreshed s c root" and a: "a \<in> set (an_signers s)"
    and q: "ar_approvals r \<noteq> 0 \<longrightarrow> q = ar_ledger_seq r"
    and n: "unat n = unat (ar_approvals r) + (if an_stamps s (c, root, a) = Some (stamp_of r) then 0 else 1)"
    and s': "s' = s\<lparr>an_stamps := (an_stamps s)((c, root, a) \<mapsto> stamp_of r), an_latest := lat,
      an_anchors := (an_anchors s)((c, root) \<mapsto> r
        \<lparr>ar_ledger_seq := q, ar_approvals := n, ar_anchored := an_threshold s \<le> n, ar_anchored_at := t\<rparr>)\<rparr>"
  shows "ra_inv (L @ [Approved a c root q (ar_set_epoch r) (ar_gen r)]) s'"
proof -
  let ?L = "L @ [Approved a c root q (ar_set_epoch r) (ar_gen r)]"
  let ?r = "r\<lparr>ar_ledger_seq := q, ar_approvals := n, ar_anchored := an_threshold s \<le> n, ar_anchored_at := t\<rparr>"
  note ok = refreshed_ok [OF inv fresh r]
  have st: "stamp_of ?r = stamp_of r" by simp
  have same: "counted s' c' root' r' = counted s c' root' r'" if "(c', root') \<noteq> (c, root)" for c' root' r'
    using that by (auto simp: counted_def s')
  have here: "counted s' c root ?r = insert a (counted s c root r)"
    unfolding counted_def st by (auto simp: s')
  have card: "unat n = card (counted s' c root ?r)"
    unfolding here using ok(3,4) n by (simp add: card_insert_if counted_def)
  have app: "appointments_ok ?L s'" using inv by (simp add: ra_inv_def appointments_ok_def s')
  have "approvals_ok ?L s'" unfolding approvals_ok_def
  proof (intro allI impI)
    fix b c' root' q' e g assume "Approved b c' root' q' e g \<in> set ?L"
    then consider (old) "Approved b c' root' q' e g \<in> set L"
      | (new) "b = a" "c' = c" "root' = root" "q' = q" "e = ar_set_epoch r" "g = ar_gen r" by auto
    then show "(\<exists>A T. Appointed e A T \<in> set ?L \<and> b \<in> A) \<and>
        (\<exists>r. an_anchors s' (c', root') = Some r \<and> entry_ok r (an_stamps s' (c', root', b)) q' e g)"
    proof cases
      case new
      then show ?thesis using inv a ok(1) by (auto simp: ra_inv_def appointments_ok_def s' entry_ok_def st)
    next
      case old
      then have A: "\<exists>A T. Appointed e A T \<in> set ?L \<and> b \<in> A"
        using inv unfolding ra_inv_def approvals_ok_def by fastforce
      show ?thesis
      proof (cases "(c', root') = (c, root)")
        case False
        then show ?thesis using A old inv unfolding ra_inv_def approvals_ok_def by (fastforce simp: s')
      next
        case True
        then have e: "entry_ok r (an_stamps s (c, root, b)) q' e g" using ok(5) old by simp
        have "q' = q" if "e = ar_set_epoch r" "g = ar_gen r"
        proof -
          have "b \<in> counted s c root r" using e that by (simp add: entry_ok_def counted_def)
          then have "ar_approvals r \<noteq> 0" using ok(3,4) by auto
          then show ?thesis using e that q by (simp add: entry_ok_def)
        qed
        then have "entry_ok ?r (an_stamps s' (c, root, b)) q' e g" using e by (auto simp: entry_ok_def st s')
        then show ?thesis using A True by (simp add: s')
      qed
    qed
  qed
  moreover have "stamps_ok ?L s'"
    using inv unfolding ra_inv_def stamps_ok_def by (auto simp: s' stamp_pack split: if_splits; metis)
  moreover have "ra_records_ok ?L s'" unfolding ra_records_ok_def
  proof (intro allI impI)
    fix c' root' r' assume rec: "an_anchors s' (c', root') = Some r'"
    show "ar_set_epoch r' \<le> an_epoch s' \<and> finite (counted s' c' root' r') \<and>
      unat (ar_approvals r') = card (counted s' c' root' r') \<and>
      (ar_anchored r' \<longrightarrow> (\<exists>A T. Appointed (ar_set_epoch r') A T \<in> set ?L \<and> T \<le> unat (ar_approvals r'))) \<and>
      (\<not> ar_anchored r' \<and> ar_set_epoch r' = an_epoch s' \<longrightarrow> ar_approvals r' < an_threshold s')"
    proof (cases "(c', root') = (c, root)")
      case False
      then have "an_anchors s (c', root') = Some r'" using rec by (auto simp: s')
      then show ?thesis using inv same [OF False] unfolding ra_inv_def ra_records_ok_def by (fastforce simp: s')
    next
      case True
      then have r': "r' = ?r" using rec by (simp add: s')
      have "Appointed (ar_set_epoch r) (set (an_signers s)) (unat (an_threshold s)) \<in> set ?L"
        using inv ok(1) by (simp add: ra_inv_def appointments_ok_def)
      then have "ar_anchored ?r \<longrightarrow> (\<exists>A T. Appointed (ar_set_epoch ?r) A T \<in> set ?L \<and> T \<le> unat (ar_approvals ?r))"
        by (auto simp: word_le_nat_alt)
      moreover have "\<not> ar_anchored ?r \<longrightarrow> ar_approvals ?r < an_threshold s'" by (auto simp: s')
      moreover have "ar_set_epoch ?r \<le> an_epoch s'" "finite (counted s' c root ?r)"
        "unat (ar_approvals ?r) = card (counted s' c root ?r)"
        using ok(1,3) card by (simp_all add: s' here [unfolded s'])
      ultimately show ?thesis using True unfolding r' by blast
    qed
  qed
  ultimately show ?thesis using app by (simp add: ra_inv_def)
qed

lemma set_signers_Ok:
  assumes "set_signers E sgs thr s = Inr s'"
  shows "0 < thr \<and> an_epoch s < an_epoch s' \<and> an_signers s' = sgs \<and> an_threshold s' = thr \<and>
    an_anchors s' = an_anchors s \<and> an_stamps s' = an_stamps s"
  using assms unfolding set_signers_def apply_signers_def bump_set_epoch_def
  by (clarsimp simp: res_simps chk_simps word_less_nat_alt unat_gt_0 split: if_splits)

lemma set_signers_keeps:
  assumes inv: "ra_inv L s" and s: "set_signers E sgs thr s = Inr s'"
  shows "ra_inv (L @ [Appointed (an_epoch s') (set sgs) (unat thr)]) s'"
proof -
  let ?L = "L @ [Appointed (an_epoch s') (set sgs) (unat thr)]"
  have s': "0 < thr" "an_epoch s < an_epoch s'" "an_signers s' = sgs" "an_threshold s' = thr"
    "an_anchors s' = an_anchors s" "an_stamps s' = an_stamps s"
    using set_signers_Ok [OF s] by simp_all
  have old: "e < an_epoch s'" if "Appointed e A T \<in> set L" for e A T
    using inv that s'(2) unfolding ra_inv_def appointments_ok_def by (metis order_le_less_trans)
  have "appointments_ok ?L s'"
    using inv old s' unfolding ra_inv_def appointments_ok_def
    by (auto simp: unat_gt_0 word_gt_0 less_imp_le dest: old)
  moreover have "approvals_ok ?L s'"
    using inv unfolding ra_inv_def approvals_ok_def s' by fastforce
  moreover have "stamps_ok ?L s'"
    using inv unfolding ra_inv_def stamps_ok_def s' by fastforce
  moreover have "ra_records_ok ?L s'" unfolding ra_records_ok_def
  proof (intro allI impI)
    fix c root r assume rec: "an_anchors s' (c, root) = Some r"
    have e: "ar_set_epoch r < an_epoch s'"
      using inv rec s'(2) unfolding ra_inv_def ra_records_ok_def s' by (metis order_le_less_trans)
    then show "ar_set_epoch r \<le> an_epoch s' \<and> finite (counted s' c root r) \<and>
      unat (ar_approvals r) = card (counted s' c root r) \<and>
      (ar_anchored r \<longrightarrow> (\<exists>A T. Appointed (ar_set_epoch r) A T \<in> set ?L \<and> T \<le> unat (ar_approvals r))) \<and>
      (\<not> ar_anchored r \<and> ar_set_epoch r = an_epoch s' \<longrightarrow> ar_approvals r < an_threshold s')"
      using inv rec unfolding ra_inv_def ra_records_ok_def counted_def s' by fastforce
  qed
  ultimately show ?thesis by (simp add: ra_inv_def)
qed

lemma revoke_anchor_Ok:
  assumes "revoke_anchor E c root s = Inr s'"
  obtains r g where "an_anchors s (c, root) = Some r" "ar_gen r < g"
    "s' = s\<lparr>an_anchors := (an_anchors s)((c, root) \<mapsto> r\<lparr>ar_gen := g, ar_approvals := 0,
        ar_anchored := False, ar_anchored_at := 0, ar_ledger_seq := 0\<rparr>)\<rparr>"
proof -
  from assms obtain r g where r: "an_anchors s (c, root) = Some r" and g: "unat g = unat (ar_gen r) + 1"
    and s': "s' = s\<lparr>an_anchors := (an_anchors s)((c, root) \<mapsto> r\<lparr>ar_gen := g, ar_approvals := 0,
        ar_anchored := False, ar_anchored_at := 0, ar_ledger_seq := 0\<rparr>)\<rparr>"
    unfolding revoke_anchor_def get_anchor_def set_anchor_def
    by (clarsimp simp: res_simps chk_simps split: if_splits) auto
  show ?thesis by (rule that [OF r _ s']) (simp add: word_less_nat_alt g)
qed

lemma revoke_anchor_keeps:
  assumes inv: "ra_inv L s" and s: "revoke_anchor E c root s = Inr s'"
  shows "ra_inv L s'"
proof -
  obtain r g where r: "an_anchors s (c, root) = Some r" and g: "ar_gen r < g"
    and s': "s' = s\<lparr>an_anchors := (an_anchors s)((c, root) \<mapsto> r\<lparr>ar_gen := g, ar_approvals := 0,
        ar_anchored := False, ar_anchored_at := 0, ar_ledger_seq := 0\<rparr>)\<rparr>"
    by (rule revoke_anchor_Ok [OF s])
  let ?r = "r\<lparr>ar_gen := g, ar_approvals := 0, ar_anchored := False, ar_anchored_at := 0, ar_ledger_seq := 0\<rparr>"
  have app: "appointments_ok L s'" using inv by (simp add: ra_inv_def appointments_ok_def s')
  have older: "e \<le> ar_set_epoch r \<and> ge < g" if "Approved a c root q e ge \<in> set L" for a q e ge
  proof -
    have "e \<le> ar_set_epoch r \<and> ge \<le> ar_gen r"
      using inv that r unfolding ra_inv_def approvals_ok_def entry_ok_def by fastforce
    then show ?thesis using g by auto
  qed
  have "approvals_ok L s'" unfolding approvals_ok_def
  proof (intro allI impI)
    fix a c' root' q e ge assume ap: "Approved a c' root' q e ge \<in> set L"
    then have A: "\<exists>A T. Appointed e A T \<in> set L \<and> a \<in> A"
      using inv unfolding ra_inv_def approvals_ok_def by blast
    have "\<exists>r. an_anchors s' (c', root') = Some r \<and> entry_ok r (an_stamps s' (c', root', a)) q e ge"
    proof (cases "(c', root') = (c, root)")
      case True
      then show ?thesis using older [of a q e ge] ap by (auto simp: s' entry_ok_def)
    next
      case False
      then show ?thesis using inv ap unfolding ra_inv_def approvals_ok_def by (fastforce simp: s')
    qed
    with A show "(\<exists>A T. Appointed e A T \<in> set L \<and> a \<in> A) \<and>
      (\<exists>r. an_anchors s' (c', root') = Some r \<and> entry_ok r (an_stamps s' (c', root', a)) q e ge)" ..
  qed
  moreover have "stamps_ok L s'" using inv by (simp add: ra_inv_def stamps_ok_def s')
  moreover have "ra_records_ok L s'" unfolding ra_records_ok_def
  proof (intro allI impI)
    fix c' root' r' assume rec: "an_anchors s' (c', root') = Some r'"
    show "ar_set_epoch r' \<le> an_epoch s' \<and> finite (counted s' c' root' r') \<and>
      unat (ar_approvals r') = card (counted s' c' root' r') \<and>
      (ar_anchored r' \<longrightarrow> (\<exists>A T. Appointed (ar_set_epoch r') A T \<in> set L \<and> T \<le> unat (ar_approvals r'))) \<and>
      (\<not> ar_anchored r' \<and> ar_set_epoch r' = an_epoch s' \<longrightarrow> ar_approvals r' < an_threshold s')"
    proof (cases "(c', root') = (c, root)")
      case False
      then have "an_anchors s (c', root') = Some r'" using rec by (auto simp: s')
      then show ?thesis using inv unfolding ra_inv_def ra_records_ok_def by (fastforce simp: s' counted_def)
    next
      case True
      then have r': "r' = ?r" using rec by (simp add: s')
      have none: "counted s' c root ?r = {}"
      proof -
        have False if at: "an_stamps s (c, root, a) = Some (stamp_of ?r)" for a
        proof -
          obtain q e ge where "stamp_of ?r = pack e ge" and ap: "Approved a c root q e ge \<in> set L"
            by (rule stamp_logged [OF inv at])
          then show False using older [OF ap] by (simp add: stamp_pack pack_inject)
        qed
        then show ?thesis by (auto simp: counted_def s')
      qed
      have "ar_set_epoch r \<le> an_epoch s" using inv r unfolding ra_inv_def ra_records_ok_def by blast
      moreover have "0 < an_threshold s"
        using inv unfolding ra_inv_def appointments_ok_def word_less_nat_alt by fastforce
      moreover have "an_epoch s' = an_epoch s" "an_threshold s' = an_threshold s" by (simp_all add: s')
      ultimately show ?thesis using True none unfolding r' by simp
    qed
  qed
  ultimately show ?thesis using app by (simp add: ra_inv_def)
qed

lemmas ra_handler_defs = ra_pause_def ra_unpause_def ra_transfer_admin_def ra_accept_admin_def
  ra_activate_timelock_def ra_propose_action_def ra_cancel_action_def reset_latest_seq_def
  set_anchor_delay_def set_monotonic_def set_latest_seq_def

text \<open>Calls other than appointing, revoking and anchoring leave signers, records and stamps alone.\<close>

lemma ra_exec_settings:
  assumes "ra_exec E c s = Inr s'"
    "\<not> (\<exists>sgs thr. c = RSetSigners sgs thr)" "\<not> (\<exists>ch root. c = RRevoke ch root)"
    "\<not> (\<exists>a ch root q. c = RAnchor a ch root q)"
  shows "an_epoch s' = an_epoch s \<and> an_signers s' = an_signers s \<and> an_threshold s' = an_threshold s \<and>
    an_anchors s' = an_anchors s \<and> an_stamps s' = an_stamps s"
  using assms by (cases c)
    (auto simp: ra_handler_defs res_simps chk_simps split: if_splits prod.splits)

lemma ra_exec_keeps:
  assumes inv: "ra_inv L s" and x: "ra_exec E c s = Inr s'"
  shows "ra_inv (L @ ra_logged E c s s') s'"
proof (cases "(\<exists>sgs thr. c = RSetSigners sgs thr) \<or> (\<exists>ch root. c = RRevoke ch root) \<or>
    (\<exists>a ch root q. c = RAnchor a ch root q)")
  case False
  then have "ra_logged E c s s' = []" by (cases c) auto
  then show ?thesis using ra_inv_cong [OF inv] ra_exec_settings [OF x] False by simp
next
  case True
  then consider (signers) sgs thr where "c = RSetSigners sgs thr" | (revoke) ch root where "c = RRevoke ch root"
    | (approve) a ch root q where "c = RAnchor a ch root q" by blast
  then show ?thesis
  proof cases
    case signers
    then show ?thesis using set_signers_keeps [OF inv] x by simp
  next
    case revoke
    then show ?thesis using revoke_anchor_keeps [OF inv] x by simp
  next
    case approve
    then have "anchor E a ch root q s = Inr s'" using x by simp
    then show ?thesis
    proof (cases rule: anchor_Ok)
      case (again r)
      then show ?thesis using inv by (simp add: approve)
    next
      case (counted r n t lat)
      have "ra_logged E c s s' = [Approved a ch root q (ar_set_epoch r) (ar_gen r)]"
        using counted(2,5) by (auto simp: approve counted(10) get_anchor_def split: option.splits)
      then show ?thesis using anchor_keeps [OF inv counted(5,6,1,7,8,10)] by simp
    qed
  qed
qed

lemma ra_reach_inv: "ra_reach L s \<Longrightarrow> ra_inv L s"
proof (induction rule: ra_reach.induct)
  case (ra_reach_init adm sgs thr s)
  then have "0 < thr" "an_signers s = sgs" "an_threshold s = thr" "an_anchors s = Map.empty" "an_stamps s = Map.empty"
    by (clarsimp simp: ra_initialize_def apply_signers_def bump_set_epoch_def an_empty_def
        res_simps chk_simps word_less_nat_alt unat_gt_0 split: if_splits)+
  then show ?case
    by (simp add: ra_inv_def appointments_ok_def approvals_ok_def stamps_ok_def ra_records_ok_def word_less_nat_alt)
next
  case (ra_reach_call L s E c s')
  show ?case by (rule ra_exec_keeps [OF ra_reach_call.IH ra_reach_call.hyps(2)])
qed

text \<open>The signers counted for a record authorized its root and sequence under its own term.\<close>

lemma counted_approved:
  assumes inv: "ra_inv L s" and r: "an_anchors s (c, root) = Some r" and a: "a \<in> counted s c root r"
  shows "Approved a c root (ar_ledger_seq r) (ar_set_epoch r) (ar_gen r) \<in> set L"
proof -
  have "an_stamps s (c, root, a) = Some (stamp_of r)" using a by (simp add: counted_def)
  then obtain q e g where t: "stamp_of r = pack e g" and ap: "Approved a c root q e g \<in> set L"
    by (rule stamp_logged [OF inv])
  then have "entry_ok r (an_stamps s (c, root, a)) q e g"
    using inv r unfolding ra_inv_def approvals_ok_def by fastforce
  with t ap show ?thesis by (simp add: stamp_pack pack_inject entry_ok_def)
qed

lemma approved_appointed:
  assumes inv: "ra_inv L s" and ap: "Approved a c root q e g \<in> set L" and A: "Appointed e A T \<in> set L"
  shows "a \<in> A"
proof -
  have "approvals_ok L s" "appointments_ok L s" using inv by (simp_all add: ra_inv_def)
  then obtain A' T' where "Appointed e A' T' \<in> set L" "a \<in> A'" using ap unfolding approvals_ok_def by blast
  then show ?thesis using A \<open>appointments_ok L s\<close> unfolding appointments_ok_def by blast
qed

end
