(* ===== verification/Root_Anchor_Properties.thy ===== *)
theory Root_Anchor_Properties
  imports Root_Anchor_Proofs
begin

text \<open>
  The properties of the root anchor over its reachable states, each applied to a two-signer deployment:
  a usable root has a quorum, waits at most a week, moves the sequence forward, and is never sealed by
  a repeated approval.
\<close>

section \<open>A deployment\<close>

definition rd_crypto :: crypto where
  "rd_crypto = \<lparr>keccak256 = (\<lambda>bs. of_nat (length bs)), xdr_hash = (\<lambda>_ _. 1),
     xdr_args = (\<lambda>_. Some []), fr_reduce = (\<lambda>x. x), poseidon = (\<lambda>_. 0)\<rparr>"

definition rd_env :: "u64 \<Rightarrow> env" where
  "rd_env t = \<lparr>now = t, self = ContractAddr 13, authed = (\<lambda>_. True), prims = rd_crypto\<rparr>"

definition rd_init :: anchor_store where
  "rd_init = an_empty\<lparr>an_signers := [AccountAddr 1, AccountAddr 2], an_threshold := 2, an_epoch := 1,
     an_admin := Some (AccountAddr 9), an_init := True\<rparr>"

definition rd_rec :: anchor_rec where
  "rd_rec = \<lparr>ar_ledger_seq = 7, ar_anchored = False, ar_anchored_at = 0, ar_approvals = 1,
     ar_set_epoch = 1, ar_gen = 0\<rparr>"

definition rd_pending :: anchor_store where
  "rd_pending = rd_init\<lparr>an_stamps := [(5, 77, AccountAddr 1) \<mapsto> stamp_of rd_rec],
     an_anchors := [(5, 77) \<mapsto> rd_rec]\<rparr>"

definition rd_sealed :: anchor_rec where
  "rd_sealed = rd_rec\<lparr>ar_approvals := 2, ar_anchored := True, ar_anchored_at := 200\<rparr>"

definition rd_anchored :: anchor_store where
  "rd_anchored = rd_pending\<lparr>an_stamps := (an_stamps rd_pending)((5, 77, AccountAddr 2) \<mapsto> stamp_of rd_rec),
     an_latest := [5 \<mapsto> 7], an_anchors := [(5, 77) \<mapsto> rd_sealed]\<rparr>"

lemmas rd_defs = rd_env_def rd_init_def rd_rec_def rd_pending_def rd_sealed_def rd_anchored_def

lemma rd_init_run: "ra_initialize (AccountAddr 9) [AccountAddr 1, AccountAddr 2] 2 an_empty = Inr rd_init"
  by (simp add: ra_initialize_def apply_signers_def bump_set_epoch_def an_empty_def rd_init_def cadd_def)

lemma rd_first: "anchor (rd_env 100) (AccountAddr 1) 5 77 7 rd_init = Inr rd_pending"
  by (simp add: anchor_unfold bind_seq_def count_approval_def seal_root_def refreshed_def get_anchor_def
      set_anchor_def set_approval_stamp_def get_latest_seq_def an_empty_def no_anchor_def cadd_def rd_defs
      require_auth_def guarded_def stamp_of_def word_le_nat_alt word_less_nat_alt)

lemma rd_second: "anchor (rd_env 200) (AccountAddr 2) 5 77 7 rd_pending = Inr rd_anchored"
  by (simp add: anchor_unfold bind_seq_def count_approval_def seal_root_def refreshed_def get_anchor_def
      set_anchor_def set_approval_stamp_def get_latest_seq_def set_latest_seq_def an_empty_def no_anchor_def
      cadd_def rd_defs require_auth_def guarded_def stamp_of_def word_le_nat_alt word_less_nat_alt)

lemma rd_repeat: "anchor (rd_env 150) (AccountAddr 1) 5 77 7 rd_pending = Inr rd_pending"
  by (simp add: anchor_unfold bind_seq_def count_approval_def seal_root_def refreshed_def get_anchor_def
      set_anchor_def set_approval_stamp_def get_latest_seq_def an_empty_def no_anchor_def cadd_def rd_defs
      require_auth_def guarded_def stamp_of_def word_le_nat_alt word_less_nat_alt)

lemma rd_pending_reach: "\<exists>L. ra_reach L rd_pending"
  using ra_reach_call [OF ra_reach_init [OF rd_init_run], of "rd_env 100" "RAnchor (AccountAddr 1) 5 77 7"]
  by (auto simp: rd_first)

lemma rd_anchored_reach: "\<exists>L. ra_reach L rd_anchored"
  using rd_pending_reach ra_reach_call [of _ rd_pending "rd_env 200" "RAnchor (AccountAddr 2) 5 77 7"]
  by (auto simp: rd_second)

lemma rd_get: "get_anchor rd_pending 5 77 = Some rd_rec" "get_anchor rd_anchored 5 77 = Some rd_sealed"
  by (simp_all add: get_anchor_def rd_pending_def rd_anchored_def)

section \<open>A usable root had its quorum\<close>

text \<open>C24: A root the anchor reports as usable was approved, at its recorded sequence, by at least as
  many of the signers of one appointment as that appointment's threshold, each of whom authorized an
  approving call for it. Approvals given under an earlier signer set or before a revocation carry another
  epoch or generation and do not count.\<close>

theorem anchor_needs_quorum:
  assumes reach: "ra_reach L s" and usable: "an_is_anchored E c root s"
  shows "\<exists>r A T. get_anchor s c root = Some r \<and> Appointed (ar_set_epoch r) A T \<in> set L \<and> 0 < T \<and>
    T \<le> card {a \<in> A. Approved a c root (ar_ledger_seq r) (ar_set_epoch r) (ar_gen r) \<in> set L}"
proof -
  note inv = ra_reach_inv [OF reach]
  obtain r where r: "get_anchor s c root = Some r" and an: "ar_anchored r"
    using usable by (auto simp: an_is_anchored_def split: option.splits)
  have rec: "an_anchors s (c, root) = Some r" using r by (simp add: get_anchor_def)
  have "ra_records_ok L s" using inv by (simp add: ra_inv_def)
  then obtain A T where A: "Appointed (ar_set_epoch r) A T \<in> set L" and T: "T \<le> card (counted s c root r)"
    using rec an unfolding ra_records_ok_def by fastforce
  let ?B = "{a \<in> A. Approved a c root (ar_ledger_seq r) (ar_set_epoch r) (ar_gen r) \<in> set L}"
  have "counted s c root r \<subseteq> ?B"
    using counted_approved [OF inv rec] approved_appointed [OF inv _ A] by blast
  moreover have "finite ?B"
  proof (rule finite_subset)
    show "?B \<subseteq> (\<lambda>l. case l of Approved a _ _ _ _ _ \<Rightarrow> a) ` set L" by force
  qed simp
  ultimately have "T \<le> card ?B" using T card_mono le_trans by blast
  moreover have "0 < T" using inv A by (auto simp: ra_inv_def appointments_ok_def)
  ultimately show ?thesis using r A by blast
qed

theorem anchor_needs_quorum_witness:
  "an_is_anchored (rd_env 300) 5 77 rd_anchored \<and>
   (\<exists>L A T. Appointed 1 A T \<in> set L \<and> 0 < T \<and> T \<le> card {a \<in> A. Approved a 5 77 7 1 0 \<in> set L})"
proof -
  obtain L where L: "ra_reach L rd_anchored" using rd_anchored_reach by blast
  have use: "an_is_anchored (rd_env 300) 5 77 rd_anchored"
    by (simp add: an_is_anchored_def get_anchor_def get_delay_def an_empty_def rd_defs word_le_nat_alt)
  show ?thesis using use anchor_needs_quorum [OF L use] by (auto simp: rd_get rd_sealed_def rd_rec_def)
qed

section \<open>The delay\<close>

lemma ra_delay_bounded: "ra_reach L s \<Longrightarrow> get_delay s c \<le> MAX_ANCHOR_DELAY"
proof (induction rule: ra_reach.induct)
  case (ra_reach_init adm sgs thr s)
  then have "an_delays s = Map.empty"
    by (clarsimp simp: ra_initialize_def apply_signers_def bump_set_epoch_def an_empty_def
        res_simps chk_simps split: if_splits)
  then show ?case by (simp add: get_delay_def)
next
  case (ra_reach_call L s E k s')
  consider (delay) ch d where "k = RSetDelay ch d" | (approve) a ch root q where "k = RAnchor a ch root q"
    | (other) "an_delays s' = an_delays s"
    using ra_reach_call.hyps(2)
    by (cases k) (auto simp: ra_handler_defs set_signers_def apply_signers_def bump_set_epoch_def
        revoke_anchor_def set_anchor_def res_simps chk_simps split: if_splits prod.splits)
  then show ?case
  proof cases
    case delay
    then show ?thesis using ra_reach_call
      by (auto simp: set_anchor_delay_def get_delay_def res_simps split: if_splits option.splits)
  next
    case approve
    then have "anchor E a ch root q s = Inr s'" using ra_reach_call.hyps(2) by simp
    then have "an_delays s' = an_delays s" by (rule anchor_Ok) simp_all
    then show ?thesis using ra_reach_call.IH by (simp add: get_delay_def)
  next
    case other
    then show ?thesis using ra_reach_call.IH by (simp add: get_delay_def)
  qed
qed

text \<open>C25: An anchored root is unusable until its route's delay has passed since it was anchored, and
  usable at the latest one week after, whatever delays the admin has configured.\<close>

theorem anchored_root_matures:
  assumes "ra_reach L s" "get_anchor s c root = Some r" "ar_anchored r"
  shows "(unat (now E) < unat (ar_anchored_at r) + unat (get_delay s c) \<longrightarrow> \<not> an_is_anchored E c root s) \<and>
    (unat (ar_anchored_at r) + 7 * 24 * 60 * 60 \<le> unat (now E) \<longrightarrow> an_is_anchored E c root s)"
proof -
  have week: "unat (get_delay s c) \<le> 7 * 24 * 60 * 60"
    using ra_delay_bounded [OF assms(1), of c] by (simp add: MAX_ANCHOR_DELAY_def word_le_nat_alt)
  show ?thesis using assms(2,3) week
    by (auto simp: an_is_anchored_def word_le_nat_alt unat_sub)
qed

theorem anchored_root_matures_witness:
  "an_is_anchored (rd_env 700000) 5 77 rd_anchored"
proof -
  obtain L where L: "ra_reach L rd_anchored" using rd_anchored_reach by blast
  show ?thesis using anchored_root_matures [OF L rd_get(2), of "rd_env 700000"]
    by (simp add: rd_sealed_def rd_rec_def rd_env_def)
qed

section \<open>The sequence moves forward\<close>

text \<open>While the monotonic check is on, a call that turns a root anchored carries a sequence above the
  latest one of its chain, and that sequence becomes the latest: a stale root is never anchored.\<close>

theorem anchor_moves_forward:
  assumes call: "anchor E a c root q s = Inr s'" and mono: "an_monotonic s"
    and before: "case get_anchor s c root of None \<Rightarrow> True | Some r \<Rightarrow> \<not> ar_anchored r"
    and after: "get_anchor s' c root = Some r'" "ar_anchored r'"
  shows "get_latest_seq s c < q \<and> ar_ledger_seq r' = q \<and> get_latest_seq s' c = q"
proof -
  have fresh: "\<not> ar_anchored (case get_anchor s c root of None \<Rightarrow> no_anchor | Some r \<Rightarrow> r)"
    using before by (auto simp: no_anchor_def split: option.splits)
  obtain r2 r3 s1 where b: "bind_seq c q (refreshed s c root) s = Inr r2"
    and k: "count_approval a c root r2 s = Inr (r3, s1)"
    and z: "seal_root E c root r3 (get_latest_seq s c) s s1 = Inr s'"
    using call fresh unfolding anchor_unfold by (clarsimp simp: res_simps chk_simps split: if_splits)
  have "\<not> ar_anchored (refreshed s c root)" using fresh by (simp add: refreshed_def Let_def)
  then have r3: "ar_ledger_seq r3 = q" "\<not> ar_anchored r3"
    using bind_seq_Ok [OF b] count_approval_Ok [OF k] by auto
  show ?thesis using z after r3 mono
    by (auto simp: seal_root_def set_anchor_def set_latest_seq_def get_anchor_def get_latest_seq_def
        not_le split: if_splits)
qed

theorem anchor_moves_forward_witness:
  "get_latest_seq rd_pending 5 < 7 \<and> get_latest_seq rd_anchored 5 = 7"
proof -
  have mono: "an_monotonic rd_pending" by (simp add: rd_pending_def rd_init_def an_empty_def)
  show ?thesis using anchor_moves_forward [OF rd_second mono _ rd_get(2)]
    by (simp add: rd_get(1)) (simp add: rd_sealed_def rd_rec_def)
qed

section \<open>A repeated approval adds nothing\<close>

text \<open>In every reachable state a pending root of the current signer set stays short of the threshold,
  so a signer whose approval is already counted never seals it by approving again.\<close>

theorem repeat_never_seals:
  assumes reach: "ra_reach L s" and r: "get_anchor s c root = Some r" "\<not> ar_anchored r"
    and current: "ar_set_epoch r = an_epoch s" and counted: "an_stamps s (c, root, a) = Some (stamp_of r)"
    and call: "anchor E a c root q s = Inr s'"
  shows "\<exists>r'. get_anchor s' c root = Some r' \<and> \<not> ar_anchored r' \<and> ar_approvals r' = ar_approvals r"
  using call
proof (cases rule: anchor_Ok)
  case again
  then show ?thesis using r by simp
next
  case new: (counted r1 n t lat)
  have r1: "r1 = r" using new(6) r current by (simp add: refreshed_def)
  have n: "n = ar_approvals r" using new(8) counted by (simp add: r1 word_unat_eq_iff)
  have "ra_records_ok L s" using ra_reach_inv [OF reach] by (simp add: ra_inv_def)
  then have "ar_approvals r < an_threshold s"
    using r current unfolding ra_records_ok_def get_anchor_def by blast
  then show ?thesis using new(10) n by (simp add: get_anchor_def not_le)
qed

theorem repeat_never_seals_witness:
  "\<exists>r. get_anchor rd_pending 5 77 = Some r \<and> \<not> ar_anchored r \<and> ar_approvals r = 1"
proof -
  obtain L where L: "ra_reach L rd_pending" using rd_pending_reach by blast
  show ?thesis using repeat_never_seals [OF L rd_get(1) _ _ _ rd_repeat]
    by (simp add: rd_get rd_rec_def rd_pending_def rd_init_def)
qed

end
