(* ===== verification/Curve.thy ===== *)
theory Curve
  imports Secp Host
begin

text \<open>
  The signature primitives of the host that the key contracts use, as one record of parameters beside
  \<open>crypto\<close>: the BLS12-381 operations (a point that does not decode, or is outside its subgroup, traps),
  SHA-256, the Ed25519 check (which traps on a bad signature) and the secp256k1 recovery.
\<close>

record curve =
  g1_add :: "bytes \<Rightarrow> bytes \<Rightarrow> bytes option"
  hash_to_g2 :: "bytes \<Rightarrow> bytes \<Rightarrow> bytes"
  pairing_check :: "bytes list \<Rightarrow> bytes list \<Rightarrow> bool option"
  sha256 :: "bytes \<Rightarrow> bytes32"
  ed25519_ok :: "bytes32 \<Rightarrow> bytes \<Rightarrow> bytes \<Rightarrow> bool"
  secp_recover :: "bytes32 \<Rightarrow> sig64 \<Rightarrow> u32 \<Rightarrow> bytes option"

text \<open>The negated generator of G1, hard-coded in both contracts that pair with it.\<close>

definition NEG_G1 :: bytes where
  "NEG_G1 = be_bytes 96 (0x17f1d3a73197d7942695638c4fa9ac0fc3688c4f9774b905a14e3a3f171bac586c55e83ff97a1aeffb3af00adb22c6bb114d1d6855d545a8aa7d76c8cf2e21f267816aef1db507c96655b9d5caac42364e6f38ba0ecb751bad54dcd6b939c2ca :: 768 word)"

text \<open>ASCII text of the sources as bytes.\<close>

definition ascii :: "string \<Rightarrow> bytes" where
  "ascii s = map (\<lambda>c. of_nat (of_char c)) s"

section \<open>Fields of a byte string\<close>

text \<open>
  Fixed-width fields inside a byte string: reading one back after writing it, and the converse, that a
  byte string of the right length is the concatenation of its fields.
\<close>

text \<open>\<open>arr::<N>(b, offset)\<close>: \<open>N\<close> bytes from \<open>offset\<close> on (the callers have checked the length).\<close>

definition arr :: "nat \<Rightarrow> bytes \<Rightarrow> nat \<Rightarrow> bytes" where
  "arr n b off = take n (drop off b)"

lemma length_arr: "off + n \<le> length b \<Longrightarrow> length (arr n b off) = n"
  by (simp add: arr_def)

lemma be_nat_less: "be_nat bs < 256 ^ length bs"
proof (induction bs rule: rev_induct)
  case (snoc b bs)
  have "unat b < 256" using unat_less_len [of b] by simp
  with snoc show ?case by (simp add: be_nat_snoc)
qed (simp add: be_nat_def)

lemma be_bytes_nat_be_nat: "be_bytes_nat (length bs) (be_nat bs) = bs"
proof (induction bs rule: rev_induct)
  case (snoc b bs)
  have b: "unat b < 256" using unat_less_len [of b] by simp
  have "(be_nat bs * 256 + unat b) mod 256 = unat b mod 256" by (rule mod_mult_self3)
  with b have "(be_nat bs * 256 + unat b) mod 256 = unat b" by (simp only: mod_less)
  then have "(of_nat ((be_nat bs * 256 + unat b) mod 256) :: u8) = b" by simp
  moreover have "(be_nat bs * 256 + unat b) div 256 = be_nat bs" using b by (simp only: div_mult_self3 div_less)
    
  ultimately show ?case
    unfolding be_nat_snoc length_append_singleton be_bytes_nat.simps by (simp only: snoc)
qed simp

lemma be_bytes_from_be:
  assumes "length bs = n" "LENGTH('a) = 8 * n"
  shows "be_bytes n (from_be bs :: 'a::len word) = bs"
proof -
  have "be_nat bs < 2 ^ LENGTH('a)" using be_nat_less [of bs] assms by (simp add: power_mult)
  then have "unat (from_be bs :: 'a word) = be_nat bs" by (simp add: from_be_def unat_of_nat)
  then show ?thesis using be_bytes_nat_be_nat [of bs] assms(1) by (simp add: be_bytes_def)
qed

lemma be_bytes_arr:
  assumes "off + n \<le> length b" "LENGTH('a) = 8 * n"
  shows "be_bytes n (from_be (arr n b off) :: 'a::len word) = arr n b off"
  using assms by (intro be_bytes_from_be length_arr)

lemma arr_join: "m = off + n \<Longrightarrow> arr n b off @ drop m b = drop off b"
  by (simp add: arr_def add.commute flip: drop_drop)

lemma arr_last: "length b = off + n \<Longrightarrow> arr n b off = drop off b"
  by (simp add: arr_def)

lemma nth_join: "off < length b \<Longrightarrow> m = Suc off \<Longrightarrow> (b ! off) # drop m b = drop off b"
  by (simp add: Cons_nth_drop_Suc)

end
