(* ===== verification/Counterparty_Verifier.thy ===== *)
theory Counterparty_Verifier
  imports Curve Cross_Contract
begin

text \<open>
  The counterparty verifier (\<open>contracts/counterparty-verifier/src/lib.rs\<close>): a root is valid when both
  parties' registered BLS keys co-signed it for one order, one leg and one nullifier. The module is
  stateless but for the address of its key registry.
\<close>

datatype verifier_error = CvAlreadyInitialized

fun verifier_error_code :: "verifier_error \<Rightarrow> nat" where
  "verifier_error_code CvAlreadyInitialized = 1"

record verifier_store =
  cv_init :: bool
  cv_registry :: "address option"

definition cv_initialize :: "address \<Rightarrow> verifier_store \<Rightarrow> (verifier_error, verifier_store) res" where
  "cv_initialize registry s =
     (if cv_init s then Fail CvAlreadyInitialized
      else Ok (s\<lparr>cv_init := True, cv_registry := Some registry\<rparr>))"

section \<open>The metadata\<close>

definition DST_SIG :: bytes where
  "DST_SIG = ascii ''BLS_SIG_BLS12381G2_XMD:SHA-256_SSWU_RO_POP_''"

definition SETTLE_TAG :: bytes32 where
  "SETTLE_TAG = 0x3d7bf6a386b1a08577b287b9c96a47ad90915165c3075b0d7765ff247a046df5"

definition METADATA_VERSION :: u8 where "METADATA_VERSION = 4"
definition METADATA_LEN :: nat where "METADATA_LEN = 750"
definition VERSION_OFFSET :: nat where "VERSION_OFFSET = 133"
definition SIDE_ORDER :: u8 where "SIDE_ORDER = 0"
definition SIDE_AD :: u8 where "SIDE_AD = 1"

record metadata =
  md_order_chain_id :: u128
  md_ad_chain_id :: u128
  md_order_hash :: bytes32
  md_order_chain_root :: bytes32
  md_ad_chain_root :: bytes32
  md_maker_key_commitment :: bytes32
  md_ad_leg_nullifier :: bytes32
  md_order_leg_nullifier :: bytes32
  md_settlement_signer :: bytes32
  md_bridger :: bytes32
  md_envelope_order_hash :: bytes32
  md_pinned_slot :: u32
  md_nullifier_hash :: bytes32
  md_side :: u8
  md_signer_slot_id :: u32
  md_bridger_slot_id :: u32
  md_pk_signer :: bytes
  md_pk_bridger :: bytes
  md_agg_sig :: bytes

definition decode :: "bytes \<Rightarrow> metadata" where
  "decode b =
     \<lparr>md_order_chain_id = from_be (arr 16 b 134),
      md_ad_chain_id = from_be (arr 16 b 150),
      md_order_hash = from_be (arr 32 b 166),
      md_order_chain_root = from_be (arr 32 b 198),
      md_ad_chain_root = from_be (arr 32 b 230),
      md_maker_key_commitment = from_be (arr 32 b 262),
      md_ad_leg_nullifier = from_be (arr 32 b 294),
      md_order_leg_nullifier = from_be (arr 32 b 326),
      md_settlement_signer = from_be (arr 32 b 0),
      md_bridger = from_be (arr 32 b 32),
      md_envelope_order_hash = from_be (arr 32 b 64),
      md_pinned_slot = from_be (arr 4 b 96),
      md_nullifier_hash = from_be (arr 32 b 100),
      md_side = (if 132 < length b then b ! 132 else - 1),
      md_signer_slot_id = from_be (arr 4 b 358),
      md_bridger_slot_id = from_be (arr 4 b 362),
      md_pk_signer = arr 96 b 366,
      md_pk_bridger = arr 96 b 462,
      md_agg_sig = arr 192 b 558\<rparr>"

section \<open>The check\<close>

definition commitment_matches ::
  "'w ext \<Rightarrow> env \<Rightarrow> address \<Rightarrow> bytes32 \<Rightarrow> u32 \<Rightarrow> bytes32 \<Rightarrow> 'w \<Rightarrow> bool" where
  "commitment_matches X E client account slot_id commitment w \<longleftrightarrow>
     kr_commitment_at X E client account slot_id w = Some commitment"

definition pad32_u128 :: "u128 \<Rightarrow> bytes" where
  "pad32_u128 v = replicate 16 0 @ be_bytes 16 v"

definition settle_preimage :: "metadata \<Rightarrow> bytes" where
  "settle_preimage m =
     be_bytes 32 SETTLE_TAG @ pad32_u128 (md_order_chain_id m) @ pad32_u128 (md_ad_chain_id m) @
     be_bytes 32 (md_order_hash m) @ be_bytes 32 (md_order_chain_root m) @
     be_bytes 32 (md_ad_chain_root m) @ be_bytes 32 (md_maker_key_commitment m) @
     be_bytes 32 (md_ad_leg_nullifier m) @ be_bytes 32 (md_order_leg_nullifier m)"

text \<open>\<open>e(pkM + pkB, H(preimage)) = e(G1, aggSig)\<close>.\<close>

definition verify_aggregate :: "curve \<Rightarrow> metadata \<Rightarrow> bool option" where
  "verify_aggregate K m =
     (case g1_add K (md_pk_signer m) (md_pk_bridger m) of
        None \<Rightarrow> None
      | Some pk_agg \<Rightarrow>
          pairing_check K [pk_agg, NEG_G1] [hash_to_g2 K (settle_preimage m) DST_SIG, md_agg_sig m])"

text \<open>The leg the escrow's side picks: its source chain, its root and the nullifier signed for it.\<close>

definition leg_of :: "metadata \<Rightarrow> (u128 \<times> bytes32 \<times> bytes32) option" where
  "leg_of m =
     (if md_side m = SIDE_AD then Some (md_order_chain_id m, md_order_chain_root m, md_ad_leg_nullifier m)
      else if md_side m = SIDE_ORDER then Some (md_ad_chain_id m, md_ad_chain_root m, md_order_leg_nullifier m)
      else None)"

text \<open>\<open>None\<close> is a trap: an unset registry, or a point the host refuses.\<close>

definition cv_is_root_valid ::
  "curve \<Rightarrow> 'w ext \<Rightarrow> env \<Rightarrow> u128 \<Rightarrow> bytes32 \<Rightarrow> bytes \<Rightarrow> verifier_store \<Rightarrow> 'w \<Rightarrow> bool option" where
  "cv_is_root_valid K X E source_chain_id root md s w =
     (if length md \<noteq> METADATA_LEN \<or> md ! VERSION_OFFSET \<noteq> METADATA_VERSION then Some False
      else
        let m = decode md in
        if md_order_hash m \<noteq> md_envelope_order_hash m then Some False
        else case leg_of m of
          None \<Rightarrow> Some False
        | Some (leg_chain, leg_root, leg_nullifier) \<Rightarrow>
            if source_chain_id \<noteq> leg_chain \<or> root \<noteq> leg_root \<or> md_nullifier_hash m \<noteq> leg_nullifier
            then Some False
            else if md_pinned_slot m \<noteq> UNPINNED \<and> md_signer_slot_id m \<noteq> md_pinned_slot m then Some False
            else
              let signer_commitment = key_commitment (prims E) (md_pk_signer m) in
              if md_maker_key_commitment m \<noteq> signer_commitment then Some False
              else case cv_registry s of
                None \<Rightarrow> None
              | Some registry \<Rightarrow>
                  if \<not> commitment_matches X E registry (md_settlement_signer m) (md_signer_slot_id m)
                        signer_commitment w \<or>
                     \<not> commitment_matches X E registry (md_bridger m) (md_bridger_slot_id m)
                        (key_commitment (prims E) (md_pk_bridger m)) w
                  then Some False
                  else verify_aggregate K m)"

end
