(* ===== verification/Verifier_Properties.thy ===== *)
theory Verifier_Properties
  imports Counterparty_Verifier
begin

text \<open>
  What the counterparty verifier accepts: the byte layout of the signed authorization read back, and
  the exact condition for a valid root in terms of what the two parties signed.
\<close>

section \<open>The signed authorization\<close>

text \<open>What the parties sign and hand over with the two public keys, as the data behind the envelope.\<close>

record cosig =
  cs_order_chain_id :: u128
  cs_ad_chain_id :: u128
  cs_order_hash :: bytes32
  cs_order_chain_root :: bytes32
  cs_ad_chain_root :: bytes32
  cs_maker_key :: bytes32
  cs_ad_leg_nullifier :: bytes32
  cs_order_leg_nullifier :: bytes32
  cs_signer_slot :: u32
  cs_bridger_slot :: u32
  cs_pk_signer :: bytes
  cs_pk_bridger :: bytes
  cs_agg_sig :: bytes

definition cosig_wf :: "cosig \<Rightarrow> bool" where
  "cosig_wf c \<longleftrightarrow> length (cs_pk_signer c) = 96 \<and> length (cs_pk_bridger c) = 96 \<and> length (cs_agg_sig c) = 192"

definition cosig_bytes :: "cosig \<Rightarrow> bytes" where
  "cosig_bytes c =
     [METADATA_VERSION] @ be_bytes 16 (cs_order_chain_id c) @ be_bytes 16 (cs_ad_chain_id c) @
     be_bytes 32 (cs_order_hash c) @ be_bytes 32 (cs_order_chain_root c) @ be_bytes 32 (cs_ad_chain_root c) @
     be_bytes 32 (cs_maker_key c) @ be_bytes 32 (cs_ad_leg_nullifier c) @ be_bytes 32 (cs_order_leg_nullifier c) @
     be_bytes 4 (cs_signer_slot c) @ be_bytes 4 (cs_bridger_slot c) @
     cs_pk_signer c @ cs_pk_bridger c @ cs_agg_sig c"

lemma length_cosig_bytes: "cosig_wf c \<Longrightarrow> length (cosig_bytes c) = 617"
  by (simp add: cosig_bytes_def cosig_wf_def)

definition read_cosig :: "bytes \<Rightarrow> cosig" where
  "read_cosig d =
     \<lparr>cs_order_chain_id = from_be (arr 16 d 1), cs_ad_chain_id = from_be (arr 16 d 17),
      cs_order_hash = from_be (arr 32 d 33), cs_order_chain_root = from_be (arr 32 d 65),
      cs_ad_chain_root = from_be (arr 32 d 97), cs_maker_key = from_be (arr 32 d 129),
      cs_ad_leg_nullifier = from_be (arr 32 d 161), cs_order_leg_nullifier = from_be (arr 32 d 193),
      cs_signer_slot = from_be (arr 4 d 225), cs_bridger_slot = from_be (arr 4 d 229),
      cs_pk_signer = arr 96 d 233, cs_pk_bridger = arr 96 d 329, cs_agg_sig = arr 192 d 425\<rparr>"

text \<open>Every byte string of the right length and version is the encoding of an authorization.\<close>

lemma cosig_bytes_read:
  assumes "length d = 617" "d ! 0 = METADATA_VERSION"
  shows "cosig_bytes (read_cosig d) = d" "cosig_wf (read_cosig d)"
proof -
  have "cosig_bytes (read_cosig d) = (d ! 0) # (arr 16 d 1 @ arr 16 d 17 @ arr 32 d 33 @ arr 32 d 65 @
      arr 32 d 97 @ arr 32 d 129 @ arr 32 d 161 @ arr 32 d 193 @ arr 4 d 225 @ arr 4 d 229 @
      arr 96 d 233 @ arr 96 d 329 @ arr 192 d 425)"
    by (simp add: cosig_bytes_def read_cosig_def be_bytes_arr assms)
  also have "arr 192 d 425 = drop 425 d" by (rule arr_last) (simp add: assms)
  finally have "cosig_bytes (read_cosig d) = (d ! 0) # drop 1 d" by (simp add: arr_join)
  also have "\<dots> = d" using assms(1) by (cases d) simp_all
  finally show "cosig_bytes (read_cosig d) = d" .
  show "cosig_wf (read_cosig d)" by (simp add: cosig_wf_def read_cosig_def length_arr assms)
qed

text \<open>The metadata the escrow sends, decoded, is the envelope's fields and the authorization's.\<close>

definition auth_of :: "bytes32 \<Rightarrow> bytes32 \<Rightarrow> bytes32 \<Rightarrow> u32 \<Rightarrow> bytes32 \<Rightarrow> u8 \<Rightarrow> cosig \<Rightarrow> metadata" where
  "auth_of signer bridger h pin nf side c =
     \<lparr>md_order_chain_id = cs_order_chain_id c, md_ad_chain_id = cs_ad_chain_id c,
      md_order_hash = cs_order_hash c, md_order_chain_root = cs_order_chain_root c,
      md_ad_chain_root = cs_ad_chain_root c, md_maker_key_commitment = cs_maker_key c,
      md_ad_leg_nullifier = cs_ad_leg_nullifier c, md_order_leg_nullifier = cs_order_leg_nullifier c,
      md_settlement_signer = signer, md_bridger = bridger, md_envelope_order_hash = h,
      md_pinned_slot = pin, md_nullifier_hash = nf, md_side = side,
      md_signer_slot_id = cs_signer_slot c, md_bridger_slot_id = cs_bridger_slot c,
      md_pk_signer = cs_pk_signer c, md_pk_bridger = cs_pk_bridger c, md_agg_sig = cs_agg_sig c\<rparr>"

lemma decode_envelope:
  assumes "cosig_wf c"
  shows "decode (root_envelope signer bridger h pin nf side (cosig_bytes c)) = auth_of signer bridger h pin nf side c"
  using assms
  by (simp add: decode_def auth_of_def root_envelope_def cosig_bytes_def cosig_wf_def arr_def nth_append)

lemma cosig_bytes_inj:
  assumes "cosig_bytes c = cosig_bytes d" "cosig_wf c" "cosig_wf d"
  shows "c = d"
proof -
  have "auth_of 0 0 0 0 0 0 c = auth_of 0 0 0 0 0 0 d"
    using assms by (simp flip: decode_envelope)
  then show ?thesis by (cases c, cases d) (simp add: auth_of_def)
qed

lemma root_valid_decoded:
  "cv_is_root_valid K X E chain root md s w = Some True \<longleftrightarrow>
     length md = METADATA_LEN \<and> md ! VERSION_OFFSET = METADATA_VERSION \<and>
     (let m = decode md in
        md_order_hash m = md_envelope_order_hash m \<and> leg_of m = Some (chain, root, md_nullifier_hash m) \<and>
        (md_pinned_slot m = UNPINNED \<or> md_signer_slot_id m = md_pinned_slot m) \<and>
        md_maker_key_commitment m = key_commitment (prims E) (md_pk_signer m) \<and>
        (\<exists>registry. cv_registry s = Some registry \<and>
           kr_commitment_at X E registry (md_settlement_signer m) (md_signer_slot_id m) w =
             Some (key_commitment (prims E) (md_pk_signer m)) \<and>
           kr_commitment_at X E registry (md_bridger m) (md_bridger_slot_id m) w =
             Some (key_commitment (prims E) (md_pk_bridger m))) \<and>
        verify_aggregate K m = Some True)"
  unfolding cv_is_root_valid_def Let_def commitment_matches_def
  by (auto split: option.splits if_splits)

section \<open>What a valid root says\<close>

text \<open>The authorization names this order, this side's leg and, on a pinned order, the pinned slot; and the
  two keys it carries signed it.\<close>

definition consents_to ::
  "crypto \<Rightarrow> cosig \<Rightarrow> bytes32 \<Rightarrow> u8 \<Rightarrow> u128 \<Rightarrow> bytes32 \<Rightarrow> bytes32 \<Rightarrow> u32 \<Rightarrow> bool" where
  "consents_to C c h side chain root nf pin \<longleftrightarrow>
     cs_order_hash c = h \<and>
     (side = SIDE_AD \<and> chain = cs_order_chain_id c \<and> root = cs_order_chain_root c \<and> nf = cs_ad_leg_nullifier c \<or>
      side = SIDE_ORDER \<and> chain = cs_ad_chain_id c \<and> root = cs_ad_chain_root c \<and> nf = cs_order_leg_nullifier c) \<and>
     (pin = UNPINNED \<or> cs_signer_slot c = pin) \<and> cs_maker_key c = key_commitment C (cs_pk_signer c)"

definition signed_message :: "cosig \<Rightarrow> bytes" where
  "signed_message c = settle_preimage (auth_of 0 0 0 0 0 0 c)"

definition signed_by_both :: "curve \<Rightarrow> cosig \<Rightarrow> bool" where
  "signed_by_both K c \<longleftrightarrow>
     (\<exists>agg. g1_add K (cs_pk_signer c) (cs_pk_bridger c) = Some agg \<and>
        pairing_check K [agg, NEG_G1] [hash_to_g2 K (signed_message c) DST_SIG, cs_agg_sig c] = Some True)"

lemma signed_message_any: "settle_preimage (auth_of signer bridger h pin nf side c) = signed_message c"
  by (simp add: signed_message_def settle_preimage_def auth_of_def)

lemma aggregate_signed:
  "verify_aggregate K (auth_of signer bridger h pin nf side c) = Some True \<longleftrightarrow> signed_by_both K c"
  by (auto simp: verify_aggregate_def signed_by_both_def signed_message_any split: option.splits)
    (simp_all add: auth_of_def)

lemma sides_differ: "SIDE_AD \<noteq> SIDE_ORDER"
  by (simp add: SIDE_AD_def SIDE_ORDER_def)

text \<open>On an encoded authorization the check is the conjunction of what it names, who holds the keys and
  the signature.\<close>

lemma root_valid_encoded:
  assumes "cosig_wf c"
  shows "cv_is_root_valid K X E chain root (root_envelope signer bridger h pin nf side (cosig_bytes c)) s w = Some True \<longleftrightarrow>
    consents_to (prims E) c h side chain root nf pin \<and>
    (\<exists>registry. cv_registry s = Some registry \<and>
       kr_commitment_at X E registry signer (cs_signer_slot c) w = Some (key_commitment (prims E) (cs_pk_signer c)) \<and>
       kr_commitment_at X E registry bridger (cs_bridger_slot c) w = Some (key_commitment (prims E) (cs_pk_bridger c))) \<and>
    signed_by_both K c"
proof -
  let ?m = "auth_of signer bridger h pin nf side c"
  have leg: "leg_of ?m = Some (chain, root, md_nullifier_hash ?m) \<longleftrightarrow>
      side = SIDE_AD \<and> chain = cs_order_chain_id c \<and> root = cs_order_chain_root c \<and> nf = cs_ad_leg_nullifier c \<or>
      side = SIDE_ORDER \<and> chain = cs_ad_chain_id c \<and> root = cs_ad_chain_root c \<and> nf = cs_order_leg_nullifier c"
    using sides_differ by (auto simp: leg_of_def auth_of_def)
  have len: "length (cosig_bytes c) = 617" by (rule length_cosig_bytes [OF assms])
  have "root_envelope signer bridger h pin nf side (cosig_bytes c) ! VERSION_OFFSET = METADATA_VERSION"
    by (simp add: root_envelope_def VERSION_OFFSET_def nth_append cosig_bytes_def)
  then show ?thesis
    unfolding root_valid_decoded decode_envelope [OF assms] Let_def leg aggregate_signed consents_to_def
    by (auto simp: auth_of_def METADATA_LEN_def length_root_envelope len)
qed

text \<open>And every data the check accepts is such an encoding.\<close>

lemma root_valid_is_encoded:
  assumes "cv_is_root_valid K X E chain root (root_envelope signer bridger h pin nf side data) s w = Some True"
  obtains c where "data = cosig_bytes c" "cosig_wf c"
proof -
  let ?md = "root_envelope signer bridger h pin nf side data"
  have len: "length data = 617"
    using assms by (simp add: root_valid_decoded METADATA_LEN_def length_root_envelope)
  then have "?md ! VERSION_OFFSET = data ! 0" by (simp add: root_envelope_def VERSION_OFFSET_def nth_append)
  then have "data ! 0 = METADATA_VERSION" using assms by (simp add: root_valid_decoded)
  then show thesis using cosig_bytes_read [OF len] that by metis
qed

section \<open>Properties\<close>

lemma conj_registry_signature:
  "(\<exists>r g. A \<and> B \<and> C \<and> D \<and> P r \<and> Q r \<and> R r \<and> S g \<and> T g) \<longleftrightarrow>
    (A \<and> B \<and> C \<and> D) \<and> (\<exists>r. P r \<and> Q r \<and> R r) \<and> (\<exists>g. S g \<and> T g)"
  by blast

text \<open>C33: A valid root is a consent to exactly this settlement, and every such consent is valid: the data
  behind the escrow's envelope encodes an authorization that names the escrow's order, the chain, root
  and nullifier of the escrow's own leg, the maker key it carries and, on a pinned order, the pinned
  slot; both keys are the ones registered for the two parties at the slots named; and the aggregate
  signature of the two keys verifies over the authorization.\<close>

theorem root_valid_iff_consent:
  "cv_is_root_valid K X E chain root (root_envelope signer bridger h pin nf side data) s w = Some True \<longleftrightarrow>
     (\<exists>c. data = cosig_bytes c \<and> cosig_wf c \<and> (\<exists>registry agg. cs_order_hash c = h \<and>
        (side = SIDE_AD \<and> chain = cs_order_chain_id c \<and> root = cs_order_chain_root c \<and> nf = cs_ad_leg_nullifier c \<or>
         side = SIDE_ORDER \<and> chain = cs_ad_chain_id c \<and> root = cs_ad_chain_root c \<and> nf = cs_order_leg_nullifier c) \<and>
        (pin = UNPINNED \<or> cs_signer_slot c = pin) \<and>
        cs_maker_key c = key_commitment (prims E) (cs_pk_signer c) \<and> cv_registry s = Some registry \<and>
        kr_commitment_at X E registry signer (cs_signer_slot c) w = Some (key_commitment (prims E) (cs_pk_signer c)) \<and>
        kr_commitment_at X E registry bridger (cs_bridger_slot c) w = Some (key_commitment (prims E) (cs_pk_bridger c)) \<and>
        g1_add K (cs_pk_signer c) (cs_pk_bridger c) = Some agg \<and>
        pairing_check K [agg, NEG_G1]
          [hash_to_g2 K (settle_preimage (auth_of signer bridger h pin nf side c)) DST_SIG, cs_agg_sig c] = Some True))"
  (is "?valid \<longleftrightarrow> (\<exists>c. ?data c \<and> ?wf c \<and> ?consent c)")
proof -
  have iff: "?consent c \<longleftrightarrow> ?valid" if "?data c" "?wf c" for c
    unfolding that(1) root_valid_encoded [OF that(2)] consents_to_def signed_by_both_def signed_message_any
    by (rule conj_registry_signature)
  show ?thesis
  proof
    assume v: ?valid
    then show "\<exists>c. ?data c \<and> ?wf c \<and> ?consent c" by (rule root_valid_is_encoded) (use iff v in blast)
  next
    assume "\<exists>c. ?data c \<and> ?wf c \<and> ?consent c"
    then show ?valid using iff by blast
  qed
qed

text \<open>The bytes the parties sign determine what they consent to: two authorizations with the same
  signed message name the same chains, order, roots, maker key and nullifiers.\<close>

theorem consent_binds:
  "settle_preimage m = settle_preimage m' \<longleftrightarrow>
     md_order_chain_id m = md_order_chain_id m' \<and> md_ad_chain_id m = md_ad_chain_id m' \<and>
     md_order_hash m = md_order_hash m' \<and> md_order_chain_root m = md_order_chain_root m' \<and>
     md_ad_chain_root m = md_ad_chain_root m' \<and> md_maker_key_commitment m = md_maker_key_commitment m' \<and>
     md_ad_leg_nullifier m = md_ad_leg_nullifier m' \<and> md_order_leg_nullifier m = md_order_leg_nullifier m'"
  by (auto simp: settle_preimage_def pad32_u128_def be_bytes_inject)

text \<open>Reading the escrow's envelope back gives every field the escrow vouched for and every field the
  parties signed, unchanged.\<close>

theorem envelope_roundtrip:
  assumes "cosig_wf c"
  shows "decode (root_envelope signer bridger h pin nf side (cosig_bytes c)) = auth_of signer bridger h pin nf side c"
  by (rule decode_envelope [OF assms])

theorem envelope_roundtrip_witness:
  "md_order_hash (decode (root_envelope 1 2 66 3 77 0 (cosig_bytes
     \<lparr>cs_order_chain_id = 7, cs_ad_chain_id = 9, cs_order_hash = 66, cs_order_chain_root = 5,
      cs_ad_chain_root = 6, cs_maker_key = 8, cs_ad_leg_nullifier = 10, cs_order_leg_nullifier = 77,
      cs_signer_slot = 3, cs_bridger_slot = 0, cs_pk_signer = replicate 96 1, cs_pk_bridger = replicate 96 2,
      cs_agg_sig = replicate 192 3\<rparr>))) = 66"
  by (subst envelope_roundtrip) (simp_all add: cosig_wf_def auth_of_def)

end
