(* ===== verification/Registrar.thy ===== *)
theory Registrar
  imports Cross_Contract Token_Ledger
begin

text \<open>
  The registrar (\<open>contracts/registrar/src/{lib,errors}.rs\<close>): an account approves a key registration for
  another chain under its own authorization, and the registrar appends the \<open>REGISTERED\<close> leaf to the
  home MMR. Operations carry the prefix \<open>rg_\<close>.
\<close>

datatype registrar_error = RgAlreadyInitialized | RgNotInitialized | RgAppendFailed | RgStaleEpoch

fun registrar_error_code :: "registrar_error \<Rightarrow> nat" where
  "registrar_error_code RgAlreadyInitialized = 1"
| "registrar_error_code RgNotInitialized = 2"
| "registrar_error_code RgAppendFailed = 3"
| "registrar_error_code RgStaleEpoch = 4"

record registrar_store =
  rg_init :: bool
  rg_merkle_manager :: "address option"
  rg_next :: "bytes32 \<rightharpoonup> u64"

definition rg_empty :: registrar_store where
  "rg_empty = \<lparr>rg_init = False, rg_merkle_manager = None, rg_next = Map.empty\<rparr>"

definition rg_initialize :: "address \<Rightarrow> registrar_store \<Rightarrow> (registrar_error, registrar_store) res" where
  "rg_initialize mm s =
     (if rg_init s then Fail RgAlreadyInitialized
      else Ok (s\<lparr>rg_init := True, rg_merkle_manager := Some mm\<rparr>))"

definition rg_next_epoch :: "registrar_store \<Rightarrow> bytes32 \<Rightarrow> u64" where
  "rg_next_epoch s account32 = (case rg_next s account32 of None \<Rightarrow> 0 | Some e \<Rightarrow> e)"

definition rg_subject_of :: "env \<Rightarrow> bytes32 \<Rightarrow> bytes32 \<Rightarrow> u64 \<Rightarrow> u128 \<Rightarrow> bytes32 \<Rightarrow> bytes32" where
  "rg_subject_of E account32 bls_commitment epoch dst_chain_id dst_registry_id =
     registration_subject (prims E) dst_chain_id dst_registry_id account32 bls_commitment epoch"

definition register_leaf ::
  "'w ext \<Rightarrow> env \<Rightarrow> address \<Rightarrow> bytes32 \<Rightarrow> u64 \<Rightarrow> u128 \<Rightarrow> bytes32 \<Rightarrow> registrar_store \<times> 'w \<Rightarrow>
   (registrar_error, bytes32 \<times> registrar_store \<times> 'w) res" where
  "register_leaf X E account bls_commitment epoch dst_chain_id dst_registry_id = (\<lambda>(s, w).
     attempt (ok_or (rg_merkle_manager s) RgNotInitialized) (\<lambda>mm.
     attempt (require_auth E account) (\<lambda>_.
     let account32 = address_to_bytes32 account; nxt = rg_next_epoch s account32 in
     if epoch < nxt then Fail RgStaleEpoch
     else attempt (ok_or (checked_add epoch 1) RgStaleEpoch) (\<lambda>bumped.
     let s1 = s\<lparr>rg_next := (rg_next s)(account32 \<mapsto> bumped)\<rparr>;
         subject = registration_subject (prims E) dst_chain_id dst_registry_id account32 bls_commitment epoch in
     attempt (ok_or (mm_append X E mm (self E) subject LEAF_DOMAIN_REGISTERED w) RgAppendFailed) (\<lambda>w1.
     Ok (subject, s1, w1))))))"

section \<open>The leaves as a log\<close>

text \<open>
  The leaves the registrar appends, as a log: each one authorized by its account, an account's epochs
  strictly increasing, and no registration appended twice.
\<close>

text \<open>One leaf: who approved what for which destination at which epoch.\<close>

record registration =
  rn_account :: address
  rn_commitment :: bytes32
  rn_epoch :: u64
  rn_chain :: u128
  rn_registry :: bytes32

definition subject_bytes :: "registration \<Rightarrow> bytes" where
  "subject_bytes r = be_bytes 32 REG_LEAF_TAG @ (replicate 16 0 @ be_bytes 16 (rn_chain r)) @
     be_bytes 32 (rn_registry r) @ be_bytes 32 (address_to_bytes32 (rn_account r)) @
     be_bytes 32 (rn_commitment r) @ (replicate 24 0 @ be_bytes 8 (rn_epoch r))"

definition subject_of :: "crypto \<Rightarrow> registration \<Rightarrow> bytes32" where
  "subject_of C r = registration_subject C (rn_chain r) (rn_registry r)
     (address_to_bytes32 (rn_account r)) (rn_commitment r) (rn_epoch r)"

text \<open>Runs from deployment; the world may move between calls. The log holds the leaves appended, with the
  subject each call returned.\<close>

inductive rg_reach :: "'w ext \<Rightarrow> crypto \<Rightarrow> (registration \<times> bytes32) list \<Rightarrow> registrar_store \<Rightarrow> bool"
  for X :: "'w ext" and C :: crypto where
  rg_start: "rg_initialize mm rg_empty = Inr s \<Longrightarrow> rg_reach X C [] s"
| rg_leaf: "rg_reach X C L s \<Longrightarrow> prims E = C \<Longrightarrow>
    register_leaf X E a k e c r (s, w) = Inr (subj, s', w') \<Longrightarrow>
    rg_reach X C (L @ [(\<lparr>rn_account = a, rn_commitment = k, rn_epoch = e, rn_chain = c, rn_registry = r\<rparr>, subj)]) s'"

lemma register_leaf_Ok:
  assumes "register_leaf X E a k e c r (s, w) = Inr (subj, s', w')"
  obtains mm where "rg_merkle_manager s = Some mm" "authed E a"
    "rg_next_epoch s (address_to_bytes32 a) \<le> e"
    "unat (rg_next_epoch s' (address_to_bytes32 a)) = unat e + 1"
    "\<forall>b. b \<noteq> address_to_bytes32 a \<longrightarrow> rg_next_epoch s' b = rg_next_epoch s b"
    "subj = registration_subject (prims E) c r (address_to_bytes32 a) k e"
    "mm_append X E mm (self E) subj LEAF_DOMAIN_REGISTERED w = Some w'"
  using assms unfolding register_leaf_def Let_def
  by (clarsimp simp: res_simps chk_simps rg_next_epoch_def not_less split: if_splits)

definition epochs_of :: "bytes32 \<Rightarrow> (registration \<times> bytes32) list \<Rightarrow> u64 list" where
  "epochs_of b L = map (\<lambda>q. rn_epoch (fst q)) (filter (\<lambda>q. address_to_bytes32 (rn_account (fst q)) = b) L)"

lemma epochs_of_append: "epochs_of b (xs @ ys) = epochs_of b xs @ epochs_of b ys"
  by (simp add: epochs_of_def)

definition rg_inv :: "crypto \<Rightarrow> (registration \<times> bytes32) list \<Rightarrow> registrar_store \<Rightarrow> bool" where
  "rg_inv C L s \<longleftrightarrow> (\<forall>q \<in> set L. snd q = subject_of C (fst q)) \<and>
     (\<forall>b. sorted_wrt (<) (epochs_of b L) \<and> (\<forall>e \<in> set (epochs_of b L). e < rg_next_epoch s b))"

lemma rg_reach_inv: "rg_reach X C L s \<Longrightarrow> rg_inv C L s"
proof (induction rule: rg_reach.induct)
  case (rg_leaf L s E a k e c r w subj s' w')
  let ?new = "(\<lparr>rn_account = a, rn_commitment = k, rn_epoch = e, rn_chain = c, rn_registry = r\<rparr>, subj)"
  obtain mm where n: "rg_next_epoch s (address_to_bytes32 a) \<le> e"
    "unat (rg_next_epoch s' (address_to_bytes32 a)) = unat e + 1"
    "\<forall>b. b \<noteq> address_to_bytes32 a \<longrightarrow> rg_next_epoch s' b = rg_next_epoch s b"
    "subj = registration_subject (prims E) c r (address_to_bytes32 a) k e"
    by (rule register_leaf_Ok [OF rg_leaf.hyps(3)])
  have below: "e < rg_next_epoch s' (address_to_bytes32 a)" using n(2) by (simp add: word_less_nat_alt)
  have "sorted_wrt (<) (epochs_of b (L @ [?new])) \<and> (\<forall>x \<in> set (epochs_of b (L @ [?new])). x < rg_next_epoch s' b)" for b
  proof (cases "b = address_to_bytes32 a")
    case True
    have "epochs_of b (L @ [?new]) = epochs_of b L @ [e]" by (simp add: epochs_of_def True)
    moreover have "sorted_wrt (<) (epochs_of b L)" "\<forall>x \<in> set (epochs_of b L). x < e"
      using rg_leaf.IH n(1) unfolding rg_inv_def True by (auto intro: order_less_le_trans)
    ultimately show ?thesis using below by (auto simp: sorted_wrt_append True)
  next
    case False
    then have "epochs_of b (L @ [?new]) = epochs_of b L" by (simp add: epochs_of_def)
    then show ?thesis using rg_leaf.IH n(3) False by (simp add: rg_inv_def)
  qed
  moreover have "\<forall>q \<in> set (L @ [?new]). snd q = subject_of C (fst q)"
    using rg_leaf.IH rg_leaf.hyps(2) n(4) by (simp add: rg_inv_def subject_of_def)
  ultimately show ?case by (simp add: rg_inv_def)
qed (simp add: rg_inv_def epochs_of_def)

section \<open>Properties\<close>

lemma subject_bytes_inject:
  "subject_bytes p = subject_bytes q \<longleftrightarrow> rn_chain p = rn_chain q \<and> rn_registry p = rn_registry q \<and>
     address_to_bytes32 (rn_account p) = address_to_bytes32 (rn_account q) \<and>
     rn_commitment p = rn_commitment q \<and> rn_epoch p = rn_epoch q"
  by (auto simp: subject_bytes_def be_bytes_inject)

text \<open>C34: The registrar never appends the same registration leaf twice: barring a collision of the hash on
  the registrations it was given, all subjects it has appended are different, and each account's leaves
  carry strictly increasing epochs.\<close>

theorem leaves_are_distinct:
  assumes "rg_reach X C L s" "inj_on (keccak256 C) (subject_bytes ` fst ` set L)"
  shows "distinct (map snd L) \<and> sorted_wrt (<) (epochs_of b L)"
proof -
  note inv = rg_reach_inv [OF assms(1)]
  have subj: "snd q = keccak256 C (subject_bytes (fst q))" if "q \<in> set L" for q
    using inv that by (simp add: rg_inv_def subject_of_def registration_subject_def subject_bytes_def)
  have "snd (L ! i) \<noteq> snd (L ! j)" if ij: "i < j" "j < length L" for i j
  proof
    let ?p = "fst (L ! i)" and ?q = "fst (L ! j)" and ?b = "address_to_bytes32 (rn_account (fst (L ! j)))"
    assume eq: "snd (L ! i) = snd (L ! j)"
    have mem: "L ! i \<in> set L" "L ! j \<in> set L" using ij by simp_all
    have "keccak256 C (subject_bytes ?p) = keccak256 C (subject_bytes ?q)"
      using eq subj [OF mem(1)] subj [OF mem(2)] by simp
    then have "subject_bytes ?p = subject_bytes ?q"
      by (rule inj_onD [OF assms(2)]) (use mem in blast)+
    then have id: "address_to_bytes32 (rn_account ?p) = ?b" "rn_epoch ?p = rn_epoch ?q"
      unfolding subject_bytes_inject by blast+
    have "epochs_of ?b L = epochs_of ?b (take j L) @ epochs_of ?b (drop j L)"
      unfolding epochs_of_append [symmetric] append_take_drop_id ..
    also have "epochs_of ?b (drop j L) = rn_epoch ?q # epochs_of ?b (drop (Suc j) L)"
      unfolding Cons_nth_drop_Suc [OF ij(2), symmetric] by (simp add: epochs_of_def)
    finally have "epochs_of ?b L = epochs_of ?b (take j L) @ rn_epoch ?q # epochs_of ?b (drop (Suc j) L)" .
    moreover have "L ! i \<in> set (take j L)" using ij by (auto simp: in_set_conv_nth intro!: exI [of _ i])
    then have "rn_epoch ?p \<in> set (epochs_of ?b (take j L))" using id(1) by (auto simp: epochs_of_def)
    moreover have "sorted_wrt (<) (epochs_of ?b L)" using inv by (simp add: rg_inv_def)
    ultimately have "rn_epoch ?p < rn_epoch ?q" by (simp add: sorted_wrt_append)
    then show False using id(2) by simp
  qed
  then have "distinct (map snd L)" by (auto simp: distinct_conv_nth) (metis linorder_neqE_nat)
  then show ?thesis using inv by (simp add: rg_inv_def)
qed

definition gd_crypto :: crypto where
  "gd_crypto = \<lparr>keccak256 = (\<lambda>bs. ucast (last bs)), xdr_hash = (\<lambda>_ _. 1),
     xdr_args = (\<lambda>_. Some []), fr_reduce = (\<lambda>x. x), poseidon = (\<lambda>_. 0)\<rparr>"

definition gd_env :: env where
  "gd_env = \<lparr>now = 100, self = ContractAddr 40, authed = (\<lambda>a. a = AccountAddr 1), prims = gd_crypto\<rparr>"

definition gd_leaf :: "u64 \<Rightarrow> registration" where
  "gd_leaf e = \<lparr>rn_account = AccountAddr 1, rn_commitment = 5, rn_epoch = e, rn_chain = 9, rn_registry = 70\<rparr>"

definition gd_store :: "u64 option \<Rightarrow> registrar_store" where
  "gd_store e = \<lparr>rg_init = True, rg_merkle_manager = Some (ContractAddr 41),
     rg_next = (case e of None \<Rightarrow> Map.empty | Some n \<Rightarrow> [address_to_bytes32 (AccountAddr 1) \<mapsto> n])\<rparr>"

lemma gd_last: "last (be_bytes 8 (e :: u64)) = (of_nat (unat e mod 256) :: u8)"
proof -
  have eight: "(8::nat) = Suc 7" by simp
  show ?thesis by (simp only: eight be_bytes_def be_bytes_nat.simps last_snoc)
qed

lemma gd_hash: "keccak256 gd_crypto (subject_bytes (gd_leaf e)) = of_nat (unat e mod 256)"
proof -
  have "be_bytes 8 e \<noteq> []" using length_be_bytes [of 8 e] by (metis list.size(3) zero_neq_numeral)
  then have "last (subject_bytes (gd_leaf e)) = (of_nat (unat e mod 256) :: u8)"
    by (simp add: subject_bytes_def gd_leaf_def gd_last)
  then show ?thesis by (simp add: gd_crypto_def unsigned_of_nat take_bit_eq_mod)
qed

lemma gd_runs: "register_leaf ledger_ext gd_env (AccountAddr 1) 5 0 9 70 (gd_store None, L) =
    Inr (subject_of gd_crypto (gd_leaf 0), gd_store (Some 1), L)"
  "register_leaf ledger_ext gd_env (AccountAddr 1) 5 1 9 70 (gd_store (Some 1), L) =
    Inr (subject_of gd_crypto (gd_leaf 1), gd_store (Some 2), L)"
  by (simp_all add: register_leaf_def Let_def gd_store_def gd_env_def require_auth_def rg_next_epoch_def
      checked_add_def subject_of_def gd_leaf_def)

theorem leaves_are_distinct_witness:
  "distinct (map snd [(gd_leaf 0, subject_of gd_crypto (gd_leaf 0)), (gd_leaf 1, subject_of gd_crypto (gd_leaf 1))])"
proof -
  have "rg_reach ledger_ext gd_crypto [] (gd_store None)"
    by (rule rg_start [where mm = "ContractAddr 41"]) (simp add: rg_initialize_def rg_empty_def gd_store_def)
  from rg_leaf [OF this _ gd_runs(1)] have "rg_reach ledger_ext gd_crypto
      [(gd_leaf 0, subject_of gd_crypto (gd_leaf 0))] (gd_store (Some 1))"
    by (simp add: gd_env_def gd_leaf_def)
  from rg_leaf [OF this _ gd_runs(2)] have reach: "rg_reach ledger_ext gd_crypto
      [(gd_leaf 0, subject_of gd_crypto (gd_leaf 0)), (gd_leaf 1, subject_of gd_crypto (gd_leaf 1))] (gd_store (Some 2))"
    by (simp add: gd_env_def gd_leaf_def)
  show ?thesis
    by (rule conjunct1 [OF leaves_are_distinct [OF reach]]) (simp add: inj_on_def gd_hash)
qed

end
