(* ===== verification/Owner_Text.thy ===== *)
theory Owner_Text
  imports Curve Eip712
begin

text \<open>
  The printing routines of the key registry's fixed text (\<open>contracts/bls-key-registry/src/owner.rs\<close>):
  decimal numbers through a 39-byte buffer, zero-padded numbers, a Unix time as a UTC date, and
  lowercase hex. A routine that appends to a buffer is modelled by what it appends. The sources compute
  dates on \<open>u128\<close>; the values stay far below \<open>2\<^sup>1\<^sup>2\<^sup>8\<close>, so they are \<open>nat\<close>s here, and a subtraction that
  would go below zero is a trap.
\<close>

section \<open>Decimal numbers\<close>

definition digit :: "nat \<Rightarrow> u8" where
  "digit n = 48 + of_nat n"

text \<open>The loop of \<open>push_decimal\<close>: \<open>i\<close> is the write position, \<open>acc\<close> the bytes written behind it.\<close>

fun decimal_loop :: "nat \<Rightarrow> nat \<Rightarrow> bytes \<Rightarrow> ('e, bytes) res" where
  "decimal_loop 0 v acc = Trapped"
| "decimal_loop (Suc i) v acc =
     (let acc = digit (v mod 10) # acc; v = v div 10 in
      if v = 0 then Ok acc else decimal_loop i v acc)"

definition push_decimal :: "nat \<Rightarrow> ('e, bytes) res" where
  "push_decimal v = decimal_loop 39 v []"

fun zero_pad :: "nat \<Rightarrow> nat \<Rightarrow> bytes" where
  "zero_pad v p = (if v < p \<and> 1 < p then digit 0 # zero_pad v (p div 10) else [])"

declare zero_pad.simps [simp del]

definition push_padded :: "nat \<Rightarrow> nat \<Rightarrow> ('e, bytes) res" where
  "push_padded v width = attempt (push_decimal v) (\<lambda>d. Ok (zero_pad v (10 ^ (width - 1)) @ d))"

section \<open>Dates\<close>

definition trap_sub :: "nat \<Rightarrow> nat \<Rightarrow> ('e, nat) res" where
  "trap_sub a b = (if b \<le> a then Ok (a - b) else Trapped)"

text \<open>Year, month and day of a day number: the first half of \<open>push_utc\<close>.\<close>

definition civil_from_days :: "nat \<Rightarrow> ('e, nat \<times> nat \<times> nat) res" where
  "civil_from_days days =
     (let z = days + 719468; era = z div 146097 in
      attempt (trap_sub z (era * 146097)) (\<lambda>doe.
      attempt (trap_sub doe (doe div 1460)) (\<lambda>a.
      attempt (trap_sub (a + doe div 36524) (doe div 146096)) (\<lambda>b.
      let yoe = b div 365 in
      attempt (trap_sub (365 * yoe + yoe div 4) (yoe div 100)) (\<lambda>c.
      attempt (trap_sub doe c) (\<lambda>doy.
      let mp = (5 * doy + 2) div 153 in
      attempt (trap_sub doy ((153 * mp + 2) div 5)) (\<lambda>d0.
      attempt (if mp < 10 then Ok (mp + 3) else trap_sub mp 9) (\<lambda>mo.
      Ok (yoe + era * 400 + (if mo \<le> 2 then 1 else 0), mo, d0 + 1)))))))))"

text \<open>Pieces of text in order; the first trap stops the routine.\<close>

fun pieces :: "('e, bytes) res list \<Rightarrow> ('e, bytes) res" where
  "pieces [] = Ok []"
| "pieces (p # ps) = attempt p (\<lambda>x. attempt (pieces ps) (\<lambda>y. Ok (x @ y)))"

definition push_utc :: "nat \<Rightarrow> ('e, bytes) res" where
  "push_utc t =
     (let days = t div 86400; sod = t mod 86400 in
      attempt (civil_from_days days) (\<lambda>(y, mo, d).
      pieces [push_padded y 4, Ok (ascii ''-''), push_padded mo 2, Ok (ascii ''-''), push_padded d 2,
        Ok (ascii '' ''), push_padded (sod div 3600) 2, Ok (ascii '':''),
        push_padded (sod mod 3600 div 60) 2, Ok (ascii '':''), push_padded (sod mod 60) 2,
        Ok (ascii '' UTC'')]))"

section \<open>Hex\<close>

definition hex_digit :: "nat \<Rightarrow> u8" where
  "hex_digit n = ascii ''0123456789abcdef'' ! n"

definition hex_0x_lower :: "bytes32 \<Rightarrow> bytes" where
  "hex_0x_lower b = ascii ''0x'' @
     concat (map (\<lambda>x. [hex_digit (unat x div 16), hex_digit (unat x mod 16)]) (be_bytes 32 b))"

end
