(* ===== verification/Owner_Auth.thy ===== *)
theory Owner_Auth
  imports Owner_Text Cross_Contract
begin

text \<open>
  How an account's owner authorizes a change of its keys
  (\<open>contracts/bls-key-registry/src/{owner,errors}.rs\<close>): the registries a signature names, the EIP-712
  form for secp256k1 owners, the fixed text for ed25519 owners, and the checks. What the checks read
  of the registry's own configuration is the record \<open>keys_here\<close>.
\<close>

section \<open>Errors\<close>

datatype registry_error =
    KyAlreadyInitialized | KyNotInitialized | KyBadNonce | KyIdentityKey | KyInvalidPop | KyOwnerMismatch
  | KyAccountInFlight | KyContractPaused | KyNotPendingAdmin | KyRegistryFull | KyNoSuchSlot
  | KySlotExpired | KyKeyPreviouslyUsed | KyBadValidUntil | KyProofRegistrationDisabled
  | KyRootNotAnchored | KyInvalidLeafProof | KySourceNotAllowed | KyProofRegistrationRefsUnset
  | KyLegMismatch | KyDeadlineExpired | KyDeadlineTooFar | KyBadEnv | KyGuardsUnset
  | KyTimelockAlreadyActive | KyTimelockAlreadyProposed | KyTimelockNotProposed | KyTimelockTooEarly
  | KyTimelockBadArgs | KyTimelockExpired | KyTimelockCancelledByBrake

fun registry_error_code :: "registry_error \<Rightarrow> nat" where
  "registry_error_code KyAlreadyInitialized = 1"
| "registry_error_code KyNotInitialized = 2"
| "registry_error_code KyBadNonce = 3"
| "registry_error_code KyIdentityKey = 4"
| "registry_error_code KyInvalidPop = 5"
| "registry_error_code KyOwnerMismatch = 6"
| "registry_error_code KyAccountInFlight = 8"
| "registry_error_code KyContractPaused = 9"
| "registry_error_code KyNotPendingAdmin = 10"
| "registry_error_code KyRegistryFull = 11"
| "registry_error_code KyNoSuchSlot = 12"
| "registry_error_code KySlotExpired = 13"
| "registry_error_code KyKeyPreviouslyUsed = 14"
| "registry_error_code KyBadValidUntil = 15"
| "registry_error_code KyProofRegistrationDisabled = 16"
| "registry_error_code KyRootNotAnchored = 17"
| "registry_error_code KyInvalidLeafProof = 18"
| "registry_error_code KySourceNotAllowed = 19"
| "registry_error_code KyProofRegistrationRefsUnset = 20"
| "registry_error_code KyLegMismatch = 21"
| "registry_error_code KyDeadlineExpired = 22"
| "registry_error_code KyDeadlineTooFar = 23"
| "registry_error_code KyBadEnv = 24"
| "registry_error_code KyGuardsUnset = 25"
| "registry_error_code KyTimelockAlreadyActive = 26"
| "registry_error_code KyTimelockAlreadyProposed = 27"
| "registry_error_code KyTimelockNotProposed = 28"
| "registry_error_code KyTimelockTooEarly = 29"
| "registry_error_code KyTimelockBadArgs = 30"
| "registry_error_code KyTimelockExpired = 31"
| "registry_error_code KyTimelockCancelledByBrake = 32"

section \<open>Messages\<close>

record key_leg =
  kl_chain_id :: u128
  kl_registry :: bytes32
  kl_nonce :: u64

text \<open>\<open>r || s || v\<close>, or a detached Ed25519 signature.\<close>

datatype owner_sig = Secp256k1 sig64 u8 | Sep53 bytes

datatype owner_auth = OwnerStellar address | OwnerSigned "key_leg list" owner_sig

datatype key_message =
    MsgRegister bytes32 u64 u64
  | MsgRevoke u64
  | MsgCancel u64
  | MsgRetire bytes32 u64
  | MsgApproveMaker bytes32 bool u64 u64
  | MsgRepin bytes32 u32 u32 u64

text \<open>The configuration the checks read: chain, environment name and EIP-712 domain.\<close>

record keys_here =
  kh_chain_id :: u128
  kh_env :: bytes
  kh_domain :: bytes32

section \<open>Constants\<close>

definition NL :: bytes where
  "NL = [10]"

definition KEY_LEG_TYPEHASH :: bytes32 where
  "KEY_LEG_TYPEHASH = 0xfa75af9d4f7f233233f7046e929ef40cd6d17ee3c0f579aeae91b2c8697b9599"

definition REGISTER_KEY_TYPEHASH :: bytes32 where
  "REGISTER_KEY_TYPEHASH = 0x86b4f5a5d0735e9a7a9eb9dfa32f81364b1602f5098d95182da506eef7027c92"

definition CANCEL_PENDING_TYPEHASH :: bytes32 where
  "CANCEL_PENDING_TYPEHASH = 0x3528ec7f948a36baeb9610767aa9f05922e7e14d2eabe51142e58c743778d12f"

definition REVOKE_KEYS_TYPEHASH :: bytes32 where
  "REVOKE_KEYS_TYPEHASH = 0xd2cc9644d4c5bccccd706cafc58d84449d6f6d113297aa878f49d24ac672a825"

definition RETIRE_KEY_TYPEHASH :: bytes32 where
  "RETIRE_KEY_TYPEHASH = 0x1abc6df038c182ce0998121f306e7bd9a9f4b4a010fc40d909308c8e77cb90fd"

definition APPROVE_MAKER_TYPEHASH :: bytes32 where
  "APPROVE_MAKER_TYPEHASH = 0x1acb1f6ffc960ff061d0ad70e584831841b1fa26815ced608b798b3b50d0ab72"

definition REPIN_ORDER_TYPEHASH :: bytes32 where
  "REPIN_ORDER_TYPEHASH = 0xf41df3e8e10a8c2c5347b10a398ea576045b4b3f01c43233858369db38d512c5"

definition SEP53_PREFIX :: bytes where
  "SEP53_PREFIX = ascii ''Stellar Signed Message:'' @ NL"

text \<open>Seven days: how far past ledger time a registration's deadline may sit.\<close>

definition MAX_REGISTER_TTL :: u64 where
  "MAX_REGISTER_TTL = 7 * 24 * 3600"

definition KEYS_ENVS :: "bytes list" where
  "KEYS_ENVS = [ascii ''local'', ascii ''testnet'', ascii ''mainnet'']"

definition REGISTER_HEADING :: bytes where
  "REGISTER_HEADING = ascii ''ProofBridge: register a settlement key''"

definition REVOKE_HEADING :: bytes where
  "REVOKE_HEADING = ascii ''ProofBridge: remove every settlement key''"

definition CANCEL_HEADING :: bytes where
  "CANCEL_HEADING = ascii ''ProofBridge: cancel a pending key registration''"

definition RETIRE_HEADING :: bytes where
  "RETIRE_HEADING = ascii ''ProofBridge: retire a settlement key''"

definition APPROVE_MAKER_HEADING :: bytes where
  "APPROVE_MAKER_HEADING = ascii ''ProofBridge: allow a maker to name this account as settlement signer''"

definition WITHDRAW_MAKER_HEADING :: bytes where
  "WITHDRAW_MAKER_HEADING = ascii ''ProofBridge: withdraw a maker's permission to name this account as settlement signer''"

definition REPIN_HEADING :: bytes where
  "REPIN_HEADING = ascii ''ProofBridge: move an order's settlement key to another slot''"

section \<open>Environment and domain\<close>

definition env_bytes :: "bytes \<Rightarrow> bytes option" where
  "env_bytes name = (if length name > 7 then None else if name \<in> set KEYS_ENVS then Some name else None)"

definition keys_domain_separator :: "crypto \<Rightarrow> bytes \<Rightarrow> (registry_error, bytes32) res" where
  "keys_domain_separator C name =
     attempt (ok_or (env_bytes name) KyBadEnv) (\<lambda>buf.
     let salt = keccak256 C (ascii ''proofbridge:'' @ buf) in
     Ok (keccak256 C
       (be_bytes 32 (keccak256 C (ascii ''EIP712Domain(string name,string version,bytes32 salt)'')) @
        be_bytes 32 (keccak256 C (ascii ''ProofBridge Keys'')) @ be_bytes 32 (keccak256 C (ascii ''2'')) @
        be_bytes 32 salt)))"

section \<open>EIP-712\<close>

definition legs_hash :: "crypto \<Rightarrow> key_leg list \<Rightarrow> bytes32" where
  "legs_hash C legs = keccak256 C (concat (map (\<lambda>l. be_bytes 32 (keccak256 C
     (be_bytes 32 KEY_LEG_TYPEHASH @ abi_encode_uint256 (kl_chain_id l) @ be_bytes 32 (kl_registry l) @
      abi_encode_uint256 (ucast (kl_nonce l))))) legs))"

definition bool_u128 :: "bool \<Rightarrow> u128" where
  "bool_u128 b = (if b then 1 else 0)"

fun struct_words :: "crypto \<Rightarrow> bytes32 \<Rightarrow> key_leg list \<Rightarrow> key_message \<Rightarrow> bytes" where
  "struct_words C account legs (MsgRegister key nonce deadline) =
     be_bytes 32 REGISTER_KEY_TYPEHASH @ be_bytes 32 account @ be_bytes 32 key @
     be_bytes 32 (legs_hash C legs) @ abi_encode_uint256 (ucast deadline)"
| "struct_words C account legs (MsgRevoke nonce) =
     be_bytes 32 REVOKE_KEYS_TYPEHASH @ be_bytes 32 account @ be_bytes 32 (legs_hash C legs)"
| "struct_words C account legs (MsgCancel nonce) =
     be_bytes 32 CANCEL_PENDING_TYPEHASH @ be_bytes 32 account @ be_bytes 32 (legs_hash C legs)"
| "struct_words C account legs (MsgApproveMaker maker approved nonce deadline) =
     be_bytes 32 APPROVE_MAKER_TYPEHASH @ be_bytes 32 account @ be_bytes 32 maker @
     abi_encode_uint256 (bool_u128 approved) @ be_bytes 32 (legs_hash C legs) @
     abi_encode_uint256 (ucast deadline)"
| "struct_words C account legs (MsgRepin order_hash from_slot to_slot nonce) =
     be_bytes 32 REPIN_ORDER_TYPEHASH @ be_bytes 32 account @ be_bytes 32 order_hash @
     abi_encode_uint256 (ucast from_slot) @ abi_encode_uint256 (ucast to_slot) @
     be_bytes 32 (legs_hash C legs)"
| "struct_words C account legs (MsgRetire key valid_until) =
     be_bytes 32 RETIRE_KEY_TYPEHASH @ be_bytes 32 account @ be_bytes 32 key @
     abi_encode_uint256 (ucast valid_until)"

definition struct_hash :: "crypto \<Rightarrow> bytes32 \<Rightarrow> key_leg list \<Rightarrow> key_message \<Rightarrow> bytes32" where
  "struct_hash C account legs msg = keccak256 C (struct_words C account legs msg)"

section \<open>The fixed text\<close>

fun heading :: "key_message \<Rightarrow> bytes" where
  "heading (MsgRegister key nonce deadline) = REGISTER_HEADING"
| "heading (MsgRevoke nonce) = REVOKE_HEADING"
| "heading (MsgCancel nonce) = CANCEL_HEADING"
| "heading (MsgRetire key valid_until) = RETIRE_HEADING"
| "heading (MsgApproveMaker maker approved nonce deadline) =
     (if approved then APPROVE_MAKER_HEADING else WITHDRAW_MAKER_HEADING)"
| "heading (MsgRepin order_hash from_slot to_slot nonce) = REPIN_HEADING"

fun subject_lines :: "key_message \<Rightarrow> ('e, bytes) res list" where
  "subject_lines (MsgRegister key nonce deadline) = [Ok (NL @ ascii ''Key fingerprint: ''), Ok (hex_0x_lower key)]"
| "subject_lines (MsgRetire key valid_until) = [Ok (NL @ ascii ''Key fingerprint: ''), Ok (hex_0x_lower key)]"
| "subject_lines (MsgApproveMaker maker approved nonce deadline) = [Ok (NL @ ascii ''Maker: ''), Ok (hex_0x_lower maker)]"
| "subject_lines (MsgRepin order_hash from_slot to_slot nonce) =
     [Ok (NL @ ascii ''Order: ''), Ok (hex_0x_lower order_hash),
      Ok (NL @ ascii ''From slot: ''), push_decimal (unat from_slot),
      Ok (NL @ ascii ''To slot: ''), push_decimal (unat to_slot)]"
| "subject_lines (MsgRevoke nonce) = []"
| "subject_lines (MsgCancel nonce) = []"

definition deadline_lines :: "u64 \<Rightarrow> ('e, bytes) res list" where
  "deadline_lines deadline =
     [Ok (NL @ ascii ''Valid until: ''), push_utc (unat deadline), Ok (ascii '' (''),
      push_decimal (unat deadline), Ok (ascii '')'')]"

fun expiry_lines :: "key_message \<Rightarrow> ('e, bytes) res list" where
  "expiry_lines (MsgRegister key nonce deadline) = deadline_lines deadline"
| "expiry_lines (MsgApproveMaker maker approved nonce deadline) = deadline_lines deadline"
| "expiry_lines _ = []"

definition leg_lines :: "key_leg \<Rightarrow> ('e, bytes) res list" where
  "leg_lines l =
     [Ok (NL @ ascii ''Chain ''), push_decimal (unat (kl_chain_id l)), Ok (ascii '', registry ''),
      Ok (hex_0x_lower (kl_registry l)), Ok (ascii '', nonce ''), push_decimal (unat (kl_nonce l))]"

fun closing_lines :: "key_leg list \<Rightarrow> key_message \<Rightarrow> ('e, bytes) res list" where
  "closing_lines legs (MsgRetire key valid_until) =
     [Ok (NL @ ascii ''Valid until: ''), push_decimal (unat valid_until)]"
| "closing_lines legs _ = concat (map leg_lines legs)"

definition message_text :: "keys_here \<Rightarrow> bytes32 \<Rightarrow> key_leg list \<Rightarrow> key_message \<Rightarrow> ('e, bytes) res" where
  "message_text H account legs msg =
     pieces ([Ok (heading msg), Ok (NL @ NL @ ascii ''Network: ''),
        Ok (case env_bytes (kh_env H) of None \<Rightarrow> [] | Some buf \<Rightarrow> buf),
        Ok (NL @ ascii ''Account: ''), Ok (hex_0x_lower account)] @
       subject_lines msg @ expiry_lines msg @ [Ok NL] @ closing_lines legs msg)"

section \<open>The checks\<close>

fun message_nonce :: "key_message \<Rightarrow> u64 option" where
  "message_nonce (MsgRegister key nonce deadline) = Some nonce"
| "message_nonce (MsgRevoke nonce) = Some nonce"
| "message_nonce (MsgCancel nonce) = Some nonce"
| "message_nonce (MsgApproveMaker maker approved nonce deadline) = Some nonce"
| "message_nonce (MsgRepin order_hash from_slot to_slot nonce) = Some nonce"
| "message_nonce (MsgRetire key valid_until) = None"

definition check_legs ::
  "env \<Rightarrow> keys_here \<Rightarrow> key_leg list \<Rightarrow> key_message \<Rightarrow> (registry_error, unit) res" where
  "check_legs E H legs msg =
     (case message_nonce msg of
        None \<Rightarrow> ensure (legs = []) KyLegMismatch
      | Some nonce \<Rightarrow>
          (case filter (\<lambda>l. kl_chain_id l = kh_chain_id H \<and> kl_registry l = address_to_bytes32 (self E)) legs of
             [l] \<Rightarrow> ensure (kl_nonce l = nonce) KyLegMismatch
           | _ \<Rightarrow> Fail KyLegMismatch))"

definition check_secp256k1 ::
  "curve \<Rightarrow> env \<Rightarrow> keys_here \<Rightarrow> bytes32 \<Rightarrow> key_leg list \<Rightarrow> key_message \<Rightarrow> sig64 \<Rightarrow> u8 \<Rightarrow>
   (registry_error, unit) res" where
  "check_secp256k1 K E H account legs msg rs v =
     (let acct = be_bytes 32 account in
      if list_ex (\<lambda>b. b \<noteq> 0) (take 12 acct) then Fail KyOwnerMismatch
      else
        let digest = keccak256 (prims E)
              ([0x19, 0x01] @ be_bytes 32 (kh_domain H) @ be_bytes 32 (struct_hash (prims E) account legs msg)) in
        attempt (recover_evm_address (secp_recover K) (keccak256 (prims E)) digest rs (ucast v)) (\<lambda>found.
        attempt (ok_or found KyOwnerMismatch) (\<lambda>addr.
        ensure (addr = drop 12 acct) KyOwnerMismatch)))"

definition check_sep53 ::
  "curve \<Rightarrow> keys_here \<Rightarrow> bytes32 \<Rightarrow> key_leg list \<Rightarrow> key_message \<Rightarrow> bytes \<Rightarrow> (registry_error, unit) res" where
  "check_sep53 K H account legs msg sig =
     (if list_all (\<lambda>b. b = 0) (take 12 (be_bytes 32 account)) then Fail KyOwnerMismatch
      else attempt (message_text H account legs msg) (\<lambda>t.
        let payload = sha256 K (SEP53_PREFIX @ t) in
        guarded (ed25519_ok K account (be_bytes 32 payload) sig)))"

fun check_owner ::
  "curve \<Rightarrow> env \<Rightarrow> keys_here \<Rightarrow> bytes32 \<Rightarrow> owner_auth \<Rightarrow> key_message \<Rightarrow> (registry_error, unit) res" where
  "check_owner K E H account (OwnerStellar addr) msg =
     attempt (require_auth E addr) (\<lambda>_. ensure (address_to_bytes32 addr = account) KyOwnerMismatch)"
| "check_owner K E H account (OwnerSigned legs sg) msg =
     attempt (check_legs E H legs msg) (\<lambda>_.
     case sg of
       Secp256k1 rs v \<Rightarrow> check_secp256k1 K E H account legs msg rs v
     | Sep53 sig \<Rightarrow> check_sep53 K H account legs msg sig)"

end
