(* ===== verification/Key_Registry.thy ===== *)
theory Key_Registry
  imports Owner_Auth Timelock
begin

text \<open>
  The BLS key registry (\<open>contracts/bls-key-registry/src/{lib,storage}.rs\<close>): up to five key slots per
  32-byte account, changed only with the owner's authorization (\<open>Owner_Auth\<close>) and a proof of
  possession, or with a proof of the account's registration leaf on another chain. Names that clash with
  the escrows' clients carry the prefix \<open>ky_\<close>. The escrows asked for open positions are code behind the
  parameter \<open>pg\<close>: \<open>pg g account w\<close> is the answer of the guard \<open>g\<close>, \<open>None\<close> when the call traps.
\<close>

section \<open>State\<close>

definition DST_POP :: bytes where
  "DST_POP = ascii ''BLS_POP_BLS12381G2_XMD:SHA-256_SSWU_RO_POP_''"

definition POP_TAG :: bytes32 where
  "POP_TAG = 0x28cc1b6c54f422c03457077ba8814710c3ddb07ee5b4a068e990bb90c5622007"

definition MAX_ACTIVE_SLOTS :: nat where "MAX_ACTIVE_SLOTS = 5"

definition GRACE_PERIOD :: u64 where "GRACE_PERIOD = 30 * 24 * 60 * 60"

record key_slot =
  sl_commitment :: bytes32
  sl_valid_until :: u64
  sl_registered_at :: u64

record registry_entry =
  en_next :: u32
  en_live :: "u32 list"

record maker_approval =
  ma_approved :: bool
  ma_nonce :: u64
  ma_generation :: u64

record repin_consent =
  rp_from :: u32
  rp_to :: u32
  rp_nonce :: u64

record proof_registration =
  pr_anchor :: address
  pr_verifier :: address
  pr_sources :: "u128 list"
  pr_enabled :: bool

text \<open>\<open>ky_code\<close> is the host's record of the contract's code, which \<open>upgrade\<close> replaces.\<close>

record key_store =
  ky_init :: bool
  ky_admin :: "address option"
  ky_pending :: "address option"
  ky_paused :: bool
  ky_chain :: "u128 option"
  ky_env :: "bytes option"
  ky_domain :: "bytes32 option"
  ky_guards :: "address list option"
  ky_entries :: "bytes32 \<rightharpoonup> registry_entry"
  ky_slots :: "bytes32 \<times> u32 \<rightharpoonup> key_slot"
  ky_expired :: "bytes32 \<times> u32 \<rightharpoonup> u64"
  ky_used :: "bytes32 \<times> bytes32 \<rightharpoonup> bool"
  ky_key_slots :: "bytes32 \<times> bytes32 \<rightharpoonup> u32"
  ky_nonces :: "bytes32 \<rightharpoonup> u64"
  ky_approvals :: "bytes32 \<times> bytes32 \<rightharpoonup> maker_approval"
  ky_gens :: "bytes32 \<rightharpoonup> u64"
  ky_repins :: "bytes32 \<times> bytes32 \<rightharpoonup> repin_consent"
  ky_proof_reg :: "proof_registration option"
  ky_timelock :: timelock
  ky_code :: "bytes32 option"

definition ky_empty :: key_store where
  "ky_empty = \<lparr>ky_init = False, ky_admin = None, ky_pending = None, ky_paused = False, ky_chain = None,
     ky_env = None, ky_domain = None, ky_guards = None, ky_entries = Map.empty, ky_slots = Map.empty,
     ky_expired = Map.empty, ky_used = Map.empty, ky_key_slots = Map.empty, ky_nonces = Map.empty,
     ky_approvals = Map.empty, ky_gens = Map.empty, ky_repins = Map.empty, ky_proof_reg = None,
     ky_timelock = tl_init, ky_code = None\<rparr>"

section \<open>Per-account records\<close>

definition get_entry :: "key_store \<Rightarrow> bytes32 \<Rightarrow> registry_entry" where
  "get_entry s a = (case ky_entries s a of None \<Rightarrow> \<lparr>en_next = 0, en_live = []\<rparr> | Some e \<Rightarrow> e)"

definition set_entry :: "bytes32 \<Rightarrow> registry_entry \<Rightarrow> key_store \<Rightarrow> key_store" where
  "set_entry a e s = s\<lparr>ky_entries := (ky_entries s)(a \<mapsto> e)\<rparr>"

definition get_slot :: "key_store \<Rightarrow> bytes32 \<Rightarrow> u32 \<Rightarrow> key_slot option" where
  "get_slot s a i = ky_slots s (a, i)"

definition set_slot :: "bytes32 \<Rightarrow> u32 \<Rightarrow> key_slot \<Rightarrow> key_store \<Rightarrow> key_store" where
  "set_slot a i v s = s\<lparr>ky_slots := (ky_slots s)((a, i) \<mapsto> v)\<rparr>"

definition remove_slot :: "bytes32 \<Rightarrow> u32 \<Rightarrow> key_store \<Rightarrow> key_store" where
  "remove_slot a i s =
     s\<lparr>ky_slots := (ky_slots s)((a, i) := None), ky_expired := (ky_expired s)((a, i) := None)\<rparr>"

definition get_key_slot :: "key_store \<Rightarrow> bytes32 \<Rightarrow> bytes32 \<Rightarrow> u32 option" where
  "get_key_slot s a k = ky_key_slots s (a, k)"

definition set_key_slot :: "bytes32 \<Rightarrow> bytes32 \<Rightarrow> u32 \<Rightarrow> key_store \<Rightarrow> key_store" where
  "set_key_slot a k i s = s\<lparr>ky_key_slots := (ky_key_slots s)((a, k) \<mapsto> i)\<rparr>"

definition get_expired_at :: "key_store \<Rightarrow> bytes32 \<Rightarrow> u32 \<Rightarrow> u64" where
  "get_expired_at s a i = (case ky_expired s (a, i) of None \<Rightarrow> 0 | Some t \<Rightarrow> t)"

definition set_expired_at :: "bytes32 \<Rightarrow> u32 \<Rightarrow> u64 \<Rightarrow> key_store \<Rightarrow> key_store" where
  "set_expired_at a i t s = s\<lparr>ky_expired := (ky_expired s)((a, i) \<mapsto> t)\<rparr>"

definition get_nonce :: "key_store \<Rightarrow> bytes32 \<Rightarrow> u64" where
  "get_nonce s a = (case ky_nonces s a of None \<Rightarrow> 0 | Some n \<Rightarrow> n)"

definition set_nonce :: "bytes32 \<Rightarrow> u64 \<Rightarrow> key_store \<Rightarrow> key_store" where
  "set_nonce a n s = s\<lparr>ky_nonces := (ky_nonces s)(a \<mapsto> n)\<rparr>"

definition get_approval :: "key_store \<Rightarrow> bytes32 \<Rightarrow> bytes32 \<Rightarrow> maker_approval" where
  "get_approval s a m =
     (case ky_approvals s (a, m) of None \<Rightarrow> \<lparr>ma_approved = False, ma_nonce = 0, ma_generation = 0\<rparr> | Some x \<Rightarrow> x)"

definition set_approval :: "bytes32 \<Rightarrow> bytes32 \<Rightarrow> maker_approval \<Rightarrow> key_store \<Rightarrow> key_store" where
  "set_approval a m x s = s\<lparr>ky_approvals := (ky_approvals s)((a, m) \<mapsto> x)\<rparr>"

definition get_repin :: "key_store \<Rightarrow> bytes32 \<Rightarrow> bytes32 \<Rightarrow> repin_consent" where
  "get_repin s a h =
     (case ky_repins s (a, h) of None \<Rightarrow> \<lparr>rp_from = 0, rp_to = 0, rp_nonce = 0\<rparr> | Some r \<Rightarrow> r)"

definition set_repin :: "bytes32 \<Rightarrow> bytes32 \<Rightarrow> repin_consent \<Rightarrow> key_store \<Rightarrow> key_store" where
  "set_repin a h r s = s\<lparr>ky_repins := (ky_repins s)((a, h) \<mapsto> r)\<rparr>"

definition get_approval_gen :: "key_store \<Rightarrow> bytes32 \<Rightarrow> u64" where
  "get_approval_gen s a = (case ky_gens s a of None \<Rightarrow> 0 | Some g \<Rightarrow> g)"

definition set_approval_gen :: "bytes32 \<Rightarrow> u64 \<Rightarrow> key_store \<Rightarrow> key_store" where
  "set_approval_gen a g s = s\<lparr>ky_gens := (ky_gens s)(a \<mapsto> g)\<rparr>"

definition is_used :: "key_store \<Rightarrow> bytes32 \<Rightarrow> bytes32 \<Rightarrow> bool" where
  "is_used s a k \<longleftrightarrow> ky_used s (a, k) \<noteq> None"

definition set_used :: "bytes32 \<Rightarrow> bytes32 \<Rightarrow> key_store \<Rightarrow> key_store" where
  "set_used a k s = s\<lparr>ky_used := (ky_used s)((a, k) \<mapsto> True)\<rparr>"

section \<open>Administration\<close>

definition ky_timelock_error :: "fault \<Rightarrow> registry_error" where
  "ky_timelock_error f =
     (case f of
        TimelockAlreadyActive \<Rightarrow> KyTimelockAlreadyActive
      | TimelockAlreadyProposed \<Rightarrow> KyTimelockAlreadyProposed
      | TimelockTooEarly \<Rightarrow> KyTimelockTooEarly
      | TimelockBadArgs \<Rightarrow> KyTimelockBadArgs
      | TimelockExpired \<Rightarrow> KyTimelockExpired
      | TimelockCancelledByBrake \<Rightarrow> KyTimelockCancelledByBrake
      | _ \<Rightarrow> KyTimelockNotProposed)"

definition ky_initialize ::
  "env \<Rightarrow> address \<Rightarrow> u128 \<Rightarrow> bytes \<Rightarrow> key_store \<Rightarrow> (registry_error, key_store) res" where
  "ky_initialize E adm chain deploy_env s =
     (if ky_init s then Fail KyAlreadyInitialized
      else attempt (keys_domain_separator (prims E) deploy_env) (\<lambda>domain.
        Ok (s\<lparr>ky_init := True, ky_admin := Some adm, ky_chain := Some chain, ky_env := Some deploy_env,
              ky_domain := Some domain\<rparr>)))"

definition ky_get_admin :: "key_store \<Rightarrow> (registry_error, address) res" where
  "ky_get_admin s = ok_or_trap (ky_admin s)"

text \<open>The admin, who must have authorized the call.\<close>

definition ky_by_admin :: "env \<Rightarrow> key_store \<Rightarrow> (registry_error, address) res" where
  "ky_by_admin E s = attempt (ky_get_admin s) (\<lambda>adm. attempt (require_auth E adm) (\<lambda>_. Ok adm))"

definition ky_pause :: "env \<Rightarrow> key_store \<Rightarrow> (registry_error, key_store) res" where
  "ky_pause E s = attempt (ky_by_admin E s) (\<lambda>_. Ok (s\<lparr>ky_paused := True\<rparr>))"

definition ky_unpause :: "env \<Rightarrow> key_store \<Rightarrow> (registry_error, key_store) res" where
  "ky_unpause E s = attempt (ky_by_admin E s) (\<lambda>_. Ok (s\<lparr>ky_paused := False\<rparr>))"

definition ky_transfer_admin :: "env \<Rightarrow> address \<Rightarrow> key_store \<Rightarrow> (registry_error, key_store) res" where
  "ky_transfer_admin E to s = attempt (ky_by_admin E s) (\<lambda>_. Ok (s\<lparr>ky_pending := Some to\<rparr>))"

definition ky_upgrade :: "env \<Rightarrow> bytes32 \<Rightarrow> key_store \<Rightarrow> (registry_error, key_store) res" where
  "ky_upgrade E new_wasm_hash s =
     attempt (ky_get_admin s) (\<lambda>adm.
     attempt (map_err ky_timelock_error
       (gate E adm ''upgrade'' [VBytes32 new_wasm_hash] (ky_timelock s))) (\<lambda>tlk.
     Ok (s\<lparr>ky_timelock := tlk, ky_code := Some new_wasm_hash\<rparr>)))"

definition ky_accept_admin :: "env \<Rightarrow> key_store \<Rightarrow> (registry_error, key_store) res" where
  "ky_accept_admin E s =
     attempt (ok_or (ky_pending s) KyNotPendingAdmin) (\<lambda>pending.
     attempt (require_auth E pending) (\<lambda>_.
     attempt (ky_get_admin s) (\<lambda>old.
     attempt (map_err ky_timelock_error (bump_epoch (ky_timelock s))) (\<lambda>tlk.
     Ok (s\<lparr>ky_admin := Some pending, ky_pending := None, ky_timelock := tlk\<rparr>)))))"

definition ky_activate_timelock :: "env \<Rightarrow> key_store \<Rightarrow> (registry_error, key_store) res" where
  "ky_activate_timelock E s =
     attempt (ky_by_admin E s) (\<lambda>_.
     attempt (map_err ky_timelock_error (activate (ky_timelock s))) (\<lambda>tlk.
     Ok (s\<lparr>ky_timelock := tlk\<rparr>)))"

definition ky_propose_action ::
  "env \<Rightarrow> string \<Rightarrow> bytes \<Rightarrow> key_store \<Rightarrow> (registry_error, bytes32 \<times> key_store) res" where
  "ky_propose_action E fn_name args s =
     attempt (ky_by_admin E s) (\<lambda>_.
     attempt (map_err ky_timelock_error (propose E fn_name args (ky_timelock s))) (\<lambda>(ident, tlk).
     Ok (ident, s\<lparr>ky_timelock := tlk\<rparr>)))"

definition ky_cancel_action :: "env \<Rightarrow> bytes32 \<Rightarrow> key_store \<Rightarrow> (registry_error, key_store) res" where
  "ky_cancel_action E ident s =
     attempt (ky_by_admin E s) (\<lambda>_.
     attempt (map_err ky_timelock_error (cancel_proposal ident (ky_timelock s))) (\<lambda>tlk.
     Ok (s\<lparr>ky_timelock := tlk\<rparr>)))"

definition set_position_guards :: "env \<Rightarrow> address list \<Rightarrow> key_store \<Rightarrow> (registry_error, key_store) res" where
  "set_position_guards E guards s =
     (if \<not> ky_init s then Fail KyNotInitialized
      else attempt (ky_get_admin s) (\<lambda>adm.
        attempt (map_err ky_timelock_error
          (gate E adm ''set_position_guards'' [VVec (map VAddr guards)] (ky_timelock s))) (\<lambda>tlk.
        Ok (s\<lparr>ky_timelock := tlk, ky_guards := Some guards\<rparr>))))"

definition set_proof_registration ::
  "env \<Rightarrow> address \<Rightarrow> address \<Rightarrow> u128 list \<Rightarrow> bool \<Rightarrow> key_store \<Rightarrow> (registry_error, key_store) res" where
  "set_proof_registration E anchor_addr verifier_addr sources enabled s =
     (if \<not> ky_init s then Fail KyNotInitialized
      else attempt (ky_get_admin s) (\<lambda>adm.
        attempt (map_err ky_timelock_error
          (gate_unless E adm (\<not> enabled) ''set_proof_registration''
             [VAddr anchor_addr, VAddr verifier_addr, VVec (map VU128 sources), VBool enabled]
             (brake_key E ''set_proof_registration'' VVoid) (ky_timelock s))) (\<lambda>tlk.
        if enabled \<and> sources = [] then Fail KyProofRegistrationRefsUnset
        else attempt (ok_or_trap (ky_chain s)) (\<lambda>chain.
          if chain \<in> set sources then Fail KySourceNotAllowed
          else Ok (s\<lparr>ky_timelock := tlk, ky_proof_reg :=
                Some \<lparr>pr_anchor = anchor_addr, pr_verifier = verifier_addr, pr_sources = sources,
                      pr_enabled = enabled\<rparr>\<rparr>)))))"

end
