(* ===== verification/Key_Ops.thy ===== *)
theory Key_Ops
  imports Key_Registry
begin

text \<open>
  The account operations of the key registry (\<open>contracts/bls-key-registry/src/lib.rs\<close>): registering by
  signature or by proof, shortening, revoking, cancelling, approving a maker, consenting to a re-pin,
  and the views the escrows and verifiers read.
\<close>

section \<open>Proof of possession\<close>

definition chain_id_be32 :: "u128 \<Rightarrow> bytes" where
  "chain_id_be32 c = replicate 16 0 @ be_bytes 16 c"

definition nonce_be32 :: "u64 \<Rightarrow> bytes" where
  "nonce_be32 n = replicate 24 0 @ be_bytes 8 n"

definition pop_msg :: "env \<Rightarrow> u128 \<Rightarrow> bytes32 \<Rightarrow> bytes \<Rightarrow> u64 \<Rightarrow> bytes" where
  "pop_msg E chain account bls_pub_key nonce =
     be_bytes 32 POP_TAG @ chain_id_be32 chain @ be_bytes 32 (address_to_bytes32 (self E)) @
     be_bytes 32 account @ bls_pub_key @ nonce_be32 nonce"

definition g1_identity :: bytes where
  "g1_identity = 0x40 # replicate 95 0"

definition verify_pop ::
  "curve \<Rightarrow> env \<Rightarrow> key_store \<Rightarrow> bytes32 \<Rightarrow> bytes \<Rightarrow> bytes \<Rightarrow> u64 \<Rightarrow> (registry_error, bool) res" where
  "verify_pop K E s account bls_pub_key pop nonce =
     attempt (ok_or_trap (ky_chain s)) (\<lambda>chain.
     ok_or_trap (pairing_check K [bls_pub_key, NEG_G1]
       [hash_to_g2 K (pop_msg E chain account bls_pub_key nonce) DST_POP, pop]))"

section \<open>Slots\<close>

definition ky_expired_at :: "key_store \<Rightarrow> bytes32 \<Rightarrow> u32 \<Rightarrow> u64" where
  "ky_expired_at s account slot_id =
     (case get_slot s account slot_id of
        Some sl \<Rightarrow> if sl_valid_until sl \<noteq> 0 then
            (if get_expired_at s account slot_id = 0 then sl_valid_until sl else get_expired_at s account slot_id)
          else 0
      | None \<Rightarrow> 0)"

fun any_guard :: "(address \<Rightarrow> bytes32 \<Rightarrow> 'w \<Rightarrow> bool option) \<Rightarrow> bytes32 \<Rightarrow> 'w \<Rightarrow> address list \<Rightarrow>
    (registry_error, bool) res" where
  "any_guard pg account w [] = Ok False"
| "any_guard pg account w (g # gs) =
     attempt (ok_or_trap (pg g account w)) (\<lambda>b. if b then Ok True else any_guard pg account w gs)"

definition guard_reports ::
  "(address \<Rightarrow> bytes32 \<Rightarrow> 'w \<Rightarrow> bool option) \<Rightarrow> key_store \<Rightarrow> bytes32 \<Rightarrow> 'w \<Rightarrow> (registry_error, bool) res" where
  "guard_reports pg s account w =
     (case ky_guards s of None \<Rightarrow> Ok False | Some gs \<Rightarrow> any_guard pg account w gs)"

definition guards_wired :: "key_store \<Rightarrow> bool" where
  "guards_wired s \<longleftrightarrow> (case ky_guards s of None \<Rightarrow> False | Some gs \<Rightarrow> gs \<noteq> [])"

definition require_no_open_positions ::
  "(address \<Rightarrow> bytes32 \<Rightarrow> 'w \<Rightarrow> bool option) \<Rightarrow> key_store \<Rightarrow> bytes32 \<Rightarrow> 'w \<Rightarrow> (registry_error, unit) res" where
  "require_no_open_positions pg s account w =
     (if \<not> guards_wired s then Fail KyGuardsUnset
      else attempt (guard_reports pg s account w) (\<lambda>b. ensure (\<not> b) KyAccountInFlight))"

definition prunable :: "env \<Rightarrow> bool \<Rightarrow> key_store \<Rightarrow> bytes32 \<Rightarrow> u32 \<Rightarrow> bool" where
  "prunable E at_once s account slot_id =
     (case get_slot s account slot_id of
        Some _ \<Rightarrow>
          let vu = ky_expired_at s account slot_id in
          vu \<noteq> 0 \<and> (if at_once then now E > vu else now E > saturating_add vu GRACE_PERIOD)
      | None \<Rightarrow> True)"

text \<open>One pass over the stored slot ids: the ids kept, and the store without the others.\<close>

fun prune_loop :: "env \<Rightarrow> bool \<Rightarrow> bytes32 \<Rightarrow> u32 list \<Rightarrow> key_store \<Rightarrow> u32 list \<times> key_store" where
  "prune_loop E at_once account [] s = ([], s)"
| "prune_loop E at_once account (i # ids) s =
     (if prunable E at_once s account i then prune_loop E at_once account ids (remove_slot account i s)
      else let (kept, s') = prune_loop E at_once account ids s in (i # kept, s'))"

definition prune ::
  "(address \<Rightarrow> bytes32 \<Rightarrow> 'w \<Rightarrow> bool option) \<Rightarrow> env \<Rightarrow> bytes32 \<Rightarrow> registry_entry \<Rightarrow> key_store \<Rightarrow> 'w \<Rightarrow>
   (registry_error, registry_entry \<times> key_store) res" where
  "prune pg E account entry s w =
     attempt (if guards_wired s then attempt (guard_reports pg s account w) (\<lambda>b. Ok (\<not> b)) else Ok False)
       (\<lambda>at_once.
     let (kept, s') = prune_loop E at_once account (en_live entry) s in
     Ok (entry\<lparr>en_live := kept\<rparr>, s'))"

definition add_slot ::
  "(address \<Rightarrow> bytes32 \<Rightarrow> 'w \<Rightarrow> bool option) \<Rightarrow> env \<Rightarrow> bytes32 \<Rightarrow> bytes32 \<Rightarrow> key_store \<Rightarrow> 'w \<Rightarrow>
   (registry_error, u32 \<times> key_store) res" where
  "add_slot pg E account commitment s w =
     (if is_used s account commitment then Fail KyKeyPreviouslyUsed
      else
        let entry = get_entry s account in
        attempt
          (if length (en_live entry) \<ge> MAX_ACTIVE_SLOTS then
             attempt (prune pg E account entry s w) (\<lambda>(entry, s).
             if length (en_live entry) \<ge> MAX_ACTIVE_SLOTS then Fail KyRegistryFull else Ok (entry, s))
           else Ok (entry, s)) (\<lambda>(entry, s).
        let slot_id = en_next entry in
        attempt (cadd (en_next entry) 1) (\<lambda>nxt.
        let entry = entry\<lparr>en_next := nxt, en_live := en_live entry @ [slot_id]\<rparr>;
            slot = \<lparr>sl_commitment = commitment, sl_valid_until = 0, sl_registered_at = now E\<rparr> in
        Ok (slot_id, set_key_slot account commitment slot_id (set_used account commitment
              (set_entry account entry (set_slot account slot_id slot s)))))))"

section \<open>Changes by the owner\<close>

text \<open>The configuration the owner's checks read.\<close>

definition here :: "key_store \<Rightarrow> (registry_error, keys_here) res" where
  "here s =
     attempt (ok_or_trap (ky_chain s)) (\<lambda>chain.
     attempt (ok_or_trap (ky_env s)) (\<lambda>name.
     attempt (ok_or_trap (ky_domain s)) (\<lambda>domain.
     Ok \<lparr>kh_chain_id = chain, kh_env = name, kh_domain = domain\<rparr>)))"

definition owner_signed ::
  "curve \<Rightarrow> env \<Rightarrow> key_store \<Rightarrow> bytes32 \<Rightarrow> owner_auth \<Rightarrow> key_message \<Rightarrow> (registry_error, unit) res" where
  "owner_signed K E s account own msg =
     attempt (here s) (\<lambda>H. check_owner K E H account own msg)"

definition check_deadline :: "env \<Rightarrow> u64 \<Rightarrow> (registry_error, unit) res" where
  "check_deadline E deadline =
     (if now E > deadline then Fail KyDeadlineExpired
      else if deadline - now E > MAX_REGISTER_TTL then Fail KyDeadlineTooFar
      else Ok ())"

definition register ::
  "(address \<Rightarrow> bytes32 \<Rightarrow> 'w \<Rightarrow> bool option) \<Rightarrow> curve \<Rightarrow> env \<Rightarrow> bytes32 \<Rightarrow> owner_auth \<Rightarrow> bytes \<Rightarrow> bytes \<Rightarrow>
   u64 \<Rightarrow> u64 \<Rightarrow> key_store \<Rightarrow> 'w \<Rightarrow> (registry_error, u32 \<times> key_store) res" where
  "register pg K E account own bls_pub_key pop nonce deadline s w =
     (if \<not> ky_init s then Fail KyNotInitialized
      else if ky_paused s then Fail KyContractPaused
      else attempt (check_deadline E deadline) (\<lambda>_.
      if nonce \<noteq> get_nonce s account then Fail KyBadNonce
      else if bls_pub_key = g1_identity then Fail KyIdentityKey
      else attempt (verify_pop K E s account bls_pub_key pop nonce) (\<lambda>ok.
      if \<not> ok then Fail KyInvalidPop
      else
        let commitment = key_commitment (prims E) bls_pub_key in
        attempt (owner_signed K E s account own (MsgRegister commitment nonce deadline)) (\<lambda>_.
        attempt (add_slot pg E account commitment s w) (\<lambda>(slot_id, s).
        attempt (cadd nonce 1) (\<lambda>n. Ok (slot_id, set_nonce account n s)))))))"

definition register_by_proof ::
  "(address \<Rightarrow> bytes32 \<Rightarrow> 'w \<Rightarrow> bool option) \<Rightarrow> curve \<Rightarrow> 'w ext \<Rightarrow> env \<Rightarrow> bytes32 \<Rightarrow> bytes \<Rightarrow> bytes \<Rightarrow> u64 \<Rightarrow>
   u128 \<Rightarrow> bytes32 \<Rightarrow> bytes \<Rightarrow> key_store \<Rightarrow> 'w \<Rightarrow> (registry_error, u32 \<times> key_store) res" where
  "register_by_proof pg K X E account bls_pub_key pop epoch source_chain_id target_root proof' s w =
     (if \<not> ky_init s then Fail KyNotInitialized
      else if ky_paused s then Fail KyContractPaused
      else attempt (ok_or (case ky_proof_reg s of Some c \<Rightarrow> if pr_enabled c then Some c else None | None \<Rightarrow> None)
        KyProofRegistrationDisabled) (\<lambda>cfg.
      if bls_pub_key = g1_identity then Fail KyIdentityKey
      else
        let commitment = key_commitment (prims E) bls_pub_key in
        if is_used s account commitment then Fail KyKeyPreviouslyUsed
        else if source_chain_id \<notin> set (pr_sources cfg) then Fail KySourceNotAllowed
        else if \<not> is_anchored X E (pr_anchor cfg) source_chain_id target_root w then Fail KyRootNotAnchored
        else attempt (verify_pop K E s account bls_pub_key pop epoch) (\<lambda>ok.
        if \<not> ok then Fail KyInvalidPop
        else attempt (ok_or_trap (ky_chain s)) (\<lambda>chain.
          let subject = registration_subject (prims E) chain (address_to_bytes32 (self E)) account commitment epoch;
              inputs = build_event_public_inputs (prims E) target_root subject LEAF_DOMAIN_REGISTERED in
          if \<not> zk_verify X (pr_verifier cfg) inputs proof' w then Fail KyInvalidLeafProof
          else add_slot pg E account commitment s w))))"

definition set_valid_until ::
  "curve \<Rightarrow> env \<Rightarrow> bytes32 \<Rightarrow> owner_auth \<Rightarrow> bytes32 \<Rightarrow> u64 \<Rightarrow> key_store \<Rightarrow> (registry_error, key_store) res" where
  "set_valid_until K E account own key valid_until s =
     (if \<not> ky_init s then Fail KyNotInitialized
      else attempt (ok_or (get_key_slot s account key) KyNoSuchSlot) (\<lambda>slot_id.
      attempt (ok_or (get_slot s account slot_id) KyNoSuchSlot) (\<lambda>slot.
      if valid_until = 0 \<or> sl_valid_until slot \<noteq> 0 \<and> valid_until \<ge> sl_valid_until slot then Fail KyBadValidUntil
      else attempt (owner_signed K E s account own (MsgRetire key valid_until)) (\<lambda>_.
        let s1 = set_slot account slot_id (slot\<lparr>sl_valid_until := valid_until\<rparr>) s;
            eff = max valid_until (now E);
            prev = get_expired_at s1 account slot_id;
            at = (if prev = 0 then eff else min prev eff) in
        Ok (set_expired_at account slot_id at s1)))))"

definition revoke ::
  "(address \<Rightarrow> bytes32 \<Rightarrow> 'w \<Rightarrow> bool option) \<Rightarrow> curve \<Rightarrow> env \<Rightarrow> bytes32 \<Rightarrow> owner_auth \<Rightarrow> u64 \<Rightarrow> key_store \<Rightarrow> 'w \<Rightarrow>
   (registry_error, key_store) res" where
  "revoke pg K E account own nonce s w =
     (if \<not> ky_init s then Fail KyNotInitialized
      else if ky_paused s then Fail KyContractPaused
      else
        let entry = get_entry s account in
        if nonce \<noteq> get_nonce s account then Fail KyBadNonce
        else attempt (if en_live entry \<noteq> [] then require_no_open_positions pg s account w else Ok ()) (\<lambda>_.
          attempt (owner_signed K E s account own (MsgRevoke nonce)) (\<lambda>_.
          let s1 = fold (remove_slot account) (en_live entry) s;
              s2 = set_entry account (entry\<lparr>en_live := []\<rparr>) s1 in
          attempt (cadd nonce 1) (\<lambda>n.
          attempt (cadd (get_approval_gen s2 account) 1) (\<lambda>g.
          Ok (set_approval_gen account g (set_nonce account n s2)))))))"

definition cancel_pending ::
  "curve \<Rightarrow> env \<Rightarrow> bytes32 \<Rightarrow> owner_auth \<Rightarrow> u64 \<Rightarrow> key_store \<Rightarrow> (registry_error, key_store) res" where
  "cancel_pending K E account own nonce s =
     (if \<not> ky_init s then Fail KyNotInitialized
      else if ky_paused s then Fail KyContractPaused
      else if nonce \<noteq> get_nonce s account then Fail KyBadNonce
      else attempt (owner_signed K E s account own (MsgCancel nonce)) (\<lambda>_.
        attempt (cadd nonce 1) (\<lambda>n. Ok (set_nonce account n s))))"

definition approve_maker ::
  "curve \<Rightarrow> env \<Rightarrow> bytes32 \<Rightarrow> bytes32 \<Rightarrow> bool \<Rightarrow> owner_auth \<Rightarrow> u64 \<Rightarrow> u64 \<Rightarrow> key_store \<Rightarrow>
   (registry_error, key_store) res" where
  "approve_maker K E account maker approved own nonce deadline s =
     (if \<not> ky_init s then Fail KyNotInitialized
      else if approved \<and> ky_paused s then Fail KyContractPaused
      else attempt (check_deadline E deadline) (\<lambda>_.
        let a = get_approval s account maker in
        if nonce \<noteq> ma_nonce a then Fail KyBadNonce
        else attempt (owner_signed K E s account own (MsgApproveMaker maker approved nonce deadline)) (\<lambda>_.
          attempt (cadd nonce 1) (\<lambda>n.
          Ok (set_approval account maker
            \<lparr>ma_approved = approved, ma_nonce = n, ma_generation = get_approval_gen s account\<rparr> s)))))"

definition approve_repin ::
  "curve \<Rightarrow> env \<Rightarrow> bytes32 \<Rightarrow> bytes32 \<Rightarrow> u32 \<Rightarrow> u32 \<Rightarrow> owner_auth \<Rightarrow> u64 \<Rightarrow> key_store \<Rightarrow>
   (registry_error, key_store) res" where
  "approve_repin K E account order_hash from_slot to_slot own nonce s =
     (if \<not> ky_init s then Fail KyNotInitialized
      else if nonce \<noteq> rp_nonce (get_repin s account order_hash) then Fail KyBadNonce
      else attempt (owner_signed K E s account own (MsgRepin order_hash from_slot to_slot nonce)) (\<lambda>_.
        attempt (cadd nonce 1) (\<lambda>n.
        Ok (set_repin account order_hash \<lparr>rp_from = from_slot, rp_to = to_slot, rp_nonce = n\<rparr> s))))"

section \<open>Views\<close>

definition ky_repin_approval :: "key_store \<Rightarrow> bytes32 \<Rightarrow> bytes32 \<Rightarrow> u32 \<times> u32 \<times> u64" where
  "ky_repin_approval s account order_hash =
     (let r = get_repin s account order_hash in (rp_from r, rp_to r, rp_nonce r))"

definition ky_is_approved_maker :: "key_store \<Rightarrow> bytes32 \<Rightarrow> bytes32 \<Rightarrow> bool" where
  "ky_is_approved_maker s account maker \<longleftrightarrow>
     ma_approved (get_approval s account maker) \<and>
     ma_generation (get_approval s account maker) = get_approval_gen s account"

definition commitment_at :: "env \<Rightarrow> key_store \<Rightarrow> bytes32 \<Rightarrow> u32 \<Rightarrow> (registry_error, bytes32) res" where
  "commitment_at E s account slot_id =
     attempt (ok_or (get_slot s account slot_id) KyNoSuchSlot) (\<lambda>slot.
     if sl_valid_until slot \<noteq> 0 \<and> now E \<ge> sl_valid_until slot then Fail KySlotExpired
     else Ok (sl_commitment slot))"

definition ky_has_usable_slot :: "env \<Rightarrow> key_store \<Rightarrow> bytes32 \<Rightarrow> bool" where
  "ky_has_usable_slot E s account =
     list_ex (\<lambda>i. case get_slot s account i of
        Some sl \<Rightarrow> sl_valid_until sl = 0 \<or> now E < sl_valid_until sl
      | None \<Rightarrow> False) (en_live (get_entry s account))"

definition slot_of_key :: "key_store \<Rightarrow> bytes32 \<Rightarrow> bytes32 \<Rightarrow> u32 option" where
  "slot_of_key s account key =
     (case get_key_slot s account key of
        Some i \<Rightarrow> if get_slot s account i \<noteq> None then Some i else None
      | None \<Rightarrow> None)"

end
