(* ===== verification/Key_Proofs.thy ===== *)
theory Key_Proofs
  imports Key_Ops
begin

text \<open>
  The key registry as one machine: its calls, the trace of those that went through, and what each
  operation does to the per-account records. The invariant of the registry's records, kept by every
  call, and the relation \<open>evolves\<close> between a state and any later one: keys once used stay used, a slot
  of a used key was there before, and its expiry only moves earlier.
\<close>

section \<open>Calls\<close>

datatype key_admin_call =
    KPause | KUnpause | KTransferAdmin address | KAcceptAdmin | KUpgrade bytes32 | KActivate
  | KPropose string bytes | KCancelAction bytes32 | KSetGuards "address list"
  | KSetProofReg address address "u128 list" bool

datatype key_call =
    KAdmin key_admin_call
  | KRegister bytes32 owner_auth bytes bytes u64 u64
  | KByProof bytes32 bytes bytes u64 u128 bytes32 bytes
  | KRetire bytes32 owner_auth bytes32 u64
  | KRevoke bytes32 owner_auth u64
  | KCancel bytes32 owner_auth u64
  | KApproveMaker bytes32 bytes32 bool owner_auth u64 u64
  | KRepin bytes32 bytes32 u32 u32 owner_auth u64

fun ky_admin_exec :: "env \<Rightarrow> key_admin_call \<Rightarrow> key_store \<Rightarrow> (registry_error, key_store) res" where
  "ky_admin_exec E KPause s = ky_pause E s"
| "ky_admin_exec E KUnpause s = ky_unpause E s"
| "ky_admin_exec E (KTransferAdmin a) s = ky_transfer_admin E a s"
| "ky_admin_exec E KAcceptAdmin s = ky_accept_admin E s"
| "ky_admin_exec E (KUpgrade h) s = ky_upgrade E h s"
| "ky_admin_exec E KActivate s = ky_activate_timelock E s"
| "ky_admin_exec E (KPropose f args) s = attempt (ky_propose_action E f args s) (\<lambda>(_, s'). Ok s')"
| "ky_admin_exec E (KCancelAction i) s = ky_cancel_action E i s"
| "ky_admin_exec E (KSetGuards gs) s = set_position_guards E gs s"
| "ky_admin_exec E (KSetProofReg a v cs b) s = set_proof_registration E a v cs b s"

text \<open>What the registry is deployed with: the guards' answers, the signature primitives, the contracts it
  calls.\<close>

record 'w key_world =
  kw_guard :: "address \<Rightarrow> bytes32 \<Rightarrow> 'w \<Rightarrow> bool option"
  kw_curve :: curve
  kw_ext :: "'w ext"

fun ky_exec :: "'w key_world \<Rightarrow> env \<Rightarrow> key_call \<Rightarrow> 'w \<Rightarrow> key_store \<Rightarrow> (registry_error, key_store) res" where
  "ky_exec W E (KAdmin c) w s = ky_admin_exec E c s"
| "ky_exec W E (KRegister a own pk pop n d) w s =
     attempt (register (kw_guard W) (kw_curve W) E a own pk pop n d s w) (\<lambda>(_, s'). Ok s')"
| "ky_exec W E (KByProof a pk pop e c r pf) w s =
     attempt (register_by_proof (kw_guard W) (kw_curve W) (kw_ext W) E a pk pop e c r pf s w) (\<lambda>(_, s'). Ok s')"
| "ky_exec W E (KRetire a own k t) w s = set_valid_until (kw_curve W) E a own k t s"
| "ky_exec W E (KRevoke a own n) w s = revoke (kw_guard W) (kw_curve W) E a own n s w"
| "ky_exec W E (KCancel a own n) w s = cancel_pending (kw_curve W) E a own n s"
| "ky_exec W E (KApproveMaker a m b own n d) w s = approve_maker (kw_curve W) E a m b own n d s"
| "ky_exec W E (KRepin a h f t own n) w s = approve_repin (kw_curve W) E a h f t own n s"

text \<open>Runs from deployment, with the trace of the calls that went through: each with its environment, the
  world it ran in and the state it ran from.\<close>

inductive ky_reach :: "'w key_world \<Rightarrow> (env \<times> key_call \<times> 'w \<times> key_store) list \<Rightarrow> key_store \<Rightarrow> bool"
  for W :: "'w key_world" where
  ky_start: "ky_initialize E adm c name ky_empty = Inr s \<Longrightarrow> ky_reach W [] s"
| ky_call: "ky_reach W T s \<Longrightarrow> ky_exec W E c w s = Inr s' \<Longrightarrow> ky_reach W (T @ [(E, c, w, s)]) s'"

inductive ky_later :: "'w key_world \<Rightarrow> key_store \<Rightarrow> key_store \<Rightarrow> bool" for W :: "'w key_world" where
  ky_later_refl: "ky_later W s s"
| ky_later_call: "ky_later W s s1 \<Longrightarrow> ky_exec W E c w s1 = Inr s2 \<Longrightarrow> ky_later W s s2"

section \<open>What administration leaves alone\<close>

definition same_keys :: "key_store \<Rightarrow> key_store \<Rightarrow> bool" where
  "same_keys s s' \<longleftrightarrow> ky_entries s' = ky_entries s \<and> ky_slots s' = ky_slots s \<and> ky_expired s' = ky_expired s \<and>
     ky_used s' = ky_used s \<and> ky_key_slots s' = ky_key_slots s"

definition same_nonces :: "key_store \<Rightarrow> key_store \<Rightarrow> bool" where
  "same_nonces s s' \<longleftrightarrow> ky_nonces s' = ky_nonces s"

lemmas ky_admin_defs = ky_pause_def ky_unpause_def ky_transfer_admin_def ky_accept_admin_def ky_upgrade_def
  ky_activate_timelock_def ky_propose_action_def ky_cancel_action_def set_position_guards_def
  set_proof_registration_def

lemma admin_keeps:
  "ky_admin_exec E c s = Inr s' \<Longrightarrow> same_keys s s' \<and> same_nonces s s' \<and> ky_init s' = ky_init s"
  by (cases c) (auto simp: ky_admin_defs same_keys_def same_nonces_def res_simps split: if_splits prod.splits)

section \<open>Removing slots\<close>

lemma fold_remove:
  "fold (remove_slot a) ids s =
     s\<lparr>ky_slots := (\<lambda>p. if fst p = a \<and> snd p \<in> set ids then None else ky_slots s p),
       ky_expired := (\<lambda>p. if fst p = a \<and> snd p \<in> set ids then None else ky_expired s p)\<rparr>"
proof (induction ids arbitrary: s)
  case Nil
  then show ?case by simp
next
  case (Cons i ids)
  show ?case unfolding fold_simps Cons.IH by (auto simp: remove_slot_def fun_eq_iff)
qed

lemma prunable_other: "i \<noteq> j \<Longrightarrow> prunable E o' (remove_slot a j s) a i = prunable E o' s a i"
proof -
  assume "i \<noteq> j"
  then have "get_slot (remove_slot a j s) a i = get_slot s a i" "get_expired_at (remove_slot a j s) a i = get_expired_at s a i"
    by (simp_all add: get_slot_def get_expired_at_def remove_slot_def)
  then show ?thesis by (simp only: prunable_def ky_expired_at_def)
qed

lemma prune_loop_eq:
  "distinct ids \<Longrightarrow> prune_loop E o' a ids s =
     (filter (\<lambda>i. \<not> prunable E o' s a i) ids, fold (remove_slot a) (filter (prunable E o' s a) ids) s)"
proof (induction ids arbitrary: s)
  case (Cons i ids)
  have same: "prunable E o' (remove_slot a i s) a j = prunable E o' s a j" if "j \<in> set ids" for j
    using Cons.prems that by (intro prunable_other) auto
  have "filter (\<lambda>j. \<not> prunable E o' (remove_slot a i s) a j) ids = filter (\<lambda>j. \<not> prunable E o' s a j) ids"
    "filter (prunable E o' (remove_slot a i s) a) ids = filter (prunable E o' s a) ids"
    using same by (auto cong: filter_cong)
  then show ?case using Cons by simp
qed simp

section \<open>Well-formed accounts\<close>

definition acct_wf :: "key_store \<Rightarrow> bytes32 \<Rightarrow> bool" where
  "acct_wf s a \<longleftrightarrow>
     distinct (en_live (get_entry s a)) \<and> length (en_live (get_entry s a)) \<le> MAX_ACTIVE_SLOTS \<and>
     (\<forall>i \<in> set (en_live (get_entry s a)). i < en_next (get_entry s a) \<and> ky_slots s (a, i) \<noteq> None) \<and>
     (\<forall>i sl. ky_slots s (a, i) = Some sl \<longrightarrow>
        i \<in> set (en_live (get_entry s a)) \<and> ky_key_slots s (a, sl_commitment sl) = Some i) \<and>
     (\<forall>k i. ky_key_slots s (a, k) = Some i \<longrightarrow> ky_used s (a, k) \<noteq> None \<and> i < en_next (get_entry s a))"

lemma acct_wfD:
  assumes "acct_wf s a"
  shows "distinct (en_live (get_entry s a))" "length (en_live (get_entry s a)) \<le> MAX_ACTIVE_SLOTS"
    "\<And>i. i \<in> set (en_live (get_entry s a)) \<Longrightarrow> i < en_next (get_entry s a)"
    "\<And>i. i \<in> set (en_live (get_entry s a)) \<Longrightarrow> ky_slots s (a, i) \<noteq> None"
    "\<And>i sl. ky_slots s (a, i) = Some sl \<Longrightarrow> i \<in> set (en_live (get_entry s a))"
    "\<And>i sl. ky_slots s (a, i) = Some sl \<Longrightarrow> ky_key_slots s (a, sl_commitment sl) = Some i"
    "\<And>k i. ky_key_slots s (a, k) = Some i \<Longrightarrow> ky_used s (a, k) \<noteq> None"
    "\<And>k i. ky_key_slots s (a, k) = Some i \<Longrightarrow> i < en_next (get_entry s a)"
  using assms unfolding acct_wf_def by blast+

lemma acct_wf_cong:
  assumes "ky_entries s' a = ky_entries s a" "\<And>i. ky_slots s' (a, i) = ky_slots s (a, i)"
    "\<And>k. ky_key_slots s' (a, k) = ky_key_slots s (a, k)" "\<And>k. ky_used s' (a, k) = ky_used s (a, k)"
  shows "acct_wf s' a \<longleftrightarrow> acct_wf s a"
  by (simp add: acct_wf_def get_entry_def assms)

text \<open>The slot records without a set of one account's slots.\<close>

definition without :: "bytes32 \<Rightarrow> u32 set \<Rightarrow> (bytes32 \<times> u32 \<rightharpoonup> 'v) \<Rightarrow> (bytes32 \<times> u32 \<rightharpoonup> 'v)" where
  "without a D f = (\<lambda>p. if fst p = a \<and> snd p \<in> D then None else f p)"

lemma without_simps [simp]:
  "without a D f (b, i) = (if b = a \<and> i \<in> D then None else f (b, i))"
  "without a {} f = f"
  by (auto simp: without_def)

section \<open>What an operation does\<close>

text \<open>Adding a slot, after dropping the dead ones when the account is full.\<close>

definition slot_added :: "env \<Rightarrow> bytes32 \<Rightarrow> bytes32 \<Rightarrow> u32 set \<Rightarrow> u32 \<Rightarrow> u32 \<Rightarrow> key_store \<Rightarrow> key_store" where
  "slot_added E a k D i nxt s =
     s\<lparr>ky_slots := (without a D (ky_slots s))((a, i) \<mapsto>
         \<lparr>sl_commitment = k, sl_valid_until = 0, sl_registered_at = now E\<rparr>),
       ky_expired := without a D (ky_expired s),
       ky_entries := (ky_entries s)(a \<mapsto>
         (get_entry s a)\<lparr>en_next := nxt, en_live := filter (\<lambda>j. j \<notin> D) (en_live (get_entry s a)) @ [i]\<rparr>),
       ky_used := (ky_used s)((a, k) \<mapsto> True), ky_key_slots := (ky_key_slots s)((a, k) \<mapsto> i)\<rparr>"

lemma prune_Ok:
  assumes "prune pg E a e s w = Inr (e', s')" "distinct (en_live e)"
  obtains o' where "o' \<longrightarrow> guards_wired s \<and> guard_reports pg s a w = Inr False"
    "e' = e\<lparr>en_live := filter (\<lambda>i. \<not> prunable E o' s a i) (en_live e)\<rparr>"
    "s' = s\<lparr>ky_slots := without a {i \<in> set (en_live e). prunable E o' s a i} (ky_slots s),
        ky_expired := without a {i \<in> set (en_live e). prunable E o' s a i} (ky_expired s)\<rparr>"
proof -
  obtain o' where o': "(if guards_wired s then attempt (guard_reports pg s a w) (\<lambda>b. Ok (\<not> b)) else Ok False) =
      (Inr o' :: (registry_error, bool) res)"
    and r: "e' = e\<lparr>en_live := filter (\<lambda>i. \<not> prunable E o' s a i) (en_live e)\<rparr>"
      "s' = fold (remove_slot a) (filter (prunable E o' s a) (en_live e)) s"
    using assms by (auto simp: prune_def res_simps prune_loop_eq split: prod.splits)
  show thesis
  proof (rule that [OF _ r(1)])
    show "o' \<longrightarrow> guards_wired s \<and> guard_reports pg s a w = Inr False"
      using o' by (auto simp: res_simps split: if_splits)
    have "snd p \<in> set (filter (prunable E o' s a) (en_live e)) \<longleftrightarrow> snd p \<in> {i \<in> set (en_live e). prunable E o' s a i}" for p
      by simp
    then show "s' = s\<lparr>ky_slots := without a {i \<in> set (en_live e). prunable E o' s a i} (ky_slots s),
        ky_expired := without a {i \<in> set (en_live e). prunable E o' s a i} (ky_expired s)\<rparr>"
      unfolding r(2) fold_remove without_def by simp
  qed
qed

lemma add_slot_Ok:
  assumes wf: "acct_wf s a" and add: "add_slot pg E a k s w = Inr (i, s')"
  obtains o' D nxt where "\<not> is_used s a k" "i = en_next (get_entry s a)" "unat nxt = unat i + 1"
    "D \<subseteq> {j \<in> set (en_live (get_entry s a)). prunable E o' s a j}"
    "o' \<longrightarrow> guards_wired s \<and> guard_reports pg s a w = Inr False"
    "length (filter (\<lambda>j. j \<notin> D) (en_live (get_entry s a))) < MAX_ACTIVE_SLOTS"
    "s' = slot_added E a k D i nxt s"
proof (cases "MAX_ACTIVE_SLOTS \<le> length (en_live (get_entry s a))")
  case False
  then obtain nxt where "\<not> is_used s a k" "i = en_next (get_entry s a)" "unat nxt = unat i + 1"
    "s' = slot_added E a k {} i nxt s"
    using add by
      (auto simp: add_slot_def Let_def slot_added_def set_slot_def set_entry_def set_used_def set_key_slot_def
        res_simps chk_simps split: if_splits)
  then show thesis using that [where D = "{}" and o' = False] False by auto
next
  case True
  let ?e = "get_entry s a"
  from add True obtain e1 s1 nxt where unused: "\<not> is_used s a k"
    and pr: "prune pg E a ?e s w = Inr (e1, s1)" and room: "length (en_live e1) < MAX_ACTIVE_SLOTS"
    and i: "i = en_next e1" and nxt: "unat nxt = unat (en_next e1) + 1"
    and s': "s' = set_key_slot a k i (set_used a k (set_entry a (e1\<lparr>en_next := nxt, en_live := en_live e1 @ [i]\<rparr>)
        (set_slot a i \<lparr>sl_commitment = k, sl_valid_until = 0, sl_registered_at = now E\<rparr> s1)))"
    by (auto simp: add_slot_def Let_def res_simps chk_simps not_le split: if_splits)
  obtain o' where o': "o' \<longrightarrow> guards_wired s \<and> guard_reports pg s a w = Inr False"
    and e1: "e1 = ?e\<lparr>en_live := filter (\<lambda>i. \<not> prunable E o' s a i) (en_live ?e)\<rparr>"
    and s1: "s1 = s\<lparr>ky_slots := without a {i \<in> set (en_live ?e). prunable E o' s a i} (ky_slots s),
        ky_expired := without a {i \<in> set (en_live ?e). prunable E o' s a i} (ky_expired s)\<rparr>"
    by (rule prune_Ok [OF pr acct_wfD(1) [OF wf]])
  let ?D = "{j \<in> set (en_live ?e). prunable E o' s a j}"
  have live: "filter (\<lambda>j. j \<notin> ?D) (en_live ?e) = filter (\<lambda>i. \<not> prunable E o' s a i) (en_live ?e)"
    by (rule filter_cong) auto
  show thesis
  proof (rule that [OF unused, where o' = o' and D = ?D])
    show "length (filter (\<lambda>j. j \<notin> ?D) (en_live ?e)) < MAX_ACTIVE_SLOTS" using room unfolding live by (simp add: e1)
    show "s' = slot_added E a k ?D i nxt s"
      unfolding s' slot_added_def live s1 e1 set_key_slot_def set_used_def set_entry_def set_slot_def by simp
  qed (use i nxt o' in \<open>simp_all add: e1\<close>)
qed

section \<open>What a call does\<close>

text \<open>The call carries the account's consent to the key: the owner's signature over the registration, or a
  proof of its registration leaf under an anchored root of an allowed chain; both with a proof of
  possession of the key.\<close>

definition consented :: "'w key_world \<Rightarrow> bytes32 \<Rightarrow> bytes32 \<Rightarrow> env \<times> key_call \<times> 'w \<times> key_store \<Rightarrow> bool" where
  "consented W a k = (\<lambda>(E, c, w, s).
     case c of
       KRegister a' own pk pop n d \<Rightarrow>
         a' = a \<and> key_commitment (prims E) pk = k \<and> pk \<noteq> g1_identity \<and>
         owner_signed (kw_curve W) E s a own (MsgRegister k n d) = Inr () \<and>
         verify_pop (kw_curve W) E s a pk pop n = Inr True
     | KByProof a' pk pop ep src root pf \<Rightarrow>
         a' = a \<and> key_commitment (prims E) pk = k \<and> pk \<noteq> g1_identity \<and>
         verify_pop (kw_curve W) E s a pk pop ep = Inr True \<and>
         (\<exists>cfg chain. ky_proof_reg s = Some cfg \<and> pr_enabled cfg \<and> src \<in> set (pr_sources cfg) \<and>
            ky_chain s = Some chain \<and> is_anchored (kw_ext W) E (pr_anchor cfg) src root w \<and>
            zk_verify (kw_ext W) (pr_verifier cfg)
              (build_event_public_inputs (prims E) root
                (registration_subject (prims E) chain (address_to_bytes32 (self E)) a k ep)
                LEAF_DOMAIN_REGISTERED) pf w)
     | _ \<Rightarrow> False)"

lemma register_Ok:
  assumes "register pg K E a own pk pop n d s w = Inr (i, s')"
  obtains s1 nn where "add_slot pg E a (key_commitment (prims E) pk) s w = Inr (i, s1)" "unat nn = unat n + 1"
    "s' = set_nonce a nn s1" "n = get_nonce s a" "pk \<noteq> g1_identity" "verify_pop K E s a pk pop n = Inr True"
    "owner_signed K E s a own (MsgRegister (key_commitment (prims E) pk) n d) = Inr ()"
  using assms by (auto simp: register_def Let_def res_simps chk_simps split: if_splits prod.splits)

lemma register_by_proof_Ok:
  assumes "register_by_proof (kw_guard W) (kw_curve W) (kw_ext W) E a pk pop ep src root pf s w = Inr (i, s')"
  shows "add_slot (kw_guard W) E a (key_commitment (prims E) pk) s w = Inr (i, s')"
    "consented W a (key_commitment (prims E) pk) (E, KByProof a pk pop ep src root pf, w, s)"
  using assms
  by (auto simp: register_by_proof_def consented_def Let_def res_simps chk_simps split: if_splits option.splits)

lemma set_valid_until_Ok:
  assumes "set_valid_until K E a own k t s = Inr s'"
  obtains i sl x where "ky_key_slots s (a, k) = Some i" "ky_slots s (a, i) = Some sl" "t \<noteq> 0"
    "sl_valid_until sl \<noteq> 0 \<longrightarrow> t < sl_valid_until sl"
    "owner_signed K E s a own (MsgRetire k t) = Inr ()"
    "s' = set_expired_at a i x (set_slot a i (sl\<lparr>sl_valid_until := t\<rparr>) s)"
  using assms
  by (auto simp: set_valid_until_def Let_def get_key_slot_def get_slot_def res_simps not_le split: if_splits)

lemma revoke_Ok:
  assumes "revoke pg K E a own n s w = Inr s'"
  obtains nn g where "en_live (get_entry s a) \<noteq> [] \<longrightarrow> guards_wired s \<and> guard_reports pg s a w = Inr False"
    "owner_signed K E s a own (MsgRevoke n) = Inr ()" "n = get_nonce s a" "unat nn = unat n + 1"
    "s' = set_approval_gen a g (set_nonce a nn (set_entry a (get_entry s a\<lparr>en_live := []\<rparr>)
            (fold (remove_slot a) (en_live (get_entry s a)) s)))"
  using assms
  by (auto simp: revoke_def Let_def require_no_open_positions_def res_simps chk_simps split: if_splits)

lemma cancel_pending_Ok:
  assumes "cancel_pending K E a own n s = Inr s'"
  obtains nn where "n = get_nonce s a" "unat nn = unat n + 1" "s' = set_nonce a nn s"
  using assms by (auto simp: cancel_pending_def res_simps chk_simps split: if_splits)

lemma approve_maker_Ok:
  assumes "approve_maker K E a m b own n d s = Inr s'"
  obtains nn g where "n = ma_nonce (get_approval s a m)" "unat nn = unat n + 1"
    "s' = set_approval a m \<lparr>ma_approved = b, ma_nonce = nn, ma_generation = g\<rparr> s"
  using assms by (auto simp: approve_maker_def Let_def res_simps chk_simps split: if_splits)

lemma approve_repin_Ok:
  assumes "approve_repin K E a h f t own n s = Inr s'"
  obtains nn where "n = rp_nonce (get_repin s a h)" "unat nn = unat n + 1"
    "s' = set_repin a h \<lparr>rp_from = f, rp_to = t, rp_nonce = nn\<rparr> s"
  using assms by (auto simp: approve_repin_def res_simps chk_simps split: if_splits)

end
