(* ===== verification/Key_Effects.thy ===== *)
theory Key_Effects
  imports Key_Proofs
begin

text \<open>
  One case analysis of every call of the key registry by its effect on the keys, and from it: every call
  keeps the accounts well formed, only adds consented keys, and never brings a retired key back.
\<close>

section \<open>The four effects\<close>

definition slot_retired :: "bytes32 \<Rightarrow> u32 \<Rightarrow> key_slot \<Rightarrow> u64 \<Rightarrow> u64 \<Rightarrow> key_store \<Rightarrow> key_store" where
  "slot_retired a i sl t x s = set_expired_at a i x (set_slot a i (sl\<lparr>sl_valid_until := t\<rparr>) s)"

definition all_revoked :: "bytes32 \<Rightarrow> key_store \<Rightarrow> key_store" where
  "all_revoked a s =
     set_entry a (get_entry s a\<lparr>en_live := []\<rparr>) (fold (remove_slot a) (en_live (get_entry s a)) s)"

lemma same_keys_setters [simp]:
  "same_keys s (set_nonce a n s') = same_keys s s'"
  "same_keys s (set_approval a m x s') = same_keys s s'"
  "same_keys s (set_repin a h r s') = same_keys s s'"
  "same_keys s (set_approval_gen a g s') = same_keys s s'"
  "same_keys s s"
  by (simp_all add: same_keys_def set_nonce_def set_approval_def set_repin_def set_approval_gen_def)

lemma exec_effect:
  assumes wf: "\<And>a. acct_wf s a" and ex: "ky_exec W E c w s = Inr s'"
  obtains (same) "same_keys s s'"
  | (added) a k D i nxt o' where "consented W a k (E, c, w, s)" "\<not> is_used s a k"
      "i = en_next (get_entry s a)" "unat nxt = unat i + 1"
      "D \<subseteq> {j \<in> set (en_live (get_entry s a)). prunable E o' s a j}"
      "o' \<longrightarrow> guards_wired s \<and> guard_reports (kw_guard W) s a w = Inr False"
      "length (filter (\<lambda>j. j \<notin> D) (en_live (get_entry s a))) < MAX_ACTIVE_SLOTS"
      "same_keys (slot_added E a k D i nxt s) s'"
  | (retired) a own k i sl t x where "c = KRetire a own k t" "ky_key_slots s (a, k) = Some i"
      "ky_slots s (a, i) = Some sl" "t \<noteq> 0" "sl_valid_until sl \<noteq> 0 \<longrightarrow> t < sl_valid_until sl"
      "same_keys (slot_retired a i sl t x s) s'"
  | (revoked) a own n where "c = KRevoke a own n"
      "en_live (get_entry s a) \<noteq> [] \<longrightarrow> guards_wired s \<and> guard_reports (kw_guard W) s a w = Inr False"
      "same_keys (all_revoked a s) s'"
proof (cases c)
  case (KAdmin x)
  then show ?thesis using ex same admin_keeps by auto
next
  case (KRegister a own pk pop n d)
  then obtain i0 where r: "register (kw_guard W) (kw_curve W) E a own pk pop n d s w = Inr (i0, s')"
    using ex by (auto simp: res_simps)
  obtain s1 nn where add: "add_slot (kw_guard W) E a (key_commitment (prims E) pk) s w = Inr (i0, s1)"
    and s': "s' = set_nonce a nn s1" and n: "n = get_nonce s a" and c: "pk \<noteq> g1_identity"
      "verify_pop (kw_curve W) E s a pk pop n = Inr True"
      "owner_signed (kw_curve W) E s a own (MsgRegister (key_commitment (prims E) pk) n d) = Inr ()"
    by (rule register_Ok [OF r])
  have con: "consented W a (key_commitment (prims E) pk) (E, c, w, s)"
    using KRegister n c by (simp add: consented_def)
  show ?thesis
  proof (rule add_slot_Ok [OF wf add])
    fix o' D nxt
    assume "\<not> is_used s a (key_commitment (prims E) pk)" "i0 = en_next (get_entry s a)" "unat nxt = unat i0 + 1"
      "D \<subseteq> {j \<in> set (en_live (get_entry s a)). prunable E o' s a j}"
      "o' \<longrightarrow> guards_wired s \<and> guard_reports (kw_guard W) s a w = Inr False"
      "length (filter (\<lambda>j. j \<notin> D) (en_live (get_entry s a))) < MAX_ACTIVE_SLOTS"
      "s1 = slot_added E a (key_commitment (prims E) pk) D i0 nxt s"
    then show thesis using added [OF con] s' by simp
  qed
next
  case (KByProof a pk pop ep src root pf)
  then obtain i0 where
    r: "register_by_proof (kw_guard W) (kw_curve W) (kw_ext W) E a pk pop ep src root pf s w = Inr (i0, s')"
    using ex by (auto simp: res_simps)
  have con: "consented W a (key_commitment (prims E) pk) (E, c, w, s)"
    using KByProof register_by_proof_Ok(2) [OF r] by simp
  show ?thesis
  proof (rule add_slot_Ok [OF wf register_by_proof_Ok(1) [OF r]])
    fix o' D nxt
    assume "\<not> is_used s a (key_commitment (prims E) pk)" "i0 = en_next (get_entry s a)" "unat nxt = unat i0 + 1"
      "D \<subseteq> {j \<in> set (en_live (get_entry s a)). prunable E o' s a j}"
      "o' \<longrightarrow> guards_wired s \<and> guard_reports (kw_guard W) s a w = Inr False"
      "length (filter (\<lambda>j. j \<notin> D) (en_live (get_entry s a))) < MAX_ACTIVE_SLOTS"
      "s' = slot_added E a (key_commitment (prims E) pk) D i0 nxt s"
    then show thesis using added [OF con] by simp
  qed
next
  case (KRetire a own k t)
  then have r: "set_valid_until (kw_curve W) E a own k t s = Inr s'" using ex by simp
  show ?thesis
  proof (rule set_valid_until_Ok [OF r])
    fix i sl x
    assume "ky_key_slots s (a, k) = Some i" "ky_slots s (a, i) = Some sl" "t \<noteq> 0"
      "sl_valid_until sl \<noteq> 0 \<longrightarrow> t < sl_valid_until sl"
      "s' = set_expired_at a i x (set_slot a i (sl\<lparr>sl_valid_until := t\<rparr>) s)"
    then show thesis using retired [OF KRetire, where x = x] by (simp add: slot_retired_def)
  qed
next
  case (KRevoke a own n)
  then have r: "revoke (kw_guard W) (kw_curve W) E a own n s w = Inr s'" using ex by simp
  show ?thesis
  proof (rule revoke_Ok [OF r])
    fix nn g
    assume "en_live (get_entry s a) \<noteq> [] \<longrightarrow> guards_wired s \<and> guard_reports (kw_guard W) s a w = Inr False"
      "s' = set_approval_gen a g (set_nonce a nn (set_entry a (get_entry s a\<lparr>en_live := []\<rparr>)
              (fold (remove_slot a) (en_live (get_entry s a)) s)))"
    then show thesis using revoked [OF KRevoke] by (simp add: all_revoked_def)
  qed
next
  case (KCancel a own n)
  then have r: "cancel_pending (kw_curve W) E a own n s = Inr s'" using ex by simp
  show ?thesis by (rule cancel_pending_Ok [OF r], rule same) simp
next
  case (KApproveMaker a m b own n d)
  then have r: "approve_maker (kw_curve W) E a m b own n d s = Inr s'" using ex by simp
  show ?thesis by (rule approve_maker_Ok [OF r], rule same) simp
next
  case (KRepin a h f t own n)
  then have r: "approve_repin (kw_curve W) E a h f t own n s = Inr s'" using ex by simp
  show ?thesis by (rule approve_repin_Ok [OF r], rule same) simp
qed

section \<open>Fields after each effect\<close>

lemma same_keysD:
  assumes "same_keys s s'"
  shows "ky_slots s' = ky_slots s" "ky_key_slots s' = ky_key_slots s" "get_entry s' = get_entry s"
    "is_used s' = is_used s" "ky_used s' = ky_used s" "ky_expired s' = ky_expired s" "acct_wf s' = acct_wf s"
  using assms by (simp_all add: same_keys_def get_entry_def is_used_def fun_eq_iff acct_wf_def)

lemma added_fields:
  "ky_slots (slot_added E a k D i nxt s) (b, j) =
     (if b = a \<and> j = i then Some \<lparr>sl_commitment = k, sl_valid_until = 0, sl_registered_at = now E\<rparr>
      else if b = a \<and> j \<in> D then None else ky_slots s (b, j))"
  "ky_key_slots (slot_added E a k D i nxt s) (b, l) = (if b = a \<and> l = k then Some i else ky_key_slots s (b, l))"
  "is_used (slot_added E a k D i nxt s) b l \<longleftrightarrow> b = a \<and> l = k \<or> is_used s b l"
  "get_entry (slot_added E a k D i nxt s) b =
     (if b = a then \<lparr>en_next = nxt, en_live = filter (\<lambda>j. j \<notin> D) (en_live (get_entry s a)) @ [i]\<rparr> else get_entry s b)"
  by (auto simp: slot_added_def is_used_def get_entry_def without_def)

lemma retired_fields:
  "ky_slots (slot_retired a i sl t x s) (b, j) =
     (if b = a \<and> j = i then Some (sl\<lparr>sl_valid_until := t\<rparr>) else ky_slots s (b, j))"
  "ky_key_slots (slot_retired a i sl t x s) = ky_key_slots s"
  "is_used (slot_retired a i sl t x s) = is_used s"
  "get_entry (slot_retired a i sl t x s) = get_entry s"
  by (auto simp: slot_retired_def is_used_def get_entry_def set_expired_at_def set_slot_def fun_eq_iff)

lemma revoked_fields:
  "ky_slots (all_revoked a s) (b, j) =
     (if b = a \<and> j \<in> set (en_live (get_entry s a)) then None else ky_slots s (b, j))"
  "ky_key_slots (all_revoked a s) = ky_key_slots s"
  "is_used (all_revoked a s) = is_used s"
  "get_entry (all_revoked a s) b = (if b = a then get_entry s a\<lparr>en_live := []\<rparr> else get_entry s b)"
  by (auto simp: all_revoked_def is_used_def get_entry_def set_entry_def fold_remove fun_eq_iff)

section \<open>Every call keeps accounts well formed\<close>

lemma acct_wf_used_def:
  "acct_wf s a \<longleftrightarrow>
     distinct (en_live (get_entry s a)) \<and> length (en_live (get_entry s a)) \<le> MAX_ACTIVE_SLOTS \<and>
     (\<forall>i \<in> set (en_live (get_entry s a)). i < en_next (get_entry s a) \<and> ky_slots s (a, i) \<noteq> None) \<and>
     (\<forall>i sl. ky_slots s (a, i) = Some sl \<longrightarrow>
        i \<in> set (en_live (get_entry s a)) \<and> ky_key_slots s (a, sl_commitment sl) = Some i) \<and>
     (\<forall>k i. ky_key_slots s (a, k) = Some i \<longrightarrow> is_used s a k \<and> i < en_next (get_entry s a))"
  by (simp add: acct_wf_def is_used_def)

lemma added_wf:
  assumes wf: "acct_wf s b" "acct_wf s a" and "\<not> is_used s a k" and i: "i = en_next (get_entry s a)"
    and nxt: "unat nxt = unat i + 1"
    and room: "length (filter (\<lambda>j. j \<notin> D) (en_live (get_entry s a))) < MAX_ACTIVE_SLOTS"
    and D: "D \<subseteq> set (en_live (get_entry s a))"
  shows "acct_wf (slot_added E a k D i nxt s) b"
proof (cases "b = a")
  case False
  then show ?thesis using wf(1) by (simp add: acct_wf_used_def added_fields)
next
  case True
  have lt: "j < nxt" if "j < i" for j using that nxt by (simp add: word_less_nat_alt)
  have i_nxt: "i < nxt" using nxt by (simp add: word_less_nat_alt)
  let ?s = "slot_added E a k D i nxt s" and ?l = "en_live (get_entry s a)"
  let ?l' = "filter (\<lambda>j. j \<notin> D) ?l"
  note w = wf(2) [unfolded acct_wf_used_def]
  have below: "\<forall>j \<in> set ?l. j < i" using w unfolding i by blast
  have fresh: "i \<notin> set ?l" using below by blast
  have entry: "get_entry ?s a = \<lparr>en_next = nxt, en_live = ?l' @ [i]\<rparr>" by (simp add: added_fields)
  have ids: "\<forall>j \<in> set (?l' @ [i]). j < nxt \<and> ky_slots ?s (a, j) \<noteq> None"
    using below lt i_nxt w by (auto simp: added_fields)
  have slots: "\<forall>j sl. ky_slots ?s (a, j) = Some sl \<longrightarrow>
      j \<in> set (?l' @ [i]) \<and> ky_key_slots ?s (a, sl_commitment sl) = Some j"
  proof (intro allI impI)
    fix j sl
    assume sl: "ky_slots ?s (a, j) = Some sl"
    show "j \<in> set (?l' @ [i]) \<and> ky_key_slots ?s (a, sl_commitment sl) = Some j"
    proof (cases "j = i")
      case True
      then show ?thesis using sl by (auto simp: added_fields)
    next
      case False
      then have old: "ky_slots s (a, j) = Some sl" "j \<notin> D" using sl by (auto simp: added_fields split: if_splits)
      then have "j \<in> set ?l" and ks: "ky_key_slots s (a, sl_commitment sl) = Some j" using w by blast+
      moreover from this have "sl_commitment sl \<noteq> k" using w assms(3) by blast
      ultimately show ?thesis using old by (simp add: added_fields)
    qed
  qed
  have keys: "\<forall>l j. ky_key_slots ?s (a, l) = Some j \<longrightarrow> is_used ?s a l \<and> j < nxt"
  proof (intro allI impI)
    fix l j
    assume "ky_key_slots ?s (a, l) = Some j"
    then show "is_used ?s a l \<and> j < nxt"
      using w lt i_nxt unfolding added_fields i by (metis option.inject)
  qed
  have "distinct (?l' @ [i])" using w fresh by simp
  moreover have "length (?l' @ [i]) \<le> MAX_ACTIVE_SLOTS" using room by simp
  ultimately show ?thesis
    unfolding acct_wf_used_def True entry registry_entry.simps using ids slots keys by blast
qed

lemma retired_wf:
  assumes "acct_wf s b" "ky_slots s (a, i) = Some sl" "acct_wf s a"
  shows "acct_wf (slot_retired a i sl t x s) b"
  using assms unfolding acct_wf_used_def retired_fields by auto

lemma revoked_wf: "acct_wf s b \<Longrightarrow> acct_wf (all_revoked a s) b"
  unfolding acct_wf_used_def revoked_fields by (cases "b = a") (auto intro: ccontr)

lemma exec_wf:
  assumes "\<And>a. acct_wf s a" "ky_exec W E c w s = Inr s'"
  shows "acct_wf s' b"
  using assms
proof (cases rule: exec_effect)
  case same
  then show ?thesis using assms(1) by (simp add: same_keysD)
next
  case (added a k D i nxt o')
  then have "D \<subseteq> set (en_live (get_entry s a))" by blast
  then show ?thesis using added_wf [OF assms(1) assms(1) added(2-4,7)] added(8) by (simp add: same_keysD)
next
  case (retired a own k i sl t x)
  then show ?thesis using retired_wf [OF assms(1) retired(3) assms(1)] by (simp add: same_keysD)
next
  case (revoked a own n)
  then show ?thesis using revoked_wf [OF assms(1)] by (simp add: same_keysD)
qed

lemma start_wf: "ky_initialize E adm ch name ky_empty = Inr s \<Longrightarrow> acct_wf s a"
  by (auto simp: ky_initialize_def res_simps ky_empty_def acct_wf_def get_entry_def split: if_splits)

lemma reach_wf: "ky_reach W T s \<Longrightarrow> acct_wf s a"
  by (induction arbitrary: a rule: ky_reach.induct) (auto intro: start_wf exec_wf)

section \<open>Consent\<close>

lemma reach_consented:
  "ky_reach W T s \<Longrightarrow> ky_slots s (a, i) = Some sl \<Longrightarrow> \<exists>e \<in> set T. consented W a (sl_commitment sl) e"
proof (induction arbitrary: sl rule: ky_reach.induct)
  case (ky_start E adm c name s)
  then show ?case by (auto simp: ky_initialize_def res_simps ky_empty_def split: if_splits)
next
  case (ky_call T s E c w s')
  have "(\<exists>sl0. ky_slots s (a, i) = Some sl0 \<and> sl_commitment sl0 = sl_commitment sl) \<or>
      consented W a (sl_commitment sl) (E, c, w, s)"
    using reach_wf [OF ky_call.hyps(1)] ky_call.hyps(2)
  proof (cases rule: exec_effect)
    case same
    then show ?thesis using ky_call.prems by (simp add: same_keysD)
  next
    case (added b k D i' nxt o')
    then show ?thesis using ky_call.prems by (auto simp: same_keysD added_fields split: if_splits)
  next
    case (retired b own k i' sl0 t x)
    then show ?thesis using ky_call.prems by (auto simp: same_keysD retired_fields split: if_splits)
  next
    case (revoked b own n)
    then show ?thesis using ky_call.prems by (auto simp: same_keysD revoked_fields split: if_splits)
  qed
  then show ?case using ky_call.IH by fastforce
qed

section \<open>Slots and expiries only move towards their end\<close>

definition evolves :: "key_store \<Rightarrow> key_store \<Rightarrow> bool" where
  "evolves s s' \<longleftrightarrow> (\<forall>a k. is_used s a k \<longrightarrow> is_used s' a k) \<and>
     (\<forall>a i sl'. ky_slots s' (a, i) = Some sl' \<longrightarrow> is_used s a (sl_commitment sl') \<longrightarrow>
        (\<exists>sl. ky_slots s (a, i) = Some sl \<and> sl_commitment sl = sl_commitment sl' \<and>
           (sl_valid_until sl \<noteq> 0 \<longrightarrow> sl_valid_until sl' \<noteq> 0 \<and> sl_valid_until sl' \<le> sl_valid_until sl)))"

lemma evolves_refl: "evolves s s"
  by (simp add: evolves_def)

lemma evolves_trans: "evolves s s1 \<Longrightarrow> evolves s1 s2 \<Longrightarrow> evolves s s2"
proof -
  assume e: "evolves s s1" "evolves s1 s2"
  have "\<exists>sl. ky_slots s (a, i) = Some sl \<and> sl_commitment sl = sl_commitment sl2 \<and>
      (sl_valid_until sl \<noteq> 0 \<longrightarrow> sl_valid_until sl2 \<noteq> 0 \<and> sl_valid_until sl2 \<le> sl_valid_until sl)"
    if sl2: "ky_slots s2 (a, i) = Some sl2" and u: "is_used s a (sl_commitment sl2)" for a i sl2
  proof -
    have "is_used s1 a (sl_commitment sl2)" using e(1) u by (simp add: evolves_def)
    then obtain sl1 where sl1: "ky_slots s1 (a, i) = Some sl1" "sl_commitment sl1 = sl_commitment sl2"
      "sl_valid_until sl1 \<noteq> 0 \<longrightarrow> sl_valid_until sl2 \<noteq> 0 \<and> sl_valid_until sl2 \<le> sl_valid_until sl1"
      using e(2) sl2 unfolding evolves_def by blast
    then have "is_used s a (sl_commitment sl1)" using u by simp
    then obtain sl where "ky_slots s (a, i) = Some sl" "sl_commitment sl = sl_commitment sl1"
      "sl_valid_until sl \<noteq> 0 \<longrightarrow> sl_valid_until sl1 \<noteq> 0 \<and> sl_valid_until sl1 \<le> sl_valid_until sl"
      using e(1) sl1(1) unfolding evolves_def by blast
    then show ?thesis using sl1(2,3) by auto
  qed
  moreover have "is_used s2 a k" if "is_used s a k" for a k using e that by (simp add: evolves_def)
  ultimately show ?thesis unfolding evolves_def by blast
qed

lemma exec_evolves:
  assumes "\<And>a. acct_wf s a" "ky_exec W E c w s = Inr s'"
  shows "evolves s s'"
  using assms
proof (cases rule: exec_effect)
  case same
  then show ?thesis by (simp add: evolves_def same_keysD)
next
  case (added a k D i nxt o')
  then show ?thesis by (auto simp: evolves_def same_keysD added_fields split: if_splits)
next
  case (retired a own k i sl t x)
  then show ?thesis by (auto simp: evolves_def same_keysD retired_fields split: if_splits)
next
  case (revoked a own n)
  then show ?thesis by (auto simp: evolves_def same_keysD revoked_fields split: if_splits)
qed

lemma later_wf: "ky_later W s s' \<Longrightarrow> (\<And>a. acct_wf s a) \<Longrightarrow> acct_wf s' a"
  by (induction arbitrary: a rule: ky_later.induct) (auto intro: exec_wf)

lemma later_evolves: "ky_later W s s' \<Longrightarrow> (\<And>a. acct_wf s a) \<Longrightarrow> evolves s s'"
proof (induction rule: ky_later.induct)
  case (ky_later_call s s1 E c w s2)
  then show ?case using exec_evolves later_wf evolves_trans by metis
qed (rule evolves_refl)

section \<open>Nonces\<close>

text \<open>
  The nonces of the key registry: each account has one counter for its keys, one per maker it approves
  and one per order it consents to re-pin. A call that is signed over a nonce spends it.
\<close>

datatype nonce_lane =
    KeysLane bytes32
  | MakerLane bytes32 bytes32
  | RepinLane bytes32 bytes32

fun lane_nonce :: "key_store \<Rightarrow> nonce_lane \<Rightarrow> u64" where
  "lane_nonce s (KeysLane a) = get_nonce s a"
| "lane_nonce s (MakerLane a m) = ma_nonce (get_approval s a m)"
| "lane_nonce s (RepinLane a h) = rp_nonce (get_repin s a h)"

fun spent :: "key_call \<Rightarrow> (nonce_lane \<times> u64) option" where
  "spent (KRegister a own pk pop n d) = Some (KeysLane a, n)"
| "spent (KRevoke a own n) = Some (KeysLane a, n)"
| "spent (KCancel a own n) = Some (KeysLane a, n)"
| "spent (KApproveMaker a m b own n d) = Some (MakerLane a m, n)"
| "spent (KRepin a h f t own n) = Some (RepinLane a h, n)"
| "spent (KAdmin c) = None"
| "spent (KByProof a pk pop ep src root pf) = None"
| "spent (KRetire a own k t) = None"

definition nonces_spent :: "(env \<times> key_call \<times> 'w \<times> key_store) list \<Rightarrow> (nonce_lane \<times> u64) list" where
  "nonces_spent T = List.map_filter (\<lambda>(E, c, w, s). spent c) T"

lemma nonces_spent_snoc:
  "nonces_spent (T @ [(E, c, w, s)]) = nonces_spent T @ (case spent c of None \<Rightarrow> [] | Some p \<Rightarrow> [p])"
  by (simp add: nonces_spent_def List.map_filter_def split: option.splits)

lemmas store_readers = get_nonce_def get_approval_def get_repin_def get_approval_gen_def

lemma lane_nonce_cong:
  "ky_nonces s' = ky_nonces s \<Longrightarrow> ky_approvals s' = ky_approvals s \<Longrightarrow> ky_repins s' = ky_repins s \<Longrightarrow>
   lane_nonce s' l = lane_nonce s l"
  by (cases l) (simp_all add: store_readers)

lemma admin_nonces: "ky_admin_exec E c s = Inr s' \<Longrightarrow> lane_nonce s' l = lane_nonce s l"
  by (rule lane_nonce_cong; cases c) (auto simp: ky_admin_defs res_simps split: if_splits prod.splits)

lemma add_slot_nonces:
  assumes "acct_wf s a" "add_slot pg E a k s w = Inr (i, s')"
  shows "lane_nonce s' l = lane_nonce s l"
  by (rule add_slot_Ok [OF assms]) (auto intro!: lane_nonce_cong simp: slot_added_def)

lemma revoked_nonces: "lane_nonce (all_revoked a s) l = lane_nonce s l"
  by (rule lane_nonce_cong) (simp_all add: all_revoked_def set_entry_def fold_remove)

lemma lane_nonce_set:
  "lane_nonce (set_nonce a n s) l = (if l = KeysLane a then n else lane_nonce s l)"
  "lane_nonce (set_approval a m x s) l = (if l = MakerLane a m then ma_nonce x else lane_nonce s l)"
  "lane_nonce (set_repin a h r s) l = (if l = RepinLane a h then rp_nonce r else lane_nonce s l)"
  "lane_nonce (set_approval_gen a g s) l = lane_nonce s l"
  by (cases l; auto simp: store_readers set_nonce_def set_approval_def set_repin_def set_approval_gen_def)+

lemma exec_nonces:
  assumes wf: "\<And>a. acct_wf s a" and ex: "ky_exec W E c w s = Inr s'"
  shows "case spent c of
      None \<Rightarrow> lane_nonce s' l = lane_nonce s l
    | Some (l0, n) \<Rightarrow> n = lane_nonce s l0 \<and> unat (lane_nonce s' l0) = unat n + 1 \<and>
        (l \<noteq> l0 \<longrightarrow> lane_nonce s' l = lane_nonce s l)"
proof (cases c)
  case (KAdmin x)
  then show ?thesis using ex admin_nonces by simp
next
  case (KRegister a own pk pop n d)
  then obtain i where r: "register (kw_guard W) (kw_curve W) E a own pk pop n d s w = Inr (i, s')"
    using ex by (auto simp: res_simps)
  obtain s1 nn where add: "add_slot (kw_guard W) E a (key_commitment (prims E) pk) s w = Inr (i, s1)"
    and "unat nn = unat n + 1" "s' = set_nonce a nn s1" "n = get_nonce s a"
    by (rule register_Ok [OF r])
  then show ?thesis using KRegister add_slot_nonces [OF wf add] by (simp add: lane_nonce_set)
next
  case (KByProof a pk pop ep src root pf)
  then obtain i where
    r: "register_by_proof (kw_guard W) (kw_curve W) (kw_ext W) E a pk pop ep src root pf s w = Inr (i, s')"
    using ex by (auto simp: res_simps)
  show ?thesis using KByProof add_slot_nonces [OF wf register_by_proof_Ok(1) [OF r]] by simp
next
  case (KRetire a own k t)
  then have r: "set_valid_until (kw_curve W) E a own k t s = Inr s'" using ex by simp
  have "lane_nonce s' l = lane_nonce s l"
    by (rule set_valid_until_Ok [OF r], rule lane_nonce_cong) (simp_all add: set_expired_at_def set_slot_def)
  then show ?thesis using KRetire by simp
next
  case (KRevoke a own n)
  then have r: "revoke (kw_guard W) (kw_curve W) E a own n s w = Inr s'" using ex by simp
  show ?thesis
  proof (rule revoke_Ok [OF r, folded all_revoked_def])
    fix nn g
    assume "n = get_nonce s a" "unat nn = unat n + 1" "s' = set_approval_gen a g (set_nonce a nn (all_revoked a s))"
    then show ?thesis using KRevoke by (simp add: lane_nonce_set revoked_nonces)
  qed
next
  case (KCancel a own n)
  then have r: "cancel_pending (kw_curve W) E a own n s = Inr s'" using ex by simp
  show ?thesis
  proof (rule cancel_pending_Ok [OF r])
    fix nn
    assume "n = get_nonce s a" "unat nn = unat n + 1" "s' = set_nonce a nn s"
    then show ?thesis using KCancel by (simp add: lane_nonce_set)
  qed
next
  case (KApproveMaker a m b own n d)
  then have r: "approve_maker (kw_curve W) E a m b own n d s = Inr s'" using ex by simp
  show ?thesis
  proof (rule approve_maker_Ok [OF r])
    fix nn g
    assume "n = ma_nonce (get_approval s a m)" "unat nn = unat n + 1"
      "s' = set_approval a m \<lparr>ma_approved = b, ma_nonce = nn, ma_generation = g\<rparr> s"
    then show ?thesis using KApproveMaker by (simp add: lane_nonce_set)
  qed
next
  case (KRepin a h f t own n)
  then have r: "approve_repin (kw_curve W) E a h f t own n s = Inr s'" using ex by simp
  show ?thesis
  proof (rule approve_repin_Ok [OF r])
    fix nn
    assume "n = rp_nonce (get_repin s a h)" "unat nn = unat n + 1"
      "s' = set_repin a h \<lparr>rp_from = f, rp_to = t, rp_nonce = nn\<rparr> s"
    then show ?thesis using KRepin by (simp add: lane_nonce_set)
  qed
qed

lemma reach_nonces:
  "ky_reach W T s \<Longrightarrow>
     distinct (nonces_spent T) \<and> (\<forall>(l, n) \<in> set (nonces_spent T). n < lane_nonce s l)"
proof (induction rule: ky_reach.induct)
  case (ky_start E adm c name s)
  then show ?case by (simp add: nonces_spent_def List.map_filter_def)
next
  case (ky_call T s E c w s')
  note step = exec_nonces [OF reach_wf [OF ky_call.hyps(1)] ky_call.hyps(2)]
  show ?case
  proof (cases "spent c")
    case None
    then show ?thesis using ky_call.IH step by (auto simp: nonces_spent_snoc)
  next
    case (Some p)
    obtain l0 n where p: "p = (l0, n)" by (cases p)
    have n: "n = lane_nonce s l0" "unat (lane_nonce s' l0) = unat n + 1"
      "\<And>l. l \<noteq> l0 \<Longrightarrow> lane_nonce s' l = lane_nonce s l"
      using step Some p by auto
    have up: "n < lane_nonce s' l0" using n(2) by (simp add: word_less_nat_alt)
    have "m < lane_nonce s' l" if "(l, m) \<in> set (nonces_spent T)" for l m
    proof (cases "l = l0")
      case True
      then show ?thesis using that ky_call.IH n(1) up by auto
    next
      case False
      then show ?thesis using that ky_call.IH n(3) by auto
    qed
    moreover have "(l0, n) \<notin> set (nonces_spent T)" using ky_call.IH n(1) by auto
    ultimately show ?thesis using ky_call.IH Some p up by (auto simp: nonces_spent_snoc)
  qed
qed

end
