(* ===== verification/Key_Demo.thy ===== *)
theory Key_Demo
  imports Key_Effects
begin

text \<open>
  The key registry on concrete data: an account registers a key, approves a maker, retires the key, and
  later loses it. The primitives are small functions that make the checks computable.
\<close>

definition kd_crypto :: crypto where
  "kd_crypto = \<lparr>keccak256 = (\<lambda>bs. of_nat (length bs)), xdr_hash = (\<lambda>_ _. 1),
     xdr_args = (\<lambda>_. Some []), fr_reduce = (\<lambda>x. x), poseidon = (\<lambda>_. 0)\<rparr>"

definition kd_env :: "u64 \<Rightarrow> env" where
  "kd_env t = \<lparr>now = t, self = ContractAddr 90, authed = (\<lambda>a. a = AccountAddr 1 \<or> a = AccountAddr 5),
     prims = kd_crypto\<rparr>"

definition kd_curve :: curve where
  "kd_curve = \<lparr>g1_add = (\<lambda>x y. Some x), hash_to_g2 = (\<lambda>m d. [1]),
     pairing_check = (\<lambda>ps qs. Some (qs ! 0 = qs ! 1)), sha256 = (\<lambda>_. 0),
     ed25519_ok = (\<lambda>_ _ _. False), secp_recover = (\<lambda>_ _ _. None)\<rparr>"

text \<open>One guard; the world says whether the account has open positions.\<close>

definition kd_ext :: "bool ext" where
  "kd_ext = undefined\<lparr>zk_verify := (\<lambda>_ _ _ _. False), ra_is_anchored := (\<lambda>_ _ _ _ _. False)\<rparr>"

definition kd_world :: "bool key_world" where
  "kd_world = \<lparr>kw_guard = (\<lambda>g a w. Some w), kw_curve = kd_curve, kw_ext = kd_ext\<rparr>"

definition kd_pk :: bytes where
  "kd_pk = replicate 96 1"

definition kd_owner :: owner_auth where
  "kd_owner = OwnerStellar (AccountAddr 5)"

definition kd_init :: key_store where
  "kd_init = ky_empty\<lparr>ky_init := True, ky_admin := Some (AccountAddr 1), ky_chain := Some 7,
     ky_env := Some (ascii ''local''), ky_domain := Some 128\<rparr>"

definition kd_guarded :: key_store where
  "kd_guarded = kd_init\<lparr>ky_guards := Some [ContractAddr 60]\<rparr>"

definition kd_slot :: key_slot where
  "kd_slot = \<lparr>sl_commitment = 128, sl_valid_until = 0, sl_registered_at = 100\<rparr>"

definition kd_keyed :: key_store where
  "kd_keyed = kd_guarded\<lparr>ky_entries := [5 \<mapsto> \<lparr>en_next = 1, en_live = [0]\<rparr>],
     ky_slots := [(5, 0) \<mapsto> kd_slot], ky_used := [(5, 128) \<mapsto> True], ky_key_slots := [(5, 128) \<mapsto> 0],
     ky_nonces := [5 \<mapsto> 1]\<rparr>"

definition kd_retired :: key_store where
  "kd_retired = kd_keyed\<lparr>ky_slots := [(5, 0) \<mapsto> kd_slot\<lparr>sl_valid_until := 500\<rparr>],
     ky_expired := [(5, 0) \<mapsto> 500]\<rparr>"

definition kd_cancelled :: key_store where
  "kd_cancelled = kd_retired\<lparr>ky_nonces := [5 \<mapsto> 2]\<rparr>"

lemmas kd_defs = kd_crypto_def kd_env_def kd_curve_def kd_world_def kd_pk_def kd_owner_def kd_init_def
  kd_guarded_def kd_slot_def kd_keyed_def kd_retired_def kd_cancelled_def

lemmas ky_stores = get_entry_def set_entry_def get_slot_def set_slot_def get_key_slot_def set_key_slot_def
  get_expired_at_def set_expired_at_def get_nonce_def set_nonce_def set_used_def is_used_def

definition kd_set_guards :: key_call where
  "kd_set_guards = KAdmin (KSetGuards [ContractAddr 60])"

definition kd_register :: key_call where
  "kd_register = KRegister 5 kd_owner kd_pk [1] 0 200"

definition kd_retire :: key_call where
  "kd_retire = KRetire 5 kd_owner 128 500"

definition kd_cancel :: key_call where
  "kd_cancel = KCancel 5 kd_owner 1"

lemma kd_step0: "ky_initialize (kd_env 50) (AccountAddr 1) 7 (ascii ''local'') ky_empty = Inr kd_init"
  by (simp add: ky_initialize_def keys_domain_separator_def env_bytes_def KEYS_ENVS_def ascii_def
      kd_env_def kd_crypto_def kd_init_def ky_empty_def)

lemma kd_step1: "ky_exec kd_world (kd_env 60) kd_set_guards w kd_init = Inr kd_guarded"
  by (simp add: kd_set_guards_def set_position_guards_def ky_get_admin_def kd_init_def kd_guarded_def
      gate_def gate_keyed_def is_active_def require_auth_def ky_empty_def tl_init_def kd_env_def)

lemma kd_key: "kd_pk \<noteq> g1_identity" "key_commitment kd_crypto kd_pk = 128"
proof -
  have "hd kd_pk \<noteq> hd g1_identity" by (simp add: kd_pk_def g1_identity_def hd_replicate)
  then show "kd_pk \<noteq> g1_identity" by metis
qed (simp add: kd_pk_def key_commitment_def kd_crypto_def)

lemma kd_pop: "verify_pop kd_curve E kd_guarded a pk [1] n = Inr True"
  by (simp add: verify_pop_def kd_defs)

lemma kd_signed: "ky_chain s \<noteq> None \<Longrightarrow> ky_env s \<noteq> None \<Longrightarrow> ky_domain s \<noteq> None \<Longrightarrow>
    owner_signed kd_curve (kd_env t) s 5 kd_owner msg = Inr ()"
  by (auto simp: owner_signed_def here_def kd_owner_def kd_env_def require_auth_def ensure_def attempt_simps)

lemma kd_configured: "ky_init kd_guarded" "\<not> ky_paused kd_guarded" "ky_chain kd_guarded = Some 7"
  "ky_env kd_guarded = Some (ascii ''local'')" "ky_domain kd_guarded = Some 128"
  "get_nonce kd_guarded a = 0" "\<not> is_used kd_guarded a k" "get_entry kd_guarded a = \<lparr>en_next = 0, en_live = []\<rparr>"
  by (simp_all add: kd_guarded_def kd_init_def ky_empty_def ky_stores)

lemma kd_added: "add_slot pg (kd_env 100) 5 128 kd_guarded w = Inr (0, kd_keyed\<lparr>ky_nonces := Map.empty\<rparr>)"
  by (simp add: add_slot_def kd_configured MAX_ACTIVE_SLOTS_def cadd_def checked_add_def ky_stores kd_keyed_def
      kd_slot_def kd_guarded_def kd_init_def ky_empty_def kd_env_def)

lemma kd_step2: "ky_exec kd_world (kd_env 100) kd_register w kd_guarded = Inr kd_keyed"
proof -
  have w: "kw_curve kd_world = kd_curve" "now (kd_env 100) = 100" "prims (kd_env 100) = kd_crypto"
    by (simp_all add: kd_world_def kd_env_def)
  show ?thesis
    by (simp add: kd_register_def register_def check_deadline_def w MAX_REGISTER_TTL_def kd_configured kd_key
        kd_pop kd_signed kd_added cadd_def checked_add_def set_nonce_def kd_keyed_def)
qed

lemma kd_step3: "ky_exec kd_world (kd_env 300) kd_retire w kd_keyed = Inr kd_retired"
proof -
  have s: "ky_init kd_keyed" "ky_chain kd_keyed = Some 7" "ky_env kd_keyed = Some (ascii ''local'')"
    "ky_domain kd_keyed = Some 128" "get_key_slot kd_keyed 5 128 = Some 0" "get_slot kd_keyed 5 0 = Some kd_slot"
    by (simp_all add: kd_keyed_def kd_guarded_def kd_init_def ky_empty_def ky_stores)
  have w: "kw_curve kd_world = kd_curve" "now (kd_env 300) = 300" by (simp_all add: kd_world_def kd_env_def)
  show ?thesis
    by (simp add: kd_retire_def set_valid_until_def s w kd_signed)
      (simp add: kd_slot_def set_slot_def set_expired_at_def get_expired_at_def kd_retired_def kd_keyed_def
        kd_guarded_def kd_init_def ky_empty_def)
qed

lemma kd_step4: "ky_exec kd_world (kd_env 600) kd_cancel w kd_retired = Inr kd_cancelled"
  by (simp add: kd_cancel_def cancel_pending_def owner_signed_def here_def require_auth_def ensure_def
      attempt_simps cadd_def checked_add_def kd_defs ky_stores ky_empty_def)

end
