(* ===== verification/Decimal_Text.thy ===== *)
theory Decimal_Text
  imports Owner_Text
begin

text \<open>
  The printed date against the calendar: the Gregorian calendar as a successor function on dates, and
  the proof that \<open>civil_from_days\<close> computes the date \<open>n\<close> days after 1970-01-01, for every \<open>n\<close>.
  Then the printing loops against the usual numerals: the buffer never overruns for a \<open>u128\<close>, the digits read
  back as the number, and the padding fills to the width.
\<close>

section \<open>The calendar\<close>

definition leap_year :: "nat \<Rightarrow> bool" where
  "leap_year y \<longleftrightarrow> 4 dvd y \<and> (100 dvd y \<longrightarrow> 400 dvd y)"

definition month_days :: "nat \<Rightarrow> nat \<Rightarrow> nat" where
  "month_days y m =
     (if m = 2 then (if leap_year y then 29 else 28) else if m \<in> {4, 6, 9, 11} then 30 else 31)"

fun next_day :: "nat \<times> nat \<times> nat \<Rightarrow> nat \<times> nat \<times> nat" where
  "next_day (y, m, d) =
     (if d < month_days y m then (y, m, d + 1) else if m < 12 then (y, m + 1, 1) else (y + 1, 1, 1))"

definition date_of :: "nat \<Rightarrow> nat \<times> nat \<times> nat" where
  "date_of n = (next_day ^^ n) (1970, 1, 1)"

section \<open>Positions in an era\<close>

text \<open>
  An era of 400 years starts on 1 March. A day of it is day \<open>doy\<close> of the year \<open>100 c + 4 q + t\<close>, counted
  from March; day 365 exists in the years whose February is long.
\<close>

definition long_year :: "nat \<Rightarrow> nat \<Rightarrow> nat \<Rightarrow> bool" where
  "long_year c q t \<longleftrightarrow> t = 3 \<and> (q = 24 \<longrightarrow> c = 3)"

definition place :: "nat \<Rightarrow> nat \<Rightarrow> nat \<Rightarrow> nat \<Rightarrow> bool" where
  "place c q t doy \<longleftrightarrow> c \<le> 3 \<and> q \<le> 24 \<and> t \<le> 3 \<and> (doy \<le> 364 \<or> doy = 365 \<and> long_year c q t)"

definition day_of_era :: "nat \<Rightarrow> nat \<Rightarrow> nat \<Rightarrow> nat \<Rightarrow> nat" where
  "day_of_era c q t doy = 36524 * c + 1461 * q + 365 * t + doy"

lemma div_by: "k * n \<le> m \<Longrightarrow> m < Suc k * n \<Longrightarrow> m div n = k" for k n m :: nat
  by (rule div_nat_eqI) (simp_all add: mult.commute)

lemma year_parts:
  assumes "place c q t doy" and y: "y = 100 * c + 4 * q + t"
  shows "y div 4 = 25 * c + q" "y div 100 = c"
  using assms by (auto simp: place_def intro!: div_by)

lemma day_of_era_bound: "place c q t doy \<Longrightarrow> day_of_era c q t doy < 146097"
  by (auto simp: place_def day_of_era_def long_year_def)

text \<open>The year the sources compute from the day of the era.\<close>

lemma year_of_era:
  assumes p: "place c q t doy" and doe: "doe = day_of_era c q t doy"
  shows "(doe - doe div 1460 + doe div 36524 - doe div 146096) div 365 = 100 * c + 4 * q + t"
    "doe div 146096 \<le> doe - doe div 1460 + doe div 36524"
proof -
  note b = p [unfolded place_def]
  show le: "doe div 146096 \<le> doe - doe div 1460 + doe div 36524"
    using div_le_mono2 [of 36524 146096 doe] by simp
  show "(doe - doe div 1460 + doe div 36524 - doe div 146096) div 365 = 100 * c + 4 * q + t"
  proof (cases "doy = 365 \<and> q = 24")
    case True
    then have "doe = 146096" using b by (auto simp: doe day_of_era_def long_year_def)
    then show ?thesis using True b by (simp add: long_year_def)
  next
    case False
    then have lt: "1461 * q + 365 * t + doy < 36524" using b by auto
    then have c: "doe div 36524 = c" by (intro div_by) (auto simp: doe day_of_era_def)
    have small: "doe div 146096 = 0" using lt b by (auto simp: doe day_of_era_def)
    have lo: "25 * c + q \<le> doe div 1460"
      using b by (simp add: doe day_of_era_def less_eq_div_iff_mult_less_eq)
    have hi: "doe div 1460 \<le> 25 * c + q + 1"
    proof -
      have "doe < Suc (25 * c + q + 1) * 1460" using b by (auto simp: doe day_of_era_def)
      then have "doe div 1460 < Suc (25 * c + q + 1)" by (simp add: div_less_iff_less_mult)
      then show ?thesis by simp
    qed
    have long: "25 * c + q + 1 \<le> doe div 1460" if "doy = 365"
    proof -
      have "t = 3" using that b by (simp add: long_year_def)
      then show ?thesis using that by (simp add: doe day_of_era_def less_eq_div_iff_mult_less_eq)
    qed
    have first: "doe div 1460 \<le> 25 * c + q" if "doy = 0"
    proof -
      have "doe < Suc (25 * c + q) * 1460" using that b by (auto simp: doe day_of_era_def)
      then have "doe div 1460 < Suc (25 * c + q)" by (simp only: div_less_iff_less_mult zero_less_numeral)
      then show ?thesis by simp
    qed
    obtain r where r: "25 * c + q + doy = doe div 1460 + r" "r < 365"
    proof
      show "25 * c + q + doy = doe div 1460 + (25 * c + q + doy - doe div 1460)"
        using hi first by (cases "doy = 0") auto
      show "25 * c + q + doy - doe div 1460 < 365" using lo long b by (cases "doy = 365") auto
    qed
    have "doe + c = 365 * (100 * c + 4 * q + t) + (25 * c + q + doy)" by (simp add: doe day_of_era_def)
    then have "doe - doe div 1460 + c = 365 * (100 * c + 4 * q + t) + r"
      unfolding r(1) using div_le_dividend [of doe 1460] by linarith
    then show ?thesis unfolding c small using r(2) by (intro div_by) simp_all
  qed
qed

lemma year_start:
  assumes "place c q t doy" and y: "y = 100 * c + 4 * q + t"
  shows "365 * y + y div 4 - y div 100 = day_of_era c q t 0" "y div 100 \<le> 365 * y + y div 4"
  unfolding year_parts [OF assms] by (simp_all add: y day_of_era_def)

lemma dvd_in_range: "0 < r \<Longrightarrow> r \<le> n \<Longrightarrow> n dvd n * k + r \<longleftrightarrow> r = n" for n r :: nat
  by (auto simp: dvd_add_right_iff dest: dvd_imp_le)

lemma leap_iff_long:
  assumes "c \<le> 3" "q \<le> 24" "t \<le> 3"
  shows "leap_year (400 * e + (100 * c + 4 * q + t) + 1) \<longleftrightarrow> long_year c q t"
proof -
  let ?y = "400 * e + (100 * c + 4 * q + t) + 1"
  have "4 dvd ?y \<longleftrightarrow> t + 1 = 4"
    using dvd_in_range [of "t + 1" 4 "100 * e + 25 * c + q"] assms(3) by (simp add: algebra_simps)
  moreover have "100 dvd ?y \<longleftrightarrow> 4 * q + t + 1 = 100"
    using dvd_in_range [of "4 * q + t + 1" 100 "4 * e + c"] assms(2,3) by (simp add: algebra_simps)
  moreover have "400 dvd ?y \<longleftrightarrow> 100 * c + 4 * q + t + 1 = 400"
    using dvd_in_range [of "100 * c + 4 * q + t + 1" 400 e] assms by (simp add: algebra_simps)
  ultimately show ?thesis unfolding leap_year_def long_year_def using assms by (simp only:) auto
qed

section \<open>Months from March\<close>

definition month_of :: "nat \<Rightarrow> nat \<times> nat" where
  "month_of doy = (let mp = (5 * doy + 2) div 153 in
     (if mp < 10 then mp + 3 else mp - 9, doy - (153 * mp + 2) div 5 + 1))"

lemma month_of_first: "month_of 0 = (3, 1)"
  by (simp add: month_of_def)

lemma month_cases:
  assumes "doy \<le> 365"
  obtains "doy < 31" "month_of doy = (3, doy + 1)" | "31 \<le> doy" "doy < 61" "month_of doy = (4, doy - 31 + 1)"
  | "61 \<le> doy" "doy < 92" "month_of doy = (5, doy - 61 + 1)" | "92 \<le> doy" "doy < 122" "month_of doy = (6, doy - 92 + 1)"
  | "122 \<le> doy" "doy < 153" "month_of doy = (7, doy - 122 + 1)" | "153 \<le> doy" "doy < 184" "month_of doy = (8, doy - 153 + 1)"
  | "184 \<le> doy" "doy < 214" "month_of doy = (9, doy - 184 + 1)" | "214 \<le> doy" "doy < 245" "month_of doy = (10, doy - 214 + 1)"
  | "245 \<le> doy" "doy < 275" "month_of doy = (11, doy - 245 + 1)" | "275 \<le> doy" "doy < 306" "month_of doy = (12, doy - 275 + 1)"
  | "306 \<le> doy" "doy < 337" "month_of doy = (1, doy - 306 + 1)" | "337 \<le> doy" "month_of doy = (2, doy - 337 + 1)"
proof -
  have at: "month_of doy = (if k < 10 then k + 3 else k - 9, doy - (153 * k + 2) div 5 + 1)"
    if "k * 153 \<le> 5 * doy + 2" "5 * doy + 2 < Suc k * 153" for k
    using div_by [OF that] by (simp add: month_of_def)
  consider "doy < 31" | "31 \<le> doy" "doy < 61" | "61 \<le> doy" "doy < 92" | "92 \<le> doy" "doy < 122"
    | "122 \<le> doy" "doy < 153" | "153 \<le> doy" "doy < 184" | "184 \<le> doy" "doy < 214" | "214 \<le> doy" "doy < 245"
    | "245 \<le> doy" "doy < 275" | "275 \<le> doy" "doy < 306" | "306 \<le> doy" "doy < 337" | "337 \<le> doy"
    by linarith
  then show thesis
  proof cases
    case 1
    then show thesis using that(1) at [of 0] assms by simp
  next
    case 2
    then show thesis using that(2) at [of 1] assms by simp
  next
    case 3
    then show thesis using that(3) at [of 2] assms by simp
  next
    case 4
    then show thesis using that(4) at [of 3] assms by simp
  next
    case 5
    then show thesis using that(5) at [of 4] assms by simp
  next
    case 6
    then show thesis using that(6) at [of 5] assms by simp
  next
    case 7
    then show thesis using that(7) at [of 6] assms by simp
  next
    case 8
    then show thesis using that(8) at [of 7] assms by simp
  next
    case 9
    then show thesis using that(9) at [of 8] assms by simp
  next
    case 10
    then show thesis using that(10) at [of 9] assms by simp
  next
    case 11
    then show thesis using that(11) at [of 10] assms by simp
  next
    case 12
    then show thesis using that(12) at [of 11] assms by simp
  qed
qed

lemma month_table:
  assumes "doy \<le> 365"
  shows "month_of doy = (
      if doy < 31 then (3, doy - 0 + 1) else if doy < 61 then (4, doy - 31 + 1) else if doy < 92 then (5, doy - 61 + 1) else 
      if doy < 122 then (6, doy - 92 + 1) else if doy < 153 then (7, doy - 122 + 1) else if doy < 184 then (8, doy - 153 + 1) else 
      if doy < 214 then (9, doy - 184 + 1) else if doy < 245 then (10, doy - 214 + 1) else if doy < 275 then (11, doy - 245 + 1) else 
      if doy < 306 then (12, doy - 275 + 1) else if doy < 337 then (1, doy - 306 + 1) else (2, doy - 337 + 1))"
  by (rule month_cases [OF assms]) simp_all

section \<open>The computed date is the calendar's\<close>

definition dated :: "nat \<Rightarrow> nat \<times> nat \<Rightarrow> nat \<times> nat \<times> nat" where
  "dated y md = (y + (if fst md \<le> 2 then 1 else 0), md)"

text \<open>Within a year, one more day is the calendar's next day.\<close>

lemma next_in_year:
  assumes "doy + 1 \<le> 364 \<or> doy + 1 = 365 \<and> leap_year (y + 1)"
  shows "dated y (month_of (doy + 1)) = next_day (dated y (month_of doy))"
proof -
  have le: "doy \<le> 365" "doy + 1 \<le> 365" using assms by auto
  have feb: "doy + 1 < 365 \<or> leap_year (Suc y)" using assms by auto
  show ?thesis
    by (rule month_cases [OF le(1)])
      (use feb le in \<open>auto simp: dated_def month_days_def month_table [OF le(2), simplified]\<close>)
qed

text \<open>At the end of a year, and of an era, the next day is 1 March.\<close>

lemma next_at_year_end:
  assumes "if leap_year (y + 1) then doy = 365 else doy = 364"
  shows "(y + 1, 3, 1) = next_day (dated y (month_of doy))"
  using assms by (auto simp: dated_def month_of_def month_days_def split: if_splits)

definition dated_place :: "nat \<Rightarrow> nat \<Rightarrow> nat \<Rightarrow> nat \<Rightarrow> nat \<Rightarrow> nat \<times> nat \<times> nat" where
  "dated_place e c q t doy = dated (400 * e + (100 * c + 4 * q + t)) (month_of doy)"

lemma dated_place_step:
  assumes p: "place c q t doy"
  obtains e' c' q' t' doy' where "place c' q' t' doy'"
    "146097 * e' + day_of_era c' q' t' doy' = 146097 * e + day_of_era c q t doy + 1"
    "dated_place e' c' q' t' doy' = next_day (dated_place e c q t doy)"
proof -
  let ?y = "400 * e + (100 * c + 4 * q + t)"
  have b: "c \<le> 3" "q \<le> 24" "t \<le> 3" using p by (simp_all add: place_def)
  note leap = leap_iff_long [OF b, of e]
  show thesis
  proof (cases "doy + 1 \<le> 364 \<or> doy + 1 = 365 \<and> long_year c q t")
    case True
    then show thesis
      using that [of c q t "doy + 1" e] p next_in_year [of doy ?y] leap
      by (auto simp: place_def day_of_era_def dated_place_def)
  next
    case False
    then have last: "if leap_year (?y + 1) then doy = 365 else doy = 364"
      using p leap by (auto simp: place_def)
    have step: "next_day (dated_place e c q t doy) = (?y + 1, 3, 1)"
      unfolding dated_place_def by (rule next_at_year_end [OF last, symmetric])
    have march: "dated_place e' c' q' t' 0 = (400 * e' + (100 * c' + 4 * q' + t'), 3, 1)" for e' c' q' t'
      by (simp add: dated_place_def dated_def month_of_first)
    consider "t < 3" | "t = 3" "q < 24" | "t = 3" "q = 24" "c < 3" | "t = 3" "q = 24" "c = 3" using b by linarith
    then show thesis
    proof cases
      case 1
      then show thesis using that [of c q "t + 1" 0 e] b last leap march step
        by (auto simp: place_def day_of_era_def long_year_def)
    next
      case 2
      then show thesis using that [of c "q + 1" 0 0 e] b last leap march step
        by (auto simp: place_def day_of_era_def long_year_def)
    next
      case 3
      then show thesis using that [of "c + 1" 0 0 0 e] b last leap march step
        by (auto simp: place_def day_of_era_def long_year_def)
    next
      case 4
      then show thesis using that [of 0 0 0 0 "e + 1"] b last leap march step
        by (auto simp: place_def day_of_era_def long_year_def)
    qed
  qed
qed

lemma date_of_place:
  "\<exists>e c q t doy. place c q t doy \<and> n + 719468 = 146097 * e + day_of_era c q t doy \<and>
     date_of n = dated_place e c q t doy"
proof (induction n)
  case 0
  have "month_of 306 = (1, 1)" by (simp add: month_of_def)
  then show ?case
    by (intro exI [of _ 4] exI [of _ 3] exI [of _ 17] exI [of _ 1] exI [of _ 306])
      (simp add: place_def day_of_era_def date_of_def dated_place_def dated_def)
next
  case (Suc n)
  then obtain e c q t doy where p: "place c q t doy" and n: "n + 719468 = 146097 * e + day_of_era c q t doy"
    and d: "date_of n = dated_place e c q t doy" by blast
  obtain e' c' q' t' doy' where "place c' q' t' doy'"
    "146097 * e' + day_of_era c' q' t' doy' = 146097 * e + day_of_era c q t doy + 1"
    "dated_place e' c' q' t' doy' = next_day (dated_place e c q t doy)"
    by (rule dated_place_step [OF p])
  moreover have "date_of (Suc n) = next_day (date_of n)" by (simp add: date_of_def)
  ultimately show ?case using n d by (intro exI [of _ e'] exI [of _ c'] exI [of _ q'] exI [of _ t'] exI [of _ doy']) simp
qed

lemma civil_from_days_place:
  assumes p: "place c q t doy" and n: "n + 719468 = 146097 * e + day_of_era c q t doy"
  shows "civil_from_days n = Ok (dated_place e c q t doy)"
proof -
  let ?doe = "day_of_era c q t doy" and ?y = "100 * c + 4 * q + t"
  have era: "(n + 719468) div 146097 = e"
    unfolding n using day_of_era_bound [OF p] by (intro div_by) auto
  let ?mp = "(5 * doy + 2) div 153"
  note y = year_of_era [OF p refl] and start = year_start [OF p refl]
  have sub: "trap_sub (u + v) v = (Ok u :: ('e, nat) res)" "trap_sub (v + u) v = (Ok u :: ('e, nat) res)" for u v
    by (simp_all add: trap_sub_def)
  have le: "trap_sub u v = (Ok (u - v) :: ('e, nat) res)" if "v \<le> u" for u v using that by (simp add: trap_sub_def)
  have doe: "n + 719468 = ?doe + e * 146097" using n by simp
  have doy: "?doe = day_of_era c q t 0 + doy" by (simp add: day_of_era_def)
  have "doy \<le> 365" using p by (auto simp: place_def)
  have month: "(153 * ?mp + 2) div 5 \<le> doy" using \<open>doy \<le> 365\<close> by linarith
  have mo: "(if ?mp < 10 then Ok (?mp + 3) else trap_sub ?mp 9) = (Ok (fst (month_of doy)) :: ('e, nat) res)"
    by (simp add: month_of_def Let_def le)
  show ?thesis
    unfolding civil_from_days_def Let_def era
    unfolding doe sub attempt_simps le [OF div_le_dividend] le [OF y(2)] y(1) le [OF start(2)] start(1)
    unfolding doy sub attempt_simps le [OF month] mo
    by (simp add: dated_place_def dated_def month_of_def Let_def)
qed

lemma civil_from_days_date: "civil_from_days n = Ok (date_of n)"
  using date_of_place [of n] civil_from_days_place by fastforce

fun numeral_text :: "nat \<Rightarrow> bytes" where
  "numeral_text v = (if v < 10 then [digit v] else numeral_text (v div 10) @ [digit (v mod 10)])"

declare numeral_text.simps [simp del]

definition read_numeral :: "bytes \<Rightarrow> nat" where
  "read_numeral ds = foldl (\<lambda>n d. 10 * n + (unat d - 48)) 0 ds"

lemma unat_digit: "n < 10 \<Longrightarrow> unat (digit n) = 48 + n"
  by (simp add: digit_def unat_word_ariths(1) unat_of_nat)

lemma read_numeral_text: "read_numeral (numeral_text v) = v"
proof (induction v rule: numeral_text.induct)
  case (1 v)
  show ?case
  proof (cases "v < 10")
    case True
    then show ?thesis by (simp add: numeral_text.simps [of v] read_numeral_def unat_digit)
  next
    case False
    then have "read_numeral (numeral_text (v div 10)) = v div 10" by (rule "1.IH")
    then show ?thesis
      using False by (simp add: numeral_text.simps [of v] read_numeral_def unat_digit)
  qed
qed

lemma decimal_loop_text:
  "v < 10 ^ i \<Longrightarrow> 0 < i \<Longrightarrow> decimal_loop i v acc = Ok (numeral_text v @ acc)"
proof (induction i arbitrary: v acc)
  case (Suc i)
  show ?case
  proof (cases "v < 10")
    case True
    then show ?thesis by (simp add: numeral_text.simps [of v] Let_def)
  next
    case False
    then have "v div 10 \<noteq> 0" by simp
    moreover have "v div 10 < 10 ^ i" using Suc.prems(1) by (simp add: div_less_iff_less_mult mult.commute)
    moreover from calculation have "0 < i" by (cases i) simp_all
    ultimately show ?thesis using False Suc.IH by (simp add: numeral_text.simps [of v] Let_def)
  qed
qed simp

lemma push_decimal_text: "v < 2 ^ 128 \<Longrightarrow> push_decimal v = Ok (numeral_text v)"
  by (simp add: push_decimal_def decimal_loop_text)

lemma length_numeral_le: "v < 10 ^ k \<Longrightarrow> 0 < k \<Longrightarrow> length (numeral_text v) \<le> k"
proof (induction v arbitrary: k rule: numeral_text.induct)
  case (1 v)
  show ?case
  proof (cases "v < 10")
    case True
    then show ?thesis using 1 by (simp add: numeral_text.simps [of v])
  next
    case False
    then obtain j where k: "k = Suc j" "0 < j" using "1.prems" by (cases k; cases "k - 1") auto
    then have "v div 10 < 10 ^ j" using "1.prems"(1) by (simp add: div_less_iff_less_mult mult.commute)
    then show ?thesis using "1.IH" False k by (simp add: numeral_text.simps [of v])
  qed
qed

lemma length_numeral_gt: "10 ^ k \<le> v \<Longrightarrow> k < length (numeral_text v)"
proof (induction v arbitrary: k rule: numeral_text.induct)
  case (1 v)
  show ?case
  proof (cases k)
    case (Suc j)
    then have "\<not> v < 10" "10 ^ j \<le> v div 10"
      using "1.prems" by (auto simp: less_eq_div_iff_mult_less_eq mult.commute dest: le_less_trans)
    then show ?thesis using "1.IH" [of j] Suc by (simp add: numeral_text.simps [of v])
  qed (simp add: numeral_text.simps [of v])
qed

text \<open>A number padded with zeros to at least \<open>w\<close> digits.\<close>

definition padded :: "nat \<Rightarrow> nat \<Rightarrow> bytes" where
  "padded w v = replicate (w - length (numeral_text v)) (digit 0) @ numeral_text v"

lemma zero_pad_text: "zero_pad v (10 ^ k) = replicate (Suc k - length (numeral_text v)) (digit 0)"
proof (induction k)
  case 0
  have "0 < length (numeral_text v)" by (simp add: numeral_text.simps [of v])
  then show ?case by (simp add: zero_pad.simps [of v] Suc_le_eq)
next
  case (Suc k)
  show ?case
  proof (cases "v < 10 ^ Suc k")
    case True
    then have "length (numeral_text v) \<le> Suc k" by (rule length_numeral_le) simp
    moreover have "zero_pad v (10 ^ Suc k) = digit 0 # zero_pad v (10 ^ k)"
      using True one_less_power [of "10 :: nat" "Suc k"] by (subst zero_pad.simps) simp
    ultimately show ?thesis using Suc.IH by (simp add: Suc_diff_le)
  next
    case False
    then have "Suc k < length (numeral_text v)" using length_numeral_gt [of "Suc k" v] by simp
    then show ?thesis using False by (subst zero_pad.simps) simp
  qed
qed

lemma push_padded_text: "v < 2 ^ 128 \<Longrightarrow> 0 < w \<Longrightarrow> push_padded v w = Ok (padded w v)"
  by (simp add: push_padded_def push_decimal_text zero_pad_text padded_def)

text \<open>The UTC text of a time.\<close>

definition utc_text :: "nat \<Rightarrow> bytes" where
  "utc_text t =
     (case date_of (t div 86400) of (y, m, d) \<Rightarrow>
       padded 4 y @ ascii ''-'' @ padded 2 m @ ascii ''-'' @ padded 2 d @ ascii '' '' @
       padded 2 (t mod 86400 div 3600) @ ascii '':'' @ padded 2 (t mod 86400 mod 3600 div 60) @
       ascii '':'' @ padded 2 (t mod 86400 mod 60) @ ascii '' UTC'')"

lemma date_of_bound: "date_of n = (y, m, d) \<Longrightarrow> y \<le> 1970 + n \<and> m \<le> 12 \<and> d \<le> 31"
proof (induction n arbitrary: y m d)
  case 0
  then show ?case by (simp add: date_of_def)
next
  case (Suc n)
  obtain y' m' d' where e: "date_of n = (y', m', d')" by (cases "date_of n")
  have "date_of (Suc n) = next_day (date_of n)" by (simp add: date_of_def)
  then show ?case using Suc.prems Suc.IH [OF e] e by (auto simp: month_days_def split: if_splits)
qed

lemma push_utc_text:
  assumes "t < 2 ^ 64"
  shows "push_utc t = Ok (utc_text t)"
proof -
  obtain y m d where e: "date_of (t div 86400) = (y, m, d)" by (cases "date_of (t div 86400)")
  have "t div 86400 \<le> t" by simp
  then have b: "y < 2 ^ 128" "m < 2 ^ 128" "d < 2 ^ 128" using date_of_bound [OF e] assms by auto
  have "t mod 86400 < 86400" by simp
  then have s: "t mod 86400 div 3600 < 2 ^ 128" "t mod 86400 mod 3600 div 60 < 2 ^ 128" "t mod 86400 mod 60 < 2 ^ 128"
    by (auto intro: le_less_trans [OF div_le_dividend] le_less_trans [OF mod_less_eq_dividend])
  show ?thesis
    unfolding push_utc_def Let_def civil_from_days_date e attempt_simps prod.case
    using b s by (simp add: push_padded_text utc_text_def e)
qed

end
