(* ===== verification/Key_Properties.thy ===== *)
theory Key_Properties
  imports Key_Demo Decimal_Text
begin

text \<open>The properties of the key registry and of the text its ed25519 owners sign.\<close>

section \<open>A slot id belongs to one key\<close>

definition ids_single :: "key_store \<Rightarrow> bool" where
  "ids_single s \<longleftrightarrow> (\<forall>a i k l. ky_key_slots s (a, k) = Some i \<longrightarrow> ky_key_slots s (a, l) = Some i \<longrightarrow> k = l)"

lemma added_single:
  assumes "ids_single s" "acct_wf s a" "i = en_next (get_entry s a)"
  shows "ids_single (slot_added E a k D i nxt s)"
proof -
  have "ky_key_slots s (a, l) \<noteq> Some i" for l using acct_wfD(8) [OF assms(2)] assms(3) by blast
  then show ?thesis using assms(1) unfolding ids_single_def added_fields by (metis option.inject)
qed

lemma reach_single: "ky_reach W T s \<Longrightarrow> ids_single s"
proof (induction rule: ky_reach.induct)
  case (ky_start E adm c name s)
  then show ?case by (auto simp: ky_initialize_def res_simps ky_empty_def ids_single_def split: if_splits)
next
  case (ky_call T s E c w s')
  have wf: "acct_wf s a" for a using reach_wf [OF ky_call.hyps(1)] .
  show ?case
    using wf ky_call.hyps(2)
  proof (cases rule: exec_effect)
    case same
    then show ?thesis using ky_call.IH by (simp add: ids_single_def same_keysD)
  next
    case (added a k D i nxt o')
    then show ?thesis
      using added_single [OF ky_call.IH wf added(3)] by (simp add: ids_single_def same_keysD)
  next
    case (retired a own k i sl t x)
    then show ?thesis using ky_call.IH by (simp add: ids_single_def same_keysD retired_fields)
  next
    case (revoked a own n)
    then show ?thesis using ky_call.IH by (simp add: ids_single_def same_keysD revoked_fields)
  qed
qed

section \<open>The records of an account\<close>

text \<open>C28: in every reachable state an account has at most five live slot ids, each below the next id and
  listed once; a slot record exists exactly for the live ids; and the lookup by key finds exactly the
  slot that holds the key, so no key sits in two slots.\<close>

theorem registry_wf:
  assumes "ky_reach W T s"
  shows "length (en_live (get_entry s a)) \<le> 5 \<and> distinct (en_live (get_entry s a)) \<and>
    (\<forall>i. get_slot s a i \<noteq> None \<longleftrightarrow> i \<in> set (en_live (get_entry s a))) \<and>
    (\<forall>i \<in> set (en_live (get_entry s a)). i < en_next (get_entry s a)) \<and>
    (\<forall>k i. slot_of_key s a k = Some i \<longleftrightarrow> (\<exists>sl. get_slot s a i = Some sl \<and> sl_commitment sl = k))"
proof (intro conjI allI ballI)
  note w = acct_wfD [OF reach_wf [OF assms]]
  show "length (en_live (get_entry s a)) \<le> 5" using w(2) by (simp add: MAX_ACTIVE_SLOTS_def)
  show "distinct (en_live (get_entry s a))" by (rule w)
  show "get_slot s a i \<noteq> None \<longleftrightarrow> i \<in> set (en_live (get_entry s a))" for i
    using w(4,5) by (auto simp: get_slot_def)
  show "i < en_next (get_entry s a)" if "i \<in> set (en_live (get_entry s a))" for i using that by (rule w)
  show "slot_of_key s a k = Some i \<longleftrightarrow> (\<exists>sl. get_slot s a i = Some sl \<and> sl_commitment sl = k)" for k i
  proof
    assume "slot_of_key s a k = Some i"
    then obtain sl where sl: "ky_key_slots s (a, k) = Some i" "ky_slots s (a, i) = Some sl"
      by (auto simp: slot_of_key_def get_key_slot_def get_slot_def split: option.splits if_splits)
    then have "sl_commitment sl = k" using w(6) reach_single [OF assms] unfolding ids_single_def by blast
    then show "\<exists>sl. get_slot s a i = Some sl \<and> sl_commitment sl = k" using sl by (auto simp: get_slot_def)
  next
    assume "\<exists>sl. get_slot s a i = Some sl \<and> sl_commitment sl = k"
    then show "slot_of_key s a k = Some i"
      using w(6) by (auto simp: slot_of_key_def get_key_slot_def get_slot_def)
  qed
qed

section \<open>A demonstration run\<close>

lemma kd_runs:
  "ky_reach kd_world [] kd_init"
  "ky_reach kd_world [(kd_env 60, kd_set_guards, w, kd_init)] kd_guarded"
  "ky_reach kd_world [(kd_env 60, kd_set_guards, w, kd_init), (kd_env 100, kd_register, w, kd_guarded)] kd_keyed"
  "ky_reach kd_world [(kd_env 60, kd_set_guards, w, kd_init), (kd_env 100, kd_register, w, kd_guarded),
     (kd_env 300, kd_retire, w, kd_keyed)] kd_retired"
  "ky_reach kd_world [(kd_env 60, kd_set_guards, w, kd_init), (kd_env 100, kd_register, w, kd_guarded),
     (kd_env 300, kd_retire, w, kd_keyed), (kd_env 600, kd_cancel, w, kd_retired)] kd_cancelled"
proof -
  show 0: "ky_reach kd_world [] kd_init" by (rule ky_start [OF kd_step0])
  show 1: "ky_reach kd_world [(kd_env 60, kd_set_guards, w, kd_init)] kd_guarded"
    using ky_call [OF 0 kd_step1] by simp
  show 2: "ky_reach kd_world [(kd_env 60, kd_set_guards, w, kd_init), (kd_env 100, kd_register, w, kd_guarded)] kd_keyed"
    using ky_call [OF 1 kd_step2] by simp
  show 3: "ky_reach kd_world [(kd_env 60, kd_set_guards, w, kd_init), (kd_env 100, kd_register, w, kd_guarded),
     (kd_env 300, kd_retire, w, kd_keyed)] kd_retired"
    using ky_call [OF 2 kd_step3] by simp
  show "ky_reach kd_world [(kd_env 60, kd_set_guards, w, kd_init), (kd_env 100, kd_register, w, kd_guarded),
     (kd_env 300, kd_retire, w, kd_keyed), (kd_env 600, kd_cancel, w, kd_retired)] kd_cancelled"
    using ky_call [OF 3 kd_step4] by simp
qed

lemma kd_views:
  "commitment_at (kd_env 100) kd_keyed 5 0 = Inr 128"
  "commitment_at (kd_env 600) kd_retired 5 i \<noteq> Inr 128"
  "is_used kd_retired 5 128"
  "get_slot kd_keyed 5 0 = Some kd_slot"
  "guard_reports (kw_guard kd_world) kd_keyed 5 True = Inr True"
  by (auto simp: commitment_at_def kd_defs ky_stores ky_empty_def guard_reports_def attempt_def ok_or_def
      ok_or_trap_def split: if_splits)

theorem registry_wf_witness:
  "length (en_live (get_entry kd_keyed 5)) \<le> 5 \<and> distinct (en_live (get_entry kd_keyed 5)) \<and>
   0 \<in> set (en_live (get_entry kd_keyed 5)) \<and> slot_of_key kd_keyed 5 128 = Some 0"
  using registry_wf [OF kd_runs(3), of 5] kd_views(4) by (auto simp: kd_slot_def)

section \<open>Consent and retirement\<close>

text \<open>C26: the registry answers with a key for an account only if an earlier call carried the account's
  consent to that key: the owner's signature over its registration or a proof of its registration leaf,
  and in both cases a valid proof of possession.\<close>

theorem key_needs_consent:
  assumes "ky_reach W T s" "commitment_at E s a i = Inr k"
  shows "\<exists>e \<in> set T. consented W a k e"
proof -
  obtain sl where "ky_slots s (a, i) = Some sl" "sl_commitment sl = k"
    using assms(2) by (auto simp: commitment_at_def get_slot_def res_simps split: if_splits)
  then show ?thesis using reach_consented [OF assms(1)] by blast
qed

theorem key_needs_consent_witness:
  "\<exists>e \<in> set [(kd_env 60, kd_set_guards, False, kd_init), (kd_env 100, kd_register, False, kd_guarded)].
     consented kd_world 5 128 e"
  by (rule key_needs_consent [OF kd_runs(3) kd_views(1)])

text \<open>C27: a key that was once registered and that the registry no longer answers with, because it was
  retired, revoked or dropped, is never answered with again: no later call at a later time brings it
  back, for any slot.\<close>

theorem retired_key_stays_retired:
  assumes "ky_reach W T s" "is_used s a k" "\<forall>i. commitment_at E s a i \<noteq> Inr k"
    "ky_later W s s'" "now E \<le> now E'"
  shows "commitment_at E' s' a i \<noteq> Inr k"
proof
  assume "commitment_at E' s' a i = Inr k"
  then obtain sl' where sl': "ky_slots s' (a, i) = Some sl'" "sl_commitment sl' = k"
    "sl_valid_until sl' = 0 \<or> now E' < sl_valid_until sl'"
    by (auto simp: commitment_at_def get_slot_def res_simps not_le split: if_splits)
  then obtain sl where sl: "ky_slots s (a, i) = Some sl" "sl_commitment sl = k"
    "sl_valid_until sl \<noteq> 0 \<longrightarrow> sl_valid_until sl' \<noteq> 0 \<and> sl_valid_until sl' \<le> sl_valid_until sl"
    using later_evolves [OF assms(4) reach_wf [OF assms(1)]] assms(2) unfolding evolves_def by blast
  have "sl_valid_until sl = 0 \<or> now E < sl_valid_until sl"
    using sl(3) sl'(3) assms(5) by (meson le_less_trans less_le_trans)
  then have "commitment_at E s a i = Inr k"
    using sl(1,2) by (auto simp: commitment_at_def get_slot_def ok_or_def attempt_simps not_le)
  then show False using assms(3) by blast
qed

theorem retired_key_stays_retired_witness: "commitment_at (kd_env 700) kd_cancelled 5 0 \<noteq> Inr 128"
proof (rule retired_key_stays_retired [OF kd_runs(4) kd_views(3)])
  show "\<forall>i. commitment_at (kd_env 600) kd_retired 5 i \<noteq> Inr 128" using kd_views(2) by blast
  show "ky_later kd_world kd_retired kd_cancelled" by (rule ky_later_call [OF ky_later_refl kd_step4])
  show "now (kd_env 600) \<le> now (kd_env 700)" by (simp add: kd_env_def)
qed

section \<open>Nonces and open positions\<close>

text \<open>C29: no signed change is ever applied twice: over the whole life of the registry, each nonce of an
  account's key lane, of a maker approval and of a re-pin consent is spent by at most one call that
  goes through.\<close>

theorem nonce_single_use:
  assumes "ky_reach W T s"
  shows "distinct (nonces_spent T)"
  using reach_nonces [OF assms] by simp

theorem nonce_single_use_witness:
  "distinct [(KeysLane 5, 0 :: u64), (KeysLane 5, 1)]"
  using nonce_single_use [OF kd_runs(5)]
  by (simp add: nonces_spent_def List.map_filter_def kd_set_guards_def kd_register_def kd_retire_def kd_cancel_def)

text \<open>C30: while a wired escrow reports an open position of the account, no call removes one of its slots,
  unless the slot expired more than the grace period ago: neither a revocation nor the pruning that makes
  room for a new key.\<close>

theorem positions_keep_keys:
  assumes "ky_reach W T s" "ky_exec W E c w s = Inr s'"
    "guard_reports (kw_guard W) s a w = Inr True" "get_slot s a i = Some sl"
  shows "get_slot s' a i \<noteq> None \<or>
    ky_expired_at s a i \<noteq> 0 \<and> saturating_add (ky_expired_at s a i) GRACE_PERIOD < now E"
  using reach_wf [OF assms(1)] assms(2)
proof (cases rule: exec_effect)
  case same
  then show ?thesis using assms(4) by (simp add: get_slot_def same_keysD)
next
  case (added b k D j nxt o')
  have slots: "ky_slots s' (a, i) = ky_slots (slot_added E b k D j nxt s) (a, i)"
    using added(8) by (simp add: same_keysD)
  show ?thesis
  proof (cases "a = b \<and> i \<in> D")
    case False
    then show ?thesis using assms(4) slots by (auto simp: get_slot_def added_fields)
  next
    case True
    then have "\<not> o'" "prunable E o' s a i" using added(5,6) assms(3) by auto
    then show ?thesis using assms(4) by (auto simp: prunable_def Let_def)
  qed
next
  case (retired b own k j sl' t x)
  then show ?thesis using assms(4) by (auto simp: get_slot_def same_keysD retired_fields)
next
  case (revoked b own n)
  have live: "i \<in> set (en_live (get_entry s a))"
    using acct_wfD(5) [OF reach_wf [OF assms(1)]] assms(4) by (simp add: get_slot_def)
  then have "a \<noteq> b" using revoked(2) assms(3) by auto
  then show ?thesis using revoked(3) assms(4) by (simp add: get_slot_def same_keysD revoked_fields)
qed

theorem positions_keep_keys_witness: "\<exists>sl. get_slot kd_retired 5 0 = Some sl"
proof -
  have "ky_expired_at kd_keyed 5 0 = 0" by (simp add: ky_expired_at_def kd_defs ky_stores ky_empty_def)
  then show ?thesis using positions_keep_keys [OF kd_runs(3) kd_step3 kd_views(5) kd_views(4)] by simp
qed

section \<open>The signed text\<close>

text \<open>C31: the expiry an owner reads is the calendar date: for every 64-bit time, printing it never traps
  and gives the date obtained by counting days of the Gregorian calendar from 1970-01-01, with the
  time of day.\<close>

theorem utc_is_calendar: "push_utc (unat (t :: u64)) = Ok (utc_text (unat t))"
proof (rule push_utc_text)
  show "unat t < 2 ^ 64" using unsigned_less [of t] by simp
qed

text \<open>C32: the decimal printer returns for every 128-bit value, within its 39-byte buffer, and its digits
  read back as the value.\<close>

theorem decimal_total:
  "\<exists>ds. push_decimal (unat (v :: u128)) = Ok ds \<and> read_numeral ds = unat v \<and> length ds \<le> 39"
proof -
  have v: "unat v < 2 ^ 128" using unsigned_less [of v] by simp
  moreover have "unat v < 10 ^ 39" by (rule less_trans [OF v]) simp
  then have "length (numeral_text (unat v)) \<le> 39" by (rule length_numeral_le) simp
  ultimately show ?thesis by (simp add: push_decimal_text read_numeral_text)
qed

end
