(* ===== verification/Agent_Types.thy ===== *)
theory Agent_Types
  imports Rate_Limit Curve Token_Ops Decimal_Scaling
begin

text \<open>
  The maker's account that agents act through (\<open>contracts/agent-account/src/{errors,policy}.rs\<close>): the
  per-agent policy, the guard rail of an ad, the schedules of delayed calls, and the account's storage
  with its reads and writes. A list the sources walk with an index is walked by recursion; a map row
  that the sources find by a linear scan is the first match of a list.
\<close>

section \<open>Errors\<close>

datatype account_error =
    AcNoPolicyForAgent | AcAgentRevoked | AcPolicyExpired | AcBadSignature | AcUnsupportedContext
  | AcTargetNotAllowed | AcActionNotAllowed | AcBadArgs | AcTokenNotAllowed | AcCapExceeded
  | AcSettlementSignerMismatch | AcBadPolicy | AcBadTargets | AcBadOwner | AcAdNotAllowed
  | AcVolumeExceeded | AcNoVolumeLimit | AcNotScheduled | AcBadGuardRail | AcNoGuardRail
  | AcGuardRailArchived | AcSchemaTooNew | AcScopeMismatch | AcOwnerPathRetired | AcFundsLeft
  | AcBadApproval | AcFunctionNotAllowed | AcGuardRailOutOfBounds | AcAdNotClosed
  | AcDisarmLowersTimelock

fun account_error_code :: "account_error \<Rightarrow> nat" where
  "account_error_code AcNoPolicyForAgent = 1"
| "account_error_code AcAgentRevoked = 2"
| "account_error_code AcPolicyExpired = 3"
| "account_error_code AcBadSignature = 4"
| "account_error_code AcUnsupportedContext = 5"
| "account_error_code AcTargetNotAllowed = 6"
| "account_error_code AcActionNotAllowed = 7"
| "account_error_code AcBadArgs = 8"
| "account_error_code AcTokenNotAllowed = 9"
| "account_error_code AcCapExceeded = 10"
| "account_error_code AcSettlementSignerMismatch = 11"
| "account_error_code AcBadPolicy = 12"
| "account_error_code AcBadTargets = 13"
| "account_error_code AcBadOwner = 14"
| "account_error_code AcAdNotAllowed = 15"
| "account_error_code AcVolumeExceeded = 16"
| "account_error_code AcNoVolumeLimit = 17"
| "account_error_code AcNotScheduled = 18"
| "account_error_code AcBadGuardRail = 19"
| "account_error_code AcNoGuardRail = 20"
| "account_error_code AcGuardRailArchived = 21"
| "account_error_code AcSchemaTooNew = 22"
| "account_error_code AcScopeMismatch = 23"
| "account_error_code AcOwnerPathRetired = 24"
| "account_error_code AcFundsLeft = 25"
| "account_error_code AcBadApproval = 26"
| "account_error_code AcFunctionNotAllowed = 27"
| "account_error_code AcGuardRailOutOfBounds = 28"
| "account_error_code AcAdNotClosed = 29"
| "account_error_code AcDisarmLowersTimelock = 30"

section \<open>Bounds\<close>

definition MAX_WHITELIST_TOKENS :: nat where "MAX_WHITELIST_TOKENS = 16"
definition MAX_TARGETS :: nat where "MAX_TARGETS = 2"
definition MAX_AD_SCOPE :: nat where "MAX_AD_SCOPE = 16"
definition MAX_AD_ID_BYTES :: nat where "MAX_AD_ID_BYTES = 512"
definition MAX_GUARD_DELAY :: u64 where "MAX_GUARD_DELAY = 30 * 86400"
definition MIN_GUARD_WINDOW :: u64 where "MIN_GUARD_WINDOW = 3600"
definition MAX_VALID_UNTIL :: u64 where "MAX_VALID_UNTIL = push_bit 48 1"
definition MAX_GUARDED_ADS :: nat where "MAX_GUARDED_ADS = 16"
definition SCHEMA_VERSION :: u32 where "SCHEMA_VERSION = 4"

section \<open>Data\<close>

record token_limit =
  tk_token :: bytes32
  tk_max_per_order :: u128
  tk_rate :: limit

record token_bucket =
  tb_token :: bytes32
  tb_bucket :: bucket

record agent_policy =
  ap_allowed_action :: string
  ap_ad_tokens :: "token_limit list"
  ap_order_tokens :: "bytes32 list"
  ap_valid_until :: u64
  ap_revoked :: bool
  ap_settlement_signer :: bytes32
  ap_ad_scope :: "string list option"
  ap_buckets :: "token_bucket list"

datatype scope = AdScope string | AccountScope

record guard_rail =
  gr_threshold :: u128
  gr_delay :: u64
  gr_window :: u64
  gr_rate :: limit
  gr_bucket :: bucket

record schedule =
  sc_commitment :: bytes32
  sc_ready_at :: u64
  sc_expires_at :: u64

record account_volume =
  av_limit :: limit
  av_bucket :: bucket

text \<open>\<open>aa_code\<close> is the host's record of the contract's code, which \<open>upgrade\<close> replaces.\<close>

record agent_store =
  aa_owner :: "address option"
  aa_targets :: "address list option"
  aa_schema :: "u32 option"
  aa_policies :: "bytes32 \<rightharpoonup> agent_policy"
  aa_volumes :: "bytes32 \<rightharpoonup> account_volume"
  aa_rails :: "string \<rightharpoonup> guard_rail"
  aa_schedules :: "scope \<times> string \<rightharpoonup> schedule"
  aa_roster :: "string list"
  aa_code :: "bytes32 option"

definition aa_empty :: agent_store where
  "aa_empty = \<lparr>aa_owner = None, aa_targets = None, aa_schema = None, aa_policies = Map.empty,
     aa_volumes = Map.empty, aa_rails = Map.empty, aa_schedules = Map.empty, aa_roster = [],
     aa_code = None\<rparr>"

section \<open>A policy's rows\<close>

definition limit_for :: "agent_policy \<Rightarrow> bytes32 \<Rightarrow> token_limit option" where
  "limit_for p t = List.find (\<lambda>l. tk_token l = t) (ap_ad_tokens p)"

definition bucket_for :: "agent_policy \<Rightarrow> bytes32 \<Rightarrow> bucket option" where
  "bucket_for p t = map_option tb_bucket (List.find (\<lambda>b. tb_token b = t) (ap_buckets p))"

fun put_row :: "bytes32 \<Rightarrow> bucket \<Rightarrow> token_bucket list \<Rightarrow> token_bucket list" where
  "put_row t b [] = [\<lparr>tb_token = t, tb_bucket = b\<rparr>]"
| "put_row t b (r # rs) =
     (if tb_token r = t then \<lparr>tb_token = t, tb_bucket = b\<rparr> # rs else r # put_row t b rs)"

definition put_bucket :: "bytes32 \<Rightarrow> bucket \<Rightarrow> agent_policy \<Rightarrow> agent_policy" where
  "put_bucket t b p = p\<lparr>ap_buckets := put_row t b (ap_buckets p)\<rparr>"

definition ad_in_scope :: "agent_policy \<Rightarrow> string \<Rightarrow> bool" where
  "ad_in_scope p ad_id \<longleftrightarrow> (case ap_ad_scope p of None \<Rightarrow> True | Some ads \<Rightarrow> ad_id \<in> set ads)"

section \<open>Storage\<close>

definition aa_get_owner :: "agent_store \<Rightarrow> (account_error, address) res" where
  "aa_get_owner s = ok_or_trap (aa_owner s)"

definition aa_set_owner :: "address \<Rightarrow> agent_store \<Rightarrow> agent_store" where
  "aa_set_owner a s = s\<lparr>aa_owner := Some a\<rparr>"

definition set_schema_version :: "agent_store \<Rightarrow> agent_store" where
  "set_schema_version s = s\<lparr>aa_schema := Some SCHEMA_VERSION\<rparr>"

definition get_schema_version :: "agent_store \<Rightarrow> u32" where
  "get_schema_version s = (case aa_schema s of None \<Rightarrow> 0 | Some v \<Rightarrow> v)"

definition get_targets :: "agent_store \<Rightarrow> address list" where
  "get_targets s = (case aa_targets s of None \<Rightarrow> [] | Some l \<Rightarrow> l)"

definition aa_set_targets :: "env \<Rightarrow> address list \<Rightarrow> agent_store \<Rightarrow> (account_error, agent_store) res" where
  "aa_set_targets E targets s =
     (if targets = [] \<or> length targets > MAX_TARGETS then Fail AcBadTargets
      else if self E \<in> set targets then Fail AcBadTargets
      else Ok (s\<lparr>aa_targets := Some targets\<rparr>))"

definition get_policy :: "agent_store \<Rightarrow> bytes32 \<Rightarrow> agent_policy option" where
  "get_policy s agent = aa_policies s agent"

definition aa_set_policy :: "bytes32 \<Rightarrow> agent_policy \<Rightarrow> agent_store \<Rightarrow> agent_store" where
  "aa_set_policy agent p s = s\<lparr>aa_policies := (aa_policies s)(agent \<mapsto> p)\<rparr>"

definition get_account_volume :: "agent_store \<Rightarrow> bytes32 \<Rightarrow> account_volume option" where
  "get_account_volume s t = aa_volumes s t"

definition set_account_volume :: "bytes32 \<Rightarrow> account_volume \<Rightarrow> agent_store \<Rightarrow> agent_store" where
  "set_account_volume t v s = s\<lparr>aa_volumes := (aa_volumes s)(t \<mapsto> v)\<rparr>"

definition guarded_ads :: "agent_store \<Rightarrow> string list" where
  "guarded_ads s = aa_roster s"

definition is_guarded :: "agent_store \<Rightarrow> string \<Rightarrow> bool" where
  "is_guarded s ad_id \<longleftrightarrow> ad_id \<in> set (guarded_ads s)"

definition any_guarded :: "agent_store \<Rightarrow> bool" where
  "any_guarded s \<longleftrightarrow> guarded_ads s \<noteq> []"

definition get_guard_rail :: "agent_store \<Rightarrow> string \<Rightarrow> guard_rail option" where
  "get_guard_rail s ad_id = aa_rails s ad_id"

definition put_guard_rail :: "string \<Rightarrow> guard_rail \<Rightarrow> agent_store \<Rightarrow> (account_error, agent_store) res" where
  "put_guard_rail ad_id g s =
     (let s = s\<lparr>aa_rails := (aa_rails s)(ad_id \<mapsto> g)\<rparr> in
      if ad_id \<notin> set (guarded_ads s) then
        if length (guarded_ads s) \<ge> MAX_GUARDED_ADS then Fail AcBadGuardRail
        else Ok (s\<lparr>aa_roster := guarded_ads s @ [ad_id]\<rparr>)
      else Ok s)"

definition remove_guard_rail :: "string \<Rightarrow> agent_store \<Rightarrow> agent_store" where
  "remove_guard_rail ad_id s =
     s\<lparr>aa_rails := (aa_rails s)(ad_id := None), aa_roster := filter (\<lambda>a. a \<noteq> ad_id) (guarded_ads s)\<rparr>"

definition get_schedule :: "agent_store \<Rightarrow> scope \<Rightarrow> string \<Rightarrow> schedule option" where
  "get_schedule s sc action = aa_schedules s (sc, action)"

definition set_schedule :: "scope \<Rightarrow> string \<Rightarrow> schedule \<Rightarrow> agent_store \<Rightarrow> agent_store" where
  "set_schedule sc action x s = s\<lparr>aa_schedules := (aa_schedules s)((sc, action) \<mapsto> x)\<rparr>"

definition clear_schedule :: "scope \<Rightarrow> string \<Rightarrow> agent_store \<Rightarrow> agent_store" where
  "clear_schedule sc action s = s\<lparr>aa_schedules := (aa_schedules s)((sc, action) := None)\<rparr>"

section \<open>Actions\<close>

definition sym_upgrade :: string where "sym_upgrade = ''upgrade''"
definition sym_set_policy :: string where "sym_set_policy = ''set_policy''"
definition sym_set_account_limit :: string where "sym_set_account_limit = ''set_account_limit''"
definition sym_set_targets :: string where "sym_set_targets = ''set_targets''"
definition sym_sweep :: string where "sym_sweep = ''sweep''"
definition sym_resume_settlement :: string where "sym_resume_settlement = ''resume_settlement''"
definition sym_set_settlement_signer :: string where "sym_set_settlement_signer = ''set_settlement_signer''"
definition sym_withdraw_from_ad :: string where "sym_withdraw_from_ad = ''withdraw_from_ad''"
definition sym_close_ad :: string where "sym_close_ad = ''close_ad''"
definition sym_set_guard_rail :: string where "sym_set_guard_rail = ''set_guard_rail''"
definition sym_lock_for_order :: string where "sym_lock_for_order = ''lock_for_order''"

lemmas sym_defs = sym_upgrade_def sym_set_policy_def sym_set_account_limit_def sym_set_targets_def
  sym_sweep_def sym_resume_settlement_def sym_set_settlement_signer_def sym_withdraw_from_ad_def
  sym_close_ad_def sym_set_guard_rail_def sym_lock_for_order_def

definition ad_actions :: "string list" where
  "ad_actions = [sym_withdraw_from_ad, sym_close_ad, sym_lock_for_order, sym_set_guard_rail, sym_set_settlement_signer]"

definition account_actions :: "string list" where
  "account_actions = [sym_upgrade, sym_set_policy, sym_set_account_limit, sym_set_targets, sym_sweep,
     sym_resume_settlement]"

fun actions_for :: "scope \<Rightarrow> string list" where
  "actions_for (AdScope ad_id) = ad_actions"
| "actions_for AccountScope = account_actions"

definition instant_escrow_calls :: "string list" where
  "instant_escrow_calls = [''create_ad'', ''fund_ad'', ''halt_settlement'', ''dispute'', ''respond_to_dispute'',
     ''finalize_dispute'', ''claim_cancel'', ''finalize_cancel'', ''cancel_never_locked'', ''repin_order'',
     ''unlock'', ''present_settled'', ''record_settled'', ''claim'']"

definition is_token_function :: "string \<Rightarrow> bool" where
  "is_token_function f \<longleftrightarrow> list_ex (\<lambda>n. f = n) [''transfer'', ''transfer_from'', ''approve'', ''burn'', ''burn_from'']"

section \<open>The account-wide timelock\<close>

fun timelock_over :: "agent_store \<Rightarrow> string option \<Rightarrow> string list \<Rightarrow> u64 \<times> u64 \<Rightarrow>
    (account_error, u64 \<times> u64) res" where
  "timelock_over s skip [] dw = Ok dw"
| "timelock_over s skip (ad # ads) dw =
     (if skip = Some ad then timelock_over s skip ads dw
      else attempt (ok_or (get_guard_rail s ad) AcGuardRailArchived) (\<lambda>g.
        timelock_over s skip ads (max (fst dw) (gr_delay g), min (snd dw) (gr_window g))))"

definition timelock_without :: "agent_store \<Rightarrow> string option \<Rightarrow> (account_error, u64 \<times> u64) res" where
  "timelock_without s skip = timelock_over s skip (guarded_ads s) (0, - 1)"

definition account_timelock :: "agent_store \<Rightarrow> (account_error, u64 \<times> u64) res" where
  "account_timelock s = (if guarded_ads s = [] then Fail AcNoGuardRail else timelock_without s None)"

definition check_guard_bounds :: "guard_rail \<Rightarrow> (account_error, unit) res" where
  "check_guard_bounds g =
     (if gr_delay g = 0 \<or> gr_window g = 0 then Fail AcBadGuardRail
      else if gr_delay g > MAX_GUARD_DELAY \<or> gr_window g < MIN_GUARD_WINDOW then Fail AcGuardRailOutOfBounds
      else Ok ())"

section \<open>Pending schedules\<close>

definition clear_scope :: "scope \<Rightarrow> agent_store \<Rightarrow> agent_store" where
  "clear_scope sc s = fold (clear_schedule sc) (actions_for sc) s"

definition clear_all_schedules :: "string \<Rightarrow> agent_store \<Rightarrow> agent_store" where
  "clear_all_schedules ad_id s = fold clear_scope [AdScope ad_id, AccountScope] s"

definition restamp_row :: "scope \<Rightarrow> u64 \<Rightarrow> string \<Rightarrow> agent_store \<Rightarrow> agent_store" where
  "restamp_row sc not_before a s =
     (case get_schedule s sc a of
        None \<Rightarrow> s
      | Some x \<Rightarrow>
          if sc_ready_at x < not_before then
            set_schedule sc a (x\<lparr>sc_expires_at := saturating_add (sc_expires_at x) (not_before - sc_ready_at x),
              sc_ready_at := not_before\<rparr>) s
          else s)"

definition restamp :: "scope \<Rightarrow> u64 \<Rightarrow> agent_store \<Rightarrow> agent_store" where
  "restamp sc not_before s = fold (restamp_row sc not_before) (actions_for sc) s"

definition clamp_row :: "scope \<Rightarrow> u64 \<Rightarrow> string \<Rightarrow> agent_store \<Rightarrow> agent_store" where
  "clamp_row sc window a s =
     (case get_schedule s sc a of
        None \<Rightarrow> s
      | Some x \<Rightarrow>
          let latest = saturating_add (sc_ready_at x) window in
          if sc_expires_at x > latest then set_schedule sc a (x\<lparr>sc_expires_at := latest\<rparr>) s else s)"

definition clamp_windows :: "scope \<Rightarrow> u64 \<Rightarrow> agent_store \<Rightarrow> agent_store" where
  "clamp_windows sc window s = fold (clamp_row sc window) (actions_for sc) s"

section \<open>Tightening\<close>

definition is_tightening :: "guard_rail \<Rightarrow> guard_rail \<Rightarrow> bool" where
  "is_tightening cur nxt \<longleftrightarrow>
     gr_threshold nxt \<le> gr_threshold cur \<and> gr_delay nxt \<ge> gr_delay cur \<and> gr_window nxt \<le> gr_window cur \<and>
     capacity (gr_rate nxt) \<le> capacity (gr_rate cur) \<and>
     refill_per_second (gr_rate nxt) \<le> refill_per_second (gr_rate cur)"

definition subset_of :: "'a list \<Rightarrow> 'a list \<Rightarrow> bool" where
  "subset_of small big \<longleftrightarrow> list_all (\<lambda>x. x \<in> set big) small"

definition is_policy_tightening :: "agent_policy \<Rightarrow> agent_policy \<Rightarrow> bool" where
  "is_policy_tightening cur nxt \<longleftrightarrow>
     \<not> (ap_allowed_action nxt \<noteq> ap_allowed_action cur \<or> \<not> subset_of (ap_order_tokens nxt) (ap_order_tokens cur) \<or>
        ap_settlement_signer nxt \<noteq> ap_settlement_signer cur) \<and>
     (ap_valid_until cur = 0 \<or> ap_valid_until nxt \<noteq> 0 \<and> ap_valid_until nxt \<le> ap_valid_until cur) \<and>
     (case ap_ad_scope cur of
        None \<Rightarrow> True
      | Some c \<Rightarrow> (case ap_ad_scope nxt of None \<Rightarrow> False | Some n \<Rightarrow> subset_of n c)) \<and>
     list_all (\<lambda>l. case limit_for cur (tk_token l) of
        Some c \<Rightarrow> tk_max_per_order l \<le> tk_max_per_order c \<and> capacity (tk_rate l) \<le> capacity (tk_rate c) \<and>
          refill_per_second (tk_rate l) \<le> refill_per_second (tk_rate c)
      | None \<Rightarrow> False) (ap_ad_tokens nxt)"

definition is_limit_tightening :: "account_volume option \<Rightarrow> limit \<Rightarrow> bool" where
  "is_limit_tightening cur nxt \<longleftrightarrow>
     (case cur of
        Some v \<Rightarrow> capacity nxt \<le> capacity (av_limit v) \<and> refill_per_second nxt \<le> refill_per_second (av_limit v)
      | None \<Rightarrow> False)"

definition carry_row :: "agent_policy \<Rightarrow> u64 \<Rightarrow> token_limit \<Rightarrow> agent_policy \<Rightarrow> agent_policy" where
  "carry_row cur t l nxt =
     (case bucket_for cur (tk_token l) of
        None \<Rightarrow> nxt
      | Some b \<Rightarrow>
          (case limit_for cur (tk_token l) of
             None \<Rightarrow> nxt
           | Some c \<Rightarrow>
               put_bucket (tk_token l)
                 \<lparr>level = min (available (tk_rate c) b t) (capacity (tk_rate l)), last_ts = t\<rparr> nxt))"

definition carry_buckets :: "agent_policy \<Rightarrow> agent_policy \<Rightarrow> u64 \<Rightarrow> agent_policy" where
  "carry_buckets cur nxt t = fold (carry_row cur t) (ap_ad_tokens nxt) nxt"

section \<open>Install-time validation\<close>

definition validate_limit :: "limit \<Rightarrow> (account_error, unit) res" where
  "validate_limit l = (if capacity l = 0 \<or> refill_per_second l = 0 then Fail AcBadPolicy else Ok ())"

definition validate_token_limit :: "token_limit \<Rightarrow> (account_error, unit) res" where
  "validate_token_limit l =
     attempt (validate_limit (tk_rate l)) (\<lambda>_.
     if tk_max_per_order l = 0 \<or> tk_max_per_order l > capacity (tk_rate l) then Fail AcBadPolicy else Ok ())"

definition check_token :: "bytes32 \<Rightarrow> bytes32 list \<Rightarrow> (account_error, unit) res" where
  "check_token t seen =
     (if is_zero_bytes32 t then Fail AcBadPolicy else if t \<in> set seen then Fail AcBadPolicy else Ok ())"

text \<open>The loops of \<open>validate\<close>; \<open>seen\<close> holds the entries before the current one.\<close>

fun check_ad_tokens :: "agent_store \<Rightarrow> bytes32 list \<Rightarrow> token_limit list \<Rightarrow> (account_error, unit) res" where
  "check_ad_tokens s seen [] = Ok ()"
| "check_ad_tokens s seen (l # ls) =
     attempt (check_token (tk_token l) seen) (\<lambda>_.
     attempt (validate_token_limit l) (\<lambda>_.
     if get_account_volume s (tk_token l) = None then Fail AcNoVolumeLimit
     else check_ad_tokens s (seen @ [tk_token l]) ls))"

fun check_order_tokens :: "bytes32 list \<Rightarrow> bytes32 list \<Rightarrow> (account_error, unit) res" where
  "check_order_tokens seen [] = Ok ()"
| "check_order_tokens seen (t # ts) =
     attempt (check_token t seen) (\<lambda>_. check_order_tokens (seen @ [t]) ts)"

fun check_ad_scope :: "string list \<Rightarrow> string list \<Rightarrow> (account_error, unit) res" where
  "check_ad_scope seen [] = Ok ()"
| "check_ad_scope seen (a # as) =
     (if a = [] \<or> length a > MAX_AD_ID_BYTES then Fail AcBadPolicy
      else if a \<in> set seen then Fail AcBadPolicy
      else check_ad_scope (seen @ [a]) as)"

definition validate_policy :: "env \<Rightarrow> agent_store \<Rightarrow> agent_policy \<Rightarrow> (account_error, unit) res" where
  "validate_policy E s p =
     (if ap_allowed_action p \<noteq> sym_lock_for_order then Fail AcBadPolicy
      else if ap_ad_tokens p = [] \<or> length (ap_ad_tokens p) > MAX_WHITELIST_TOKENS then Fail AcBadPolicy
      else attempt (check_ad_tokens s [] (ap_ad_tokens p)) (\<lambda>_.
        if ap_order_tokens p = [] \<or> length (ap_order_tokens p) > MAX_WHITELIST_TOKENS then Fail AcBadPolicy
        else attempt (check_order_tokens [] (ap_order_tokens p)) (\<lambda>_.
          if is_zero_bytes32 (ap_settlement_signer p) then Fail AcBadPolicy
          else if ap_valid_until p \<noteq> 0 \<and> (ap_valid_until p \<le> now E \<or> ap_valid_until p > MAX_VALID_UNTIL)
          then Fail AcBadPolicy
          else case ap_ad_scope p of
            None \<Rightarrow> Ok ()
          | Some ads \<Rightarrow>
              if ads = [] \<or> length ads > MAX_AD_SCOPE then Fail AcBadPolicy else check_ad_scope [] ads)))"

end
