(* ===== verification/Agent_Args.thy ===== *)
theory Agent_Args
  imports Agent_Types
begin

text \<open>
  The argument shapes of the calls a schedule can authorize
  (\<open>contracts/agent-account/src/args.rs\<close>): how typed arguments are carried as host values, how they are
  read back, and the decoders shared by \<open>schedule\<close> and the owner's calls. A value that is not of the
  expected type is \<open>None\<close>; the decoders turn it into \<open>BadArgs\<close>, as the sources do.
\<close>

section \<open>Typed values\<close>

fun as_address :: "val \<Rightarrow> address option" where
  "as_address (VAddr a) = Some a" | "as_address _ = None"

fun as_string :: "val \<Rightarrow> string option" where
  "as_string (VStr x) = Some x" | "as_string _ = None"

fun as_symbol :: "val \<Rightarrow> string option" where
  "as_symbol (VSym x) = Some x" | "as_symbol _ = None"

fun as_u32 :: "val \<Rightarrow> u32 option" where
  "as_u32 (VU32 x) = Some x" | "as_u32 _ = None"

fun as_u64 :: "val \<Rightarrow> u64 option" where
  "as_u64 (VU64 x) = Some x" | "as_u64 _ = None"

fun as_u128 :: "val \<Rightarrow> u128 option" where
  "as_u128 (VU128 x) = Some x" | "as_u128 _ = None"

fun as_bool :: "val \<Rightarrow> bool option" where
  "as_bool (VBool x) = Some x" | "as_bool _ = None"

fun as_bytes32 :: "val \<Rightarrow> bytes32 option" where
  "as_bytes32 (VBytes32 x) = Some x" | "as_bytes32 _ = None"

fun as_map :: "val \<Rightarrow> (string \<times> val) list option" where
  "as_map (VMap m) = Some m" | "as_map _ = None"

fun as_vec :: "val \<Rightarrow> val list option" where
  "as_vec (VVec xs) = Some xs" | "as_vec _ = None"

text \<open>A structure is a map with exactly its fields, in the host's order of keys.\<close>

definition fields_of :: "string list \<Rightarrow> val \<Rightarrow> val list option" where
  "fields_of ks v = Option.bind (as_map v) (\<lambda>m. if map fst m = ks then Some (map snd m) else None)"

definition as_limit :: "val \<Rightarrow> limit option" where
  "as_limit v = Option.bind (fields_of [''capacity'', ''refill_per_second''] v) (\<lambda>xs.
     Option.bind (as_u128 (xs ! 0)) (\<lambda>c.
     Option.bind (as_u128 (xs ! 1)) (\<lambda>r. Some \<lparr>capacity = c, refill_per_second = r\<rparr>)))"

definition as_bucket :: "val \<Rightarrow> bucket option" where
  "as_bucket v = Option.bind (fields_of [''last_ts'', ''level''] v) (\<lambda>xs.
     Option.bind (as_u64 (xs ! 0)) (\<lambda>t.
     Option.bind (as_u128 (xs ! 1)) (\<lambda>l. Some \<lparr>level = l, last_ts = t\<rparr>)))"

definition as_token_limit :: "val \<Rightarrow> token_limit option" where
  "as_token_limit v = Option.bind (fields_of [''max_per_order'', ''rate'', ''token''] v) (\<lambda>xs.
     Option.bind (as_u128 (xs ! 0)) (\<lambda>m.
     Option.bind (as_limit (xs ! 1)) (\<lambda>r.
     Option.bind (as_bytes32 (xs ! 2)) (\<lambda>t. Some \<lparr>tk_token = t, tk_max_per_order = m, tk_rate = r\<rparr>))))"

definition as_guard_rail :: "val \<Rightarrow> guard_rail option" where
  "as_guard_rail v = Option.bind (fields_of [''bucket'', ''delay'', ''rate'', ''threshold'', ''window''] v) (\<lambda>xs.
     Option.bind (as_bucket (xs ! 0)) (\<lambda>b.
     Option.bind (as_u64 (xs ! 1)) (\<lambda>d.
     Option.bind (as_limit (xs ! 2)) (\<lambda>r.
     Option.bind (as_u128 (xs ! 3)) (\<lambda>th.
     Option.bind (as_u64 (xs ! 4)) (\<lambda>wd.
       Some \<lparr>gr_threshold = th, gr_delay = d, gr_window = wd, gr_rate = r, gr_bucket = b\<rparr>))))))"

definition as_option :: "(val \<Rightarrow> 'a option) \<Rightarrow> val \<Rightarrow> 'a option option" where
  "as_option f v = (if v = VVoid then Some None else map_option Some (f v))"

definition limit_val :: "limit \<Rightarrow> val" where
  "limit_val l = VMap [(''capacity'', VU128 (capacity l)), (''refill_per_second'', VU128 (refill_per_second l))]"

definition bucket_val :: "bucket \<Rightarrow> val" where
  "bucket_val b = VMap [(''last_ts'', VU64 (last_ts b)), (''level'', VU128 (level b))]"

definition token_limit_val :: "token_limit \<Rightarrow> val" where
  "token_limit_val l = VMap [(''max_per_order'', VU128 (tk_max_per_order l)), (''rate'', limit_val (tk_rate l)),
     (''token'', VBytes32 (tk_token l))]"

definition guard_rail_val :: "guard_rail \<Rightarrow> val" where
  "guard_rail_val g = VMap [(''bucket'', bucket_val (gr_bucket g)), (''delay'', VU64 (gr_delay g)),
     (''rate'', limit_val (gr_rate g)), (''threshold'', VU128 (gr_threshold g)), (''window'', VU64 (gr_window g))]"

definition option_val :: "('a \<Rightarrow> val) \<Rightarrow> 'a option \<Rightarrow> val" where
  "option_val f x = (case x of None \<Rightarrow> VVoid | Some y \<Rightarrow> f y)"

section \<open>Reading arguments\<close>

definition arg :: "(val \<Rightarrow> 'a option) \<Rightarrow> val list \<Rightarrow> nat \<Rightarrow> (account_error, 'a) res" where
  "arg f args i = (if i < length args then ok_or (f (args ! i)) AcBadArgs else Fail AcBadArgs)"

definition arity :: "val list \<Rightarrow> nat \<Rightarrow> (account_error, unit) res" where
  "arity args n = (if length args \<noteq> n then Fail AcBadArgs else Ok ())"

definition typed_vec :: "(val \<Rightarrow> 'a option) \<Rightarrow> val \<Rightarrow> (account_error, unit) res" where
  "typed_vec f v =
     attempt (ok_or (as_vec v) AcBadArgs) (\<lambda>raw. ensure (list_all (\<lambda>x. f x \<noteq> None) raw) AcBadArgs)"

definition map_field :: "(val \<Rightarrow> 'a option) \<Rightarrow> (string \<times> val) list \<Rightarrow> string \<Rightarrow> (account_error, 'a) res" where
  "map_field f m k = attempt (ok_or (map_of m k) AcBadArgs) (\<lambda>v. ok_or (f v) AcBadArgs)"

text \<open>The amount a lock takes out of the ad, in the ad token's units.\<close>

definition lock_amount :: "(string \<times> val) list \<Rightarrow> (account_error, u128) res" where
  "lock_amount m =
     attempt (map_field as_u128 m ''amount'') (\<lambda>amount.
     attempt (map_field as_u32 m ''order_decimals'') (\<lambda>order_decimals.
     attempt (map_field as_u32 m ''ad_decimals'') (\<lambda>ad_decimals.
     map_err (\<lambda>_. AcBadArgs) (scale amount order_decimals ad_decimals))))"

definition decode_ad_call :: "string \<Rightarrow> val list \<Rightarrow> (account_error, string \<times> u128) res" where
  "decode_ad_call action args =
     (if action = sym_withdraw_from_ad then
        attempt (arity args 3) (\<lambda>_.
        attempt (arg as_address args 2) (\<lambda>_.
        attempt (arg as_string args 0) (\<lambda>ad_id.
        attempt (arg as_u128 args 1) (\<lambda>amount. Ok (ad_id, amount)))))
      else if action = sym_close_ad then
        attempt (arity args 2) (\<lambda>_.
        attempt (arg as_address args 1) (\<lambda>_.
        attempt (arg as_string args 0) (\<lambda>ad_id. Ok (ad_id, 0))))
      else if action = sym_lock_for_order then
        attempt (arity args 2) (\<lambda>_.
        attempt (arg as_u32 args 1) (\<lambda>_.
        attempt (arg as_map args 0) (\<lambda>m.
        attempt (lock_amount m) (\<lambda>ad_amount.
        attempt (map_field as_string m ''ad_id'') (\<lambda>ad_id. Ok (ad_id, ad_amount))))))
      else if action = sym_set_guard_rail then
        attempt (arity args 2) (\<lambda>_.
        attempt (arg (as_option as_guard_rail) args 1) (\<lambda>_.
        attempt (arg as_string args 0) (\<lambda>ad_id. Ok (ad_id, 0))))
      else if action = sym_set_settlement_signer then
        attempt (arity args 2) (\<lambda>_.
        attempt (arg as_bytes32 args 1) (\<lambda>_.
        attempt (arg as_string args 0) (\<lambda>ad_id. Ok (ad_id, 0))))
      else Fail AcActionNotAllowed)"

definition check_account_call :: "string \<Rightarrow> val list \<Rightarrow> (account_error, unit) res" where
  "check_account_call action args =
     (if action = sym_upgrade then
        attempt (arity args 1) (\<lambda>_. attempt (arg as_bytes32 args 0) (\<lambda>_. Ok ()))
      else if action = sym_set_targets then
        attempt (arity args 1) (\<lambda>_. attempt (arg Some args 0) (typed_vec as_address))
      else if action = sym_set_account_limit then
        attempt (arity args 2) (\<lambda>_.
        attempt (arg as_bytes32 args 0) (\<lambda>_. attempt (arg as_limit args 1) (\<lambda>_. Ok ())))
      else if action = sym_resume_settlement then
        attempt (arity args 1) (\<lambda>_. attempt (arg as_address args 0) (\<lambda>_. Ok ()))
      else if action = sym_sweep then
        attempt (arity args 3) (\<lambda>_.
        attempt (arg as_address args 0) (\<lambda>_.
        attempt (arg as_address args 1) (\<lambda>_. attempt (arg as_u128 args 2) (\<lambda>_. Ok ()))))
      else if action = sym_set_policy then
        attempt (arity args 7) (\<lambda>_.
        attempt (arg as_bytes32 args 0) (\<lambda>agent.
        if agent = 0 then Fail AcBadPolicy
        else attempt (arg as_symbol args 1) (\<lambda>_.
          attempt (arg Some args 2) (\<lambda>v2.
          attempt (typed_vec as_token_limit v2) (\<lambda>_.
          attempt (arg Some args 3) (\<lambda>v3.
          attempt (typed_vec as_bytes32 v3) (\<lambda>_.
          attempt (arg as_u64 args 4) (\<lambda>_.
          attempt (arg as_bytes32 args 5) (\<lambda>_.
          attempt (arg Some args 6) (\<lambda>scp.
          if scp = VVoid then Ok () else typed_vec as_string scp))))))))))
      else Fail AcActionNotAllowed)"

text \<open>The committed form of \<open>set_guard_rail\<close>'s arguments: the bucket zeroed.\<close>

definition zero_bucket :: "guard_rail \<Rightarrow> guard_rail" where
  "zero_bucket g = g\<lparr>gr_bucket := \<lparr>level = 0, last_ts = 0\<rparr>\<rparr>"

definition guard_rail_args :: "string \<Rightarrow> guard_rail option \<Rightarrow> val list" where
  "guard_rail_args ad_id g = [VStr ad_id, option_val guard_rail_val (map_option zero_bucket g)]"

end
