(* ===== verification/Agent_Escrow.thy ===== *)
theory Agent_Escrow
  imports Agent_Args
begin

text \<open>
  What the account checks of a call before it authorizes it
  (\<open>contracts/agent-account/src/escrow.rs\<close>): an agent's lock against its policy, the volume buckets it
  draws on, the spending of a matured schedule, and the guard rail on the owner's calls.
  \<open>commit\<close> is \<open>sha256\<close> of the arguments' XDR (\<open>args_commitment\<close>), a parameter.
\<close>

section \<open>An agent's call\<close>

datatype auth_context =
    CtxContract address string "val list"
  | CtxOther

definition settlement_signer_of :: "(string \<times> val) list \<Rightarrow> (account_error, bytes32) res" where
  "settlement_signer_of lock = map_field as_bytes32 lock ''ad_settlement_signer''"

text \<open>The agent's bucket and the account's, both checked before either is written.\<close>

definition spend_volume ::
  "env \<Rightarrow> bytes32 \<Rightarrow> limit \<Rightarrow> u128 \<Rightarrow> agent_policy \<times> agent_store \<Rightarrow>
   (account_error, agent_policy \<times> agent_store) res" where
  "spend_volume E token agent_limit amount = (\<lambda>(p, s).
     let agent_bucket = (case bucket_for p token of None \<Rightarrow> full_bucket agent_limit (now E) | Some b \<Rightarrow> b) in
     attempt (ok_or (get_account_volume s token) AcNoVolumeLimit) (\<lambda>account.
     attempt (ok_or (try_spend agent_limit agent_bucket amount (now E)) AcVolumeExceeded) (\<lambda>next_agent.
     attempt (ok_or (try_spend (av_limit account) (av_bucket account) amount (now E)) AcVolumeExceeded)
       (\<lambda>next_account.
     Ok (put_bucket token next_agent p,
         set_account_volume token \<lparr>av_limit = av_limit account, av_bucket = next_account\<rparr> s)))))"

definition check_contract_call ::
  "env \<Rightarrow> address list \<Rightarrow> address \<Rightarrow> string \<Rightarrow> val list \<Rightarrow> agent_policy \<times> agent_store \<Rightarrow>
   (account_error, agent_policy \<times> agent_store) res" where
  "check_contract_call E targets contract fn_name args = (\<lambda>(p, s).
     if contract \<notin> set targets then Fail AcTargetNotAllowed
     else if fn_name \<noteq> ap_allowed_action p then Fail AcActionNotAllowed
     else if length args \<noteq> 2 then Fail AcBadArgs
     else
       attempt (arg as_u32 args 1) (\<lambda>_.
       attempt (arg as_map args 0) (\<lambda>lock.
       attempt (map_field as_bytes32 lock ''ad_creator'') (\<lambda>ad_creator.
       attempt (settlement_signer_of lock) (\<lambda>settlement_signer.
       attempt (map_field as_bytes32 lock ''ad_chain_token'') (\<lambda>ad_chain_token.
       attempt (map_field as_bytes32 lock ''order_chain_token'') (\<lambda>order_chain_token.
       attempt (map_field as_string lock ''ad_id'') (\<lambda>ad_id.
       attempt (map_field as_u128 lock ''amount'') (\<lambda>amount.
       attempt (map_field as_u32 lock ''order_decimals'') (\<lambda>order_decimals.
       attempt (map_field as_u32 lock ''ad_decimals'') (\<lambda>ad_decimals.
       if ad_creator \<noteq> address_to_bytes32 (self E) then Fail AcSettlementSignerMismatch
       else if settlement_signer \<noteq> ap_settlement_signer p then Fail AcSettlementSignerMismatch
       else attempt (ok_or (limit_for p ad_chain_token) AcTokenNotAllowed) (\<lambda>token_limit.
       if order_chain_token \<notin> set (ap_order_tokens p) then Fail AcTokenNotAllowed
       else if \<not> ad_in_scope p ad_id then Fail AcAdNotAllowed
       else attempt (map_err (\<lambda>_. AcBadArgs) (scale amount order_decimals ad_decimals)) (\<lambda>ad_amount.
       if ad_amount = 0 then Fail AcBadArgs
       else if ad_amount > tk_max_per_order token_limit then Fail AcCapExceeded
       else spend_volume E ad_chain_token (tk_rate token_limit) ad_amount (p, s))))))))))))))"

section \<open>A matured schedule\<close>

definition spend ::
  "(val list \<Rightarrow> bytes32) \<Rightarrow> scope \<Rightarrow> string \<Rightarrow> val list \<Rightarrow> u64 \<Rightarrow> agent_store \<Rightarrow> (account_error, agent_store) res" where
  "spend commit sc action args t s =
     attempt (ok_or (get_schedule s sc action) AcNotScheduled) (\<lambda>x.
     if sc_commitment x \<noteq> commit args \<or> t < sc_ready_at x \<or> t \<ge> sc_expires_at x then Fail AcNotScheduled
     else Ok (clear_schedule sc action s))"

section \<open>The owner's calls\<close>

definition check_owner_call ::
  "(val list \<Rightarrow> bytes32) \<Rightarrow> env \<Rightarrow> string \<Rightarrow> val list \<Rightarrow> agent_store \<Rightarrow> (account_error, agent_store) res" where
  "check_owner_call commit E fn_name args s =
     (if is_token_function fn_name then Fail AcFunctionNotAllowed
      else if fn_name = sym_resume_settlement then
        attempt (check_account_call fn_name args) (\<lambda>_.
        if any_guarded s then spend commit AccountScope fn_name args (now E) s else Ok s)
      else if fn_name \<noteq> sym_withdraw_from_ad \<and> fn_name \<noteq> sym_close_ad \<and> fn_name \<noteq> sym_lock_for_order \<and>
              fn_name \<noteq> sym_set_settlement_signer then
        (if any_guarded s \<and> fn_name \<notin> set instant_escrow_calls then Fail AcFunctionNotAllowed else Ok s)
      else
        attempt (decode_ad_call fn_name args) (\<lambda>(ad_id, amount).
        if \<not> is_guarded s ad_id then Ok s
        else attempt (ok_or (get_guard_rail s ad_id) AcGuardRailArchived) (\<lambda>g.
          if (if fn_name = sym_close_ad \<or> fn_name = sym_set_settlement_signer then True
              else amount > gr_threshold g)
          then spend commit (AdScope ad_id) fn_name args (now E) s
          else attempt (ok_or (try_spend (gr_rate g) (gr_bucket g) amount (now E)) AcVolumeExceeded) (\<lambda>nxt.
            put_guard_rail ad_id (g\<lparr>gr_bucket := nxt\<rparr>) s))))"

end
