(* ===== verification/Agent_Account.thy ===== *)
theory Agent_Account
  imports Agent_Escrow
begin

text \<open>
  The account's entry points (\<open>contracts/agent-account/src/{lib,owner,auth}.rs\<close>): the constructor and the
  owner's setters, the guard rails and their schedules, the authorization check agents go through, and
  the owner's calls on a pinned escrow. The record \<open>agent_port\<close> holds what lies behind the account:
  the commitment of an argument list, and an escrow's views and calls (\<open>None\<close> is a trap); an entry point
  prefixed \<open>ac_\<close> carries the sources' name after the prefix.
\<close>

datatype auth_entry =
    EContract address string "val list" "auth_entry list"
  | EOther

record 'w agent_port =
  apt_commit :: "val list \<Rightarrow> bytes32"
  apt_view :: "address \<Rightarrow> string \<Rightarrow> val list \<Rightarrow> 'w \<Rightarrow> val option"
  apt_invoke :: "env \<Rightarrow> address \<Rightarrow> string \<Rightarrow> val list \<Rightarrow> auth_entry list \<Rightarrow> 'w \<Rightarrow> (val \<times> 'w) option"

section \<open>Construction and targets\<close>

definition ac_constructor ::
  "env \<Rightarrow> address \<Rightarrow> address list \<Rightarrow> agent_store \<Rightarrow> (account_error, agent_store) res" where
  "ac_constructor E owner_addr targets s =
     (if owner_addr = self E then Fail AcBadOwner
      else attempt (aa_set_targets E targets (aa_set_owner owner_addr s)) (\<lambda>s. Ok (set_schema_version s)))"

text \<open>The owner, who must have authorized the call.\<close>

definition by_owner :: "env \<Rightarrow> agent_store \<Rightarrow> (account_error, address) res" where
  "by_owner E s = attempt (aa_get_owner s) (\<lambda>o'. attempt (require_auth E o') (\<lambda>_. Ok o'))"

definition ac_set_targets ::
  "'w agent_port \<Rightarrow> env \<Rightarrow> address list \<Rightarrow> agent_store \<Rightarrow> (account_error, agent_store) res" where
  "ac_set_targets P E targets s =
     attempt (by_owner E s) (\<lambda>_.
     attempt
       (if any_guarded s \<and> list_ex (\<lambda>t. t \<notin> set (get_targets s)) targets then
          spend (apt_commit P) AccountScope sym_set_targets [VVec (map VAddr targets)] (now E) s
        else Ok s)
       (aa_set_targets E targets))"

section \<open>Policies and limits\<close>

definition policy_args :: "bytes32 \<Rightarrow> agent_policy \<Rightarrow> val list" where
  "policy_args agent_id p =
     [VBytes32 agent_id, VSym (ap_allowed_action p), VVec (map token_limit_val (ap_ad_tokens p)),
      VVec (map VBytes32 (ap_order_tokens p)), VU64 (ap_valid_until p), VBytes32 (ap_settlement_signer p),
      option_val (\<lambda>ads. VVec (map VStr ads)) (ap_ad_scope p)]"

definition ac_set_policy ::
  "'w agent_port \<Rightarrow> env \<Rightarrow> bytes32 \<Rightarrow> string \<Rightarrow> token_limit list \<Rightarrow> bytes32 list \<Rightarrow> u64 \<Rightarrow> bytes32 \<Rightarrow>
   string list option \<Rightarrow> agent_store \<Rightarrow> (account_error, agent_store) res" where
  "ac_set_policy P E agent_id allowed_action ad_tokens order_tokens valid_until settlement_signer ad_scope s =
     attempt (by_owner E s) (\<lambda>_.
     if is_zero_bytes32 agent_id then Fail AcBadPolicy
     else if (case get_policy s agent_id of None \<Rightarrow> False | Some q \<Rightarrow> ap_revoked q) then Fail AcAgentRevoked
     else
       let p = \<lparr>ap_allowed_action = allowed_action, ap_ad_tokens = ad_tokens, ap_order_tokens = order_tokens,
                ap_valid_until = valid_until, ap_revoked = False, ap_settlement_signer = settlement_signer,
                ap_ad_scope = ad_scope, ap_buckets = []\<rparr> in
       attempt (validate_policy E s p) (\<lambda>_.
       attempt
         (if any_guarded s then
            (case get_policy s agent_id of
               Some cur \<Rightarrow>
                 if is_policy_tightening cur p then Ok (carry_buckets cur p (now E), s)
                 else attempt (spend (apt_commit P) AccountScope sym_set_policy (policy_args agent_id p) (now E) s)
                        (\<lambda>s. Ok (p, s))
             | None \<Rightarrow>
                 attempt (spend (apt_commit P) AccountScope sym_set_policy (policy_args agent_id p) (now E) s)
                   (\<lambda>s. Ok (p, s)))
          else Ok (p, s)) (\<lambda>(p, s).
       Ok (aa_set_policy agent_id p s))))"

definition ac_set_account_limit ::
  "'w agent_port \<Rightarrow> env \<Rightarrow> bytes32 \<Rightarrow> limit \<Rightarrow> agent_store \<Rightarrow> (account_error, agent_store) res" where
  "ac_set_account_limit P E token lim s =
     attempt (by_owner E s) (\<lambda>_.
     attempt (validate_limit lim) (\<lambda>_.
     let current = get_account_volume s token in
     attempt
       (if any_guarded s \<and> \<not> is_limit_tightening current lim then
          spend (apt_commit P) AccountScope sym_set_account_limit [VBytes32 token, limit_val lim] (now E) s
        else Ok s) (\<lambda>s.
     let b = (case current of
                Some v \<Rightarrow>
                  let settled = available (av_limit v) (av_bucket v) (now E) in
                  \<lparr>level = (if settled > capacity lim then capacity lim else settled), last_ts = now E\<rparr>
              | None \<Rightarrow> full_bucket lim (now E)) in
     Ok (set_account_volume token \<lparr>av_limit = lim, av_bucket = b\<rparr> s))))"

definition revoke_agent :: "env \<Rightarrow> bytes32 \<Rightarrow> agent_store \<Rightarrow> (account_error, agent_store) res" where
  "revoke_agent E agent_id s =
     attempt (by_owner E s) (\<lambda>_.
     attempt (ok_or (get_policy s agent_id) AcNoPolicyForAgent) (\<lambda>p.
     if ap_revoked p then Ok s else Ok (aa_set_policy agent_id (p\<lparr>ap_revoked := True\<rparr>) s)))"

section \<open>Guard rails\<close>

text \<open>The rail \<open>set_guard_rail\<close> stores: the new settings over the old bucket, settled and clamped.\<close>

definition armed_rail :: "guard_rail option \<Rightarrow> guard_rail \<Rightarrow> u64 \<Rightarrow> guard_rail" where
  "armed_rail current g t =
     g\<lparr>gr_bucket := \<lparr>level =
         (case current of
            Some cur \<Rightarrow>
              let l = available (gr_rate cur) (gr_bucket cur) t in
              if l > capacity (gr_rate g) then capacity (gr_rate g) else l
          | None \<Rightarrow> capacity (gr_rate g)), last_ts = t\<rparr>\<rparr>"

text \<open>After arming or tightening: pending changes wait the new delay and close within the new window.\<close>

definition retime ::
  "env \<Rightarrow> string \<Rightarrow> guard_rail \<Rightarrow> u64 \<Rightarrow> u64 \<Rightarrow> u64 \<Rightarrow> u64 \<Rightarrow> agent_store \<Rightarrow> (account_error, agent_store) res" where
  "retime E ad_id armed ad_delay_before ad_window_before account_delay_before account_window_before s =
     attempt (if gr_delay armed > ad_delay_before then
                attempt (cadd (now E) (gr_delay armed)) (\<lambda>t. Ok (restamp (AdScope ad_id) t s))
              else Ok s) (\<lambda>s.
     attempt (if gr_delay armed > account_delay_before then
                attempt (cadd (now E) (gr_delay armed)) (\<lambda>t. Ok (restamp AccountScope t s))
              else Ok s) (\<lambda>s.
     let s = (if gr_window armed < ad_window_before then clamp_windows (AdScope ad_id) (gr_window armed) s else s) in
     Ok (case account_timelock s of
           Inr (_, w) \<Rightarrow> if w < account_window_before then clamp_windows AccountScope w s else s
         | Inl _ \<Rightarrow> s)))"

definition ac_set_guard_rail ::
  "'w agent_port \<Rightarrow> env \<Rightarrow> string \<Rightarrow> guard_rail option \<Rightarrow> agent_store \<Rightarrow> (account_error, agent_store) res" where
  "ac_set_guard_rail P E ad_id rail s =
     attempt (by_owner E s) (\<lambda>_.
     attempt (case rail of Some g \<Rightarrow> check_guard_bounds g | None \<Rightarrow> Ok ()) (\<lambda>_.
     let current = get_guard_rail s ad_id in
     if current = None \<and> is_guarded s ad_id then Fail AcGuardRailArchived
     else
       let loosening = (case current of
             None \<Rightarrow> False
           | Some cur \<Rightarrow> (case rail of None \<Rightarrow> True | Some nxt \<Rightarrow> \<not> is_tightening cur nxt)) in
       attempt
         (if loosening then
            spend (apt_commit P) (AdScope ad_id) sym_set_guard_rail (guard_rail_args ad_id rail) (now E) s
          else Ok s) (\<lambda>s.
       case rail of
         Some g \<Rightarrow>
           if gr_delay g = 0 \<or> gr_window g = 0 then Fail AcBadGuardRail
           else if capacity (gr_rate g) = 0 \<or> refill_per_second (gr_rate g) = 0 then Fail AcBadGuardRail
           else
             let armed = armed_rail current g (now E);
                 ad_delay_before = (case current of None \<Rightarrow> 0 | Some c \<Rightarrow> gr_delay c);
                 ad_window_before = (case current of None \<Rightarrow> - 1 | Some c \<Rightarrow> gr_window c);
                 account_before = (case account_timelock s of Inr dw \<Rightarrow> dw | Inl _ \<Rightarrow> (0, - 1)) in
             attempt (put_guard_rail ad_id armed s) (\<lambda>s.
             if loosening then Ok (clear_all_schedules ad_id s)
             else retime E ad_id armed ad_delay_before ad_window_before (fst account_before) (snd account_before) s)
       | None \<Rightarrow> Ok (clear_all_schedules ad_id (remove_guard_rail ad_id s)))))"

section \<open>Reading the escrow's ad\<close>

definition require_target :: "agent_store \<Rightarrow> address \<Rightarrow> (account_error, unit) res" where
  "require_target s target = (if target \<in> set (get_targets s) then Ok () else Fail AcTargetNotAllowed)"

definition require_ad_token :: "address \<Rightarrow> bytes32 \<Rightarrow> (account_error, unit) res" where
  "require_ad_token token ad_token =
     (if is_native_token ad_token then Ok ()
      else case bytes32_to_token_address ad_token of
             Some t \<Rightarrow> if t = token then Ok () else Fail AcBadArgs
           | None \<Rightarrow> Fail AcBadArgs)"

text \<open>\<open>get_ad\<close> of an escrow as an optional map; a call that traps or answers with another type traps.\<close>

definition ad_view :: "'w agent_port \<Rightarrow> address \<Rightarrow> string \<Rightarrow> 'w \<Rightarrow> (account_error, (string \<times> val) list option) res" where
  "ad_view P escrow ad_id w =
     attempt (ok_or_trap (apt_view P escrow ''get_ad'' [VStr ad_id] w)) (\<lambda>v.
     ok_or_trap (as_option as_map v))"

definition ad_token_of :: "'w agent_port \<Rightarrow> address \<Rightarrow> string \<Rightarrow> 'w \<Rightarrow> (account_error, bytes32) res" where
  "ad_token_of P ad_manager ad_id w =
     attempt (ad_view P ad_manager ad_id w) (\<lambda>ad.
     ok_or (Option.bind ad (\<lambda>m. Option.bind (map_of m ''token'') as_bytes32)) AcBadArgs)"

definition is_closed_ad :: "'w agent_port \<Rightarrow> env \<Rightarrow> address \<Rightarrow> string \<Rightarrow> 'w \<Rightarrow> (account_error, bool) res" where
  "is_closed_ad P E escrow ad_id w =
     attempt (ad_view P escrow ad_id w) (\<lambda>ad.
     case ad of
       None \<Rightarrow> Ok False
     | Some m \<Rightarrow>
         attempt (map_field as_address m ''maker'') (\<lambda>maker.
         attempt (map_field as_bool m ''open'') (\<lambda>is_open.
         attempt (map_field as_u128 m ''balance'') (\<lambda>balance.
         attempt (map_field as_u128 m ''locked'') (\<lambda>locked.
         Ok (maker = self E \<and> \<not> is_open \<and> balance = 0 \<and> locked = 0))))))"

definition disarm_closed_ad ::
  "'w agent_port \<Rightarrow> env \<Rightarrow> address \<Rightarrow> string \<Rightarrow> agent_store \<Rightarrow> 'w \<Rightarrow> (account_error, agent_store) res" where
  "disarm_closed_ad P E escrow ad_id s w =
     attempt (by_owner E s) (\<lambda>_.
     attempt (require_target s escrow) (\<lambda>_.
     if \<not> is_guarded s ad_id then Fail AcNoGuardRail
     else attempt (is_closed_ad P E escrow ad_id w) (\<lambda>closed.
       if \<not> closed then Fail AcAdNotClosed
       else attempt (timelock_without s None) (\<lambda>(delay, window).
         attempt (timelock_without s (Some ad_id)) (\<lambda>(delay_after, window_after).
         if delay_after < delay \<or> window_after > window then Fail AcDisarmLowersTimelock
         else Ok (clear_all_schedules ad_id (remove_guard_rail ad_id s)))))))"

section \<open>Schedules\<close>

definition guard_rail_for_schedule :: "agent_store \<Rightarrow> string \<Rightarrow> (account_error, guard_rail) res" where
  "guard_rail_for_schedule s ad_id =
     (case get_guard_rail s ad_id of
        Some g \<Rightarrow> Ok g
      | None \<Rightarrow> if is_guarded s ad_id then Fail AcGuardRailArchived else Fail AcNoGuardRail)"

definition window_from_now :: "env \<Rightarrow> u64 \<Rightarrow> u64 \<Rightarrow> (account_error, u64 \<times> u64) res" where
  "window_from_now E delay window =
     attempt (ok_or (checked_add (now E) delay) AcBadGuardRail) (\<lambda>ready_at.
     attempt (ok_or (checked_add ready_at window) AcBadGuardRail) (\<lambda>expires_at. Ok (ready_at, expires_at)))"

text \<open>The arguments as committed, and the delay and window that time the row.\<close>

fun schedule_terms :: "scope \<Rightarrow> string \<Rightarrow> val list \<Rightarrow> agent_store \<Rightarrow>
    (account_error, val list \<times> u64 \<times> u64) res" where
  "schedule_terms (AdScope ad_id) action args s =
     attempt (decode_ad_call action args) (\<lambda>(named, _).
     if named \<noteq> ad_id then Fail AcScopeMismatch
     else attempt
       (if action = sym_set_guard_rail then
          attempt (arg (as_option as_guard_rail) args 1) (\<lambda>g.
          attempt (case g of Some nxt \<Rightarrow> check_guard_bounds nxt | None \<Rightarrow> Ok ()) (\<lambda>_.
          Ok (guard_rail_args ad_id g)))
        else Ok args) (\<lambda>args.
       attempt (guard_rail_for_schedule s ad_id) (\<lambda>g. Ok (args, gr_delay g, gr_window g))))"
| "schedule_terms AccountScope action args s =
     attempt (check_account_call action args) (\<lambda>_.
     attempt (account_timelock s) (\<lambda>(d, w). Ok (args, d, w)))"

definition ac_schedule ::
  "'w agent_port \<Rightarrow> env \<Rightarrow> scope \<Rightarrow> string \<Rightarrow> val list \<Rightarrow> agent_store \<Rightarrow> (account_error, agent_store) res" where
  "ac_schedule P E sc action args s =
     attempt (by_owner E s) (\<lambda>_.
     attempt (schedule_terms sc action args s) (\<lambda>(args, delay, window).
     attempt (window_from_now E delay window) (\<lambda>(ready_at, expires_at).
     Ok (set_schedule sc action
           \<lparr>sc_commitment = apt_commit P args, sc_ready_at = ready_at, sc_expires_at = expires_at\<rparr> s))))"

definition ac_cancel :: "env \<Rightarrow> scope \<Rightarrow> string \<Rightarrow> agent_store \<Rightarrow> (account_error, agent_store) res" where
  "ac_cancel E sc action s =
     attempt (by_owner E s) (\<lambda>_.
     if get_schedule s sc action = None then Fail AcNotScheduled else Ok (clear_schedule sc action s))"

section \<open>Code\<close>

definition ac_upgrade ::
  "'w agent_port \<Rightarrow> env \<Rightarrow> bytes32 \<Rightarrow> agent_store \<Rightarrow> (account_error, agent_store) res" where
  "ac_upgrade P E new_wasm_hash s =
     attempt (by_owner E s) (\<lambda>_.
     attempt (if any_guarded s then spend (apt_commit P) AccountScope sym_upgrade [VBytes32 new_wasm_hash] (now E) s
              else Ok s) (\<lambda>s. Ok (s\<lparr>aa_code := Some new_wasm_hash\<rparr>)))"

definition ac_migrate :: "env \<Rightarrow> agent_store \<Rightarrow> (account_error, u32 \<times> agent_store) res" where
  "ac_migrate E s =
     attempt (by_owner E s) (\<lambda>_.
     if get_schema_version s > SCHEMA_VERSION then Fail AcSchemaTooNew
     else Ok (SCHEMA_VERSION, set_schema_version s))"

section \<open>The owner's ad actions\<close>

definition to_i128 :: "u128 \<Rightarrow> (account_error, int) res" where
  "to_i128 amount = (if unat amount < 2 ^ 127 then Ok (int (unat amount)) else Fail AcBadArgs)"

text \<open>The tokens an approval's transfers name, added to those already collected.\<close>

fun approved_tokens :: "address \<Rightarrow> address \<Rightarrow> bool \<Rightarrow> auth_entry \<Rightarrow> address list \<Rightarrow>
    (account_error, address list) res"
and approved_all :: "address \<Rightarrow> address \<Rightarrow> bool \<Rightarrow> auth_entry list \<Rightarrow> address list \<Rightarrow>
    (account_error, address list) res" where
  "approved_tokens me target root EOther tokens = Fail AcBadApproval"
| "approved_tokens me target root (EContract c f args subs) tokens =
     (if f = ''transfer'' then
        attempt (map_err (\<lambda>_. AcBadApproval) (arg as_address args 0)) (\<lambda>src.
        if src \<noteq> me \<or> subs \<noteq> [] then Fail AcBadApproval
        else Ok (if c \<in> set tokens then tokens else tokens @ [c]))
      else if root \<and> f = ''open_dispute'' then
        attempt (map_err (\<lambda>_. AcBadApproval) (arg as_address args 0)) (\<lambda>a0.
        attempt (if a0 \<noteq> target then Ok True
                 else attempt (map_err (\<lambda>_. AcBadApproval) (arg as_address args 3)) (\<lambda>a3. Ok (a3 \<noteq> me))) (\<lambda>bad.
        if bad then Fail AcBadApproval else approved_all me target False subs tokens))
      else if root \<and> f = ''record_response'' then
        if subs \<noteq> [] then Fail AcBadApproval
        else
          attempt (map_err (\<lambda>_. AcBadApproval) (arg as_address args 0)) (\<lambda>a0.
          attempt (if a0 \<noteq> target then Ok True
                   else attempt (map_err (\<lambda>_. AcBadApproval) (arg as_address args 2)) (\<lambda>a2. Ok (a2 \<noteq> me))) (\<lambda>bad.
          if bad then Fail AcBadApproval else Ok tokens))
      else Fail AcBadApproval)"
| "approved_all me target root [] tokens = Ok tokens"
| "approved_all me target root (e # es) tokens =
     attempt (approved_tokens me target root e tokens) (approved_all me target root es)"

definition transfer_approval :: "address \<Rightarrow> address \<Rightarrow> address \<Rightarrow> int \<Rightarrow> auth_entry" where
  "transfer_approval token src to amount =
     EContract token ''transfer'' [VAddr src, VAddr to, VI128 amount] []"

definition call_with ::
  "'w agent_port \<Rightarrow> 'w ext \<Rightarrow> env \<Rightarrow> address \<Rightarrow> address \<Rightarrow> string \<Rightarrow> val list \<Rightarrow> (address \<times> u128) option \<Rightarrow>
   auth_entry list \<Rightarrow> 'w \<Rightarrow> (account_error, val \<times> 'w) res" where
  "call_with P X E owner_addr target fn_name args pay approvals w =
     attempt (approved_all (self E) target True approvals []) (\<lambda>tokens.
     let tokens = (case pay of None \<Rightarrow> tokens | Some (t, _) \<Rightarrow> if t \<in> set tokens then tokens else tokens @ [t]);
         before = map (\<lambda>t. tok_balance X t (self E) w) tokens in
     attempt
       (case pay of
          None \<Rightarrow> Ok w
        | Some (t, amount) \<Rightarrow>
            attempt (to_i128 amount) (\<lambda>a. ok_or_trap (tok_transfer X E t owner_addr (self E) a w))) (\<lambda>w1.
     attempt (ok_or_trap (apt_invoke P E target fn_name args approvals w1)) (\<lambda>(ret, w2).
     if map (\<lambda>t. tok_balance X t (self E) w2) tokens \<noteq> before then Fail AcFundsLeft
     else Ok (ret, w2))))"

definition pay_and_call ::
  "'w agent_port \<Rightarrow> 'w ext \<Rightarrow> env \<Rightarrow> address \<Rightarrow> address \<Rightarrow> string \<Rightarrow> val list \<Rightarrow> address \<Rightarrow> u128 \<Rightarrow> 'w \<Rightarrow>
   (account_error, 'w) res" where
  "pay_and_call P X E owner_addr escrow fn_name args token amount w =
     attempt (to_i128 amount) (\<lambda>a.
     attempt (call_with P X E owner_addr escrow fn_name args (Some (token, amount))
       [transfer_approval token (self E) escrow a] w) (\<lambda>(_, w'). Ok w'))"

definition ac_create_ad ::
  "'w agent_port \<Rightarrow> 'w ext \<Rightarrow> env \<Rightarrow> address \<Rightarrow> address \<Rightarrow> string \<Rightarrow> bytes32 \<Rightarrow> u128 \<Rightarrow> u128 \<Rightarrow> bytes32 \<Rightarrow> bytes32 \<Rightarrow>
   agent_store \<Rightarrow> 'w \<Rightarrow> (account_error, 'w) res" where
  "ac_create_ad P X E ad_manager token ad_id ad_token amount order_chain_id ad_recipient settlement_signer s w =
     attempt (by_owner E s) (\<lambda>owner_addr.
     attempt (require_target s ad_manager) (\<lambda>_.
     attempt (require_ad_token token ad_token) (\<lambda>_.
     pay_and_call P X E owner_addr ad_manager ''create_ad''
       [VAddr (self E), VStr ad_id, VBytes32 ad_token, VU128 amount, VU128 order_chain_id,
        VBytes32 ad_recipient, VBytes32 settlement_signer] token amount w)))"

definition ac_fund_ad ::
  "'w agent_port \<Rightarrow> 'w ext \<Rightarrow> env \<Rightarrow> address \<Rightarrow> address \<Rightarrow> string \<Rightarrow> u128 \<Rightarrow> agent_store \<Rightarrow> 'w \<Rightarrow>
   (account_error, 'w) res" where
  "ac_fund_ad P X E ad_manager token ad_id amount s w =
     attempt (by_owner E s) (\<lambda>owner_addr.
     attempt (require_target s ad_manager) (\<lambda>_.
     attempt (ad_token_of P ad_manager ad_id w) (\<lambda>ad_token.
     attempt (require_ad_token token ad_token) (\<lambda>_.
     pay_and_call P X E owner_addr ad_manager ''fund_ad'' [VStr ad_id, VU128 amount] token amount w))))"

definition ac_call ::
  "'w agent_port \<Rightarrow> 'w ext \<Rightarrow> env \<Rightarrow> address \<Rightarrow> string \<Rightarrow> val list \<Rightarrow> (address \<times> u128) option \<Rightarrow> auth_entry list \<Rightarrow>
   agent_store \<Rightarrow> 'w \<Rightarrow> (account_error, val \<times> agent_store \<times> 'w) res" where
  "ac_call P X E target fn_name args pay approvals s w =
     attempt (by_owner E s) (\<lambda>owner_addr.
     attempt (require_target s target) (\<lambda>_.
     attempt (check_owner_call (apt_commit P) E fn_name args s) (\<lambda>s'.
     attempt (call_with P X E owner_addr target fn_name args pay approvals w) (\<lambda>(ret, w').
     Ok (ret, s', w')))))"

definition ac_sweep ::
  "'w agent_port \<Rightarrow> 'w ext \<Rightarrow> env \<Rightarrow> address \<Rightarrow> address \<Rightarrow> u128 \<Rightarrow> agent_store \<Rightarrow> 'w \<Rightarrow>
   (account_error, agent_store \<times> 'w) res" where
  "ac_sweep P X E token to amount s w =
     attempt (by_owner E s) (\<lambda>_.
     attempt (if any_guarded s then
                spend (apt_commit P) AccountScope sym_sweep [VAddr token, VAddr to, VU128 amount] (now E) s
              else Ok s) (\<lambda>s.
     attempt (to_i128 amount) (\<lambda>a.
     attempt (ok_or_trap (tok_transfer X E token (self E) to a w)) (\<lambda>w'. Ok (s, w')))))"

section \<open>The authorization check\<close>

datatype account_sig =
    SigOwner
  | SigAgent bytes32 bytes
  | SigAgentSecp sig64 u32

definition verify_ed25519 :: "curve \<Rightarrow> bytes32 \<Rightarrow> bytes32 \<Rightarrow> bytes \<Rightarrow> (account_error, bytes32) res" where
  "verify_ed25519 K payload pubkey sig =
     attempt (guarded (ed25519_ok K pubkey (be_bytes 32 payload) sig)) (\<lambda>_. Ok pubkey)"

definition verify_secp :: "curve \<Rightarrow> env \<Rightarrow> bytes32 \<Rightarrow> sig64 \<Rightarrow> u32 \<Rightarrow> (account_error, bytes32) res" where
  "verify_secp K E payload sig recovery_id =
     attempt (recover_evm_address (secp_recover K) (keccak256 (prims E)) payload sig recovery_id) (\<lambda>found.
     attempt (ok_or found AcBadSignature) (\<lambda>addr. Ok (evm_address_to_bytes32 addr)))"

fun agent_of :: "curve \<Rightarrow> env \<Rightarrow> bytes32 \<Rightarrow> account_sig \<Rightarrow> (account_error, bytes32) res" where
  "agent_of K E payload SigOwner = Fail AcOwnerPathRetired"
| "agent_of K E payload (SigAgent pubkey sig) = verify_ed25519 K payload pubkey sig"
| "agent_of K E payload (SigAgentSecp sig v) = verify_secp K E payload sig v"

fun check_contexts :: "env \<Rightarrow> address list \<Rightarrow> auth_context list \<Rightarrow> agent_policy \<times> agent_store \<Rightarrow>
    (account_error, agent_policy \<times> agent_store) res" where
  "check_contexts E targets [] ps = Ok ps"
| "check_contexts E targets (CtxContract c f args # ctxs) ps =
     attempt (check_contract_call E targets c f args ps) (check_contexts E targets ctxs)"
| "check_contexts E targets (CtxOther # ctxs) ps = Fail AcUnsupportedContext"

definition check_auth ::
  "curve \<Rightarrow> env \<Rightarrow> bytes32 \<Rightarrow> account_sig \<Rightarrow> auth_context list \<Rightarrow> agent_store \<Rightarrow>
   (account_error, agent_store) res" where
  "check_auth K E payload sig ctxs s =
     attempt (agent_of K E payload sig) (\<lambda>agent_id.
     attempt (ok_or (get_policy s agent_id) AcNoPolicyForAgent) (\<lambda>p.
     if ap_revoked p then Fail AcAgentRevoked
     else if ap_valid_until p \<noteq> 0 \<and> now E \<ge> ap_valid_until p then Fail AcPolicyExpired
     else if ctxs = [] then Fail AcUnsupportedContext
     else attempt (check_contexts E (get_targets s) ctxs (p, s)) (\<lambda>(p', s').
       Ok (aa_set_policy agent_id p' s'))))"

end
