(* ===== verification/Agent_Calls.thy ===== *)
theory Agent_Calls
  imports Agent_Account
begin

text \<open>
  The account as one machine: its calls, its runs with the trace of the calls that went through, and
  what each call leaves of the account's records.
\<close>

section \<open>Calls\<close>

datatype agent_call =
    AcTargets "address list"
  | AcPolicy bytes32 string "token_limit list" "bytes32 list" u64 bytes32 "string list option"
  | AcLimit bytes32 limit
  | AcRevoke bytes32
  | AcRail string "guard_rail option"
  | AcDisarm address string
  | AcSchedule scope string "val list"
  | AcCancel scope string
  | AcUpgrade bytes32
  | AcMigrate
  | AcCall address string "val list" "(address \<times> u128) option" "auth_entry list"
  | AcSweep address address u128
  | AcCreateAd address address string bytes32 u128 u128 bytes32 bytes32
  | AcFundAd address address string u128
  | AcAuth bytes32 account_sig "auth_context list"

text \<open>What the account is deployed with.\<close>

record 'w agent_world =
  aw_port :: "'w agent_port"
  aw_ext :: "'w ext"
  aw_curve :: curve

fun aa_exec :: "'w agent_world \<Rightarrow> env \<Rightarrow> agent_call \<Rightarrow> 'w \<Rightarrow> agent_store \<Rightarrow> (account_error, agent_store) res" where
  "aa_exec W E (AcTargets ts) w s = ac_set_targets (aw_port W) E ts s"
| "aa_exec W E (AcPolicy a f ads ords vu sg scp) w s = ac_set_policy (aw_port W) E a f ads ords vu sg scp s"
| "aa_exec W E (AcLimit t l) w s = ac_set_account_limit (aw_port W) E t l s"
| "aa_exec W E (AcRevoke a) w s = revoke_agent E a s"
| "aa_exec W E (AcRail ad r) w s = ac_set_guard_rail (aw_port W) E ad r s"
| "aa_exec W E (AcDisarm esc ad) w s = disarm_closed_ad (aw_port W) E esc ad s w"
| "aa_exec W E (AcSchedule sc a args) w s = ac_schedule (aw_port W) E sc a args s"
| "aa_exec W E (AcCancel sc a) w s = ac_cancel E sc a s"
| "aa_exec W E (AcUpgrade h) w s = ac_upgrade (aw_port W) E h s"
| "aa_exec W E AcMigrate w s = attempt (ac_migrate E s) (\<lambda>(_, s'). Ok s')"
| "aa_exec W E (AcCall tg f args pay aps) w s =
     attempt (ac_call (aw_port W) (aw_ext W) E tg f args pay aps s w) (\<lambda>(_, s', _). Ok s')"
| "aa_exec W E (AcSweep t to a) w s =
     attempt (ac_sweep (aw_port W) (aw_ext W) E t to a s w) (\<lambda>(s', _). Ok s')"
| "aa_exec W E (AcCreateAd am t ad tok a oc r sg) w s =
     attempt (ac_create_ad (aw_port W) (aw_ext W) E am t ad tok a oc r sg s w) (\<lambda>_. Ok s)"
| "aa_exec W E (AcFundAd am t ad a) w s =
     attempt (ac_fund_ad (aw_port W) (aw_ext W) E am t ad a s w) (\<lambda>_. Ok s)"
| "aa_exec W E (AcAuth payload sig ctxs) w s = check_auth (aw_curve W) E payload sig ctxs s"

text \<open>A run from a state at a time, with the trace of its calls: each with its environment, the world it
  ran in and the state it ran from. The ledger's time never goes back.\<close>

type_synonym 'w agent_event = "env \<times> agent_call \<times> 'w \<times> agent_store"

inductive aa_run :: "'w agent_world \<Rightarrow> u64 \<Rightarrow> agent_store \<Rightarrow> 'w agent_event list \<Rightarrow> u64 \<Rightarrow> agent_store \<Rightarrow> bool"
  for W :: "'w agent_world" and t0 :: u64 and s0 :: agent_store where
  run_start: "aa_run W t0 s0 [] t0 s0"
| run_call: "aa_run W t0 s0 T t s \<Longrightarrow> t \<le> now E \<Longrightarrow> aa_exec W E c w s = Inr s' \<Longrightarrow>
    aa_run W t0 s0 (T @ [(E, c, w, s)]) (now E) s'"

definition aa_reach :: "'w agent_world \<Rightarrow> 'w agent_event list \<Rightarrow> u64 \<Rightarrow> agent_store \<Rightarrow> bool" where
  "aa_reach W T t s \<longleftrightarrow>
     (\<exists>E o' ts s0. ac_constructor E o' ts aa_empty = Inr s0 \<and> aa_run W (now E) s0 T t s)"

section \<open>What a lock must satisfy\<close>

text \<open>The reach and size a policy allows a call: a pinned escrow, the policy's action, a lock of one of the
  account's own ads, for tokens and an ad on its lists, its settlement signer and no more than its cap.\<close>

definition lock_fields :: "val list \<Rightarrow> (bytes32 \<times> bytes32 \<times> bytes32 \<times> bytes32 \<times> string \<times> u128) option" where
  "lock_fields args =
     (case args of
        [VMap m, VU32 slot] \<Rightarrow>
          Option.bind (Option.bind (map_of m ''ad_creator'') as_bytes32) (\<lambda>creator.
          Option.bind (Option.bind (map_of m ''ad_settlement_signer'') as_bytes32) (\<lambda>signer.
          Option.bind (Option.bind (map_of m ''ad_chain_token'') as_bytes32) (\<lambda>ad_token.
          Option.bind (Option.bind (map_of m ''order_chain_token'') as_bytes32) (\<lambda>order_token.
          Option.bind (Option.bind (map_of m ''ad_id'') as_string) (\<lambda>ad_id.
          case lock_amount m of Inl _ \<Rightarrow> None | Inr a \<Rightarrow> Some (creator, signer, ad_token, order_token, ad_id, a))))))
      | _ \<Rightarrow> None)"

definition allowed_lock :: "env \<Rightarrow> address list \<Rightarrow> agent_policy \<Rightarrow> auth_context \<Rightarrow> bool" where
  "allowed_lock E targets p ctx \<longleftrightarrow>
     (\<exists>c args ad_token order_token ad_id amount l.
        ctx = CtxContract c (ap_allowed_action p) args \<and> c \<in> set targets \<and>
        lock_fields args =
          Some (address_to_bytes32 (self E), ap_settlement_signer p, ad_token, order_token, ad_id, amount) \<and>
        limit_for p ad_token = Some l \<and> order_token \<in> set (ap_order_tokens p) \<and> ad_in_scope p ad_id \<and>
        0 < amount \<and> amount \<le> tk_max_per_order l)"

text \<open>The token a lock draws on, and how much.\<close>

definition lock_spend :: "bytes32 \<Rightarrow> auth_context \<Rightarrow> nat" where
  "lock_spend token ctx =
     (case ctx of
        CtxContract c f args \<Rightarrow>
          (case lock_fields args of
             Some (_, _, t, _, _, a) \<Rightarrow> if t = token then unat a else 0
           | None \<Rightarrow> 0)
      | CtxOther \<Rightarrow> 0)"

lemma arg_Ok [res_simps]: "arg f args i = Inr x \<longleftrightarrow> i < length args \<and> f (args ! i) = Some x"
  by (auto simp: arg_def res_simps)

lemma map_field_Ok [res_simps]: "map_field f m k = Inr x \<longleftrightarrow> Option.bind (map_of m k) f = Some x"
  by (auto simp: map_field_def res_simps bind_eq_Some_conv)

lemma arity_Ok [res_simps]: "arity args n = Inr u \<longleftrightarrow> length args = n"
  by (simp add: arity_def)

lemma as_Some [simp]:
  "as_u32 v = Some x \<longleftrightarrow> v = VU32 x" "as_map v = Some m \<longleftrightarrow> v = VMap m"
  by (cases v; simp; blast)+

text \<open>A call that passes is an allowed lock, and it draws its amount from two buckets.\<close>

lemma check_contract_call_Ok:
  assumes "check_contract_call E targets c f args (p, s) = Inr (p', s')"
  obtains creator signer ad_token order_token ad_id amount l
  where "c \<in> set targets" "f = ap_allowed_action p"
    "lock_fields args = Some (address_to_bytes32 (self E), ap_settlement_signer p, ad_token, order_token, ad_id, amount)"
    "limit_for p ad_token = Some l" "order_token \<in> set (ap_order_tokens p)" "ad_in_scope p ad_id"
    "0 < amount" "amount \<le> tk_max_per_order l"
    "spend_volume E ad_token (tk_rate l) amount (p, s) = Inr (p', s')"
proof -
  from assms have len: "length args = 2" by (simp add: check_contract_call_def split: if_splits)
  then obtain v0 v1 where args: "args = [v0, v1]" by (auto simp: length_Suc_conv numeral_2_eq_2)
  from assms obtain m slot creator signer at ot ad a od ad' l amt where v: "v0 = VMap m" "v1 = VU32 slot"
    and f: "c \<in> set targets" "f = ap_allowed_action p"
    "Option.bind (map_of m ''ad_creator'') as_bytes32 = Some creator"
    "Option.bind (map_of m ''ad_settlement_signer'') as_bytes32 = Some signer"
    "Option.bind (map_of m ''ad_chain_token'') as_bytes32 = Some at"
    "Option.bind (map_of m ''order_chain_token'') as_bytes32 = Some ot"
    "Option.bind (map_of m ''ad_id'') as_string = Some ad"
    "Option.bind (map_of m ''amount'') as_u128 = Some a"
    "Option.bind (map_of m ''order_decimals'') as_u32 = Some od"
    "Option.bind (map_of m ''ad_decimals'') as_u32 = Some ad'"
    "creator = address_to_bytes32 (self E)" "signer = ap_settlement_signer p"
    "limit_for p at = Some l" "ot \<in> set (ap_order_tokens p)" "ad_in_scope p ad" "scale a od ad' = Inr amt"
    "amt \<noteq> 0" "\<not> amt > tk_max_per_order l" "spend_volume E at (tk_rate l) amt (p, s) = Inr (p', s')"
    unfolding check_contract_call_def settlement_signer_of_def args
    by (auto simp: res_simps numeral_2_eq_2 split: if_splits)
  have "lock_amount m = Inr amt" using f by (simp add: lock_amount_def map_field_Ok res_simps)
  then have "lock_fields args = Some (address_to_bytes32 (self E), ap_settlement_signer p, at, ot, ad, amt)"
    using f by (simp add: lock_fields_def args v)
  then show thesis using f by (intro that) (auto simp: word_neq_0_conv not_less)
qed

end
