(* ===== verification/Agent_Proofs.thy ===== *)
theory Agent_Proofs
  imports Agent_Calls
begin

text \<open>
  What each call of the account leaves alone: the pending schedules only wait longer or disappear, except
  in \<open>schedule\<close> itself, and the policies, volumes and guard rails change only where the call says so.
\<close>

section \<open>Changes to pending schedules\<close>

definition rows_wait :: "agent_store \<Rightarrow> agent_store \<Rightarrow> bool" where
  "rows_wait s s' \<longleftrightarrow>
     (\<forall>sc a x'. get_schedule s' sc a = Some x' \<longrightarrow>
        (\<exists>x. get_schedule s sc a = Some x \<and> sc_commitment x = sc_commitment x' \<and> sc_ready_at x \<le> sc_ready_at x'))"

definition sched_step :: "agent_store \<Rightarrow> agent_store \<Rightarrow> bool" where
  "sched_step s s' \<longleftrightarrow> rows_wait s s' \<and> (\<exists>f. s' = s\<lparr>aa_schedules := f\<rparr>)"

lemma rows_wait_refl [simp]: "rows_wait s s"
  by (auto simp: rows_wait_def)

lemma rows_waitD:
  assumes "rows_wait s s'" "get_schedule s' sc a = Some x'"
  obtains x where "get_schedule s sc a = Some x" "sc_commitment x = sc_commitment x'" "sc_ready_at x \<le> sc_ready_at x'"
  using assms unfolding rows_wait_def by blast

lemma rows_wait_trans:
  assumes "rows_wait s s1" "rows_wait s1 s2"
  shows "rows_wait s s2"
  unfolding rows_wait_def
proof (intro allI impI)
  fix sc a x2
  assume "get_schedule s2 sc a = Some x2"
  then obtain x1 where 1: "get_schedule s1 sc a = Some x1" "sc_commitment x1 = sc_commitment x2"
    "sc_ready_at x1 \<le> sc_ready_at x2" by (rule rows_waitD [OF assms(2)])
  from 1(1) obtain x where "get_schedule s sc a = Some x" "sc_commitment x = sc_commitment x1"
    "sc_ready_at x \<le> sc_ready_at x1" by (rule rows_waitD [OF assms(1)])
  then show "\<exists>x. get_schedule s sc a = Some x \<and> sc_commitment x = sc_commitment x2 \<and> sc_ready_at x \<le> sc_ready_at x2"
    using 1 by (intro exI [of _ x]) auto
qed

lemma sched_step_refl [simp]: "sched_step s s"
proof -
  have "s = s\<lparr>aa_schedules := aa_schedules s\<rparr>" by simp
  then show ?thesis unfolding sched_step_def by (metis rows_wait_refl)
qed

lemma sched_step_trans: "sched_step s s1 \<Longrightarrow> sched_step s1 s2 \<Longrightarrow> sched_step s s2"
proof -
  assume h: "sched_step s s1" "sched_step s1 s2"
  then obtain f g where "s1 = s\<lparr>aa_schedules := f\<rparr>" "s2 = s1\<lparr>aa_schedules := g\<rparr>" by (auto simp: sched_step_def)
  then have "s2 = s\<lparr>aa_schedules := g\<rparr>" by simp
  then show ?thesis using h rows_wait_trans unfolding sched_step_def by blast
qed

lemma sched_stepD:
  assumes "sched_step s s'"
  shows "aa_owner s' = aa_owner s" "aa_targets s' = aa_targets s" "aa_schema s' = aa_schema s"
    "aa_policies s' = aa_policies s" "aa_volumes s' = aa_volumes s" "aa_rails s' = aa_rails s"
    "aa_roster s' = aa_roster s" "aa_code s' = aa_code s" "rows_wait s s'"
  using assms by (auto simp: sched_step_def)

lemma sched_step_fold:
  "(\<And>x s. sched_step s (f x s)) \<Longrightarrow> sched_step s (fold f xs s)"
  by (induction xs arbitrary: s) (auto intro: sched_step_trans)

lemma sched_step_clear: "sched_step s (clear_schedule sc a s)"
  by (auto simp: sched_step_def rows_wait_def clear_schedule_def get_schedule_def split: if_splits)

lemma sched_step_set:
  assumes "get_schedule s sc a = Some x" "sc_commitment x' = sc_commitment x" "sc_ready_at x \<le> sc_ready_at x'"
  shows "sched_step s (set_schedule sc a x' s)"
  using assms by (auto simp: sched_step_def rows_wait_def set_schedule_def get_schedule_def)

lemma sched_step_restamp: "sched_step s (restamp sc t s)"
  unfolding restamp_def
  by (rule sched_step_fold) (auto simp: restamp_row_def intro: sched_step_set split: option.splits)

lemma sched_step_clamp: "sched_step s (clamp_windows sc t s)"
  unfolding clamp_windows_def
  by (rule sched_step_fold) (auto simp: clamp_row_def Let_def intro: sched_step_set split: option.splits)

lemma sched_step_clear_all: "sched_step s (clear_all_schedules ad s)"
  unfolding clear_all_schedules_def clear_scope_def
  by (rule sched_step_fold, rule sched_step_fold, rule sched_step_clear)

lemma spend_Ok:
  assumes "spend commit sc a args t s = Inr s'"
  obtains x where "get_schedule s sc a = Some x" "sc_commitment x = commit args" "sc_ready_at x \<le> t"
    "t < sc_expires_at x" "s' = clear_schedule sc a s"
  using assms by (auto simp: spend_def res_simps not_less not_le split: if_splits)

lemma spend_step: "spend commit sc a args t s = Inr s' \<Longrightarrow> sched_step s s'"
  by (erule spend_Ok) (simp add: sched_step_clear)

lemma retime_step: "retime E ad g d1 w1 d2 w2 s = Inr s' \<Longrightarrow> sched_step s s'"
proof -
  assume h: "retime E ad g d1 w1 d2 w2 s = Inr s'"
  obtain s1 where s1: "(if gr_delay g > d1 then attempt (cadd (now E) (gr_delay g)) (\<lambda>t. Ok (restamp (AdScope ad) t s))
      else Ok s) = (Inr s1 :: (account_error, agent_store) res)"
    and "\<exists>s2. (if gr_delay g > d2 then attempt (cadd (now E) (gr_delay g)) (\<lambda>t. Ok (restamp AccountScope t s1))
      else Ok s1) = (Inr s2 :: (account_error, agent_store) res) \<and>
      (let s = (if gr_window g < w1 then clamp_windows (AdScope ad) (gr_window g) s2 else s2) in
       (case account_timelock s of
           Inr (_, w) \<Rightarrow> if w < w2 then clamp_windows AccountScope w s else s
         | Inl _ \<Rightarrow> s)) = s'"
    using h unfolding retime_def Let_def attempt_Ok by auto
  then obtain s2 where s2: "(if gr_delay g > d2 then attempt (cadd (now E) (gr_delay g)) (\<lambda>t. Ok (restamp AccountScope t s1))
      else Ok s1) = (Inr s2 :: (account_error, agent_store) res)"
    and s': "(let s = (if gr_window g < w1 then clamp_windows (AdScope ad) (gr_window g) s2 else s2) in
       (case account_timelock s of
           Inr (_, w) \<Rightarrow> if w < w2 then clamp_windows AccountScope w s else s
         | Inl _ \<Rightarrow> s)) = s'" by blast
  let ?s3 = "if gr_window g < w1 then clamp_windows (AdScope ad) (gr_window g) s2 else s2"
  have "sched_step s s1" using s1 by (auto simp: res_simps sched_step_restamp split: if_splits)
  moreover have "sched_step s1 s2" using s2 by (auto simp: res_simps sched_step_restamp split: if_splits)
  moreover have "sched_step s2 ?s3" by (simp add: sched_step_clamp)
  moreover have "sched_step ?s3 s'"
    using s' unfolding Let_def by (auto simp: sched_step_clamp split: sum.splits prod.splits if_split_asm)
  ultimately show ?thesis by (blast intro: sched_step_trans)
qed

text \<open>One rail stored, then only schedules changed.\<close>

definition railed :: "string \<Rightarrow> guard_rail \<Rightarrow> agent_store \<Rightarrow> agent_store" where
  "railed ad g s = s\<lparr>aa_rails := (aa_rails s)(ad \<mapsto> g),
     aa_roster := (if ad \<in> set (aa_roster s) then aa_roster s else aa_roster s @ [ad])\<rparr>"

lemma put_guard_rail_Ok: "put_guard_rail ad g s = Inr s' \<Longrightarrow> s' = railed ad g s"
  by (auto simp: put_guard_rail_def railed_def guarded_ads_def Let_def split: if_splits)

lemma by_owner_Ok [res_simps]: "by_owner E s = Inr o' \<longleftrightarrow> aa_owner s = Some o' \<and> authed E o'"
  by (auto simp: by_owner_def aa_get_owner_def res_simps)

section \<open>The calls by what they change\<close>

lemma set_targets_Ok:
  assumes "ac_set_targets P E ts s = Inr s'"
  obtains s1 where "sched_step s s1" "s' = s1\<lparr>aa_targets := Some ts\<rparr>"
proof -
  obtain s1 where s1: "(if any_guarded s \<and> list_ex (\<lambda>t. t \<notin> set (get_targets s)) ts then
        spend (apt_commit P) AccountScope sym_set_targets [VVec (map VAddr ts)] (now E) s else Ok s) = Inr s1"
    and s': "aa_set_targets E ts s1 = Inr s'"
    using assms unfolding ac_set_targets_def attempt_Ok by blast
  have "sched_step s s1" using s1 by (auto split: if_splits dest: spend_step)
  then show thesis using s' that by (auto simp: aa_set_targets_def split: if_splits)
qed

text \<open>A policy as \<open>set_policy\<close> receives it, and the one it installs: on a guarded account the received
  one after an announcement, or at once one that tightens the current policy, with its buckets carried.\<close>

abbreviation received_policy ::
  "string \<Rightarrow> token_limit list \<Rightarrow> bytes32 list \<Rightarrow> u64 \<Rightarrow> bytes32 \<Rightarrow> string list option \<Rightarrow> agent_policy" where
  "received_policy f ads ords vu sg scp \<equiv>
     \<lparr>ap_allowed_action = f, ap_ad_tokens = ads, ap_order_tokens = ords, ap_valid_until = vu,
      ap_revoked = False, ap_settlement_signer = sg, ap_ad_scope = scp, ap_buckets = []\<rparr>"

lemma set_policy_installs:
  assumes "ac_set_policy P E agent f ads ords vu sg scp s = Inr s'"
  obtains (at_once) cur where "get_policy s agent = Some cur" "\<not> ap_revoked cur"
      "is_policy_tightening cur (received_policy f ads ords vu sg scp)"
      "s' = aa_set_policy agent (carry_buckets cur (received_policy f ads ords vu sg scp) (now E)) s"
    | (fresh) s1 where "sched_step s s1" "s' = aa_set_policy agent (received_policy f ads ords vu sg scp) s1"
      "\<not> (\<exists>q. get_policy s agent = Some q \<and> ap_revoked q)"
      "any_guarded s \<longrightarrow> (\<exists>x. get_schedule s AccountScope sym_set_policy = Some x)"
proof -
  let ?p = "received_policy f ads ords vu sg scp"
  let ?sp = "attempt (spend (apt_commit P) AccountScope sym_set_policy (policy_args agent ?p) (now E) s) (\<lambda>s. Ok (?p, s))"
  have live: "\<not> (\<exists>q. get_policy s agent = Some q \<and> ap_revoked q)"
    using assms by (auto simp: ac_set_policy_def res_simps split: if_splits)
  obtain p1 s1 where s': "s' = aa_set_policy agent p1 s1"
    and pick: "(if any_guarded s then
            (case get_policy s agent of
               Some cur \<Rightarrow> if is_policy_tightening cur ?p then Ok (carry_buckets cur ?p (now E), s) else ?sp
             | None \<Rightarrow> ?sp)
          else Ok (?p, s)) = Inr (p1, s1)"
    using assms by (auto simp: ac_set_policy_def Let_def attempt_Ok split: if_split_asm prod.splits)
  show thesis
  proof (cases "any_guarded s \<and> (\<exists>cur. get_policy s agent = Some cur \<and> is_policy_tightening cur ?p)")
    case True
    then show thesis using pick s' live by (auto intro: at_once)
  next
    case False
    then have "(if any_guarded s then ?sp else Ok (?p, s)) = Inr (p1, s1)"
      using pick by (auto split: option.split_asm if_split_asm)
    then have "p1 = ?p" "sched_step s s1" "any_guarded s \<longrightarrow> (\<exists>x. get_schedule s AccountScope sym_set_policy = Some x)"
      by (auto simp: attempt_Ok split: if_split_asm dest: spend_step elim: spend_Ok)
    then show thesis using s' live by (auto intro: fresh)
  qed
qed

lemma set_policy_Ok:
  assumes "ac_set_policy P E agent f ads ords vu sg scp s = Inr s'"
  obtains s1 p where "sched_step s s1" "s' = aa_set_policy agent p s1"
    "\<not> (\<exists>q. get_policy s agent = Some q \<and> ap_revoked q)"
  using assms
proof (cases rule: set_policy_installs)
  case (at_once cur)
  then show thesis using that [OF sched_step_refl] by auto
qed (use that in blast)

lemma set_account_limit_Ok:
  assumes "ac_set_account_limit P E t l s = Inr s'"
  obtains s1 where "sched_step s s1"
    "s' = set_account_volume t \<lparr>av_limit = l, av_bucket =
       (case get_account_volume s t of
          Some v \<Rightarrow> \<lparr>level = min (available (av_limit v) (av_bucket v) (now E)) (capacity l), last_ts = now E\<rparr>
        | None \<Rightarrow> full_bucket l (now E))\<rparr> s1"
proof -
  have m: "(if a > b then b else a) = min a b" for a b :: u128 by (auto simp: min_def)
  let ?cur = "get_account_volume s t"
  obtain s1 where s1: "(if any_guarded s \<and> \<not> is_limit_tightening ?cur l then
        spend (apt_commit P) AccountScope sym_set_account_limit [VBytes32 t, limit_val l] (now E) s else Ok s) = Inr s1"
    and s': "s' = set_account_volume t \<lparr>av_limit = l, av_bucket =
       (case ?cur of
          Some v \<Rightarrow> \<lparr>level = (if available (av_limit v) (av_bucket v) (now E) > capacity l then capacity l
              else available (av_limit v) (av_bucket v) (now E)), last_ts = now E\<rparr>
        | None \<Rightarrow> full_bucket l (now E))\<rparr> s1"
    using assms unfolding ac_set_account_limit_def Let_def attempt_Ok by auto
  have "sched_step s s1" using s1 by (auto split: if_splits dest: spend_step)
  then show thesis by (rule that [OF _ s' [unfolded m]])
qed

lemma upgrade_Ok:
  assumes "ac_upgrade P E h s = Inr s'"
  obtains s1 where "sched_step s s1" "s' = s1\<lparr>aa_code := Some h\<rparr>"
proof -
  obtain s1 where s1: "(if any_guarded s then spend (apt_commit P) AccountScope sym_upgrade [VBytes32 h] (now E) s
      else Ok s) = Inr s1" and s': "s' = s1\<lparr>aa_code := Some h\<rparr>"
    using assms unfolding ac_upgrade_def attempt_Ok by auto
  have "sched_step s s1" using s1 by (auto split: if_splits dest: spend_step)
  then show thesis using that s' by blast
qed

lemma revoke_agent_Ok:
  assumes "revoke_agent E a s = Inr s'"
  obtains p where "get_policy s a = Some p" "s' = aa_set_policy a (p\<lparr>ap_revoked := True\<rparr>) s \<or> ap_revoked p \<and> s' = s"
  using assms by (auto simp: revoke_agent_def res_simps split: if_splits)

lemma set_guard_rail_Ok:
  assumes "ac_set_guard_rail P E ad r s = Inr s'"
  obtains (armed) g s1 s2 where "r = Some g" "sched_step s s1"
      "sched_step (railed ad (armed_rail (get_guard_rail s ad) g (now E)) s1) s2" "s' = s2"
      "(\<exists>cur. get_guard_rail s ad = Some cur \<and> \<not> is_tightening cur g) \<longrightarrow>
         spend (apt_commit P) (AdScope ad) sym_set_guard_rail (guard_rail_args ad r) (now E) s = Inr s1"
    | (disarmed) s1 where "r = None" "sched_step s s1" "s' = clear_all_schedules ad (remove_guard_rail ad s1)"
      "get_guard_rail s ad \<noteq> None \<longrightarrow>
         spend (apt_commit P) (AdScope ad) sym_set_guard_rail (guard_rail_args ad r) (now E) s = Inr s1"
      "get_guard_rail s ad = None \<longrightarrow> \<not> is_guarded s ad"
proof (cases r)
  case None
  show thesis
  proof (cases "get_guard_rail s ad")
    case None
    then have "s' = clear_all_schedules ad (remove_guard_rail ad s)" "\<not> is_guarded s ad"
      using assms \<open>r = None\<close> by (auto simp: ac_set_guard_rail_def Let_def attempt_Ok split: if_split_asm)
    then show thesis using disarmed [OF \<open>r = None\<close> sched_step_refl] None by simp
  next
    case (Some cur)
    then obtain s1 where sp: "spend (apt_commit P) (AdScope ad) sym_set_guard_rail (guard_rail_args ad r) (now E) s = Inr s1"
      and s': "s' = clear_all_schedules ad (remove_guard_rail ad s1)"
      using assms \<open>r = None\<close> by (auto simp: ac_set_guard_rail_def Let_def attempt_Ok split: if_split_asm)
    show thesis using disarmed [OF \<open>r = None\<close> spend_step [OF sp] s'] sp Some by simp
  qed
next
  case (Some g)
  let ?loose = "case get_guard_rail s ad of None \<Rightarrow> False | Some cur \<Rightarrow> \<not> is_tightening cur g"
  have "\<exists>s1 s2. (if ?loose then spend (apt_commit P) (AdScope ad) sym_set_guard_rail (guard_rail_args ad r) (now E) s else Ok s) = Inr s1 \<and>
      put_guard_rail ad (armed_rail (get_guard_rail s ad) g (now E)) s1 = Inr s2 \<and>
      (s' = clear_all_schedules ad s2 \<or> (\<exists>d1 w1 d2 w2. retime E ad (armed_rail (get_guard_rail s ad) g (now E)) d1 w1 d2 w2 s2 = Inr s'))"
  proof (cases ?loose)
    case True
    then show ?thesis using assms Some
      by (auto simp: ac_set_guard_rail_def Let_def attempt_Ok split: if_split_asm option.split_asm)
  next
    case False
    then show ?thesis using assms Some
      by (auto simp: ac_set_guard_rail_def Let_def attempt_Ok split: if_split_asm option.split_asm)
  qed
  then obtain s1 s2 where
    sp: "(if ?loose then spend (apt_commit P) (AdScope ad) sym_set_guard_rail (guard_rail_args ad r) (now E) s else Ok s) = Inr s1"
    and put: "put_guard_rail ad (armed_rail (get_guard_rail s ad) g (now E)) s1 = Inr s2"
    and fin: "s' = clear_all_schedules ad s2 \<or> (\<exists>d1 w1 d2 w2. retime E ad (armed_rail (get_guard_rail s ad) g (now E)) d1 w1 d2 w2 s2 = Inr s')"
    by blast
  show thesis
  proof (rule armed [OF Some])
    show "sched_step s s1" using sp by (auto split: if_splits dest: spend_step)
    show "sched_step (railed ad (armed_rail (get_guard_rail s ad) g (now E)) s1) s'"
      using fin put_guard_rail_Ok [OF put] by (auto intro: sched_step_clear_all retime_step)
    show "(\<exists>cur. get_guard_rail s ad = Some cur \<and> \<not> is_tightening cur g) \<longrightarrow>
         spend (apt_commit P) (AdScope ad) sym_set_guard_rail (guard_rail_args ad r) (now E) s = Inr s1"
      using sp by auto
  qed simp
qed

end
