(* ===== verification/Agent_Volumes.thy ===== *)
theory Agent_Volumes
  imports Agent_Proofs
begin

text \<open>
  The account-wide volume of a token: what the agents' accepted calls draw in any interval is bounded by
  one bucket, however many agents there are and however often the owner resets the limit. Then the simulation
  between an account and the one a tightening of a policy makes of it: what the second accepts the first does.
\<close>

section \<open>An accepted set of contexts\<close>

lemma same_terms [simp]:
  "limit_for (p\<lparr>ap_buckets := bs\<rparr>) t = limit_for p t"
  "ad_in_scope (p\<lparr>ap_buckets := bs\<rparr>) ad = ad_in_scope p ad"
  "allowed_lock E targets (p\<lparr>ap_buckets := bs\<rparr>) ctx = allowed_lock E targets p ctx"
  by (simp_all add: limit_for_def ad_in_scope_def allowed_lock_def)

lemma spend_volume_Ok:
  assumes "spend_volume E token l amount (p, s) = Inr (p', s')"
  obtains v b bs where "get_account_volume s token = Some v"
    "try_spend (av_limit v) (av_bucket v) amount (now E) = Some b" "p' = p\<lparr>ap_buckets := bs\<rparr>"
    "s' = set_account_volume token \<lparr>av_limit = av_limit v, av_bucket = b\<rparr> s"
  using assms by (auto simp: spend_volume_def Let_def attempt_Ok ok_or_Ok put_bucket_def)

lemma lock_spend_fields:
  "lock_fields args = Some (cr, sg, tk, ot, ad, a) \<Longrightarrow>
     lock_spend token (CtxContract c f args) = (if tk = token then unat a else 0)"
  by (simp add: lock_spend_def)

text \<open>What is left of a token's volume; \<open>C\<close> stands for a volume that is not configured yet.\<close>

definition volume_left :: "nat \<Rightarrow> bytes32 \<Rightarrow> u64 \<Rightarrow> agent_store \<Rightarrow> nat" where
  "volume_left C token t s =
     (case get_account_volume s token of
        None \<Rightarrow> C
      | Some v \<Rightarrow> unat (available (av_limit v) (av_bucket v) t))"

definition volume_ok :: "nat \<Rightarrow> nat \<Rightarrow> bytes32 \<Rightarrow> u64 \<Rightarrow> agent_store \<Rightarrow> bool" where
  "volume_ok C R token t s \<longleftrightarrow>
     (\<forall>v. get_account_volume s token = Some v \<longrightarrow>
        unat (capacity (av_limit v)) \<le> C \<and> unat (refill_per_second (av_limit v)) \<le> R \<and> last_ts (av_bucket v) \<le> t)"

lemma volume_cong:
  "aa_volumes s' = aa_volumes s \<Longrightarrow> volume_left C token t s' = volume_left C token t s"
  "aa_volumes s' = aa_volumes s \<Longrightarrow> volume_ok C R token t s' = volume_ok C R token t s"
  by (simp_all add: volume_left_def volume_ok_def get_account_volume_def)

lemma get_set_volume [simp]:
  "get_account_volume (set_account_volume t v s) u = (if u = t then Some v else get_account_volume s u)"
  by (simp add: get_account_volume_def set_account_volume_def)

lemma try_spend_left:
  assumes "try_spend l b a t = Some b'" "last_ts b \<le> t"
  shows "unat (available l b' t) + unat a = unat (available l b t)" "last_ts b' = t"
proof -
  have b': "unat (level b') + unat a = unat (available l b t)" "unat (last_ts b') = unat t"
    using assms by (auto simp: try_spend_Some word_le_nat_alt max_def)
  then show "last_ts b' = t" by (simp add: word_unat_eq_iff)
  have "unat (level b') \<le> unat (capacity l)" using b'(1) available_le_capacity [of l b t] by linarith
  then show "unat (available l b' t) + unat a = unat (available l b t)" using b' by (simp add: unat_available)
qed

lemma spend_volume_left:
  assumes "spend_volume E tk l amount (p, s) = Inr (p', s')" "volume_ok C R token (now E) s"
  shows "volume_left C token (now E) s' + (if tk = token then unat amount else 0) = volume_left C token (now E) s"
    "volume_ok C R token (now E) s'"
proof -
  obtain v b bs where v: "get_account_volume s tk = Some v"
    "try_spend (av_limit v) (av_bucket v) amount (now E) = Some b"
    "s' = set_account_volume tk \<lparr>av_limit = av_limit v, av_bucket = b\<rparr> s"
    by (rule spend_volume_Ok [OF assms(1)])
  show "volume_left C token (now E) s' + (if tk = token then unat amount else 0) = volume_left C token (now E) s"
    using v assms(2) try_spend_left(1) [OF v(2)] by (auto simp: volume_left_def volume_ok_def)
  show "volume_ok C R token (now E) s'"
    using v assms(2) try_spend_left(2) [OF v(2)] by (auto simp: volume_ok_def)
qed

lemma contexts_Ok:
  assumes "check_contexts E targets ctxs (p, s) = Inr (p', s')"
  shows "(\<exists>bs. p' = p\<lparr>ap_buckets := bs\<rparr>) \<and> (\<exists>f. s' = s\<lparr>aa_volumes := f\<rparr>) \<and>
    (\<forall>ctx \<in> set ctxs. allowed_lock E targets p ctx) \<and>
    (volume_ok C R token (now E) s \<longrightarrow> volume_ok C R token (now E) s' \<and>
       volume_left C token (now E) s' + sum_list (map (lock_spend token) ctxs) = volume_left C token (now E) s)"
  using assms
proof (induction E targets ctxs "(p, s)" arbitrary: p s rule: check_contexts.induct)
  case (1 E targets)
  have "p = p\<lparr>ap_buckets := ap_buckets p\<rparr>" "s = s\<lparr>aa_volumes := aa_volumes s\<rparr>" by simp_all
  then show ?case using 1 by (metis empty_iff empty_set list.map_disc_iff prod.inject sum.inject(2) check_contexts.simps(1)
      sum_list.Nil list.simps(8) add.right_neutral)
next
  case (2 E targets c f args ctxs)
  from "2.prems" obtain p1 s1 where one: "check_contract_call E targets c f args (p, s) = Inr (p1, s1)"
    and rest: "check_contexts E targets ctxs (p1, s1) = Inr (p', s')" by (auto simp: attempt_Ok)
  obtain cr sg tk ot ad a l where cc: "c \<in> set targets" "f = ap_allowed_action p"
    "lock_fields args = Some (address_to_bytes32 (self E), ap_settlement_signer p, tk, ot, ad, a)"
    "limit_for p tk = Some l" "ot \<in> set (ap_order_tokens p)" "ad_in_scope p ad" "0 < a" "a \<le> tk_max_per_order l"
    and sv: "spend_volume E tk (tk_rate l) a (p, s) = Inr (p1, s1)"
    by (rule check_contract_call_Ok [OF one])
  obtain bs v where p1: "p1 = p\<lparr>ap_buckets := bs\<rparr>" and s1: "s1 = set_account_volume tk v s"
    by (rule spend_volume_Ok [OF sv])
  note IH = "2.hyps" [OF one rest]
  have here: "allowed_lock E targets p (CtxContract c f args)" unfolding allowed_lock_def using cc by blast
  have sp: "lock_spend token (CtxContract c f args) = (if tk = token then unat a else 0)"
    by (rule lock_spend_fields [OF cc(3)])
  have "\<exists>bs. p' = p\<lparr>ap_buckets := bs\<rparr>" using IH p1 by auto
  moreover have "\<exists>f. s' = s\<lparr>aa_volumes := f\<rparr>" using IH s1 by (auto simp: set_account_volume_def)
  moreover have "\<forall>ctx \<in> set ctxs. allowed_lock E targets p ctx" using IH p1 by simp
  moreover have "volume_ok C R token (now E) s' \<and>
       volume_left C token (now E) s' + sum_list (map (lock_spend token) (CtxContract c f args # ctxs)) =
       volume_left C token (now E) s" if "volume_ok C R token (now E) s"
    using IH spend_volume_left [OF sv that] sp by simp
  ultimately show ?case using here by simp
next
  case (3 E targets ctxs)
  then show ?case by simp
qed

section \<open>Every other call\<close>

lemma exec_volumes:
  assumes "aa_exec W E c w s = Inr s'" "\<And>t l. c \<noteq> AcLimit t l" "\<And>h sig ctxs. c \<noteq> AcAuth h sig ctxs"
  shows "aa_volumes s' = aa_volumes s"
proof (cases c)
  case (AcTargets ts)
  then have "ac_set_targets (aw_port W) E ts s = Inr s'" using assms by simp
  then show ?thesis by (rule set_targets_Ok) (simp add: sched_stepD)
next
  case (AcPolicy a f ads ords vu sg scp)
  then have "ac_set_policy (aw_port W) E a f ads ords vu sg scp s = Inr s'" using assms by simp
  then show ?thesis by (rule set_policy_Ok) (simp add: sched_stepD aa_set_policy_def)
next
  case (AcRevoke a)
  then have "revoke_agent E a s = Inr s'" using assms by simp
  then show ?thesis by (rule revoke_agent_Ok) (auto simp: aa_set_policy_def)
next
  case (AcRail ad r)
  then have "ac_set_guard_rail (aw_port W) E ad r s = Inr s'" using assms by simp
  then show ?thesis
    by (rule set_guard_rail_Ok)
      (simp_all add: sched_stepD railed_def remove_guard_rail_def sched_stepD [OF sched_step_clear_all])
next
  case (AcDisarm esc ad)
  then show ?thesis using assms
    by (auto simp: disarm_closed_ad_def attempt_Ok remove_guard_rail_def sched_stepD [OF sched_step_clear_all]
        split: if_splits prod.splits)
next
  case (AcCall tg f args pay aps)
  then have "check_owner_call (apt_commit (aw_port W)) E f args s = Inr s'"
    using assms by (auto simp: ac_call_def attempt_Ok)
  then show ?thesis
    by (auto simp: check_owner_call_def attempt_Ok railed_def dest!: spend_step put_guard_rail_Ok
        split: if_splits prod.splits simp: sched_stepD)
next
  case (AcSweep t to a)
  then show ?thesis using assms
    by (auto simp: ac_sweep_def attempt_Ok split: if_splits dest!: spend_step simp: sched_stepD)
next
  case (AcUpgrade h)
  then show ?thesis using assms
    by (auto simp: ac_upgrade_def attempt_Ok split: if_splits dest!: spend_step simp: sched_stepD)
qed (use assms in \<open>auto simp: ac_schedule_def ac_cancel_def ac_migrate_def set_schedule_def clear_schedule_def
    set_schema_version_def attempt_Ok split: if_splits prod.splits\<close>)

lemma exec_same_policies:
  assumes "aa_exec W E c w s = Inr s'" "\<And>a f ads ords vu sg scp. c \<noteq> AcPolicy a f ads ords vu sg scp"
    "\<And>a. c \<noteq> AcRevoke a" "\<And>h sig ctxs. c \<noteq> AcAuth h sig ctxs"
  shows "aa_policies s' = aa_policies s"
proof (cases c)
  case (AcTargets ts)
  then have "ac_set_targets (aw_port W) E ts s = Inr s'" using assms by simp
  then show ?thesis by (rule set_targets_Ok) (simp add: sched_stepD)
next
  case (AcLimit t l)
  then have "ac_set_account_limit (aw_port W) E t l s = Inr s'" using assms by simp
  then show ?thesis by (rule set_account_limit_Ok) (simp add: sched_stepD set_account_volume_def)
next
  case (AcRail ad r)
  then have "ac_set_guard_rail (aw_port W) E ad r s = Inr s'" using assms by simp
  then show ?thesis by (rule set_guard_rail_Ok) (simp_all add: sched_stepD railed_def remove_guard_rail_def sched_stepD [OF sched_step_clear_all])
next
  case (AcDisarm esc ad)
  then show ?thesis using assms
    by (auto simp: disarm_closed_ad_def attempt_Ok remove_guard_rail_def sched_stepD [OF sched_step_clear_all]
        split: if_splits prod.splits)
next
  case (AcCall tg f args pay aps)
  then have "check_owner_call (apt_commit (aw_port W)) E f args s = Inr s'"
    using assms by (auto simp: ac_call_def attempt_Ok)
  then show ?thesis
    by (auto simp: check_owner_call_def attempt_Ok railed_def dest!: spend_step put_guard_rail_Ok
        split: if_splits prod.splits simp: sched_stepD)
next
  case (AcSweep t to a)
  then show ?thesis using assms
    by (auto simp: ac_sweep_def attempt_Ok split: if_splits dest!: spend_step simp: sched_stepD)
next
  case (AcUpgrade h)
  then show ?thesis using assms
    by (auto simp: ac_upgrade_def attempt_Ok split: if_splits dest!: spend_step simp: sched_stepD)
qed (use assms in \<open>auto simp: ac_schedule_def ac_cancel_def ac_migrate_def set_schedule_def clear_schedule_def
    set_schema_version_def attempt_Ok split: if_splits prod.splits\<close>)

section \<open>The bound over a run\<close>

definition drawn :: "bytes32 \<Rightarrow> 'w agent_event \<Rightarrow> nat" where
  "drawn token = (\<lambda>(E, c, w, s).
     case c of AcAuth h sig ctxs \<Rightarrow> sum_list (map (lock_spend token) ctxs) | _ \<Rightarrow> 0)"

definition total_drawn :: "bytes32 \<Rightarrow> 'w agent_event list \<Rightarrow> nat" where
  "total_drawn token T = sum_list (map (drawn token) T)"

text \<open>Every limit the owner sets for the token in a run is at most \<open>C\<close> and \<open>R\<close>.\<close>

definition limits_within :: "nat \<Rightarrow> nat \<Rightarrow> bytes32 \<Rightarrow> 'w agent_event list \<Rightarrow> bool" where
  "limits_within C R token T \<longleftrightarrow>
     (\<forall>(E, c, w, s) \<in> set T. \<forall>l. c = AcLimit token l \<longrightarrow>
        unat (capacity l) \<le> C \<and> unat (refill_per_second l) \<le> R)"

lemma volume_grows:
  assumes "volume_ok C R token t s" "t \<le> t'"
  shows "volume_left C token t' s \<le> volume_left C token t s + R * (unat t' - unat t)" "volume_ok C R token t' s"
proof -
  show "volume_left C token t' s \<le> volume_left C token t s + R * (unat t' - unat t)"
  proof (cases "get_account_volume s token")
    case None
    then show ?thesis by (simp add: volume_left_def)
  next
    case (Some v)
    have m: "max (unat t') (unat (last_ts (av_bucket v))) = unat t'" "max (unat t) (unat (last_ts (av_bucket v))) = unat t"
      using assms Some by (auto simp: volume_ok_def word_le_nat_alt)
    have "unat (available (av_limit v) (av_bucket v) t') \<le>
        unat (available (av_limit v) (av_bucket v) t) + unat (refill_per_second (av_limit v)) * (unat t' - unat t)"
      using available_growth [of t t' "av_limit v" "av_bucket v"] assms(2) unfolding m by (simp add: word_le_nat_alt)
    also have "unat (refill_per_second (av_limit v)) * (unat t' - unat t) \<le> R * (unat t' - unat t)"
      using assms(1) Some by (simp add: volume_ok_def)
    finally show ?thesis using Some by (simp add: volume_left_def)
  qed
  show "volume_ok C R token t' s" using assms by (auto simp: volume_ok_def)
qed

lemma volume_step:
  assumes "aa_exec W E c w s = Inr s'" "volume_ok C R token (now E) s" "limits_within C R token [(E, c, w, s)]"
  shows "volume_ok C R token (now E) s' \<and>
    volume_left C token (now E) s' + drawn token (E, c, w, s) \<le> volume_left C token (now E) s"
proof -
  consider (limit) t l where "c = AcLimit t l" | (auth) h sig ctxs where "c = AcAuth h sig ctxs"
    | (other) "\<And>t l. c \<noteq> AcLimit t l" "\<And>h sig ctxs. c \<noteq> AcAuth h sig ctxs" by blast
  then show ?thesis
  proof cases
    case (limit t l)
    let ?b = "case get_account_volume s t of
        Some v \<Rightarrow> \<lparr>level = min (available (av_limit v) (av_bucket v) (now E)) (capacity l), last_ts = now E\<rparr>
      | None \<Rightarrow> full_bucket l (now E)"
    from limit assms(1) have "ac_set_account_limit (aw_port W) E t l s = Inr s'" by simp
    then obtain s1 where s1: "sched_step s s1" "s' = set_account_volume t \<lparr>av_limit = l, av_bucket = ?b\<rparr> s1"
      by (rule set_account_limit_Ok)
    have get1: "get_account_volume s1 u = get_account_volume s u" for u
      using sched_stepD(5) [OF s1(1)] by (simp add: get_account_volume_def)
    show ?thesis
    proof (cases "t = token")
      case True
      have lim: "unat (capacity l) \<le> C" "unat (refill_per_second l) \<le> R"
        using assms(3) limit True by (simp_all add: limits_within_def)
      have "unat (available l ?b (now E)) \<le> volume_left C token (now E) s"
      proof (cases "get_account_volume s token")
        case None
        then show ?thesis using True lim available_le_capacity [of l _ "now E"]
          by (auto simp: volume_left_def intro: order_trans)
      next
        case (Some v)
        then show ?thesis using True by (simp add: volume_left_def unat_available min_def word_le_nat_alt)
      qed
      moreover have "last_ts ?b \<le> now E" by (simp add: full_bucket_def split: option.split)
      ultimately show ?thesis
        using True lim limit s1(2) by (simp add: volume_ok_def volume_left_def drawn_def)
    next
      case False
      then show ?thesis using assms(2) s1(2) get1 limit by (simp add: volume_ok_def volume_left_def drawn_def)
    qed
  next
    case (auth h sig ctxs)
    then obtain a p p1 s1 where cx: "check_contexts E (get_targets s) ctxs (p, s) = Inr (p1, s1)"
      and s': "s' = aa_set_policy a p1 s1"
      using assms(1) by (auto simp: check_auth_def attempt_Ok split: if_splits)
    have v: "aa_volumes s' = aa_volumes s1" using s' by (simp add: aa_set_policy_def)
    have "drawn token (E, c, w, s) = sum_list (map (lock_spend token) ctxs)" using auth by (simp add: drawn_def)
    then show ?thesis
      using contexts_Ok [OF cx, of C R token] assms(2) unfolding volume_cong [OF v] by simp
  next
    case other
    then have v: "aa_volumes s' = aa_volumes s" using exec_volumes [OF assms(1)] by blast
    have "drawn token (E, c, w, s) = 0" using other by (simp add: drawn_def split: agent_call.split)
    then show ?thesis using assms(2) unfolding volume_cong [OF v] by simp
  qed
qed

lemma run_volume:
  assumes "aa_run W t0 s0 T t s" "volume_ok C R token t0 s0" "limits_within C R token T"
  shows "t0 \<le> t \<and> volume_ok C R token t s \<and>
    volume_left C token t s + total_drawn token T \<le> volume_left C token t0 s0 + R * (unat t - unat t0)"
  using assms
proof (induction rule: aa_run.induct)
  case run_start
  then show ?case by (simp add: total_drawn_def)
next
  case (run_call T t s E c w s')
  have within: "limits_within C R token T" "limits_within C R token [(E, c, w, s)]"
    using run_call.prems by (auto simp: limits_within_def)
  note IH = run_call.IH [OF run_call.prems(1) within(1)]
  note g = volume_grows [OF conjunct1 [OF conjunct2 [OF IH]] run_call.hyps(2)]
  note st = volume_step [OF run_call.hyps(3) g(2) within(2)]
  have "unat t0 \<le> unat t" "unat t \<le> unat (now E)" using IH run_call.hyps(2) by (simp_all add: word_le_nat_alt)
  then have "R * (unat (now E) - unat t0) = R * (unat (now E) - unat t) + R * (unat t - unat t0)"
    by (simp flip: add_mult_distrib2)
  then show ?case using IH g st run_call.hyps(2) by (auto simp: total_drawn_def)
qed

section \<open>A narrower policy\<close>

text \<open>
  What an agent's policy lets through depends on its terms and on what is left in its buckets. A policy is
  narrower than another from a time on when its terms tighten the other's and at every later time no bucket
  of it holds more; then whatever it authorizes the other authorizes too, and it stays narrower.
\<close>

definition left_of :: "limit \<Rightarrow> bucket option \<Rightarrow> u64 \<Rightarrow> nat" where
  "left_of l b t = unat (available l (case b of None \<Rightarrow> full_bucket l t | Some b \<Rightarrow> b) t)"

definition stamped :: "u64 \<Rightarrow> agent_policy \<Rightarrow> bool" where
  "stamped t p \<longleftrightarrow> (\<forall>tk b. bucket_for p tk = Some b \<longrightarrow> last_ts b \<le> t)"

definition narrower :: "u64 \<Rightarrow> agent_policy \<Rightarrow> agent_policy \<Rightarrow> bool" where
  "narrower t cur nxt \<longleftrightarrow> is_policy_tightening cur nxt \<and> stamped t cur \<and> stamped t nxt \<and>
     (\<forall>tk ln lc t'. limit_for nxt tk = Some ln \<longrightarrow> limit_for cur tk = Some lc \<longrightarrow> t \<le> t' \<longrightarrow>
        left_of (tk_rate ln) (bucket_for nxt tk) t' \<le> left_of (tk_rate lc) (bucket_for cur tk) t')"

lemma left_of_None: "left_of l None t = unat (capacity l)"
  by (simp add: left_of_def unat_available full_bucket_def)

lemma left_of_Some: "left_of l (Some b) t = min (unat (capacity l))
    (unat (level b) + unat (refill_per_second l) * (unat t - unat (last_ts b)))"
  by (simp add: left_of_def unat_available)

lemma min_trunc: "min c (min c a + y) = min c (a + y)" for a :: nat
  by (simp add: min_def)

lemma left_of_later:
  assumes "last_ts b \<le> t" "t \<le> t'"
  shows "left_of l (Some b) t' =
    min (unat (capacity l)) (left_of l (Some b) t + unat (refill_per_second l) * (unat t' - unat t))"
proof -
  have "unat t' - unat (last_ts b) = (unat t - unat (last_ts b)) + (unat t' - unat t)"
    using assms by (simp add: word_le_nat_alt)
  from mult_split [OF this, of "unat (refill_per_second l)"]
  show ?thesis by (simp add: left_of_Some min_trunc add.assoc)
qed

lemma tightening_limit:
  assumes "is_policy_tightening cur nxt" "limit_for nxt tk = Some ln"
  obtains lc where "limit_for cur tk = Some lc" "tk_max_per_order ln \<le> tk_max_per_order lc"
    "unat (capacity (tk_rate ln)) \<le> unat (capacity (tk_rate lc))"
    "unat (refill_per_second (tk_rate ln)) \<le> unat (refill_per_second (tk_rate lc))"
proof -
  have "ln \<in> set (ap_ad_tokens nxt)" "tk_token ln = tk"
    using assms(2) unfolding limit_for_def by (auto simp: find_Some_iff)
  then show thesis
    using assms(1) that by (auto simp: is_policy_tightening_def list_all_iff word_le_nat_alt split: option.splits)
qed

subsection \<open>Buckets\<close>

lemma find_put_row: "map_option tb_bucket (List.find (\<lambda>r. tb_token r = u) (put_row t b rs)) =
    (if u = t then Some b else map_option tb_bucket (List.find (\<lambda>r. tb_token r = u) rs))"
  by (induction rs) auto

lemma bucket_put [simp]: "bucket_for (put_bucket t b p) u = (if u = t then Some b else bucket_for p u)"
  by (simp add: bucket_for_def put_bucket_def find_put_row)

lemma put_terms [simp]:
  "is_policy_tightening (put_bucket t b p) q = is_policy_tightening p q"
  "is_policy_tightening p (put_bucket t b q) = is_policy_tightening p q"
  "limit_for (put_bucket t b p) u = limit_for p u"
  "ap_valid_until (put_bucket t b p) = ap_valid_until p" "ap_revoked (put_bucket t b p) = ap_revoked p"
  by (simp_all add: is_policy_tightening_def put_bucket_def limit_for_def cong: option.case_cong)

lemma stamped_mono: "stamped t p \<Longrightarrow> t \<le> t' \<Longrightarrow> stamped t' p"
  unfolding stamped_def by (meson order_trans)

lemma stamped_put: "stamped t p \<Longrightarrow> t \<le> t' \<Longrightarrow> last_ts b \<le> t' \<Longrightarrow> stamped t' (put_bucket tk b p)"
  using stamped_mono [of t p t'] by (simp add: stamped_def)

text \<open>A spend leaves, at every later time, what refills on top of the rest.\<close>

lemma spend_left_of:
  assumes "try_spend l (case b of None \<Rightarrow> full_bucket l t | Some b \<Rightarrow> b) a t = Some b'" "\<forall>x. b = Some x \<longrightarrow> last_ts x \<le> t"
  shows "last_ts b' = t" "unat a \<le> left_of l b t"
    "t \<le> t' \<Longrightarrow> left_of l (Some b') t' =
      min (unat (capacity l)) (left_of l b t - unat a + unat (refill_per_second l) * (unat t' - unat t))"
proof -
  let ?b = "case b of None \<Rightarrow> full_bucket l t | Some b \<Rightarrow> b"
  have ts: "last_ts ?b \<le> t" using assms(2) by (cases b) (simp_all add: full_bucket_def)
  have l: "unat (level b') + unat a = left_of l b t" using assms(1) by (simp add: try_spend_Some left_of_def)
  show "last_ts b' = t" by (rule try_spend_left(2) [OF assms(1) ts])
  then show "t \<le> t' \<Longrightarrow> left_of l (Some b') t' =
      min (unat (capacity l)) (left_of l b t - unat a + unat (refill_per_second l) * (unat t' - unat t))"
    using l by (simp add: left_of_Some)
  show "unat a \<le> left_of l b t" using l by simp
qed

lemma spend_narrower:
  assumes n: "narrower t cur nxt" and t: "t \<le> now E"
    and ln: "limit_for nxt tk = Some ln" and lc: "limit_for cur tk = Some lc"
    and s: "spend_volume E tk (tk_rate ln) a (nxt, s) = Inr (nxt', s')"
  shows "\<exists>cur'. spend_volume E tk (tk_rate lc) a (cur, s) = Inr (cur', s') \<and> narrower (now E) cur' nxt'"
proof -
  let ?bn = "bucket_for nxt tk" and ?bc = "bucket_for cur tk"
  obtain v bn' b where v: "get_account_volume s tk = Some v"
    "try_spend (tk_rate ln) (case ?bn of None \<Rightarrow> full_bucket (tk_rate ln) (now E) | Some b \<Rightarrow> b) a (now E) = Some bn'"
    "try_spend (av_limit v) (av_bucket v) a (now E) = Some b" "nxt' = put_bucket tk bn' nxt"
    "s' = set_account_volume tk \<lparr>av_limit = av_limit v, av_bucket = b\<rparr> s"
    using s by (auto simp: spend_volume_def Let_def attempt_Ok ok_or_Ok)
  have tight: "is_policy_tightening cur nxt" and st: "stamped t cur" "stamped t nxt"
    and left: "\<And>t'. t \<le> t' \<Longrightarrow> left_of (tk_rate ln) ?bn t' \<le> left_of (tk_rate lc) ?bc t'"
    using n ln lc unfolding narrower_def by blast+
  have ts: "\<forall>x. ?bn = Some x \<longrightarrow> last_ts x \<le> now E" "\<forall>x. ?bc = Some x \<longrightarrow> last_ts x \<le> now E"
    using st t unfolding stamped_def by (meson order_trans)+
  note rn = spend_left_of [OF v(2) ts(1)]
  have room: "unat a \<le> left_of (tk_rate lc) ?bc (now E)" using rn(2) left [OF t] by simp
  then obtain bc' where bc': "try_spend (tk_rate lc)
      (case ?bc of None \<Rightarrow> full_bucket (tk_rate lc) (now E) | Some b \<Rightarrow> b) a (now E) = Some bc'"
    using try_spend_None [of "tk_rate lc" _ a "now E"] by (cases "try_spend (tk_rate lc)
      (case ?bc of None \<Rightarrow> full_bucket (tk_rate lc) (now E) | Some b \<Rightarrow> b) a (now E)") (auto simp: left_of_def)
  note rc = spend_left_of [OF bc' ts(2)]
  have lims: "unat (capacity (tk_rate ln)) \<le> unat (capacity (tk_rate lc))"
    "unat (refill_per_second (tk_rate ln)) \<le> unat (refill_per_second (tk_rate lc))"
    by (rule tightening_limit [OF tight ln], use lc in simp)+
  have after: "left_of (tk_rate ln) (Some bn') t' \<le> left_of (tk_rate lc) (Some bc') t'" if "now E \<le> t'" for t'
    unfolding rn(3) [OF that] rc(3) [OF that]
    using lims(1) add_mono [OF diff_le_mono [OF left [OF t]] mult_le_mono1 [OF lims(2)], of "unat a" "unat t' - unat (now E)"]
    by (meson min.mono)
  have "narrower (now E) (put_bucket tk bc' cur) nxt'"
    unfolding narrower_def v(4)
  proof (intro conjI allI impI)
    show "is_policy_tightening (put_bucket tk bc' cur) (put_bucket tk bn' nxt)" using tight by simp
    show "stamped (now E) (put_bucket tk bc' cur)" "stamped (now E) (put_bucket tk bn' nxt)"
      using rn(1) rc(1) by (simp_all add: stamped_put [OF st(1) t] stamped_put [OF st(2) t])
  next
    fix u l1 l2 t' assume u: "limit_for (put_bucket tk bn' nxt) u = Some l1"
      "limit_for (put_bucket tk bc' cur) u = Some l2" "now E \<le> t'"
    show "left_of (tk_rate l1) (bucket_for (put_bucket tk bn' nxt) u) t' \<le>
        left_of (tk_rate l2) (bucket_for (put_bucket tk bc' cur) u) t'"
    proof (cases "u = tk")
      case True
      then show ?thesis using after u ln lc by simp
    next
      case False
      then show ?thesis using n u t unfolding narrower_def by (auto intro: order_trans)
    qed
  qed
  then show ?thesis using v bc' by (intro exI [of _ "put_bucket tk bc' cur"]) (simp add: spend_volume_def)
qed

subsection \<open>Calls\<close>

lemma tightening_terms:
  assumes "is_policy_tightening cur nxt"
  shows "ap_allowed_action nxt = ap_allowed_action cur" "ap_settlement_signer nxt = ap_settlement_signer cur"
    "ot \<in> set (ap_order_tokens nxt) \<Longrightarrow> ot \<in> set (ap_order_tokens cur)"
    "ad_in_scope nxt ad \<Longrightarrow> ad_in_scope cur ad"
    "ap_valid_until nxt = 0 \<or> t < ap_valid_until nxt \<Longrightarrow> ap_valid_until cur = 0 \<or> t < ap_valid_until cur"
  using assms
  by (auto simp: is_policy_tightening_def ad_in_scope_def subset_of_def list_all_iff split: option.splits
      intro: less_le_trans)

text \<open>An accepted call is its spend, and under any policy that also admits it, it is that policy's spend.\<close>

lemma call_is_spend:
  assumes "check_contract_call E targets c f args (p, s) = Inr r"
  obtains tk l a where "limit_for p tk = Some l" "spend_volume E tk (tk_rate l) a (p, s) = Inr r"
    "\<And>q s' lq. ap_allowed_action q = ap_allowed_action p \<Longrightarrow> ap_settlement_signer q = ap_settlement_signer p \<Longrightarrow>
       (\<And>ot. ot \<in> set (ap_order_tokens p) \<Longrightarrow> ot \<in> set (ap_order_tokens q)) \<Longrightarrow>
       (\<And>ad. ad_in_scope p ad \<Longrightarrow> ad_in_scope q ad) \<Longrightarrow> limit_for q tk = Some lq \<Longrightarrow>
       tk_max_per_order l \<le> tk_max_per_order lq \<Longrightarrow>
       check_contract_call E targets c f args (q, s') = spend_volume E tk (tk_rate lq) a (q, s')"
proof -
  from assms obtain u m creator signer tk ot ad a od d l amt where call: "c \<in> set targets" "f = ap_allowed_action p"
    "length args = 2" "arg as_u32 args 1 = Inr u" "arg as_map args 0 = Inr m"
    "map_field as_bytes32 m ''ad_creator'' = Inr creator" "settlement_signer_of m = Inr signer"
    "map_field as_bytes32 m ''ad_chain_token'' = Inr tk" "map_field as_bytes32 m ''order_chain_token'' = Inr ot"
    "map_field as_string m ''ad_id'' = Inr ad" "map_field as_u128 m ''amount'' = Inr a"
    "map_field as_u32 m ''order_decimals'' = Inr od" "map_field as_u32 m ''ad_decimals'' = Inr d"
    "creator = address_to_bytes32 (self E)" "signer = ap_settlement_signer p"
    "limit_for p tk = Some l" "ot \<in> set (ap_order_tokens p)" "ad_in_scope p ad"
    "map_err (\<lambda>_. AcBadArgs) (scale a od d) = Inr amt" "amt \<noteq> 0" "\<not> amt > tk_max_per_order l"
    "spend_volume E tk (tk_rate l) amt (p, s) = Inr r"
    by (auto simp: check_contract_call_def attempt_Ok ok_or_Ok simp del: as_Some arg_Ok map_field_Ok split: if_split_asm)
  show thesis
  proof (rule that [OF call(16,22)])
    fix q s' lq
    assume q: "ap_allowed_action q = ap_allowed_action p" "ap_settlement_signer q = ap_settlement_signer p"
      "\<And>ot. ot \<in> set (ap_order_tokens p) \<Longrightarrow> ot \<in> set (ap_order_tokens q)"
      "\<And>ad. ad_in_scope p ad \<Longrightarrow> ad_in_scope q ad" "limit_for q tk = Some lq" "tk_max_per_order l \<le> tk_max_per_order lq"
    have "\<not> amt > tk_max_per_order lq" using call(21) q(6) by auto
    then show "check_contract_call E targets c f args (q, s') = spend_volume E tk (tk_rate lq) amt (q, s')"
      using call(1-20) q(1,2,5) q(3) [OF call(17)] q(4) [OF call(18)] by (simp add: check_contract_call_def)
  qed
qed

lemma call_narrower:
  assumes "narrower t cur nxt" "t \<le> now E" "check_contract_call E targets c f args (nxt, s) = Inr (nxt', s')"
  shows "\<exists>cur'. check_contract_call E targets c f args (cur, s) = Inr (cur', s') \<and> narrower (now E) cur' nxt'"
proof -
  have tight: "is_policy_tightening cur nxt" using assms(1) by (simp add: narrower_def)
  note terms = tightening_terms [OF tight]
  obtain tk ln a where call: "limit_for nxt tk = Some ln" "spend_volume E tk (tk_rate ln) a (nxt, s) = Inr (nxt', s')"
    and as: "\<And>q s' lq. ap_allowed_action q = ap_allowed_action nxt \<Longrightarrow> ap_settlement_signer q = ap_settlement_signer nxt \<Longrightarrow>
       (\<And>ot. ot \<in> set (ap_order_tokens nxt) \<Longrightarrow> ot \<in> set (ap_order_tokens q)) \<Longrightarrow>
       (\<And>ad. ad_in_scope nxt ad \<Longrightarrow> ad_in_scope q ad) \<Longrightarrow> limit_for q tk = Some lq \<Longrightarrow>
       tk_max_per_order ln \<le> tk_max_per_order lq \<Longrightarrow>
       check_contract_call E targets c f args (q, s') = spend_volume E tk (tk_rate lq) a (q, s')"
    by (rule call_is_spend [OF assms(3)]) blast
  obtain lc where lc: "limit_for cur tk = Some lc" "tk_max_per_order ln \<le> tk_max_per_order lc"
    by (rule tightening_limit [OF tight call(1)])
  have "check_contract_call E targets c f args (cur, s) = spend_volume E tk (tk_rate lc) a (cur, s)"
    by (rule as [OF terms(1) [symmetric] terms(2) [symmetric] terms(3,4) lc])
  then show ?thesis using spend_narrower [OF assms(1,2) call(1) lc(1) call(2)] by simp
qed

lemma contexts_narrower:
  assumes "check_contexts E targets ctxs (nxt, s) = Inr (nxt', s')" "narrower t cur nxt" "t \<le> now E"
  shows "\<exists>cur' t'. check_contexts E targets ctxs (cur, s) = Inr (cur', s') \<and> narrower t' cur' nxt' \<and> t' \<le> now E"
  using assms
proof (induction E targets ctxs "(nxt, s)" arbitrary: cur nxt s t rule: check_contexts.induct)
  case (2 E targets c f args ctxs)
  from "2.prems"(1) obtain n1 s1 where one: "check_contract_call E targets c f args (nxt, s) = Inr (n1, s1)"
    and rest: "check_contexts E targets ctxs (n1, s1) = Inr (nxt', s')" by (auto simp: attempt_Ok)
  obtain c1 where "check_contract_call E targets c f args (cur, s) = Inr (c1, s1)" "narrower (now E) c1 n1"
    using call_narrower [OF "2.prems"(2,3) one] by blast
  then show ?case using "2.hyps" [OF one rest] by fastforce
qed auto

text \<open>The check of a set of contexts reads no stored policy.\<close>

lemma spend_frame:
  "spend_volume E tk l a (p, s) = Inr (p', s') \<Longrightarrow>
     spend_volume E tk l a (p, aa_set_policy b q s) = Inr (p', aa_set_policy b q s')"
  by (auto simp: spend_volume_def Let_def attempt_Ok ok_or_Ok aa_set_policy_def
      get_account_volume_def set_account_volume_def)

lemma call_frame:
  assumes "check_contract_call E targets c f args (p, s) = Inr (p', s')"
  shows "check_contract_call E targets c f args (p, aa_set_policy b q s) = Inr (p', aa_set_policy b q s')"
proof (rule call_is_spend [OF assms], goal_cases)
  case (1 tk l a)
  have "check_contract_call E targets c f args (p, aa_set_policy b q s) = spend_volume E tk (tk_rate l) a (p, aa_set_policy b q s)"
    by (rule 1(3)) (simp_all add: 1(1))
  then show ?case using spend_frame [OF 1(2)] by simp
qed

lemma contexts_frame:
  "check_contexts E targets ctxs (p, s) = Inr (p', s') \<Longrightarrow>
     check_contexts E targets ctxs (p, aa_set_policy a q s) = Inr (p', aa_set_policy a q s')"
proof (induction E targets ctxs "(p, s)" arbitrary: p s rule: check_contexts.induct)
  case (2 E targets c f args ctxs)
  then obtain p1 s1 where one: "check_contract_call E targets c f args (p, s) = Inr (p1, s1)"
    and rest: "check_contexts E targets ctxs (p1, s1) = Inr (p', s')" by (auto simp: attempt_Ok)
  show ?case using call_frame [OF one] "2.hyps" [OF one rest] by simp
qed auto

subsection \<open>Authorizations\<close>

text \<open>Two accounts that differ in one agent's policy only, the second one's narrower from \<open>t\<close> on.\<close>

definition narrowed :: "u64 \<Rightarrow> bytes32 \<Rightarrow> agent_store \<Rightarrow> agent_store \<Rightarrow> bool" where
  "narrowed t agent s sn \<longleftrightarrow>
     (\<exists>cur nxt. get_policy s agent = Some cur \<and> sn = aa_set_policy agent nxt s \<and> narrower t cur nxt \<and>
        (ap_revoked cur \<longrightarrow> ap_revoked nxt))"

lemma set_policy_simps [simp]:
  "get_policy (aa_set_policy a p s) b = (if b = a then Some p else get_policy s b)"
  "aa_set_policy a p (aa_set_policy a q s) = aa_set_policy a p s"
  "get_targets (aa_set_policy a p s) = get_targets s"
  "aa_volumes (aa_set_policy a p s) = aa_volumes s"
  by (simp_all add: get_policy_def aa_set_policy_def get_targets_def)

lemma set_policy_same: "get_policy s a = Some p \<Longrightarrow> aa_set_policy a p s = s"
  by (simp add: get_policy_def aa_set_policy_def fun_upd_idem)

lemma set_policy_commute: "a \<noteq> b \<Longrightarrow> aa_set_policy a p (aa_set_policy b q s) = aa_set_policy b q (aa_set_policy a p s)"
  by (simp add: aa_set_policy_def fun_upd_twist)

lemma check_auth_parts:
  assumes "check_auth K E payload sig ctxs s = Inr s'"
  obtains a p p' s1 where "agent_of K E payload sig = Inr a" "get_policy s a = Some p" "\<not> ap_revoked p"
    "ap_valid_until p = 0 \<or> now E < ap_valid_until p" "ctxs \<noteq> []"
    "check_contexts E (get_targets s) ctxs (p, s) = Inr (p', s1)" "s' = aa_set_policy a p' s1"
  using assms by (auto simp: check_auth_def attempt_Ok ok_or_Ok not_le split: if_split_asm)

lemma check_auth_intro:
  assumes "agent_of K E payload sig = Inr a" "get_policy s a = Some p" "\<not> ap_revoked p"
    "ap_valid_until p = 0 \<or> now E < ap_valid_until p" "ctxs \<noteq> []"
    "check_contexts E (get_targets s) ctxs (p, s) = Inr (p', s1)"
  shows "check_auth K E payload sig ctxs s = Inr (aa_set_policy a p' s1)"
  using assms by (auto simp: check_auth_def not_le)

lemma auth_narrowed:
  assumes n: "narrowed t agent s sn" "t \<le> now E" and ok: "check_auth K E payload sig ctxs sn = Inr sn'"
  shows "\<exists>s' t'. check_auth K E payload sig ctxs s = Inr s' \<and> narrowed t' agent s' sn' \<and> t' \<le> now E"
proof -
  obtain cur nxt where cn: "get_policy s agent = Some cur" "sn = aa_set_policy agent nxt s" "narrower t cur nxt"
    "ap_revoked cur \<longrightarrow> ap_revoked nxt" using n(1) unfolding narrowed_def by blast
  obtain a p p' s1 where au: "agent_of K E payload sig = Inr a" "get_policy sn a = Some p" "\<not> ap_revoked p"
    "ap_valid_until p = 0 \<or> now E < ap_valid_until p" "ctxs \<noteq> []"
    "check_contexts E (get_targets sn) ctxs (p, sn) = Inr (p', s1)" "sn' = aa_set_policy a p' s1"
    by (rule check_auth_parts [OF ok])
  let ?s1 = "aa_set_policy agent cur s1"
  have undo: "aa_set_policy agent cur sn = s" using cn by (simp add: set_policy_same)
  have cx: "check_contexts E (get_targets s) ctxs (p, s) = Inr (p', ?s1)"
    using contexts_frame [OF au(6), of agent cur] cn(2) undo by simp
  obtain f where f: "s1 = sn\<lparr>aa_volumes := f\<rparr>" "\<exists>bs. p' = p\<lparr>ap_buckets := bs\<rparr>" using contexts_Ok [OF au(6)] by blast
  show ?thesis
  proof (cases "a = agent")
    case True
    then have p: "p = nxt" using au(2) cn(2) by simp
    have tight: "is_policy_tightening cur nxt" using cn(3) by (simp add: narrower_def)
    obtain cur' t' where c': "check_contexts E (get_targets s) ctxs (cur, s) = Inr (cur', ?s1)" "narrower t' cur' p'" "t' \<le> now E"
      using contexts_narrower [OF cx [unfolded p] cn(3) n(2)] by blast
    have "\<not> ap_revoked cur" "ap_valid_until cur = 0 \<or> now E < ap_valid_until cur"
      using au(3,4) cn(4) p tightening_terms(5) [OF tight] by auto
    then have "check_auth K E payload sig ctxs s = Inr (aa_set_policy agent cur' ?s1)"
      using check_auth_intro [OF au(1) _ _ _ au(5)] True cn(1) c'(1) by simp
    moreover obtain bs where "cur' = cur\<lparr>ap_buckets := bs\<rparr>" using contexts_Ok [OF c'(1)] by blast
    then have "narrowed t' agent (aa_set_policy agent cur' ?s1) sn'"
      using c'(2) \<open>\<not> ap_revoked cur\<close> au(7) True unfolding narrowed_def by auto
    ultimately show ?thesis using c'(3) by blast
  next
    case False
    then have "get_policy s a = Some p" using au(2) cn(2) by simp
    from check_auth_intro [OF au(1) this au(3,4,5) cx]
    have "check_auth K E payload sig ctxs s = Inr (aa_set_policy a p' ?s1)" .
    moreover have "narrowed t agent (aa_set_policy a p' ?s1) sn'"
    proof -
      have "get_policy s1 agent = Some nxt" using f(1) cn(2) by (simp add: get_policy_def aa_set_policy_def)
      then have "sn' = aa_set_policy agent nxt (aa_set_policy a p' ?s1)"
        using au(7) False by (simp add: set_policy_commute [of agent a] set_policy_same)
      then show ?thesis using cn(3,4) False unfolding narrowed_def by auto
    qed
    ultimately show ?thesis using n(2) by blast
  qed
qed

text \<open>Authorizations one after another, by any agents.\<close>

type_synonym auth_request = "env \<times> bytes32 \<times> account_sig \<times> auth_context list"

fun authorizes :: "curve \<Rightarrow> auth_request list \<Rightarrow> agent_store \<Rightarrow> (account_error, agent_store) res" where
  "authorizes K [] s = Ok s"
| "authorizes K ((E, payload, sig, ctxs) # xs) s =
     attempt (check_auth K E payload sig ctxs s) (authorizes K xs)"

fun times_from :: "u64 \<Rightarrow> auth_request list \<Rightarrow> bool" where
  "times_from t [] \<longleftrightarrow> True"
| "times_from t ((E, _) # xs) \<longleftrightarrow> t \<le> now E \<and> times_from (now E) xs"

lemma narrowed_volumes: "narrowed t agent s sn \<Longrightarrow> aa_volumes s = aa_volumes sn"
  by (auto simp: narrowed_def)

lemma times_later: "times_from t xs \<Longrightarrow> t' \<le> t \<Longrightarrow> times_from t' xs"
  by (cases xs) auto

lemma authorizes_narrowed:
  assumes "narrowed t agent s sn" "times_from t xs" "authorizes K xs sn = Inr sn'"
  shows "\<exists>s'. authorizes K xs s = Inr s' \<and> aa_volumes s' = aa_volumes sn'"
  using assms
proof (induction xs arbitrary: t s sn)
  case Nil
  then show ?case using narrowed_volumes by auto
next
  case (Cons x xs)
  obtain E payload sig ctxs where x: "x = (E, payload, sig, ctxs)" by (cases x)
  obtain sn1 where sn1: "check_auth K E payload sig ctxs sn = Inr sn1" "authorizes K xs sn1 = Inr sn'"
    using Cons.prems(3) x by (auto simp: attempt_Ok)
  have ts: "t \<le> now E" "times_from (now E) xs" using Cons.prems(2) x by auto
  obtain s1 t1 where s1: "check_auth K E payload sig ctxs s = Inr s1" "narrowed t1 agent s1 sn1" "t1 \<le> now E"
    using auth_narrowed [OF Cons.prems(1) ts(1) sn1(1)] by blast
  show ?case using Cons.IH [OF s1(2) times_later [OF ts(2) s1(3)] sn1(2)] x s1(1) by auto
qed

subsection \<open>Changing a policy at once\<close>

lemma carry_row_terms [simp]:
  "is_policy_tightening p (carry_row cur t l q) = is_policy_tightening p q"
  "limit_for (carry_row cur t l q) u = limit_for q u" "ap_revoked (carry_row cur t l q) = ap_revoked q"
  by (simp_all add: carry_row_def split: option.splits)

lemma carry_fold_terms:
  "is_policy_tightening p (fold (carry_row cur t) ls q) = is_policy_tightening p q"
  "limit_for (fold (carry_row cur t) ls q) u = limit_for q u"
  "ap_revoked (fold (carry_row cur t) ls q) = ap_revoked q"
  by (induction ls arbitrary: q) simp_all

text \<open>What the carried bucket of a token holds: what is left now, within the new capacity.\<close>

definition carried :: "agent_policy \<Rightarrow> u64 \<Rightarrow> bytes32 \<Rightarrow> bucket \<Rightarrow> bool" where
  "carried cur t tk b \<longleftrightarrow> (\<exists>lc bc. limit_for cur tk = Some lc \<and> bucket_for cur tk = Some bc \<and>
     level b \<le> available (tk_rate lc) bc t \<and> last_ts b = t)"

lemma carry_row_bucket:
  assumes "bucket_for (carry_row cur t l q) tk = Some b"
  shows "carried cur t tk b \<or> bucket_for q tk = Some b"
  using assms by (auto simp: carry_row_def carried_def split: option.splits if_splits)

lemma carry_fold_bucket:
  "bucket_for (fold (carry_row cur t) ls q) tk = Some b \<Longrightarrow> carried cur t tk b \<or> bucket_for q tk = Some b"
proof (induction ls arbitrary: q)
  case (Cons l ls)
  then show ?case using carry_row_bucket [of cur t l q tk b] by auto
qed simp

lemma carry_fold_keeps:
  "bucket_for q tk = Some b \<Longrightarrow> \<exists>b'. bucket_for (fold (carry_row cur t) ls q) tk = Some b'"
proof (induction ls arbitrary: q b)
  case (Cons l ls)
  have "\<exists>b'. bucket_for (carry_row cur t l q) tk = Some b'"
    using Cons.prems by (auto simp: carry_row_def split: option.splits)
  then show ?case using Cons.IH by auto
qed simp

lemma carry_fold_has:
  assumes "l \<in> set ls" "bucket_for cur (tk_token l) = Some bc" "limit_for cur (tk_token l) = Some lc"
  shows "\<exists>b. bucket_for (fold (carry_row cur t) ls q) (tk_token l) = Some b"
  using assms(1)
proof (induction ls arbitrary: q)
  case (Cons k ls)
  show ?case
  proof (cases "k = l")
    case True
    have "\<exists>b. bucket_for (carry_row cur t l q) (tk_token l) = Some b" using assms(2,3) by (simp add: carry_row_def)
    then show ?thesis using carry_fold_keeps True by auto
  qed (use Cons in auto)
qed simp

lemma carry_narrower:
  assumes tight: "is_policy_tightening cur nxt" and none: "ap_buckets nxt = []" and st: "stamped t cur"
  shows "narrower t cur (carry_buckets cur nxt t)"
proof -
  let ?n = "carry_buckets cur nxt t"
  have none': "bucket_for nxt tk = None" for tk using none by (simp add: bucket_for_def)
  have got: "carried cur t tk b" if "bucket_for ?n tk = Some b" for tk b
    using carry_fold_bucket [OF that [unfolded carry_buckets_def]] none' by simp
  have "left_of (tk_rate ln) (bucket_for ?n tk) t' \<le> left_of (tk_rate lc) (bucket_for cur tk) t'"
    if ln: "limit_for nxt tk = Some ln" and lc: "limit_for cur tk = Some lc" and t': "t \<le> t'" for tk ln lc t'
  proof -
    have lims: "unat (capacity (tk_rate ln)) \<le> unat (capacity (tk_rate lc))"
      "unat (refill_per_second (tk_rate ln)) \<le> unat (refill_per_second (tk_rate lc))"
      by (rule tightening_limit [OF tight ln], use lc in simp)+
    show ?thesis
    proof (cases "bucket_for cur tk")
      case None
      then have "left_of (tk_rate lc) (bucket_for cur tk) t' = unat (capacity (tk_rate lc))" by (simp add: left_of_None)
      moreover have "left_of (tk_rate ln) (bucket_for ?n tk) t' \<le> unat (capacity (tk_rate ln))"
        by (cases "bucket_for ?n tk") (simp_all add: left_of_None left_of_Some)
      ultimately show ?thesis using lims(1) by simp
    next
      case (Some bc)
      have "ln \<in> set (ap_ad_tokens nxt)" "tk_token ln = tk"
        using ln unfolding limit_for_def by (auto simp: find_Some_iff)
      then obtain b where b: "bucket_for ?n tk = Some b"
        using carry_fold_has [of ln "ap_ad_tokens nxt" cur] Some lc unfolding carry_buckets_def by blast
      have lev: "unat (level b) \<le> left_of (tk_rate lc) (Some bc) t" "last_ts b = t"
        using got [OF b] lc Some by (auto simp: carried_def left_of_def word_le_nat_alt)
      have "last_ts bc \<le> t" using st Some unfolding stamped_def by blast
      note later = left_of_later [OF this t']
      show ?thesis unfolding b Some later left_of_Some [of "tk_rate ln" b] lev(2)
        by (rule min.mono [OF lims(1) add_mono [OF lev(1) mult_le_mono1 [OF lims(2)]]])
    qed
  qed
  moreover have "stamped t ?n" using got unfolding stamped_def carried_def by blast
  moreover have "is_policy_tightening cur ?n" using tight by (simp add: carry_buckets_def carry_fold_terms)
  moreover have "limit_for ?n tk = limit_for nxt tk" for tk by (simp add: carry_buckets_def carry_fold_terms)
  ultimately show ?thesis using st unfolding narrower_def by simp
qed

lemma carry_stamped:
  assumes "ap_buckets nxt = []"
  shows "stamped t (carry_buckets cur nxt t)"
  unfolding stamped_def
proof (intro allI impI)
  fix tk b assume "bucket_for (carry_buckets cur nxt t) tk = Some b"
  then have "carried cur t tk b"
    using carry_fold_bucket assms unfolding carry_buckets_def by (fastforce simp: bucket_for_def)
  then show "last_ts b \<le> t" by (auto simp: carried_def)
qed

text \<open>No policy of an account has a bucket stamped in the future.\<close>

definition stamps_past :: "u64 \<Rightarrow> agent_store \<Rightarrow> bool" where
  "stamps_past t s \<longleftrightarrow> (\<forall>a p. get_policy s a = Some p \<longrightarrow> stamped t p)"

lemma stamps_put: "stamps_past t s \<Longrightarrow> stamped t p \<Longrightarrow> stamps_past t (aa_set_policy a p s)"
  by (simp add: stamps_past_def)

lemma stamps_cong: "aa_policies s' = aa_policies s \<Longrightarrow> stamps_past t s' = stamps_past t s"
  by (simp add: stamps_past_def get_policy_def)

lemma contexts_stamped:
  assumes "check_contexts E targets ctxs (p, s) = Inr (p', s')" "stamped (now E) p"
  shows "stamped (now E) p'"
  using assms
proof (induction E targets ctxs "(p, s)" arbitrary: p s rule: check_contexts.induct)
  case (2 E targets c f args ctxs)
  from "2.prems"(1) obtain p1 s1 where one: "check_contract_call E targets c f args (p, s) = Inr (p1, s1)"
    and rest: "check_contexts E targets ctxs (p1, s1) = Inr (p', s')" by (auto simp: attempt_Ok)
  obtain tk r a where "spend_volume E tk r a (p, s) = Inr (p1, s1)"
    by (rule check_contract_call_Ok [OF one]) (erule that)
  then obtain b where b: "p1 = put_bucket tk b p"
    "try_spend r (case bucket_for p tk of None \<Rightarrow> full_bucket r (now E) | Some b \<Rightarrow> b) a (now E) = Some b"
    by (auto simp: spend_volume_def Let_def attempt_Ok ok_or_Ok)
  have "\<forall>x. bucket_for p tk = Some x \<longrightarrow> last_ts x \<le> now E" using "2.prems"(2) by (simp add: stamped_def)
  from spend_left_of(1) [OF b(2) this] have "last_ts b = now E" .
  then have "stamped (now E) p1" using stamped_put [OF "2.prems"(2)] b(1) by simp
  then show ?case by (rule "2.hyps" [OF one rest])
qed auto

lemma exec_stamps:
  assumes "aa_exec W E c w s = Inr s'" "stamps_past (now E) s"
  shows "stamps_past (now E) s'"
proof -
  consider (policy) a f ads ords vu sg scp where "c = AcPolicy a f ads ords vu sg scp" | (revoke) a where "c = AcRevoke a"
    | (auth) h sig ctxs where "c = AcAuth h sig ctxs"
    | (other) "\<And>a f ads ords vu sg scp. c \<noteq> AcPolicy a f ads ords vu sg scp" "\<And>a. c \<noteq> AcRevoke a"
      "\<And>h sig ctxs. c \<noteq> AcAuth h sig ctxs" by blast
  then show ?thesis
  proof cases
    case policy
    then have "ac_set_policy (aw_port W) E a f ads ords vu sg scp s = Inr s'" using assms(1) by simp
    then show ?thesis
    proof (cases rule: set_policy_installs)
      case (at_once cur)
      then show ?thesis using stamps_put [OF assms(2) carry_stamped] by simp
    next
      case (fresh s1)
      then have "stamps_past (now E) s1" using assms(2) stamps_cong [OF sched_stepD(4)] by blast
      then show ?thesis using fresh(2) stamps_put by (simp add: stamped_def bucket_for_def)
    qed
  next
    case revoke
    then have "revoke_agent E a s = Inr s'" using assms(1) by simp
    then obtain p where "get_policy s a = Some p" "s' = aa_set_policy a (p\<lparr>ap_revoked := True\<rparr>) s \<or> s' = s"
      by (rule revoke_agent_Ok) blast
    moreover from this have "stamped (now E) (p\<lparr>ap_revoked := True\<rparr>)"
      using assms(2) by (simp add: stamps_past_def stamped_def bucket_for_def)
    ultimately show ?thesis using assms(2) stamps_put by blast
  next
    case auth
    then have "check_auth (aw_curve W) E h sig ctxs s = Inr s'" using assms(1) by simp
    then obtain a p p' s1 where p: "get_policy s a = Some p" "check_contexts E (get_targets s) ctxs (p, s) = Inr (p', s1)"
      "s' = aa_set_policy a p' s1" by (rule check_auth_parts) blast
    have "stamped (now E) p'" using contexts_stamped [OF p(2)] assms(2) p(1) by (simp add: stamps_past_def)
    moreover obtain f where "s1 = s\<lparr>aa_volumes := f\<rparr>" using contexts_Ok [OF p(2)] by blast
    then have "stamps_past (now E) s1" using assms(2) by (simp add: stamps_past_def get_policy_def)
    ultimately show ?thesis using p(3) stamps_put by simp
  next
    case other
    then have "aa_policies s' = aa_policies s" using exec_same_policies [OF assms(1)] by blast
    then show ?thesis using assms(2) stamps_cong by blast
  qed
qed

lemma stamps_later: "stamps_past t s \<Longrightarrow> t \<le> t' \<Longrightarrow> stamps_past t' s"
  unfolding stamps_past_def by (meson stamped_mono)

lemma run_stamps: "aa_run W t0 s0 T t s \<Longrightarrow> stamps_past t0 s0 \<Longrightarrow> stamps_past t s"
  by (induction rule: aa_run.induct) (blast intro: exec_stamps stamps_later)+

lemma reach_stamps: "aa_reach W T t s \<Longrightarrow> stamps_past t s"
proof -
  assume "aa_reach W T t s"
  then obtain E o' ts s0 where s0: "ac_constructor E o' ts aa_empty = Inr s0" and run: "aa_run W (now E) s0 T t s"
    by (auto simp: aa_reach_def)
  have "aa_policies s0 = Map.empty" using s0
    by (auto simp: ac_constructor_def aa_set_targets_def aa_set_owner_def set_schema_version_def aa_empty_def
        attempt_Ok split: if_splits)
  then have "stamps_past (now E) s0" by (simp add: stamps_past_def get_policy_def)
  then show ?thesis by (rule run_stamps [OF run])
qed

end
