(* ===== verification/Agent_Rails.thy ===== *)
theory Agent_Rails
  imports Agent_Volumes
begin

text \<open>
  Guard rails and announcements: every pending schedule comes from an announcement made at least its
  delay before it opens, a guarded ad's rail only tightens unless such an announcement is spent, and a
  revoked agent stays revoked.
\<close>

section \<open>Rails\<close>

text \<open>The settings of an ad's rail, and whether it is on the roster, after each call.\<close>

definition same_settings :: "guard_rail \<Rightarrow> guard_rail \<Rightarrow> bool" where
  "same_settings g g' \<longleftrightarrow> gr_threshold g' = gr_threshold g \<and> gr_delay g' = gr_delay g \<and>
     gr_window g' = gr_window g \<and> gr_rate g' = gr_rate g"

lemma same_settings_tightening: "same_settings g g' \<Longrightarrow> is_tightening g g'"
  by (simp add: same_settings_def is_tightening_def)

lemma armed_rail_tightening: "is_tightening g (armed_rail c g' t) = is_tightening g g'"
  by (simp add: armed_rail_def is_tightening_def)

lemma clear_all_simps [simp]:
  "aa_rails (clear_all_schedules ad s) = aa_rails s" "aa_roster (clear_all_schedules ad s) = aa_roster s"
  "aa_policies (clear_all_schedules ad s) = aa_policies s" "aa_volumes (clear_all_schedules ad s) = aa_volumes s"
  using sched_stepD [OF sched_step_clear_all] by blast+

lemma check_owner_call_Ok:
  assumes "check_owner_call commit E f args s = Inr s'"
  obtains (plain) "sched_step s s'"
    | (flow) ad amount g b where "f = sym_withdraw_from_ad \<or> f = sym_lock_for_order"
      "decode_ad_call f args = Inr (ad, amount)" "is_guarded s ad" "get_guard_rail s ad = Some g"
      "amount \<le> gr_threshold g" "try_spend (gr_rate g) (gr_bucket g) amount (now E) = Some b"
      "s' = railed ad (g\<lparr>gr_bucket := b\<rparr>) s"
proof -
  consider "sched_step s s'" | "\<exists>ad amount g b. (f = sym_withdraw_from_ad \<or> f = sym_lock_for_order) \<and>
      decode_ad_call f args = Inr (ad, amount) \<and> is_guarded s ad \<and> get_guard_rail s ad = Some g \<and>
      amount \<le> gr_threshold g \<and> try_spend (gr_rate g) (gr_bucket g) amount (now E) = Some b \<and>
      s' = railed ad (g\<lparr>gr_bucket := b\<rparr>) s"
    using assms unfolding check_owner_call_def
    by (auto simp: attempt_Ok ok_or_Ok not_less split: if_split_asm prod.splits dest: spend_step put_guard_rail_Ok)
  then show thesis using plain flow by cases blast+
qed

lemma exec_rails:
  assumes "aa_exec W E c w s = Inr s'"
  shows "(get_guard_rail s' ad = get_guard_rail s ad \<or>
     (\<exists>g g'. get_guard_rail s ad = Some g \<and> get_guard_rail s' ad = Some g' \<and> same_settings g g') \<or>
     (\<exists>r. c = AcRail ad r) \<or> (\<exists>esc. c = AcDisarm esc ad)) \<and>
    (is_guarded s ad \<longrightarrow> is_guarded s' ad \<or> (\<exists>r. c = AcRail ad r) \<or> (\<exists>esc. c = AcDisarm esc ad))"
proof (cases c)
  case (AcTargets ts)
  then have "ac_set_targets (aw_port W) E ts s = Inr s'" using assms by simp
  then show ?thesis by (rule set_targets_Ok) (simp add: sched_stepD get_guard_rail_def is_guarded_def guarded_ads_def)
next
  case (AcPolicy a f ads ords vu sg scp)
  then have "ac_set_policy (aw_port W) E a f ads ords vu sg scp s = Inr s'" using assms by simp
  then show ?thesis
    by (rule set_policy_Ok) (simp add: sched_stepD aa_set_policy_def get_guard_rail_def is_guarded_def guarded_ads_def)
next
  case (AcLimit t l)
  then have "ac_set_account_limit (aw_port W) E t l s = Inr s'" using assms by simp
  then show ?thesis
    by (rule set_account_limit_Ok)
      (simp add: sched_stepD set_account_volume_def get_guard_rail_def is_guarded_def guarded_ads_def)
next
  case (AcRevoke a)
  then have "revoke_agent E a s = Inr s'" using assms by simp
  then show ?thesis
    by (rule revoke_agent_Ok) (auto simp: aa_set_policy_def get_guard_rail_def is_guarded_def guarded_ads_def)
next
  case (AcRail ad' r)
  then have "ac_set_guard_rail (aw_port W) E ad' r s = Inr s'" using assms by simp
  then show ?thesis
    by (rule set_guard_rail_Ok)
      (use AcRail in \<open>auto simp: sched_stepD railed_def remove_guard_rail_def get_guard_rail_def is_guarded_def guarded_ads_def\<close>)
next
  case (AcDisarm esc ad')
  then show ?thesis using assms
    by (auto simp: disarm_closed_ad_def attempt_Ok remove_guard_rail_def get_guard_rail_def is_guarded_def
        guarded_ads_def split: if_splits prod.splits)
next
  case (AcCall tg f args pay aps)
  then have "check_owner_call (apt_commit (aw_port W)) E f args s = Inr s'"
    using assms by (auto simp: ac_call_def attempt_Ok)
  then show ?thesis
  proof (cases rule: check_owner_call_Ok)
    case plain
    then show ?thesis by (simp add: sched_stepD get_guard_rail_def is_guarded_def guarded_ads_def)
  next
    case (flow ad' amount g b)
    then show ?thesis
      by (auto simp: railed_def get_guard_rail_def is_guarded_def guarded_ads_def same_settings_def)
  qed
next
  case (AcSweep t to a)
  then have "\<exists>s1. sched_step s s1 \<and> s' = s1" using assms
    by (auto simp: ac_sweep_def attempt_Ok split: if_splits dest!: spend_step)
  then show ?thesis by (auto simp: sched_stepD get_guard_rail_def is_guarded_def guarded_ads_def)
next
  case (AcUpgrade h)
  then have "ac_upgrade (aw_port W) E h s = Inr s'" using assms by simp
  then show ?thesis by (rule upgrade_Ok) (simp add: sched_stepD get_guard_rail_def is_guarded_def guarded_ads_def)
next
  case (AcAuth h sig ctxs)
  then obtain a p p1 s1 where cx: "check_contexts E (get_targets s) ctxs (p, s) = Inr (p1, s1)"
    and s': "s' = aa_set_policy a p1 s1"
    using assms by (auto simp: check_auth_def attempt_Ok split: if_splits)
  obtain f where "s1 = s\<lparr>aa_volumes := f\<rparr>" using contexts_Ok [OF cx] by blast
  then show ?thesis using s' by (simp add: aa_set_policy_def get_guard_rail_def is_guarded_def guarded_ads_def)
qed (use assms in \<open>auto simp: ac_schedule_def ac_cancel_def ac_migrate_def set_schedule_def clear_schedule_def
    set_schema_version_def attempt_Ok get_guard_rail_def is_guarded_def guarded_ads_def split: if_splits prod.splits\<close>)

section \<open>Announcements\<close>

lemma exec_rows:
  assumes "aa_exec W E c w s = Inr s'" "\<And>sc a args. c \<noteq> AcSchedule sc a args"
  shows "rows_wait s s'"
proof -
  have cong: "rows_wait s s2" if "rows_wait s s1" "aa_schedules s2 = aa_schedules s1" for s1 s2
    using that by (simp add: rows_wait_def get_schedule_def)
  have same: "rows_wait s s2" if "aa_schedules s2 = aa_schedules s" for s2
    using cong [of s s2] that by simp
  show ?thesis
  proof (cases c)
    case (AcTargets ts)
    then have "ac_set_targets (aw_port W) E ts s = Inr s'" using assms by simp
    then show ?thesis by (rule set_targets_Ok) (auto intro: cong dest: sched_stepD)
  next
    case (AcPolicy a f ads ords vu sg scp)
    then have "ac_set_policy (aw_port W) E a f ads ords vu sg scp s = Inr s'" using assms by simp
    then show ?thesis by (rule set_policy_Ok) (auto simp: aa_set_policy_def intro: cong dest: sched_stepD)
  next
    case (AcLimit t l)
    then have "ac_set_account_limit (aw_port W) E t l s = Inr s'" using assms by simp
    then show ?thesis by (rule set_account_limit_Ok) (auto simp: set_account_volume_def intro: cong dest: sched_stepD)
  next
    case (AcRevoke a)
    then have "revoke_agent E a s = Inr s'" using assms by simp
    then show ?thesis by (rule revoke_agent_Ok) (auto simp: aa_set_policy_def intro: same)
  next
    case (AcRail ad r)
    then have "ac_set_guard_rail (aw_port W) E ad r s = Inr s'" using assms by simp
    then show ?thesis
    proof (cases rule: set_guard_rail_Ok)
      case (armed g s1 s2)
      have "rows_wait s (railed ad (armed_rail (get_guard_rail s ad) g (now E)) s1)"
        by (rule cong [OF sched_stepD(9) [OF armed(2)]]) (simp add: railed_def)
      then show ?thesis using sched_stepD(9) [OF armed(3)] armed(4) rows_wait_trans by blast
    next
      case (disarmed s1)
      have "rows_wait s (remove_guard_rail ad s1)"
        by (rule cong [OF sched_stepD(9) [OF disarmed(2)]]) (simp add: remove_guard_rail_def)
      then show ?thesis using sched_stepD(9) [OF sched_step_clear_all] disarmed(3) rows_wait_trans by blast
    qed
  next
    case (AcDisarm esc ad)
    then have "s' = clear_all_schedules ad (remove_guard_rail ad s)" using assms
      by (auto simp: disarm_closed_ad_def attempt_Ok split: if_splits prod.splits)
    moreover have "rows_wait s (remove_guard_rail ad s)" by (rule same) (simp add: remove_guard_rail_def)
    ultimately show ?thesis using sched_stepD(9) [OF sched_step_clear_all] rows_wait_trans by blast
  next
    case (AcCall tg f args pay aps)
    then have "check_owner_call (apt_commit (aw_port W)) E f args s = Inr s'"
      using assms by (auto simp: ac_call_def attempt_Ok)
    then show ?thesis by (cases rule: check_owner_call_Ok) (auto simp: sched_stepD railed_def intro: same)
  next
    case (AcSweep t to a)
    then show ?thesis using assms
      by (auto simp: ac_sweep_def attempt_Ok split: if_splits dest!: spend_step intro: sched_stepD)
  next
    case (AcUpgrade h)
    then have "ac_upgrade (aw_port W) E h s = Inr s'" using assms by simp
    then show ?thesis by (rule upgrade_Ok) (auto intro: cong dest: sched_stepD)
  next
    case (AcAuth h sig ctxs)
    then obtain a p p1 s1 where cx: "check_contexts E (get_targets s) ctxs (p, s) = Inr (p1, s1)"
      and s': "s' = aa_set_policy a p1 s1"
      using assms by (auto simp: check_auth_def attempt_Ok split: if_splits)
    obtain f where "s1 = s\<lparr>aa_volumes := f\<rparr>" using contexts_Ok [OF cx] by blast
    then show ?thesis using s' by (intro same) (simp add: aa_set_policy_def)
  next
    case (AcCancel sc a)
    then have "s' = clear_schedule sc a s" using assms by (auto simp: ac_cancel_def attempt_Ok split: if_splits)
    then show ?thesis using sched_stepD(9) [OF sched_step_clear] by blast
  qed (use assms in \<open>auto simp: ac_migrate_def set_schema_version_def attempt_Ok intro: same split: if_splits\<close>)
qed

lemma ac_schedule_Ok:
  assumes "ac_schedule P E sc a args s = Inr s'"
  obtains cargs d win x where "schedule_terms sc a args s = Inr (cargs, d, win)"
    "s' = set_schedule sc a x s" "sc_commitment x = apt_commit P cargs" "unat (sc_ready_at x) = unat (now E) + unat d"
  using assms
  by (auto simp: ac_schedule_def window_from_now_def attempt_Ok ok_or_Ok checked_add_Some split: prod.splits)

text \<open>\<open>announced W T sc a x\<close>: the trace holds an announcement of exactly this row, made at least its delay
  before the row opens, and the row has been pending ever since.\<close>

definition announced :: "'w agent_world \<Rightarrow> 'w agent_event list \<Rightarrow> scope \<Rightarrow> string \<Rightarrow> bytes32 \<Rightarrow> u64 \<Rightarrow> bool" where
  "announced W T sc a cm ready \<longleftrightarrow>
     (\<exists>T1 E0 args w0 s0 T2 cargs d win. T = T1 @ (E0, AcSchedule sc a args, w0, s0) # T2 \<and>
        schedule_terms sc a args s0 = Inr (cargs, d, win) \<and> apt_commit (aw_port W) cargs = cm \<and>
        unat (now E0) + unat d \<le> unat ready \<and>
        (\<forall>(E, c, w, s) \<in> set T2. \<exists>y. get_schedule s sc a = Some y \<and> sc_commitment y = cm))"

lemma announced_later:
  assumes "announced W T sc a cm r" "r \<le> r'" "\<exists>y. get_schedule s sc a = Some y \<and> sc_commitment y = cm"
  shows "announced W (T @ [(E, c, w, s)]) sc a cm r'"
proof -
  obtain T1 E0 args w0 s0 T2 cargs d win where h: "T = T1 @ (E0, AcSchedule sc a args, w0, s0) # T2"
    "schedule_terms sc a args s0 = Inr (cargs, d, win)" "apt_commit (aw_port W) cargs = cm"
    "unat (now E0) + unat d \<le> unat r"
    "\<forall>(E, c, w, s) \<in> set T2. \<exists>y. get_schedule s sc a = Some y \<and> sc_commitment y = cm"
    using assms(1) unfolding announced_def by blast
  have "T @ [(E, c, w, s)] = T1 @ (E0, AcSchedule sc a args, w0, s0) # (T2 @ [(E, c, w, s)])" using h(1) by simp
  moreover have "unat (now E0) + unat d \<le> unat r'" using h(4) assms(2) by (simp add: word_le_nat_alt)
  moreover have "\<forall>(E, c, w, s) \<in> set (T2 @ [(E, c, w, s)]). \<exists>y. get_schedule s sc a = Some y \<and> sc_commitment y = cm"
    using h(5) assms(3) by auto
  ultimately show ?thesis unfolding announced_def using h(2,3) by blast
qed

lemma run_announced:
  assumes "aa_run W t0 s0 T t s" "aa_schedules s0 = Map.empty" "get_schedule s sc a = Some x"
  shows "announced W T sc a (sc_commitment x) (sc_ready_at x)"
  using assms
proof (induction arbitrary: x rule: aa_run.induct)
  case run_start
  then show ?case by (simp add: get_schedule_def)
next
  case (run_call T t s E c w s')
  show ?case
  proof (cases "\<exists>args. c = AcSchedule sc a args")
    case True
    then obtain args where c: "c = AcSchedule sc a args" by blast
    then have "ac_schedule (aw_port W) E sc a args s = Inr s'" using run_call.hyps by simp
    then obtain cargs d win x0 where h: "schedule_terms sc a args s = Inr (cargs, d, win)"
      "s' = set_schedule sc a x0 s" "sc_commitment x0 = apt_commit (aw_port W) cargs"
      "unat (sc_ready_at x0) = unat (now E) + unat d"
      by (rule ac_schedule_Ok)
    have x: "x = x0" using h(2) run_call.prems by (simp add: get_schedule_def set_schedule_def)
    show ?thesis unfolding announced_def x
      by (rule exI [of _ T], rule exI [of _ E], rule exI [of _ args], rule exI [of _ w], rule exI [of _ s],
          rule exI [of _ "[]"], rule exI [of _ cargs], rule exI [of _ d], rule exI [of _ win])
        (use h c in simp)
  next
    case False
    have "rows_wait s s' \<or> get_schedule s' sc a = get_schedule s sc a"
    proof (cases "\<exists>sc' a' args. c = AcSchedule sc' a' args")
      case True
      then obtain sc' a' args where c: "c = AcSchedule sc' a' args" by blast
      then have "ac_schedule (aw_port W) E sc' a' args s = Inr s'" using run_call.hyps by simp
      then show ?thesis
        by (rule ac_schedule_Ok) (use False c in \<open>auto simp: get_schedule_def set_schedule_def\<close>)
    next
      case False
      then show ?thesis using exec_rows [OF run_call.hyps(3)] by blast
    qed
    then obtain y where y: "get_schedule s sc a = Some y" "sc_commitment y = sc_commitment x"
      "sc_ready_at y \<le> sc_ready_at x"
      using run_call.prems(2) unfolding rows_wait_def by (metis order_refl)
    have "announced W T sc a (sc_commitment x) (sc_ready_at y)"
      using run_call.IH [OF run_call.prems(1) y(1)] y(2) by simp
    then show ?thesis by (rule announced_later) (use y in auto)
  qed
qed

lemma reach_announced:
  assumes "aa_reach W T t s" "get_schedule s sc a = Some x"
  shows "announced W T sc a (sc_commitment x) (sc_ready_at x)"
proof -
  obtain E o' ts s0 where s0: "ac_constructor E o' ts aa_empty = Inr s0" and run: "aa_run W (now E) s0 T t s"
    using assms(1) by (auto simp: aa_reach_def)
  have "aa_schedules s0 = Map.empty" using s0
    by (auto simp: ac_constructor_def aa_set_targets_def aa_set_owner_def set_schema_version_def aa_empty_def
        attempt_Ok split: if_splits)
  then show ?thesis using run_announced [OF run] assms(2) by blast
qed

end
