(* ===== verification/Agent_Demo.thy ===== *)
theory Agent_Demo
  imports Agent_Rails
begin

text \<open>
  The account on concrete data: a limit, an agent's policy, one lock by the agent, a guard rail, an
  announced close of the ad a day later, and the agent revoked.
\<close>

definition bd_crypto :: crypto where
  "bd_crypto = \<lparr>keccak256 = (\<lambda>bs. of_nat (length bs)), xdr_hash = (\<lambda>_ _. 1),
     xdr_args = (\<lambda>_. Some []), fr_reduce = (\<lambda>x. x), poseidon = (\<lambda>_. 0)\<rparr>"

definition bd_env :: "u64 \<Rightarrow> env" where
  "bd_env t = \<lparr>now = t, self = ContractAddr 70, authed = (\<lambda>a. a = AccountAddr 1), prims = bd_crypto\<rparr>"

definition bd_curve :: curve where
  "bd_curve = \<lparr>g1_add = (\<lambda>x y. Some x), hash_to_g2 = (\<lambda>m d. [1]), pairing_check = (\<lambda>ps qs. Some False),
     sha256 = (\<lambda>_. 0), ed25519_ok = (\<lambda>_ _ _. True), secp_recover = (\<lambda>_ _ _. None)\<rparr>"

definition bd_port :: "unit agent_port" where
  "bd_port = \<lparr>apt_commit = (\<lambda>args. of_nat (length args)), apt_view = (\<lambda>_ _ _ _. Some VVoid),
     apt_invoke = (\<lambda>_ _ _ _ _ w. Some (VVoid, w))\<rparr>"

definition bd_world :: "unit agent_world" where
  "bd_world = \<lparr>aw_port = bd_port, aw_ext = undefined, aw_curve = bd_curve\<rparr>"

definition bd_init :: agent_store where
  "bd_init = aa_empty\<lparr>aa_owner := Some (AccountAddr 1), aa_targets := Some [ContractAddr 60], aa_schema := Some 4\<rparr>"

definition bd_limit :: limit where
  "bd_limit = \<lparr>capacity = 1000, refill_per_second = 1\<rparr>"

definition bd_limited :: agent_store where
  "bd_limited = bd_init\<lparr>aa_volumes := [21 \<mapsto> \<lparr>av_limit = bd_limit, av_bucket = \<lparr>level = 1000, last_ts = 100\<rparr>\<rparr>]\<rparr>"

definition bd_row :: token_limit where
  "bd_row = \<lparr>tk_token = 21, tk_max_per_order = 100, tk_rate = bd_limit\<rparr>"

definition bd_policy :: agent_policy where
  "bd_policy = \<lparr>ap_allowed_action = ''lock_for_order'', ap_ad_tokens = [bd_row], ap_order_tokens = [20],
     ap_valid_until = 0, ap_revoked = False, ap_settlement_signer = 2, ap_ad_scope = None, ap_buckets = []\<rparr>"

definition bd_agented :: agent_store where
  "bd_agented = bd_limited\<lparr>aa_policies := [7 \<mapsto> bd_policy]\<rparr>"

definition bd_lock :: auth_context where
  "bd_lock = CtxContract (ContractAddr 60) ''lock_for_order''
     [VMap [(''ad_creator'', VBytes32 70), (''ad_settlement_signer'', VBytes32 2), (''ad_chain_token'', VBytes32 21),
        (''order_chain_token'', VBytes32 20), (''ad_id'', VStr ''a1''), (''amount'', VU128 100),
        (''order_decimals'', VU32 7), (''ad_decimals'', VU32 7)], VU32 0]"

definition bd_spent :: agent_policy where
  "bd_spent = bd_policy\<lparr>ap_buckets := [\<lparr>tb_token = 21, tb_bucket = \<lparr>level = 900, last_ts = 200\<rparr>\<rparr>]\<rparr>"

definition bd_locked :: agent_store where
  "bd_locked = bd_limited\<lparr>aa_policies := [7 \<mapsto> bd_spent],
     aa_volumes := [21 \<mapsto> \<lparr>av_limit = bd_limit, av_bucket = \<lparr>level = 900, last_ts = 200\<rparr>\<rparr>]\<rparr>"

definition bd_rail :: guard_rail where
  "bd_rail = \<lparr>gr_threshold = 50, gr_delay = 86400, gr_window = 86400,
     gr_rate = \<lparr>capacity = 500, refill_per_second = 1\<rparr>, gr_bucket = \<lparr>level = 500, last_ts = 300\<rparr>\<rparr>"

definition bd_guarded :: agent_store where
  "bd_guarded = bd_locked\<lparr>aa_rails := [''a1'' \<mapsto> bd_rail], aa_roster := [''a1'']\<rparr>"

definition bd_close :: "val list" where
  "bd_close = [VStr ''a1'', VAddr (AccountAddr 1)]"

definition bd_pending :: agent_store where
  "bd_pending = bd_guarded\<lparr>aa_schedules :=
     [(AdScope ''a1'', ''close_ad'') \<mapsto> \<lparr>sc_commitment = 2, sc_ready_at = 86800, sc_expires_at = 173200\<rparr>]\<rparr>"

definition bd_revoked :: agent_store where
  "bd_revoked = bd_guarded\<lparr>aa_policies := [7 \<mapsto> bd_spent\<lparr>ap_revoked := True\<rparr>]\<rparr>"

lemmas bd_env_simps [simp] = bd_env_def bd_crypto_def

lemmas bd_stores = bd_init_def bd_limited_def bd_agented_def bd_locked_def bd_guarded_def bd_pending_def
  bd_revoked_def aa_empty_def

lemmas bd_data = bd_limit_def bd_row_def bd_policy_def bd_spent_def bd_rail_def bd_lock_def bd_close_def

lemmas aa_readers = get_policy_def get_account_volume_def set_account_volume_def any_guarded_def is_guarded_def
  guarded_ads_def get_guard_rail_def get_schedule_def set_schedule_def clear_schedule_def get_targets_def
  aa_set_policy_def

lemma bd_by_owner: "aa_owner s = Some (AccountAddr 1) \<Longrightarrow> by_owner (bd_env t) s = Inr (AccountAddr 1)"
  by (simp add: by_owner_Ok)

lemma bd_owners [simp]:
  "aa_owner bd_init = Some (AccountAddr 1)" "aa_owner bd_limited = Some (AccountAddr 1)"
  "aa_owner bd_agented = Some (AccountAddr 1)" "aa_owner bd_locked = Some (AccountAddr 1)"
  "aa_owner bd_guarded = Some (AccountAddr 1)" "aa_owner bd_pending = Some (AccountAddr 1)"
  by (simp_all add: bd_stores)

lemma bd_step0: "ac_constructor (bd_env 100) (AccountAddr 1) [ContractAddr 60] aa_empty = Inr bd_init"
  by (simp add: ac_constructor_def aa_set_targets_def aa_set_owner_def set_schema_version_def MAX_TARGETS_def
      SCHEMA_VERSION_def bd_init_def aa_empty_def)

lemma bd_step1: "aa_exec bd_world (bd_env 100) (AcLimit 21 bd_limit) w bd_init = Inr bd_limited"
  by (simp add: ac_set_account_limit_def bd_by_owner del: bd_env_simps)
    (simp add: validate_limit_def bd_limit_def aa_readers bd_init_def bd_limited_def aa_empty_def full_bucket_def)

lemma bd_step2: "aa_exec bd_world (bd_env 100) (AcPolicy 7 ''lock_for_order'' [bd_row] [20] 0 2 None) w bd_limited
    = Inr bd_agented"
  by (simp add: ac_set_policy_def bd_by_owner del: bd_env_simps)
    (simp add: validate_policy_def validate_token_limit_def validate_limit_def check_token_def is_zero_bytes32_def
      sym_defs MAX_WHITELIST_TOKENS_def bd_data aa_readers bd_stores)

lemma bd_fields: "lock_fields [VMap [(''ad_creator'', VBytes32 70), (''ad_settlement_signer'', VBytes32 2), (''ad_chain_token'', VBytes32 21),
        (''order_chain_token'', VBytes32 20), (''ad_id'', VStr ''a1''), (''amount'', VU128 100),
        (''order_decimals'', VU32 7), (''ad_decimals'', VU32 7)], VU32 0] = Some (70, 2, 21, 20, ''a1'', 100)"
  by (simp add: lock_fields_def lock_amount_def map_field_def scale_def assert_in_range_def MAX_DECIMALS_def)

lemma bd_step3: "aa_exec bd_world (bd_env 200) (AcAuth 0 (SigAgent 7 []) [bd_lock]) w bd_agented = Inr bd_locked"
  by (simp add: check_auth_def verify_ed25519_def bd_world_def bd_curve_def check_contract_call_def settlement_signer_of_def
      map_field_def arg_def scale_def assert_in_range_def MAX_DECIMALS_def limit_for_def ad_in_scope_def spend_volume_def
      bucket_for_def full_bucket_def put_bucket_def try_spend_def available_def saturating_sub_def checked_mul_def
      checked_add_def bd_data aa_readers bd_stores)

lemma bd_step4: "aa_exec bd_world (bd_env 300) (AcRail ''a1'' (Some bd_rail)) w bd_locked = Inr bd_guarded"
  by (simp add: ac_set_guard_rail_def bd_by_owner del: bd_env_simps)
    (simp add: check_guard_bounds_def MAX_GUARD_DELAY_def MIN_GUARD_WINDOW_def armed_rail_def put_guard_rail_def
      MAX_GUARDED_ADS_def retime_def account_timelock_def restamp_def restamp_row_def clamp_windows_def clamp_row_def
      timelock_without_def ad_actions_def account_actions_def cadd_def bd_data aa_readers bd_stores)

lemma bd_step5: "aa_exec bd_world (bd_env 400) (AcSchedule (AdScope ''a1'') ''close_ad'' bd_close) w bd_guarded = Inr bd_pending"
  by (simp add: ac_schedule_def bd_by_owner del: bd_env_simps)
    (simp add: decode_ad_call_def arity_def arg_def sym_defs guard_rail_for_schedule_def window_from_now_def
      checked_add_def bd_world_def bd_port_def bd_data aa_readers bd_stores)

lemma bd_step6: "aa_exec bd_world (bd_env 86800) (AcCall (ContractAddr 60) ''close_ad'' bd_close None []) w bd_pending = Inr bd_guarded"
  by (simp add: ac_call_def bd_by_owner del: bd_env_simps)
    (simp add: require_target_def check_owner_call_def is_token_function_def sym_defs decode_ad_call_def arity_def arg_def
      spend_def call_with_def bd_world_def bd_port_def bd_data aa_readers bd_stores)

lemma bd_step7: "aa_exec bd_world (bd_env 86900) (AcRevoke 7) w bd_guarded = Inr bd_revoked"
  by (simp add: revoke_agent_def bd_by_owner del: bd_env_simps) (simp add: bd_data aa_readers bd_stores)

end
