(* ===== verification/Agent_Properties.thy ===== *)
theory Agent_Properties
  imports Agent_Demo
begin

text \<open>The properties of the account agents act through.\<close>

section \<open>Policies over a run\<close>

lemma exec_policies:
  assumes "aa_exec W E c w s = Inr s'" "get_policy s a = Some p" "ap_revoked p"
  shows "\<exists>p'. get_policy s' a = Some p' \<and> ap_revoked p'"
proof -
  consider (policy) b f ads ords vu sg scp where "c = AcPolicy b f ads ords vu sg scp" | (revoke) b where "c = AcRevoke b"
    | (auth) h sig ctxs where "c = AcAuth h sig ctxs"
    | (other) "\<And>b f ads ords vu sg scp. c \<noteq> AcPolicy b f ads ords vu sg scp" "\<And>b. c \<noteq> AcRevoke b"
      "\<And>h sig ctxs. c \<noteq> AcAuth h sig ctxs" by blast
  then show ?thesis
  proof cases
    case policy
    then have "ac_set_policy (aw_port W) E b f ads ords vu sg scp s = Inr s'" using assms by simp
    then show ?thesis
      by (rule set_policy_Ok) (use assms(2,3) in \<open>auto simp: sched_stepD aa_set_policy_def get_policy_def\<close>)
  next
    case revoke
    then have "revoke_agent E b s = Inr s'" using assms by simp
    then show ?thesis
      by (rule revoke_agent_Ok) (use assms(2,3) in \<open>auto simp: aa_set_policy_def get_policy_def\<close>)
  next
    case auth
    then have "check_auth (aw_curve W) E h sig ctxs s = Inr s'" using assms by simp
    then obtain b q q1 s1 where q: "get_policy s b = Some q" "\<not> ap_revoked q"
      and cx: "check_contexts E (get_targets s) ctxs (q, s) = Inr (q1, s1)" and s': "s' = aa_set_policy b q1 s1"
      by (rule check_auth_parts) blast
    obtain f where "s1 = s\<lparr>aa_volumes := f\<rparr>" using contexts_Ok [OF cx] by blast
    then show ?thesis using s' q assms(2,3) by (auto simp: aa_set_policy_def get_policy_def)
  next
    case other
    then have "aa_policies s' = aa_policies s" using exec_same_policies [OF assms(1)] by blast
    then show ?thesis using assms(2,3) by (simp add: get_policy_def)
  qed
qed

section \<open>Agents\<close>

text \<open>C35: an authorization by an agent passes only when the signing agent has a policy that is neither
  revoked nor expired and every single call it covers is a lock that policy allows: on a pinned escrow,
  of one of the account's own ads in scope, for listed tokens, naming the policy's settlement signer,
  for an amount above zero and within the cap of its token.\<close>

theorem agent_calls_bounded:
  assumes "check_auth K E payload sig ctxs s = Inr s'"
  shows "\<exists>agent p. agent_of K E payload sig = Inr agent \<and> get_policy s agent = Some p \<and> \<not> ap_revoked p \<and>
    (ap_valid_until p = 0 \<or> now E < ap_valid_until p) \<and> ctxs \<noteq> [] \<and>
    (\<forall>ctx \<in> set ctxs. allowed_lock E (get_targets s) p ctx)"
proof -
  obtain a p p1 s1 where a: "agent_of K E payload sig = Inr a" "get_policy s a = Some p" "\<not> ap_revoked p"
    "ap_valid_until p = 0 \<or> now E < ap_valid_until p" "ctxs \<noteq> []"
    and cx: "check_contexts E (get_targets s) ctxs (p, s) = Inr (p1, s1)"
    using assms by (auto simp: check_auth_def attempt_Ok ok_or_Ok not_le split: if_splits)
  then show ?thesis using contexts_Ok [OF cx] by blast
qed

theorem agent_calls_bounded_witness:
  "\<exists>agent p. agent_of bd_curve (bd_env 200) 0 (SigAgent 7 []) = Inr agent \<and> get_policy bd_agented agent = Some p \<and>
    \<not> ap_revoked p \<and> (ap_valid_until p = 0 \<or> now (bd_env 200) < ap_valid_until p) \<and> [bd_lock] \<noteq> [] \<and>
    (\<forall>ctx \<in> set [bd_lock]. allowed_lock (bd_env 200) (get_targets bd_agented) p ctx)"
  by (rule agent_calls_bounded) (use bd_step3 [of "()"] in \<open>simp add: bd_world_def\<close>)

text \<open>C36: over any stretch of the account's life, what all agents together lock of a token is at most one
  capacity plus the refill of the elapsed time, for the largest capacity and refill rate the owner ever
  set for it: more agents, new policies and resetting the limit give no second allowance.\<close>

theorem agents_share_volume:
  assumes "aa_reach W T1 t1 s1" "aa_run W t1 s1 T2 t2 s2" "limits_within C R token (T1 @ T2)"
  shows "total_drawn token T2 \<le> C + R * (unat t2 - unat t1)"
proof -
  obtain E o' ts s0 where s0: "ac_constructor E o' ts aa_empty = Inr s0" and run: "aa_run W (now E) s0 T1 t1 s1"
    using assms(1) by (auto simp: aa_reach_def)
  have empty: "aa_volumes s0 = Map.empty" using s0
    by (auto simp: ac_constructor_def aa_set_targets_def aa_set_owner_def set_schema_version_def aa_empty_def
        attempt_Ok split: if_splits)
  have within: "limits_within C R token T1" "limits_within C R token T2"
    using assms(3) by (auto simp: limits_within_def)
  have "volume_ok C R token (now E) s0" by (simp add: volume_ok_def get_account_volume_def empty)
  then have ok: "volume_ok C R token t1 s1" using run_volume [OF run _ within(1)] by blast
  have "volume_left C token t1 s1 \<le> C"
  proof (cases "get_account_volume s1 token")
    case (Some v)
    then have "unat (capacity (av_limit v)) \<le> C" using ok by (simp add: volume_ok_def)
    then show ?thesis
      using Some order_trans [OF available_le_capacity] by (simp add: volume_left_def)
  qed (simp add: volume_left_def)
  then show ?thesis using run_volume [OF assms(2) ok within(2)] by linarith
qed

section \<open>A demonstration run\<close>

definition bd_trace :: "unit agent_event list" where
  "bd_trace = [(bd_env 100, AcLimit 21 bd_limit, (), bd_init),
     (bd_env 100, AcPolicy 7 ''lock_for_order'' [bd_row] [20] 0 2 None, (), bd_limited),
     (bd_env 200, AcAuth 0 (SigAgent 7 []) [bd_lock], (), bd_agented),
     (bd_env 300, AcRail ''a1'' (Some bd_rail), (), bd_locked),
     (bd_env 400, AcSchedule (AdScope ''a1'') ''close_ad'' bd_close, (), bd_guarded)]"

lemma bd_now: "now (bd_env t) = t"
  by simp

lemma bd_runs:
  "aa_run bd_world 100 bd_init (take 1 bd_trace) 100 bd_limited"
  "aa_run bd_world 100 bd_init (take 2 bd_trace) 100 bd_agented"
  "aa_run bd_world 100 bd_init (take 3 bd_trace) 200 bd_locked"
  "aa_run bd_world 100 bd_init (take 4 bd_trace) 300 bd_guarded"
  "aa_run bd_world 100 bd_init bd_trace 400 bd_pending"
proof -
  note step = run_call [where W = bd_world and ?t0.0 = 100 and ?s0.0 = bd_init]
  show 1: "aa_run bd_world 100 bd_init (take 1 bd_trace) 100 bd_limited"
    using step [OF run_start _ bd_step1] by (simp add: bd_trace_def bd_now del: bd_env_simps)
  show 2: "aa_run bd_world 100 bd_init (take 2 bd_trace) 100 bd_agented"
    using step [OF 1 _ bd_step2] by (simp add: bd_trace_def bd_now numeral_2_eq_2 del: bd_env_simps)
  show 3: "aa_run bd_world 100 bd_init (take 3 bd_trace) 200 bd_locked"
    using step [OF 2 _ bd_step3] by (simp add: bd_trace_def bd_now del: bd_env_simps)
  show 4: "aa_run bd_world 100 bd_init (take 4 bd_trace) 300 bd_guarded"
    using step [OF 3 _ bd_step4] by (simp add: bd_trace_def bd_now del: bd_env_simps)
  show "aa_run bd_world 100 bd_init bd_trace 400 bd_pending"
    using step [OF 4 _ bd_step5] by (simp add: bd_trace_def bd_now del: bd_env_simps)
qed

lemma bd_reach:
  "aa_reach bd_world (take 2 bd_trace) 100 bd_agented" "aa_reach bd_world (take 4 bd_trace) 300 bd_guarded"
  "aa_reach bd_world bd_trace 400 bd_pending"
  using bd_runs bd_step0 unfolding aa_reach_def by (metis bd_now)+

lemma bd_views:
  "is_guarded bd_pending ''a1''" "get_guard_rail bd_pending ''a1'' = Some bd_rail"
  "decode_ad_call ''close_ad'' bd_close = Inr (''a1'', 0)"
  "get_policy bd_revoked 7 = Some (bd_spent\<lparr>ap_revoked := True\<rparr>)"
  by (simp_all add: aa_readers bd_stores decode_ad_call_def arity_def arg_def sym_defs bd_close_def)

theorem agents_share_volume_witness:
  "total_drawn 21 [(bd_env 200, AcAuth 0 (SigAgent 7 []) [bd_lock], (), bd_agented)] \<le> 1000 + 1 * (unat (200 :: u64) - unat (100 :: u64))"
proof (rule agents_share_volume [OF bd_reach(1)])
  show "aa_run bd_world 100 bd_agented [(bd_env 200, AcAuth 0 (SigAgent 7 []) [bd_lock], (), bd_agented)] 200 bd_locked"
    using run_call [OF run_start _ bd_step3] by (simp add: bd_now del: bd_env_simps)
  show "limits_within 1000 1 21 (take 2 bd_trace @ [(bd_env 200, AcAuth 0 (SigAgent 7 []) [bd_lock], (), bd_agented)])"
    by (auto simp: limits_within_def bd_trace_def bd_limit_def numeral_2_eq_2)
qed

text \<open>Once revoked, an agent stays revoked: after any run of calls its signature is refused, and no
  call of the owner installs a policy for it again.\<close>

theorem revoked_stays_revoked:
  assumes "aa_run W t0 s0 T t s" "get_policy s0 agent = Some p" "ap_revoked p"
    "agent_of K E payload sig = Inr agent"
  shows "check_auth K E payload sig ctxs s = Fail AcAgentRevoked"
proof -
  have "\<exists>p'. get_policy s agent = Some p' \<and> ap_revoked p'"
    using assms(1-3)
  proof (induction rule: aa_run.induct)
    case run_start
    then show ?case by blast
  next
    case (run_call T t s E c w s')
    then obtain p' where "get_policy s agent = Some p'" "ap_revoked p'" by blast
    then show ?case by (rule exec_policies [OF run_call.hyps(3)])
  qed
  then show ?thesis using assms(4) by (auto simp: check_auth_def)
qed

theorem revoked_stays_revoked_witness:
  "check_auth bd_curve (bd_env 90000) 0 (SigAgent 7 []) [bd_lock] bd_revoked = Fail AcAgentRevoked"
proof (rule revoked_stays_revoked [OF run_start bd_views(4)])
  show "ap_revoked (bd_spent\<lparr>ap_revoked := True\<rparr>)" by simp
  show "agent_of bd_curve (bd_env 90000) 0 (SigAgent 7 []) = Inr 7" by (simp add: verify_ed25519_def bd_curve_def)
qed

text \<open>C39: on a guarded account a policy change with no announcement never gives an agent anything: whatever
  sequence of authorizations, by any agents, at any later times, the account accepts after the change it
  would have accepted without it too, drawing the same volumes. So the new policy is no wider on any axis
  the check reads: action, signer, tokens, ads, cap of an order, expiry, and the capacity, the refill and
  what is left of each token's bucket.\<close>

theorem tightening_never_widens:
  assumes "aa_reach W T t s" "t \<le> now E" "any_guarded s" "get_schedule s AccountScope sym_set_policy = None"
    "ac_set_policy (aw_port W) E agent f ads ords vu sg scp s = Inr s1"
    "times_from (now E) xs" "authorizes K xs s1 = Inr s2"
  shows "\<exists>s2'. authorizes K xs s = Inr s2' \<and> aa_volumes s2' = aa_volumes s2"
  using assms(5)
proof (cases rule: set_policy_installs)
  case (at_once cur)
  have "stamped (now E) cur"
    using stamps_later [OF reach_stamps [OF assms(1)] assms(2)] at_once(1) by (simp add: stamps_past_def)
  then have "narrowed (now E) agent s s1"
    using at_once carry_narrower [OF at_once(3)] unfolding narrowed_def by auto
  then show ?thesis by (rule authorizes_narrowed [OF _ assms(6,7)])
next
  case fresh
  then show ?thesis using assms(3,4) by simp
qed

definition bd_tight_row :: token_limit where
  "bd_tight_row = bd_row\<lparr>tk_rate := \<lparr>capacity = 500, refill_per_second = 1\<rparr>\<rparr>"

definition bd_tight :: agent_policy where
  "bd_tight = bd_policy\<lparr>ap_ad_tokens := [bd_tight_row], ap_ad_scope := Some [''a1''], ap_valid_until := 1000,
     ap_buckets := [\<lparr>tb_token = 21, tb_bucket = \<lparr>level = 500, last_ts = 400\<rparr>\<rparr>]\<rparr>"

definition bd_tightened :: agent_store where
  "bd_tightened = aa_set_policy 7 bd_tight bd_guarded"

definition bd_request :: auth_request where
  "bd_request = (bd_env 500, 0, SigAgent 7 [], [bd_lock])"

lemma bd_tighten:
  "ac_set_policy (aw_port bd_world) (bd_env 400) 7 ''lock_for_order'' [bd_tight_row] [20] 1000 2 (Some [''a1'']) bd_guarded
     = Inr bd_tightened"
  by (simp add: ac_set_policy_def bd_by_owner del: bd_env_simps)
    (simp add: validate_policy_def validate_token_limit_def validate_limit_def check_token_def is_zero_bytes32_def
      sym_defs MAX_WHITELIST_TOKENS_def MAX_VALID_UNTIL_def MAX_AD_SCOPE_def MAX_AD_ID_BYTES_def is_policy_tightening_def
      subset_of_def limit_for_def carry_buckets_def carry_row_def bucket_for_def put_bucket_def available_def
      saturating_sub_def checked_mul_def checked_add_def bd_tight_row_def bd_tight_def bd_tightened_def bd_data aa_readers
      bd_stores)

lemma bd_tight_lock: "\<exists>s2. authorizes bd_curve [bd_request, bd_request] bd_tightened = Inr s2"
  by (simp add: bd_request_def check_auth_def verify_ed25519_def bd_curve_def check_contract_call_def settlement_signer_of_def
      map_field_def arg_def scale_def assert_in_range_def MAX_DECIMALS_def limit_for_def ad_in_scope_def spend_volume_def
      bucket_for_def put_bucket_def try_spend_def available_def saturating_sub_def checked_mul_def
      checked_add_def bd_tight_row_def bd_tight_def bd_tightened_def bd_data aa_readers bd_stores)

theorem tightening_never_widens_witness:
  "\<exists>s2 s2'. authorizes bd_curve [bd_request, bd_request] bd_tightened = Inr s2 \<and>
     authorizes bd_curve [bd_request, bd_request] bd_guarded = Inr s2' \<and> aa_volumes s2' = aa_volumes s2"
proof -
  obtain s2 where s2: "authorizes bd_curve [bd_request, bd_request] bd_tightened = Inr s2" using bd_tight_lock by blast
  have "(300 :: u64) \<le> now (bd_env 400)" "any_guarded bd_guarded" "times_from (now (bd_env 400)) [bd_request, bd_request]"
    "get_schedule bd_guarded AccountScope sym_set_policy = None"
    by (simp_all add: bd_request_def aa_readers bd_stores)
  then show ?thesis using tightening_never_widens [OF bd_reach(2) _ _ _ bd_tighten _ s2] s2 by blast
qed

section \<open>Guard rails\<close>

text \<open>C37: on a guarded ad, a close, a re-pointed settlement signer, or a withdrawal or lock above the
  threshold goes through only if exactly this call was announced for this ad, at least the ad's delay
  before, has been pending ever since, and is used up by it.\<close>

theorem extraction_announced:
  assumes "aa_reach W T t s" "aa_exec W E (AcCall target f args pay approvals) w s = Inr s'"
    "decode_ad_call f args = Inr (ad, amount)" "f \<noteq> sym_set_guard_rail"
    "is_guarded s ad" "get_guard_rail s ad = Some g"
    "f = sym_close_ad \<or> f = sym_set_settlement_signer \<or> gr_threshold g < amount"
  shows "\<exists>T1 E0 args0 w0 s0 T2 g0. T = T1 @ (E0, AcSchedule (AdScope ad) f args0, w0, s0) # T2 \<and>
    apt_commit (aw_port W) args0 = apt_commit (aw_port W) args \<and> get_guard_rail s0 ad = Some g0 \<and>
    unat (now E0) + unat (gr_delay g0) \<le> unat (now E) \<and>
    (\<forall>(E1, c1, w1, s1) \<in> set T2. \<exists>y. get_schedule s1 (AdScope ad) f = Some y \<and>
       sc_commitment y = apt_commit (aw_port W) args) \<and>
    get_schedule s' (AdScope ad) f = None"
proof -
  have call: "check_owner_call (apt_commit (aw_port W)) E f args s = Inr s'"
    using assms(2) by (auto simp: ac_call_def attempt_Ok)
  have f: "f = sym_withdraw_from_ad \<or> f = sym_close_ad \<or> f = sym_lock_for_order \<or> f = sym_set_settlement_signer"
    using assms(3,4) unfolding decode_ad_call_def by (auto split: if_split_asm)
  then have f': "f \<noteq> sym_resume_settlement" by (auto simp: sym_defs)
  have "spend (apt_commit (aw_port W)) (AdScope ad) f args (now E) s = Inr s'"
  proof -
    have nt: "is_token_function f = False" using f by (auto simp: is_token_function_def sym_defs)
    have known: "(f \<noteq> sym_withdraw_from_ad \<and> f \<noteq> sym_close_ad \<and> f \<noteq> sym_lock_for_order \<and>
        f \<noteq> sym_set_settlement_signer) = False" using f by blast
    have over: "(if f = sym_close_ad \<or> f = sym_set_settlement_signer then True else gr_threshold g < amount) = True"
      using assms(7) by auto
    have "(\<not> is_guarded s ad) = False" "(f = sym_resume_settlement) = False" using assms(5) f' by simp_all
    then show ?thesis
      using call unfolding check_owner_call_def
      by (simp only: nt known over if_False if_True assms(3,6) attempt_simps prod.case ok_or_simps)
  qed
  then obtain x where x: "get_schedule s (AdScope ad) f = Some x"
    "sc_commitment x = apt_commit (aw_port W) args" "sc_ready_at x \<le> now E" "s' = clear_schedule (AdScope ad) f s"
    by (rule spend_Ok)
  have "announced W T (AdScope ad) f (apt_commit (aw_port W) args) (sc_ready_at x)"
    using reach_announced [OF assms(1) x(1)] unfolding x(2) .
  then obtain T1 E0 args0 w0 s0 T2 cargs d win where ann: "T = T1 @ (E0, AcSchedule (AdScope ad) f args0, w0, s0) # T2"
    "schedule_terms (AdScope ad) f args0 s0 = Inr (cargs, d, win)"
    "apt_commit (aw_port W) cargs = apt_commit (aw_port W) args" "unat (now E0) + unat d \<le> unat (sc_ready_at x)"
    "\<forall>(E1, c1, w1, s1) \<in> set T2. \<exists>y. get_schedule s1 (AdScope ad) f = Some y \<and> sc_commitment y = apt_commit (aw_port W) args"
    unfolding announced_def by blast
  obtain g0 where g0: "get_guard_rail s0 ad = Some g0" "d = gr_delay g0" "cargs = args0"
    using ann(2) assms(4)
    by (auto simp: attempt_Ok guard_rail_for_schedule_def split: if_split_asm option.split_asm prod.split_asm)
  have "unat (now E0) + unat (gr_delay g0) \<le> unat (now E)"
    using ann(4) x(3) g0(2) by (simp add: word_le_nat_alt)
  moreover have "get_schedule s' (AdScope ad) f = None"
    using x(4) by (simp add: get_schedule_def clear_schedule_def)
  ultimately show ?thesis using ann g0 by blast
qed

theorem extraction_announced_witness:
  "\<exists>T1 E0 args0 w0 s0 T2 g0. bd_trace = T1 @ (E0, AcSchedule (AdScope ''a1'') ''close_ad'' args0, w0, s0) # T2 \<and>
    apt_commit (aw_port bd_world) args0 = apt_commit (aw_port bd_world) bd_close \<and> get_guard_rail s0 ''a1'' = Some g0 \<and>
    unat (now E0) + unat (gr_delay g0) \<le> unat (now (bd_env 86800)) \<and>
    (\<forall>(E1, c1, w1, s1) \<in> set T2. \<exists>y. get_schedule s1 (AdScope ''a1'') ''close_ad'' = Some y \<and>
       sc_commitment y = apt_commit (aw_port bd_world) bd_close) \<and>
    get_schedule bd_guarded (AdScope ''a1'') ''close_ad'' = None"
  by (rule extraction_announced [OF bd_reach(3) bd_step6 bd_views(3) _ bd_views(1,2)]) (simp_all add: sym_defs)

text \<open>C38: the rail of a guarded ad only gets stricter, unless the change to exactly these settings, or the
  disarming, was announced at least its delay before and is opened by now, or the ad is the account's
  own closed and empty ad on a pinned escrow.\<close>

theorem guard_loosens_announced:
  assumes "aa_reach W T t s" "aa_exec W E c w s = Inr s'" "is_guarded s ad" "get_guard_rail s ad = Some g"
  shows "is_guarded s' ad \<and> (\<exists>g'. get_guard_rail s' ad = Some g' \<and> is_tightening g g') \<or>
    (\<exists>r ready. c = AcRail ad r \<and> ready \<le> now E \<and>
       announced W T (AdScope ad) sym_set_guard_rail (apt_commit (aw_port W) (guard_rail_args ad r)) ready) \<or>
    (\<exists>escrow. c = AcDisarm escrow ad \<and> escrow \<in> set (get_targets s) \<and>
       is_closed_ad (aw_port W) E escrow ad w = Inr True)"
proof -
  have refl: "is_tightening g g" by (simp add: is_tightening_def)
  have opened: "\<exists>ready \<le> now E. announced W T (AdScope ad) sym_set_guard_rail (apt_commit (aw_port W) (guard_rail_args ad r)) ready"
    if "spend (apt_commit (aw_port W)) (AdScope ad) sym_set_guard_rail (guard_rail_args ad r) (now E) s = Inr s1" for r s1
  proof (rule spend_Ok [OF that])
    fix x
    assume "get_schedule s (AdScope ad) sym_set_guard_rail = Some x" "sc_ready_at x \<le> now E"
      "sc_commitment x = apt_commit (aw_port W) (guard_rail_args ad r)"
    then show ?thesis using reach_announced [OF assms(1)] by metis
  qed
  consider (rail) r where "c = AcRail ad r" | (disarm) esc where "c = AcDisarm esc ad"
    | (other) "\<forall>r. c \<noteq> AcRail ad r" "\<forall>esc. c \<noteq> AcDisarm esc ad" by blast
  then show ?thesis
  proof cases
    case (rail r)
    then have "ac_set_guard_rail (aw_port W) E ad r s = Inr s'" using assms(2) by simp
    then show ?thesis
    proof (cases rule: set_guard_rail_Ok)
      case (armed g' s1 s2)
      show ?thesis
      proof (cases "is_tightening g g'")
        case True
        have "get_guard_rail s' ad = Some (armed_rail (get_guard_rail s ad) g' (now E))" "is_guarded s' ad"
          using sched_stepD [OF armed(3)] armed(4) by (simp_all add: get_guard_rail_def is_guarded_def guarded_ads_def railed_def)
        then show ?thesis using True by (auto simp: armed_rail_tightening)
      next
        case False
        then show ?thesis using armed(1,5) assms(4) opened rail by blast
      qed
    next
      case (disarmed s1)
      then show ?thesis using assms(4) opened rail by blast
    qed
  next
    case (disarm esc)
    then have "esc \<in> set (get_targets s)" "is_closed_ad (aw_port W) E esc ad w = Inr True"
      using assms(2) by (auto simp: disarm_closed_ad_def require_target_def attempt_Ok split: if_splits)
    then show ?thesis using disarm by blast
  next
    case other
    then have "is_guarded s' ad" using exec_rails [OF assms(2), of ad] assms(3) by blast
    moreover have "\<exists>g'. get_guard_rail s' ad = Some g' \<and> is_tightening g g'"
      using exec_rails [OF assms(2), of ad] other assms(4) same_settings_tightening refl by auto
    ultimately show ?thesis by blast
  qed
qed

theorem guard_loosens_announced_witness:
  "is_guarded bd_guarded ''a1'' \<and> (\<exists>g'. get_guard_rail bd_guarded ''a1'' = Some g' \<and> is_tightening bd_rail g') \<or>
    (\<exists>r ready. AcCall (ContractAddr 60) ''close_ad'' bd_close None [] = AcRail ''a1'' r \<and> ready \<le> now (bd_env 86800) \<and>
       announced bd_world bd_trace (AdScope ''a1'') sym_set_guard_rail (apt_commit (aw_port bd_world) (guard_rail_args ''a1'' r)) ready) \<or>
    (\<exists>escrow. AcCall (ContractAddr 60) ''close_ad'' bd_close None [] = AcDisarm escrow ''a1'' \<and>
       escrow \<in> set (get_targets bd_pending) \<and> is_closed_ad (aw_port bd_world) (bd_env 86800) escrow ''a1'' () = Inr True)"
  by (rule guard_loosens_announced [OF bd_reach(3) bd_step6 bd_views(1,2)])

end
