(* ===== verification/Zk_Verifier.thy ===== *)
theory Zk_Verifier
  imports Cross_Contract
begin

text \<open>
  The proof verifier contract (\<open>contracts/verifier/src/lib.rs\<close>): a verification key fixed by the
  constructor, and a check of one proof. The proof system itself is a package the contract only calls:
  its proof length, its two ways of reading a key and its check are parameters.
\<close>

record 'k honk =
  PROOF_BYTES :: nat
  load_vk_from_bytes :: "bytes \<Rightarrow> bool"
  honk_new :: "bytes \<Rightarrow> 'k option"
  honk_verify :: "'k \<Rightarrow> bytes \<Rightarrow> bytes \<Rightarrow> bool"

datatype vk_error = VkParseError | ProofParseError | VerificationFailed | VkNotSet

fun vk_error_code :: "vk_error \<Rightarrow> nat" where
  "vk_error_code VkParseError = 1"
| "vk_error_code ProofParseError = 2"
| "vk_error_code VerificationFailed = 3"
| "vk_error_code VkNotSet = 4"

text \<open>The store holds the key's bytes, if the constructor ran.\<close>

definition zk_constructor :: "'k honk \<Rightarrow> bytes \<Rightarrow> (vk_error, bytes option) res" where
  "zk_constructor H vk_bytes = attempt (guarded (load_vk_from_bytes H vk_bytes)) (\<lambda>_. Ok (Some vk_bytes))"

definition zk_verify_proof :: "'k honk \<Rightarrow> bytes \<Rightarrow> bytes \<Rightarrow> bytes option \<Rightarrow> (vk_error, unit) res" where
  "zk_verify_proof H public_inputs proof_bytes vk =
     (if length proof_bytes \<noteq> PROOF_BYTES H then Fail ProofParseError
      else
        attempt (ok_or vk VkNotSet) (\<lambda>vk_bytes.
        attempt (ok_or (honk_new H vk_bytes) VkParseError) (\<lambda>verifier.
        ensure (honk_verify H verifier proof_bytes public_inputs) VerificationFailed)))"

definition zk_get_vk :: "bytes option \<Rightarrow> bytes option" where
  "zk_get_vk vk = vk"

section \<open>What an escrow learns from an accepted proof\<close>

text \<open>The escrows' proof checks with this contract deployed behind them: \<open>zs w v\<close> is the store of the
  verifier at \<open>v\<close>.\<close>

definition proved :: "'k honk \<Rightarrow> ('w \<Rightarrow> address \<Rightarrow> bytes option) \<Rightarrow> 'w ext \<Rightarrow> 'w ext" where
  "proved H zs X = X\<lparr>zk_verify := (\<lambda>v public_inputs proof_bytes w.
     zk_verify_proof H public_inputs proof_bytes (zs w v) = Ok ())\<rparr>"

text \<open>A contract that accepts only what a fixed statement holds of.\<close>

locale proof_checker =
  fixes check :: "address \<Rightarrow> bytes \<Rightarrow> bytes \<Rightarrow> 'w \<Rightarrow> bool"
    and proven :: "'w \<Rightarrow> address \<Rightarrow> bytes \<Rightarrow> bool"
  assumes sound: "check v public_inputs proof' w \<Longrightarrow> proven w v public_inputs"
begin

lemma accepted_proven:
  assumes "zk_verify X = check" "verify_proof X v public_inputs proof' w = Inr u"
  shows "proven w v public_inputs"
  using assms sound by (simp add: verify_proof_Ok)

end

text \<open>Here the statement is: some proof of the package's length passes under the key the contract holds.\<close>

definition provable :: "'k honk \<Rightarrow> ('w \<Rightarrow> address \<Rightarrow> bytes option) \<Rightarrow> 'w \<Rightarrow> address \<Rightarrow> bytes \<Rightarrow> bool" where
  "provable H zs w v public_inputs \<longleftrightarrow>
     (\<exists>vk_bytes verifier pf. zs w v = Some vk_bytes \<and> honk_new H vk_bytes = Some verifier \<and>
        length pf = PROOF_BYTES H \<and> honk_verify H verifier pf public_inputs)"

interpretation honk: proof_checker "zk_verify (proved H zs X)" "provable H zs" for H zs X
proof unfold_locales
  fix v public_inputs proof' w
  assume "zk_verify (proved H zs X) v public_inputs proof' w"
  then show "provable H zs w v public_inputs"
    unfolding provable_def proved_def by (auto simp: zk_verify_proof_def res_simps split: if_splits)
qed

text \<open>A contract whose constructor ran answers with a verdict on every proof of the right length under a
  key both readers of the package accept; the errors of an unset or unreadable key never appear.\<close>

lemma zk_verdict:
  assumes "zk_constructor H vk_bytes = Inr vk" "honk_new H vk_bytes = Some verifier"
  shows "zk_verify_proof H public_inputs proof' vk =
    (if length proof' \<noteq> PROOF_BYTES H then Fail ProofParseError
     else if honk_verify H verifier proof' public_inputs then Ok () else Fail VerificationFailed)"
  using assms by (auto simp: zk_constructor_def zk_verify_proof_def res_simps)

end
