(* ===== verification/Cosigned.thy ===== *)
theory Cosigned
  imports Verifier_Properties Zk_Verifier Key_Demo Legs
begin

text \<open>
  Four contracts together: an escrow asks its root verifier and its proof verifier, the root verifier asks the
  key registry.
  Each contract relies on the next one through an interface; the interfaces are stated as locales, what
  the escrow may conclude is proved inside them, and the contracts of the library are shown to fit.
\<close>

section \<open>What a release needs\<close>

text \<open>The two parties' agreement to one release: an authorization that names it, signed with a key of each
  that its account agreed to.\<close>

definition both_agreed ::
  "('w \<Rightarrow> address \<Rightarrow> bytes32 \<Rightarrow> bytes32 \<Rightarrow> bool) \<Rightarrow> (address \<Rightarrow> 'w \<Rightarrow> address option) \<Rightarrow> (cosig \<Rightarrow> bool) \<Rightarrow>
   crypto \<Rightarrow> address \<Rightarrow> bytes32 \<Rightarrow> bytes32 \<Rightarrow> bytes \<Rightarrow> (cosig \<Rightarrow> bool) \<Rightarrow> 'w \<Rightarrow> bool" where
  "both_agreed agreed registry_of attested C m signer bridger data names w \<longleftrightarrow>
     (\<exists>c r. data = cosig_bytes c \<and> cosig_wf c \<and> names c \<and> attested c \<and> registry_of m w = Some r \<and>
        agreed w r signer (key_commitment C (cs_pk_signer c)) \<and>
        agreed w r bridger (key_commitment C (cs_pk_bridger c)))"

section \<open>The key directory\<close>

text \<open>Who asks for the key of an account gets only keys the account agreed to.\<close>

locale key_directory =
  fixes lookup :: "env \<Rightarrow> address \<Rightarrow> bytes32 \<Rightarrow> u32 \<Rightarrow> 'w \<Rightarrow> bytes32 option"
    and agreed :: "'w \<Rightarrow> address \<Rightarrow> bytes32 \<Rightarrow> bytes32 \<Rightarrow> bool"
  assumes only_agreed: "lookup E r a i w = Some k \<Longrightarrow> agreed w r a k"

section \<open>The root verifier\<close>

text \<open>A root verifier over a key directory accepts only what the keys of both parties signed.\<close>

locale root_verifier = key_directory lookup agreed
  for lookup :: "env \<Rightarrow> address \<Rightarrow> bytes32 \<Rightarrow> u32 \<Rightarrow> 'w \<Rightarrow> bytes32 option"
    and agreed :: "'w \<Rightarrow> address \<Rightarrow> bytes32 \<Rightarrow> bytes32 \<Rightarrow> bool" +
  fixes valid :: "env \<Rightarrow> address \<Rightarrow> u128 \<Rightarrow> bytes32 \<Rightarrow> bytes \<Rightarrow> 'w \<Rightarrow> bool option"
    and registry_of :: "address \<Rightarrow> 'w \<Rightarrow> address option"
    and attested :: "cosig \<Rightarrow> bool"
  assumes only_signed: "valid E m chain root (root_envelope signer bridger h pin nf side data) w = Some True \<Longrightarrow>
      \<exists>c r. data = cosig_bytes c \<and> cosig_wf c \<and> consents_to (prims E) c h side chain root nf pin \<and> attested c \<and>
        registry_of m w = Some r \<and>
        lookup E r signer (cs_signer_slot c) w = Some (key_commitment (prims E) (cs_pk_signer c)) \<and>
        lookup E r bridger (cs_bridger_slot c) w = Some (key_commitment (prims E) (cs_pk_bridger c))"
begin

lemma valid_agreed:
  assumes "valid E m chain root (root_envelope signer bridger h pin nf side data) w = Some True"
  shows "both_agreed agreed registry_of attested (prims E) m signer bridger data
    (\<lambda>c. consents_to (prims E) c h side chain root nf pin) w"
  using only_signed [OF assms] only_agreed unfolding both_agreed_def by blast

end

section \<open>The escrows\<close>

text \<open>An escrow whose root verifier fits the interface: no order is released to the counterparty without
  the agreement of both its parties to this release, on either leg.\<close>

locale settlement = root_verifier lookup agreed valid registry_of attested
  for lookup :: "env \<Rightarrow> address \<Rightarrow> bytes32 \<Rightarrow> u32 \<Rightarrow> 'w \<Rightarrow> bytes32 option"
    and agreed :: "'w \<Rightarrow> address \<Rightarrow> bytes32 \<Rightarrow> bytes32 \<Rightarrow> bool"
    and valid :: "env \<Rightarrow> address \<Rightarrow> u128 \<Rightarrow> bytes32 \<Rightarrow> bytes \<Rightarrow> 'w \<Rightarrow> bool option"
    and registry_of :: "address \<Rightarrow> 'w \<Rightarrow> address option"
    and attested :: "cosig \<Rightarrow> bool" +
  fixes X :: "'w ext"
  assumes asks: "rv_root_valid X = valid"
begin

lemma order_leg_agreed:
  assumes "op_unlock X E p nf root pf data (s, w) = Inr r"
  obtains cfg m where "st_config s = Some cfg" "st_root_verifiers s (q_ad_chain_id p) = Some m"
    "both_agreed agreed registry_of attested (prims E) m (q_ad_settlement_signer p) (q_bridger p) data
       (\<lambda>c. consents_to (prims E) c (op_hash_raw (prims E) (chain_id cfg) (self E) p) SIDE_ORDER (q_ad_chain_id p)
          root nf UNPINNED) w"
    "\<exists>pi. (build_public_inputs (prims E) nf root (op_hash_raw (prims E) (chain_id cfg) (self E) p) 0 :: (fault, bytes) res) = Inr pi \<and>
       zk_verify X (verifier cfg) pi pf w"
proof -
  from assms obtain cfg m where cfg: "st_config s = Some cfg" "st_root_verifiers s (q_ad_chain_id p) = Some m"
    and v: "rv_root_valid X E m (q_ad_chain_id p) root (root_envelope (q_ad_settlement_signer p) (q_bridger p)
      (op_hash_raw (prims E) (chain_id cfg) (self E) p) UNPINNED nf ENVELOPE_SIDE_ORDER data) w = Some True"
    and z: "\<exists>pi. (build_public_inputs (prims E) nf root (op_hash_raw (prims E) (chain_id cfg) (self E) p) 0 :: (fault, bytes) res) = Inr pi \<and>
      zk_verify X (verifier cfg) pi pf w"
    by (cases r) (auto simp: op_unlock_def is_root_valid_def attempt_Ok ensure_Ok ok_or_Ok ok_or_trap_Ok opl_Ok
        op_get_config_Ok op_order_hash_Ok verify_proof_Ok)
  have side: "ENVELOPE_SIDE_ORDER = SIDE_ORDER" by (simp add: ENVELOPE_SIDE_ORDER_def SIDE_ORDER_def)
  show thesis by (rule that [OF cfg _ z]) (rule valid_agreed, use v in \<open>simp add: asks side\<close>)
qed

lemma ad_leg_agreed:
  assumes "unlock X E p nf root pf data (s, w) = Inr r"
  obtains cfg h m where "st_config s = Some cfg" "order_hash E cfg p = (Inr h :: (ad_error, bytes32) res)"
    "st_root_verifiers s (p_order_chain_id p) = Some m"
    "both_agreed agreed registry_of attested (prims E) m (p_ad_settlement_signer p) (p_bridger p) data
       (\<lambda>c. consents_to (prims E) c h SIDE_AD (p_order_chain_id p) root nf (pinned_slot (get_order s h))) w"
proof -
  from assms obtain cfg h m where cfg: "st_config s = Some cfg" "order_hash E cfg p = (Inr h :: (ad_error, bytes32) res)"
      "st_root_verifiers s (p_order_chain_id p) = Some m"
    and v: "rv_root_valid X E m (p_order_chain_id p) root (root_envelope (p_ad_settlement_signer p) (p_bridger p)
      h (pinned_slot (get_order s h)) nf ENVELOPE_SIDE_AD data) w = Some True"
    by (cases r) (auto simp: unlock_def is_root_valid_def get_config_def attempt_Ok ensure_Ok ok_or_Ok ok_or_trap_Ok
        fl_Ok)
  have side: "ENVELOPE_SIDE_AD = SIDE_AD" by (simp add: ENVELOPE_SIDE_AD_def SIDE_AD_def)
  show thesis by (rule that [OF cfg]) (rule valid_agreed, use v in \<open>simp add: asks side\<close>)
qed

end

section \<open>The contracts fit\<close>

text \<open>The contracts deployed together: \<open>ks w r\<close> is the store of the key registry at \<open>r\<close> and \<open>vs w m\<close> that of the
  root verifier at \<open>m\<close>, \<open>zs w v\<close> that of the proof verifier at \<open>v\<close>. Neither of the two first views reads the environment beyond the ledger's time and the
  host's functions, so they run in the caller's.\<close>

definition reg_lookup :: "('w \<Rightarrow> address \<Rightarrow> key_store) \<Rightarrow> env \<Rightarrow> address \<Rightarrow> bytes32 \<Rightarrow> u32 \<Rightarrow> 'w \<Rightarrow> bytes32 option" where
  "reg_lookup ks E r a i w = (case commitment_at E (ks w r) a i of Inr k \<Rightarrow> Some k | Inl _ \<Rightarrow> None)"

definition keyed :: "('w \<Rightarrow> address \<Rightarrow> key_store) \<Rightarrow> 'w ext \<Rightarrow> 'w ext" where
  "keyed ks X = X\<lparr>kr_commitment_at := reg_lookup ks\<rparr>"

definition root_check :: "curve \<Rightarrow> ('w \<Rightarrow> address \<Rightarrow> verifier_store) \<Rightarrow> 'w ext \<Rightarrow>
    env \<Rightarrow> address \<Rightarrow> u128 \<Rightarrow> bytes32 \<Rightarrow> bytes \<Rightarrow> 'w \<Rightarrow> bool option" where
  "root_check K vs X E m chain root md w = cv_is_root_valid K X E chain root md (vs w m) w"

definition wired :: "'k honk \<Rightarrow> ('w \<Rightarrow> address \<Rightarrow> bytes option) \<Rightarrow> curve \<Rightarrow> ('w \<Rightarrow> address \<Rightarrow> verifier_store) \<Rightarrow> ('w \<Rightarrow> address \<Rightarrow> key_store) \<Rightarrow>
    'w ext \<Rightarrow> 'w ext" where
  "wired H zs K vs ks X = (proved H zs (keyed ks X))\<lparr>rv_root_valid := root_check K vs (keyed ks X)\<rparr>"

text \<open>An account agreed to a key when, however the registry got to its state, one of the calls on the way
  carried the account's consent.\<close>

definition reg_agreed :: "(address \<Rightarrow> 'v key_world) \<Rightarrow> ('w \<Rightarrow> address \<Rightarrow> key_store) \<Rightarrow>
    'w \<Rightarrow> address \<Rightarrow> bytes32 \<Rightarrow> bytes32 \<Rightarrow> bool" where
  "reg_agreed V ks w r a k \<longleftrightarrow> (\<forall>T. ky_reach (V r) T (ks w r) \<longrightarrow> (\<exists>e \<in> set T. consented (V r) a k e))"

definition registry_at :: "('w \<Rightarrow> address \<Rightarrow> verifier_store) \<Rightarrow> address \<Rightarrow> 'w \<Rightarrow> address option" where
  "registry_at vs m w = cv_registry (vs w m)"

interpretation directory: key_directory "reg_lookup ks" "reg_agreed V ks" for ks V
proof unfold_locales
  fix E r a i w k
  assume "reg_lookup ks E r a i w = Some k"
  then obtain sl where "ky_slots (ks w r) (a, i) = Some sl" "sl_commitment sl = k"
    by (auto simp: reg_lookup_def commitment_at_def get_slot_def res_simps split: sum.splits if_splits)
  then show "reg_agreed V ks w r a k" unfolding reg_agreed_def using reach_consented by blast
qed

interpretation checked: root_verifier "reg_lookup ks" "reg_agreed V ks" "root_check K vs (keyed ks X)"
  "registry_at vs" "signed_by_both K" for ks V K vs X
proof unfold_locales
  fix E m chain root signer bridger h pin nf side data w
  assume v: "root_check K vs (keyed ks X) E m chain root (root_envelope signer bridger h pin nf side data) w = Some True"
  then obtain c where c: "data = cosig_bytes c" "cosig_wf c"
    unfolding root_check_def by (rule root_valid_is_encoded)
  show "\<exists>c r. data = cosig_bytes c \<and> cosig_wf c \<and> consents_to (prims E) c h side chain root nf pin \<and> signed_by_both K c \<and>
      registry_at vs m w = Some r \<and>
      reg_lookup ks E r signer (cs_signer_slot c) w = Some (key_commitment (prims E) (cs_pk_signer c)) \<and>
      reg_lookup ks E r bridger (cs_bridger_slot c) w = Some (key_commitment (prims E) (cs_pk_bridger c))"
    using v c unfolding root_check_def c(1) root_valid_encoded [OF c(2)]
    by (auto simp: keyed_def registry_at_def)
qed

interpretation escrow: settlement "reg_lookup ks" "reg_agreed V ks" "root_check K vs (keyed ks X)" "registry_at vs"
  "signed_by_both K" "wired H zs K vs ks X" for ks V K vs X H zs
  by unfold_locales (simp add: wired_def)

section \<open>Properties\<close>

lemma agreed_consented:
  assumes "both_agreed (reg_agreed V ks) (registry_at vs) (signed_by_both K) C m signer bridger data names w"
    and "\<And>g. ky_reach (V g) (T g) (ks w g)"
  obtains c g where "data = cosig_bytes c" "cosig_wf c" "names c" "signed_by_both K c" "cv_registry (vs w m) = Some g"
    "\<exists>e \<in> set (T g). consented (V g) signer (key_commitment C (cs_pk_signer c)) e"
    "\<exists>e \<in> set (T g). consented (V g) bridger (key_commitment C (cs_pk_bridger c)) e"
proof -
  from assms(1) obtain c g where c: "data = cosig_bytes c" "cosig_wf c" "names c" "signed_by_both K c"
      "cv_registry (vs w m) = Some g"
    and a: "reg_agreed V ks w g signer (key_commitment C (cs_pk_signer c))"
      "reg_agreed V ks w g bridger (key_commitment C (cs_pk_bridger c))"
    unfolding both_agreed_def registry_at_def by blast
  show thesis by (rule that [OF c]) (use a assms(2) in \<open>simp_all add: reg_agreed_def\<close>)
qed

text \<open>C40: Composition of four contracts: an order is released to the maker only with the agreement of both
  its parties and a proof. If \<open>unlock\<close> of the order-portal goes through against the counterparty-verifier, the
  key registry and the proof verifier of the sources, with every key registry in a state its own calls lead
  to, then the data it was given encodes an authorization of this very release (this order, the ad chain,
  this root, this nullifier), signed by two keys; the owner of the settlement signer's account and that of
  the bridger's account each consented to their key in a call of the registry; and a proof passes, under the
  key the proof verifier holds, for this nullifier, root and order.\<close>

theorem release_needs_both_parties:
  assumes "op_unlock (wired H zs K vs ks X) E p nf root pf data (s, w) = Inr r"
    and "\<And>g. ky_reach (V g) (T g) (ks w g)"
  shows "\<exists>c cfg m g. data = cosig_bytes c \<and> cosig_wf c \<and> signed_by_both K c \<and> st_config s = Some cfg \<and>
    cs_order_hash c = op_hash_raw (prims E) (chain_id cfg) (self E) p \<and> cs_ad_chain_id c = q_ad_chain_id p \<and>
    cs_ad_chain_root c = root \<and> cs_order_leg_nullifier c = nf \<and>
    st_root_verifiers s (q_ad_chain_id p) = Some m \<and> cv_registry (vs w m) = Some g \<and>
    (\<exists>e \<in> set (T g). consented (V g) (q_ad_settlement_signer p) (key_commitment (prims E) (cs_pk_signer c)) e) \<and>
    (\<exists>e \<in> set (T g). consented (V g) (q_bridger p) (key_commitment (prims E) (cs_pk_bridger c)) e) \<and>
    (\<exists>pi. (build_public_inputs (prims E) nf root (cs_order_hash c) 0 :: (fault, bytes) res) = Inr pi \<and>
       provable H zs w (verifier cfg) pi)"
proof (rule escrow.order_leg_agreed [OF assms(1), where V = V])
  fix cfg m
  assume "st_config s = Some cfg" "st_root_verifiers s (q_ad_chain_id p) = Some m"
    "both_agreed (reg_agreed V ks) (registry_at vs) (signed_by_both K) (prims E) m (q_ad_settlement_signer p)
       (q_bridger p) data (\<lambda>c. consents_to (prims E) c (op_hash_raw (prims E) (chain_id cfg) (self E) p) SIDE_ORDER
          (q_ad_chain_id p) root nf UNPINNED) w" and
    z: "\<exists>pi. (build_public_inputs (prims E) nf root (op_hash_raw (prims E) (chain_id cfg) (self E) p) 0 ::
        (fault, bytes) res) = Inr pi \<and> zk_verify (wired H zs K vs ks X) (verifier cfg) pi pf w"
  note st = this(1,2) and agreed = this(3)
  have zk: "zk_verify (wired H zs K vs ks X) = zk_verify (proved H zs (keyed ks X))" by (simp add: wired_def)
  have pr: "\<exists>pi. (build_public_inputs (prims E) nf root (op_hash_raw (prims E) (chain_id cfg) (self E) p) 0 ::
      (fault, bytes) res) = Inr pi \<and> provable H zs w (verifier cfg) pi"
    using z unfolding zk by (blast intro: honk.sound)
  show ?thesis
  proof (rule agreed_consented [where V = V and T = T, OF agreed assms(2)])
    fix c g
    assume c: "data = cosig_bytes c" "cosig_wf c" "consents_to (prims E) c (op_hash_raw (prims E) (chain_id cfg) (self E) p) SIDE_ORDER (q_ad_chain_id p)
      root nf UNPINNED"
      "signed_by_both K c" "cv_registry (vs w m) = Some g" and
      e: "\<exists>e \<in> set (T g). consented (V g) (q_ad_settlement_signer p) (key_commitment (prims E) (cs_pk_signer c)) e"
      "\<exists>e \<in> set (T g). consented (V g) (q_bridger p) (key_commitment (prims E) (cs_pk_bridger c)) e"
    show ?thesis
      by (intro exI [of _ c] exI [of _ cfg] exI [of _ m] exI [of _ g])
        (use st c e pr sides_differ in \<open>simp add: consents_to_def\<close>)
  qed
qed

text \<open>The ad leg: the maker's liquidity leaves the ad only with the same two agreements.\<close>

theorem payout_needs_both_parties:
  assumes "unlock (wired H zs K vs ks X) E p nf root pf data (s, w) = Inr r"
    and "\<And>g. ky_reach (V g) (T g) (ks w g)"
  shows "\<exists>c cfg m g. data = cosig_bytes c \<and> cosig_wf c \<and> signed_by_both K c \<and> st_config s = Some cfg \<and>
    order_hash E cfg p = (Inr (cs_order_hash c) :: (ad_error, bytes32) res) \<and>
    cs_order_chain_id c = p_order_chain_id p \<and> cs_order_chain_root c = root \<and> cs_ad_leg_nullifier c = nf \<and>
    st_root_verifiers s (p_order_chain_id p) = Some m \<and> cv_registry (vs w m) = Some g \<and>
    (\<exists>e \<in> set (T g). consented (V g) (p_ad_settlement_signer p) (key_commitment (prims E) (cs_pk_signer c)) e) \<and>
    (\<exists>e \<in> set (T g). consented (V g) (p_bridger p) (key_commitment (prims E) (cs_pk_bridger c)) e)"
proof (rule escrow.ad_leg_agreed [OF assms(1), where V = V])
  fix cfg h m
  assume "st_config s = Some cfg" "order_hash E cfg p = (Inr h :: (ad_error, bytes32) res)"
    "st_root_verifiers s (p_order_chain_id p) = Some m"
    "both_agreed (reg_agreed V ks) (registry_at vs) (signed_by_both K) (prims E) m (p_ad_settlement_signer p)
       (p_bridger p) data (\<lambda>c. consents_to (prims E) c h SIDE_AD (p_order_chain_id p) root nf
          (pinned_slot (get_order s h))) w"
  note st = this(1-3) and agreed = this(4)
  show ?thesis
  proof (rule agreed_consented [where V = V and T = T, OF agreed assms(2)])
    fix c g
    assume c: "data = cosig_bytes c" "cosig_wf c" "consents_to (prims E) c h SIDE_AD (p_order_chain_id p) root nf (pinned_slot (get_order s h))"
      "signed_by_both K c" "cv_registry (vs w m) = Some g" and
      e: "\<exists>e \<in> set (T g). consented (V g) (p_ad_settlement_signer p) (key_commitment (prims E) (cs_pk_signer c)) e"
      "\<exists>e \<in> set (T g). consented (V g) (p_bridger p) (key_commitment (prims E) (cs_pk_bridger c)) e"
    show ?thesis
      by (intro exI [of _ c] exI [of _ cfg] exI [of _ m] exI [of _ g])
        (use st c e sides_differ in \<open>simp add: consents_to_def\<close>)
  qed
qed

section \<open>A deployment\<close>

text \<open>The maker's account 2 and the bridger's account 30 register a key each; both sign the release of the
  order of \<open>Portal_Demo\<close>.\<close>

definition cs_curve :: curve where
  "cs_curve = kd_curve\<lparr>hash_to_g2 := (\<lambda>m d. replicate 192 1)\<rparr>"

definition cs_world :: "ledger key_world" where
  "cs_world = \<lparr>kw_guard = (\<lambda>g a w. Some False), kw_curve = cs_curve, kw_ext = ledger_ext\<rparr>"

definition cs_env :: "u64 \<Rightarrow> env" where
  "cs_env t = (kd_env t)\<lparr>authed := (\<lambda>a. True)\<rparr>"

definition cs_register :: "bytes32 \<Rightarrow> key_call" where
  "cs_register a = KRegister a (OwnerStellar (AccountAddr a)) kd_pk (replicate 192 1) 0 200"

definition cs_added :: "bytes32 \<Rightarrow> key_store \<Rightarrow> key_store" where
  "cs_added a s = set_nonce a 1 (set_key_slot a 128 0 (set_used a 128
     (set_entry a \<lparr>en_next = 1, en_live = [0]\<rparr> (set_slot a 0 kd_slot s))))"

definition cs_keys :: key_store where
  "cs_keys = cs_added 30 (cs_added 2 kd_init)"

definition cs_calls :: "(env \<times> key_call \<times> ledger \<times> key_store) list" where
  "cs_calls = [(cs_env 100, cs_register 2, pd_world, kd_init), (cs_env 100, cs_register 30, pd_world, cs_added 2 kd_init)]"

lemma cs_env_simps: "now (cs_env t) = t" "prims (cs_env t) = kd_crypto" "authed (cs_env t) a"
  by (simp_all add: cs_env_def kd_env_def)

lemma cs_registers:
  assumes "ky_init s" "\<not> ky_paused s" "ky_chain s = Some 7" "ky_env s = Some nm" "ky_domain s = Some d"
    "get_nonce s a = 0" "\<not> is_used s a 128" "get_entry s a = \<lparr>en_next = 0, en_live = []\<rparr>"
  shows "ky_exec cs_world (cs_env 100) (cs_register a) w s = Inr (cs_added a s)"
proof -
  have "verify_pop cs_curve (cs_env 100) s a kd_pk (replicate 192 1) 0 = Inr True"
    using assms by (simp add: verify_pop_def cs_curve_def kd_curve_def)
  moreover have "owner_signed cs_curve (cs_env 100) s a (OwnerStellar (AccountAddr a)) msg = Inr ()" for msg
    using assms by (simp add: owner_signed_def here_def require_auth_def ensure_def attempt_simps cs_env_simps)
  moreover have "add_slot pg (cs_env 100) a 128 s w = Inr (0, set_key_slot a 128 0 (set_used a 128
     (set_entry a \<lparr>en_next = 1, en_live = [0]\<rparr> (set_slot a 0 kd_slot s))))" for pg
    using assms by (simp add: add_slot_def MAX_ACTIVE_SLOTS_def cadd_def checked_add_def kd_slot_def cs_env_simps)
  ultimately show ?thesis using assms kd_key
    by (simp add: cs_world_def cs_register_def register_def check_deadline_def MAX_REGISTER_TTL_def cs_env_simps
        cadd_def checked_add_def cs_added_def)
qed

lemma cs_keys_reach: "ky_reach cs_world cs_calls cs_keys"
proof -
  have 0: "ky_reach cs_world [] kd_init" by (rule ky_start [OF kd_step0])
  have 1: "ky_reach cs_world [(cs_env 100, cs_register 2, pd_world, kd_init)] (cs_added 2 kd_init)"
    using ky_call [OF 0 cs_registers] by (simp add: kd_init_def ky_empty_def ky_stores)
  have "ky_exec cs_world (cs_env 100) (cs_register 30) pd_world (cs_added 2 kd_init) = Inr cs_keys"
    unfolding cs_keys_def
    by (rule cs_registers) (simp_all add: cs_added_def kd_init_def ky_empty_def ky_stores)
  from ky_call [OF 1 this] show ?thesis by (simp add: cs_calls_def)
qed

definition cs_release :: cosig where
  "cs_release = \<lparr>cs_order_chain_id = 7, cs_ad_chain_id = 9, cs_order_hash = 66, cs_order_chain_root = 5,
     cs_ad_chain_root = 88, cs_maker_key = 128, cs_ad_leg_nullifier = 10, cs_order_leg_nullifier = 77,
     cs_signer_slot = 0, cs_bridger_slot = 0, cs_pk_signer = kd_pk, cs_pk_bridger = kd_pk,
     cs_agg_sig = replicate 192 1\<rparr>"

definition cs_honk :: "unit honk" where
  "cs_honk = \<lparr>PROOF_BYTES = 2, load_vk_from_bytes = (\<lambda>_. True), honk_new = (\<lambda>b. if b = [1] then Some () else None),
     honk_verify = (\<lambda>_ pf xs. pf = [3, 4])\<rparr>"

definition cs_ext :: "ledger ext" where
  "cs_ext = wired cs_honk (\<lambda>w v. Some [1]) cs_curve (\<lambda>w m. \<lparr>cv_init = True, cv_registry = Some (ContractAddr 90)\<rparr>) (\<lambda>w r. cs_keys) ledger_ext"

lemma cs_lookup: "reg_lookup (\<lambda>w r. cs_keys) E g 2 0 w = Some 128" "reg_lookup (\<lambda>w r. cs_keys) E g 30 0 w = Some 128"
  by (simp_all add: reg_lookup_def commitment_at_def cs_keys_def cs_added_def ky_stores kd_slot_def)

lemma cs_release_wf: "cosig_wf cs_release"
  by (simp add: cosig_wf_def cs_release_def kd_pk_def)

lemma cs_valid:
  "rv_root_valid cs_ext (pd_env t) m 9 88 (root_envelope 2 30 66 UNPINNED 77 ENVELOPE_SIDE_ORDER (cosig_bytes cs_release)) w =
    Some True"
proof -
  have key: "key_commitment pd_crypto kd_pk = 128"
    using kd_key(2) by (simp add: pd_crypto_def kd_crypto_def)
  have "signed_by_both cs_curve cs_release"
    by (simp add: signed_by_both_def cs_release_def cs_curve_def kd_curve_def)
  then show ?thesis
    unfolding cs_ext_def wired_def root_check_def
    by (simp add: root_check_def root_valid_encoded [OF cs_release_wf] consents_to_def keyed_def)
      (simp add: cs_release_def cs_lookup key pd_env_def ENVELOPE_SIDE_ORDER_def SIDE_ORDER_def)
qed

lemma cs_ext_simps: "tok_transfer cs_ext = ledger_transfer" "zk_verify cs_ext a xs [3, 4] L"
  by (simp_all add: cs_ext_def wired_def keyed_def proved_def zk_verify_proof_def cs_honk_def)

lemma cs_unlock_runs:
  "\<exists>r. op_unlock cs_ext (pd_env 9000) pd_order 77 88 [3, 4] (cosig_bytes cs_release) (pd_open, pd_funded) = Inr r"
  using cs_valid [of 9000]
  by (simp add: op_unlock_def pd_open_def pd_funded_def pd_world_def pd_defs pd_run_defs pd_create_defs
      fill_def count_out_def csub_def remove_claim_def set_order_status_def pay_or_credit_def
      try_transfer_to_recipient_def pay_maker_def is_nullifier_used_def order_timing_def saturating_sub_def
      build_public_inputs_def is_canonical_def field_mod_def is_root_valid_def verify_proof_def
      set_nullifier_used_def Let_def cs_ext_simps)

lemma pd_order_simps: "q_ad_chain_id pd_order = 9" "q_ad_settlement_signer pd_order = 2" "q_bridger pd_order = 30"
  by (simp_all add: pd_order_def)

theorem release_needs_both_parties_witness:
  "(\<exists>e \<in> set cs_calls. consented cs_world 2 128 e) \<and> (\<exists>e \<in> set cs_calls. consented cs_world 30 128 e)"
proof -
  obtain r where r: "op_unlock cs_ext (pd_env 9000) pd_order 77 88 [3, 4] (cosig_bytes cs_release) (pd_open, pd_funded) = Inr r"
    using cs_unlock_runs by blast
  from release_needs_both_parties [OF r [unfolded cs_ext_def], where V = "\<lambda>_. cs_world" and T = "\<lambda>_. cs_calls",
      unfolded pd_order_simps, OF cs_keys_reach]
  obtain c where c: "cosig_bytes cs_release = cosig_bytes c" "cosig_wf c"
    and e: "\<exists>e \<in> set cs_calls. consented cs_world 2 (key_commitment (prims (pd_env 9000)) (cs_pk_signer c)) e"
      "\<exists>e \<in> set cs_calls. consented cs_world 30 (key_commitment (prims (pd_env 9000)) (cs_pk_bridger c)) e"
    by (elim exE conjE) (rule that)
  have "c = cs_release" by (rule cosig_bytes_inj [OF c(1) [symmetric] c(2) cs_release_wf])
  moreover have "key_commitment (prims (pd_env 9000)) kd_pk = 128"
    using kd_key(2) by (simp add: pd_env_def pd_crypto_def kd_crypto_def)
  ultimately show ?thesis using e by (simp add: cs_release_def)
qed

end
