(* ===== verification/Leaf_Log.thy ===== *)
theory Leaf_Log
  imports Ad_Invariants
begin

text \<open>
  The leaves an escrow writes are the evidence the other chain acts on: SETTLED pays the maker there,
  CANCEL refunds the bridger, FORFEIT pays the maker. What the ad-manager relies on in the log it appends
  to is stated as an interface; inside it, the leaves of an order are shown to tell exactly how the order
  ended, and a dispute's leaf whom the dispute module ruled for, so that no two leaves ever contradict.
\<close>

section \<open>The exit leaves of an order\<close>

definition EXITS :: "u32 set" where
  "EXITS = {LEAF_DOMAIN_SETTLED, LEAF_DOMAIN_CANCEL, LEAF_DOMAIN_FORFEIT}"

definition exits_of :: "bytes32 \<Rightarrow> (bytes32 \<times> u32) list \<Rightarrow> u32 list" where
  "exits_of h L = map snd (filter (\<lambda>(k, d). k = h \<and> d \<in> EXITS) L)"

lemma exits_of_simps [simp]:
  "exits_of h [] = []"
  "exits_of h (L @ M) = exits_of h L @ exits_of h M"
  "exits_of h [(k, d)] = (if k = h \<and> d \<in> EXITS then [d] else [])"
  by (simp_all add: exits_of_def)

lemma in_exits_of: "d \<in> set (exits_of h L) \<longleftrightarrow> (h, d) \<in> set L \<and> d \<in> EXITS"
  by (force simp: exits_of_def)

lemma EXITS_simps [simp]:
  "LEAF_DOMAIN_SETTLED \<in> EXITS" "LEAF_DOMAIN_CANCEL \<in> EXITS" "LEAF_DOMAIN_FORFEIT \<in> EXITS"
  "LEAF_DOMAIN_ORDER \<notin> EXITS"
  by (simp_all add: EXITS_def LEAF_DOMAIN_ORDER_def LEAF_DOMAIN_SETTLED_def LEAF_DOMAIN_CANCEL_def
      LEAF_DOMAIN_FORFEIT_def)

text \<open>The leaf that broadcasts a dispute's outcome: the bridger's forfeit asks the other chain to pay the
  maker, every other outcome to refund the bridger.\<close>

fun ruling_leaf :: "dispute_outcome \<Rightarrow> u32" where
  "ruling_leaf BridgerForfeit = LEAF_DOMAIN_FORFEIT"
| "ruling_leaf MakerForfeit = LEAF_DOMAIN_CANCEL"
| "ruling_leaf MutualRefund = LEAF_DOMAIN_CANCEL"
| "ruling_leaf NoOutcome = LEAF_DOMAIN_CANCEL"
| "ruling_leaf TradeProceeds = LEAF_DOMAIN_CANCEL"

text \<open>A call that went through, and what it went through from. The outcome of an order's dispute is what the
  order's dispute module answered in the call that finalized it.\<close>

type_synonym 'w ad_event = "env \<times> ad_call \<times> ad_store \<times> 'w"

definition ruled :: "'w ext \<Rightarrow> bytes32 \<Rightarrow> 'w ad_event \<Rightarrow> dispute_outcome list" where
  "ruled X h = (\<lambda>(E, c, s, w).
     (case c of
        KOrder (KFinalizeDispute p) \<Rightarrow>
          (case (st_config s, st_order_dispute s h) of
             (Some cfg, Some m) \<Rightarrow>
               (case dm_outcome_of X E m h w of
                  Inr (out, True, who) \<Rightarrow> if h = hash_raw (prims E) (chain_id cfg) (self E) p then [out] else []
                | _ \<Rightarrow> [])
           | _ \<Rightarrow> [])
      | _ \<Rightarrow> []))"

definition rulings :: "'w ext \<Rightarrow> bytes32 \<Rightarrow> 'w ad_event list \<Rightarrow> dispute_outcome list" where
  "rulings X h T = concat (map (ruled X h) T)"

lemma rulings_simps [simp]:
  "rulings X h [] = []" "rulings X h (T @ [ev]) = rulings X h T @ ruled X h ev"
  by (simp_all add: rulings_def)

lemma not_ruled: "(\<And>p. c \<noteq> KOrder (KFinalizeDispute p)) \<Longrightarrow> ruled X h (E, c, s, w) = []"
  by (auto simp: ruled_def split: ad_call.splits ad_order_call.splits)

lemma dispute_outcome_asked:
  assumes "dispute_outcome X E h (s, w) = Inr (out, init)"
  obtains m raw where "st_order_dispute s h = Some m" "dm_outcome_of X E m h w = Inr (raw, True, init)"
    "out = (if raw = NoOutcome then MutualRefund else raw)"
  using assms by (auto simp: dispute_outcome_def order_dispute_manager_def res_simps relayed_Ok split: if_splits)

text \<open>An order's status, its SETTLED flag and its rulings against its exit leaves.\<close>

definition told :: "status \<Rightarrow> bool \<Rightarrow> dispute_outcome list \<Rightarrow> u32 list \<Rightarrow> bool" where
  "told st rec rs ds \<longleftrightarrow>
     ds = [] \<and> rs = [] \<and> \<not> rec \<and> st \<notin> {Cancelled, Resolved} \<or>
     ds = [LEAF_DOMAIN_SETTLED] \<and> rs = [] \<and> rec \<and> st = Filled \<or>
     ds = [LEAF_DOMAIN_CANCEL] \<and> rs = [] \<and> \<not> rec \<and> st = Cancelled \<or>
     (\<exists>out. ds = [ruling_leaf out] \<and> rs = [out] \<and> \<not> rec \<and> st = Resolved)"

lemma told_frame:
  assumes "told st rec rs ds" "st' = st \<or> \<not> terminal st \<and> st' \<notin> {Cancelled, Resolved}"
  shows "told st' rec rs ds"
  using assms by (auto simp: told_def)

lemma told_cancelled: "told st rec rs ds \<Longrightarrow> \<not> terminal st \<Longrightarrow> told Cancelled rec rs (ds @ [LEAF_DOMAIN_CANCEL])"
  by (auto simp: told_def)

lemma told_resolved: "told st rec rs ds \<Longrightarrow> \<not> terminal st \<Longrightarrow> told Resolved rec (rs @ [out]) (ds @ [ruling_leaf out])"
  by (auto simp: told_def)

lemma told_recorded: "told Filled False rs ds \<Longrightarrow> told Filled True rs (ds @ [LEAF_DOMAIN_SETTLED])"
  by (auto simp: told_def)

section \<open>What a call leaves in the log\<close>

definition leaf_quiet :: "(bytes32 \<times> u32) list \<Rightarrow> (bytes32 \<times> u32) list \<Rightarrow> ad_store \<Rightarrow> ad_store \<Rightarrow> bool" where
  "leaf_quiet L L' s s' \<longleftrightarrow> (\<forall>k. exits_of k L' = exits_of k L) \<and> is_settled_recorded s' = is_settled_recorded s \<and>
     (\<forall>k. get_order_status s' k = get_order_status s k \<or>
        \<not> terminal (get_order_status s k) \<and> get_order_status s' k \<notin> {Cancelled, Resolved})"

definition leaf_cancelled :: "(bytes32 \<times> u32) list \<Rightarrow> (bytes32 \<times> u32) list \<Rightarrow> ad_store \<Rightarrow> ad_store \<Rightarrow> bool" where
  "leaf_cancelled L L' s s' \<longleftrightarrow> (\<exists>h. L' = L @ [(h, LEAF_DOMAIN_CANCEL)] \<and> \<not> terminal (get_order_status s h) \<and>
     is_settled_recorded s' = is_settled_recorded s \<and> get_order_status s' = (get_order_status s)(h := Cancelled))"

definition leaf_resolved ::
  "bytes32 \<Rightarrow> dispute_outcome \<Rightarrow> (bytes32 \<times> u32) list \<Rightarrow> (bytes32 \<times> u32) list \<Rightarrow> ad_store \<Rightarrow> ad_store \<Rightarrow> bool" where
  "leaf_resolved h out L L' s s' \<longleftrightarrow> L' = L @ [(h, ruling_leaf out)] \<and> \<not> terminal (get_order_status s h) \<and>
     is_settled_recorded s' = is_settled_recorded s \<and> get_order_status s' = (get_order_status s)(h := Resolved)"

definition leaf_recorded :: "(bytes32 \<times> u32) list \<Rightarrow> (bytes32 \<times> u32) list \<Rightarrow> ad_store \<Rightarrow> ad_store \<Rightarrow> bool" where
  "leaf_recorded L L' s s' \<longleftrightarrow> (\<exists>h. get_order_status s h = Filled \<and> \<not> is_settled_recorded s h \<and>
     L' = L @ [(h, LEAF_DOMAIN_SETTLED)] \<and> get_order_status s' = get_order_status s \<and>
     is_settled_recorded s' = (is_settled_recorded s)(h := True))"

definition tells :: "ad_store \<Rightarrow> (bytes32 \<times> u32) list \<Rightarrow> dispute_outcome list \<Rightarrow> bytes32 \<Rightarrow> bool" where
  "tells s L rs h \<longleftrightarrow> told (get_order_status s h) (is_settled_recorded s h) rs (exits_of h L)"

lemma ruling_exit [simp]: "ruling_leaf out \<in> EXITS"
  by (cases out) simp_all

lemma tells_step:
  assumes "tells s L rs h" "leaf_quiet L L' s s' \<or> leaf_cancelled L L' s s' \<or> leaf_recorded L L' s s'"
  shows "tells s' L' rs h"
  using assms(2)
proof (elim disjE)
  assume q: "leaf_quiet L L' s s'"
  then have "get_order_status s' h = get_order_status s h \<or>
      \<not> terminal (get_order_status s h) \<and> get_order_status s' h \<notin> {Cancelled, Resolved}"
    unfolding leaf_quiet_def by blast
  with assms(1) have "told (get_order_status s' h) (is_settled_recorded s h) rs (exits_of h L)"
    unfolding tells_def by (rule told_frame)
  then show ?thesis using q by (simp add: leaf_quiet_def tells_def)
next
  assume "leaf_cancelled L L' s s'"
  then show ?thesis using assms(1) by (auto simp: leaf_cancelled_def tells_def told_cancelled)
next
  assume "leaf_recorded L L' s s'"
  then show ?thesis using assms(1) by (auto simp: leaf_recorded_def tells_def told_recorded)
qed

lemma tells_resolved:
  assumes "tells s L rs h" "leaf_resolved k out L L' s s'"
  shows "tells s' L' (rs @ (if h = k then [out] else [])) h"
  using assms by (auto simp: leaf_resolved_def tells_def told_resolved)

text \<open>The writes of the store that touch neither an order's status nor its SETTLED flag.\<close>

lemma settled_simps:
  "is_settled_recorded (set_order h r t) = is_settled_recorded t"
  "is_settled_recorded (set_order_status h st t) = is_settled_recorded t"
  "is_settled_recorded (open_order E h tv ep d sl t) = is_settled_recorded t"
  "is_settled_recorded (open_claim E h f t) = is_settled_recorded t"
  "is_settled_recorded (set_pinned_slot h sl t) = is_settled_recorded t"
  "is_settled_recorded (set_ad i a ts) = is_settled_recorded ts"
  "is_settled_recorded (set_halt m hl ts) = is_settled_recorded ts"
  "is_settled_recorded (set_in_flight g n t) = is_settled_recorded t"
  "is_settled_recorded (remove_claim h t) = is_settled_recorded t"
  "is_settled_recorded (set_claim h c t) = is_settled_recorded t"
  "is_settled_recorded (set_nullifier_used nu t) = is_settled_recorded t"
  "is_settled_recorded (set_order_dispute_manager h m t) = is_settled_recorded t"
  "is_settled_recorded (set_claimable rc tk u t) = is_settled_recorded t"
  "is_settled_recorded (t\<lparr>st_claimables := cl\<rparr>) = is_settled_recorded t"
  "is_settled_recorded (set_settled_recorded h t) = (is_settled_recorded t)(h := True)"
  by (simp_all add: is_settled_recorded_def fun_eq_iff set_order_def set_order_status_def open_order_def open_claim_def
      set_pinned_slot_def set_ad_def set_halt_def set_in_flight_def remove_claim_def set_claim_def
      set_nullifier_used_def set_order_dispute_manager_def set_claimable_def set_settled_recorded_def or_default_def)

lemma ad_status_simps:
  "get_order_status (set_order h r t) = (get_order_status t)(h := status r)"
  "get_order_status (set_order_status h st t) = (get_order_status t)(h := st)"
  "get_order_status (open_order E h tv ep d sl t) = (get_order_status t)(h := Open)"
  "get_order_status (open_claim E h f t) = (get_order_status t)(h := Claimed)"
  "get_order_status (set_pinned_slot h sl t) = get_order_status t"
  "get_order_status (set_ad i a ts) = get_order_status ts"
  "get_order_status (set_in_flight g n t) = get_order_status t"
  "get_order_status (remove_claim h t) = get_order_status t"
  "get_order_status (set_claim h c t) = get_order_status t"
  "get_order_status (set_nullifier_used nu t) = get_order_status t"
  "get_order_status (set_order_dispute_manager h m t) = get_order_status t"
  "get_order_status (set_claimable rc tk u t) = get_order_status t"
  "get_order_status (t\<lparr>st_claimables := cl\<rparr>) = get_order_status t"
  "get_order_status (set_settled_recorded h t) = get_order_status t"
  by (auto simp: fun_eq_iff get_order_status_def get_order_def set_order_def set_order_status_def open_order_def
      open_claim_def set_pinned_slot_def set_ad_def set_in_flight_def remove_claim_def set_claim_def
      set_nullifier_used_def set_order_dispute_manager_def set_claimable_def set_settled_recorded_def)

lemmas leaf_simps = settled_simps ad_status_simps

lemma leaf_quiet_same:
  "L' = L \<Longrightarrow> is_settled_recorded s' = is_settled_recorded s \<Longrightarrow> get_order_status s' = get_order_status s \<Longrightarrow>
    leaf_quiet L L' s s'"
  by (simp add: leaf_quiet_def)

lemma leaf_quiet_move:
  "(\<And>k. exits_of k L' = exits_of k L) \<Longrightarrow> is_settled_recorded s' = is_settled_recorded s \<Longrightarrow>
    get_order_status s' = (get_order_status s)(h := st) \<Longrightarrow> \<not> terminal (get_order_status s h) \<Longrightarrow>
    st \<notin> {Cancelled, Resolved} \<Longrightarrow> leaf_quiet L L' s s'"
  by (simp add: leaf_quiet_def)

lemma not_ended_yet: "live st \<Longrightarrow> \<not> terminal st" "\<not> terminal StNone"
  by (auto simp: live_def terminal_def)

text \<open>The ad-manager's states since its deployment over the world \<open>w0\<close>, wired to the merkle manager \<open>mm\<close>, with
  the trace of the calls that went through: its calls, and moves of the outside world within \<open>R\<close>.\<close>

inductive ad_since ::
  "'w ext \<Rightarrow> crypto \<Rightarrow> address \<Rightarrow> u128 \<Rightarrow> address \<Rightarrow> ('w \<Rightarrow> 'w \<Rightarrow> bool) \<Rightarrow> 'w \<Rightarrow> 'w ad_event list \<Rightarrow>
   ad_store \<times> 'w \<Rightarrow> bool"
  for X :: "'w ext" and C :: crypto and me :: address and cid :: u128 and mm :: address
    and R :: "'w \<Rightarrow> 'w \<Rightarrow> bool" and w0 :: 'w where
  since_init: "entry C me E \<Longrightarrow> ad_initialize E adm vf mm wn cid ad_empty = Inr s \<Longrightarrow>
    ad_since X C me cid mm R w0 [] (s, w0)"
| since_call: "ad_since X C me cid mm R w0 T (s, w) \<Longrightarrow> entry C me E \<Longrightarrow> ad_exec X E c (s, w) = Inr (s', w') \<Longrightarrow>
    ad_since X C me cid mm R w0 (T @ [(E, c, s, w)]) (s', w')"
| since_world: "ad_since X C me cid mm R w0 T (s, w) \<Longrightarrow> R w w' \<Longrightarrow> ad_since X C me cid mm R w0 T (s, w')"

section \<open>Calls that leave the log alone\<close>

text \<open>\<open>Q\<close> holds between the worlds before and after every call an escrow makes but an append.\<close>

locale quiet_calls =
  fixes X :: "'w ext" and Q :: "'w \<Rightarrow> 'w \<Rightarrow> bool"
  assumes same: "Q w w"
    and after: "Q w w1 \<Longrightarrow> Q w1 w' \<Longrightarrow> Q w w'"
    and transfers: "tok_transfer X E t a b i w = Some w' \<Longrightarrow> Q w w'"
    and opens: "dm_open_dispute X E m e h c f ev dl bf t n w = Inr (bd, w') \<Longrightarrow> Q w w'"
    and settles: "dm_settle_bond X E m e h out fb rf w = Inr w' \<Longrightarrow> Q w w'"
    and responds: "dm_record_response X E m e h r ev w = Inr w' \<Longrightarrow> Q w w'"
begin

lemma pay_or_credit_quiet:
  "(pay_or_credit X E wn r t a (s, w) :: ('e, 'a escrow_store_scheme \<times> 'w) res) = Inr (s', w') \<Longrightarrow> Q w w'"
  by (auto simp: pay_or_credit_Ok try_transfer_to_recipient_eq intro: same dest: transfers split: if_splits)

lemma claim_quiet: "claim X E cfg r t (s, w) = Inr (s', w') \<Longrightarrow> Q w w'"
  by (auto simp: claim_def Let_def res_simps dest: transfers split: if_splits)

lemma open_dispute_quiet: "open_dispute X E esc h c f ev dl t a (s, w) = Inr (b, s', w') \<Longrightarrow> Q w w'"
  by (auto simp: open_dispute_def res_simps dest: opens split: if_splits)

lemma settle_bond_quiet: "settle_bond X E esc h out fb (s, w) = Inr (s', w') \<Longrightarrow> s' = s \<and> Q w w'"
  by (auto simp: settle_bond_def res_simps dest: settles)

lemma record_response_quiet: "record_response X E esc h r ev (s, w) = Inr (s', w') \<Longrightarrow> s' = s \<and> Q w w'"
  by (auto simp: record_response_def res_simps dest: responds)

lemma evidence_quiet:
  assumes "close_dispute_by_evidence X E esc h out mk dn (s, w) = Inr (s', w')"
  shows "Q w w'"
proof -
  from assms obtain who where who: "dispute_filer X h (s, w) = Inr who"
    by (auto simp: close_dispute_by_evidence_def attempt_Ok)
  show ?thesis
    by (cases who; cases mk) (use assms who in \<open>auto simp: close_dispute_by_evidence_def Let_def attempt_Ok
        relayed_Ok intro: same dest: settles\<close>)
qed

lemma close_dispute_quiet: "close_dispute X E h out p (s, w) = Inr (s', w') \<Longrightarrow> Q w w'"
  by (auto simp: close_dispute_def fl_Ok dest: evidence_quiet)

lemma pay_net_quiet: "pay_net X E cfg r t net fee (s, w) = Inr (s', w') \<Longrightarrow> Q w w'"
  by (auto simp: pay_net_def res_simps dest!: pay_or_credit_quiet intro: after split: option.splits if_splits)

lemma pay_from_ad_quiet: "pay_from_ad X E cfg p (s, w) = Inr (s', w') \<Longrightarrow> Q w w'"
  by (auto simp: pay_from_ad_def res_simps dest!: pay_net_quiet)

lemma settlement_quiet: "settle_part X E cfg p h (s, w) = Inr (s', w') \<Longrightarrow> Q w w'"
  by (auto simp: settle_part_def res_simps dest!: pay_from_ad_quiet close_dispute_quiet intro: after)

lemma maker_quiet: "maker_exec X E c (s, w) = Inr (s', w') \<Longrightarrow> Q w w'"
  by (cases c) (auto simp: on_store_def res_simps intro: same dest: transfers elim!: create_ad_store
      set_signer_store fund_ad_store withdraw_store close_ad_store)

text \<open>The dispute terminal reaches its append, of the leaf of the module's outcome, through quiet calls.\<close>

lemma finalize_dispute_quiet:
  assumes "finalize_dispute X E p (s, w) = Inr (s', w')"
  obtains cfg h out init w4 where "st_config s = Some cfg" "h = hash_raw (prims E) (chain_id cfg) (self E) p"
    "dispute_outcome X E h (s, w) = Inr (out, init)" "Q w w4"
    "mm_append X E (merkle_manager cfg) (self E) h (ruling_leaf out) w4 = Some w'"
proof -
  have leaf: "(if out = BridgerForfeit then LEAF_DOMAIN_FORFEIT else LEAF_DOMAIN_CANCEL) = ruling_leaf out" for out
    by (cases out) simp_all
  have "\<exists>cfg out init w4. st_config s = Some cfg \<and>
      dispute_outcome X E (hash_raw (prims E) (chain_id cfg) (self E) p) (s, w) = Inr (out, init) \<and> Q w w4 \<and>
      mm_append X E (merkle_manager cfg) (self E) (hash_raw (prims E) (chain_id cfg) (self E) p) (ruling_leaf out) w4 =
        Some w'"
    using assms unfolding finalize_dispute_def Let_def leaf
    by (clarsimp simp: res_simps)
      (auto dest!: settle_bond_quiet pay_net_quiet split: if_splits, (blast intro: after)+)
  then show thesis using that by blast
qed

end

text \<open>With the appends, \<open>Q\<close> holds across every call of the ad-manager in a good environment.\<close>

locale all_calls = quiet_calls X Q for X :: "'w ext" and Q :: "'w \<Rightarrow> 'w \<Rightarrow> bool" +
  fixes good :: "env \<Rightarrow> bool"
  assumes append_calls: "good E \<Longrightarrow> mm_append X E m (self E) h d w = Some w' \<Longrightarrow> Q w w'"
begin

lemma order_frame:
  assumes "order_exec X E c (s, w) = Inr (s', w')" "good E"
  shows "Q w w'"
proof (cases c)
  case (KLock p slot)
  with assms(1) obtain h where "lock_for_order X E p slot (s, w) = Inr (h, s', w')"
    by (auto simp: res_simps)
  then show ?thesis by (rule lock_store) (rule append_calls [OF assms(2)])
next
  case (KUnlock p nu root pf cosig)
  with assms(1) show ?thesis by (auto elim: unlock_settles dest: settlement_quiet)
next
  case (KFinalizeCancel p)
  with assms show ?thesis by (auto simp: finalize_cancel_def res_simps dest: append_calls)
next
  case (KCancelNeverLocked p root nu pf)
  with assms show ?thesis by (auto simp: cancel_never_locked_def Let_def res_simps dest: append_calls)
next
  case (KDispute p filer ev)
  with assms(1) show ?thesis by (auto simp: dispute_def res_simps dest: open_dispute_quiet)
next
  case (KRespond p who ev)
  with assms(1) show ?thesis by (auto simp: respond_to_dispute_def res_simps dest: record_response_quiet)
next
  case (KFinalizeDispute p)
  with assms(1) have "finalize_dispute X E p (s, w) = Inr (s', w')" by simp
  then show ?thesis by (rule finalize_dispute_quiet) (blast intro: after append_calls [OF assms(2)])
next
  case (KRepin p)
  with assms(1) have "repin_order X E p (s, w) = Inr (s', w')" by simp
  then show ?thesis by (rule repin_store) (simp add: same)
next
  case (KPresentSettled p root pf)
  with assms(1) have "present_settled X E p root pf (s, w) = Inr (s', w')" by simp
  then show ?thesis by (rule present_settled_settles) (rule settlement_quiet)
next
  case (KRecordSettled p)
  with assms show ?thesis
    by (auto simp: ad_record_settled_def record_settled_store res_simps dest: append_calls)
qed (use assms(1) in \<open>auto simp: on_store_def res_simps same\<close>)

lemma exec_frame:
  assumes "ad_exec X E c (s, w) = Inr (s', w')" "good E"
  shows "Q w w'"
proof (cases c)
  case (KClaim r t)
  with assms(1) show ?thesis by (auto simp: ad_claim_def res_simps dest: claim_quiet)
qed (use assms in \<open>auto simp: on_store_def res_simps intro: same maker_quiet order_frame\<close>)

end

text \<open>The log itself: an append adds its leaf, everything else leaves the log alone.\<close>

locale leaf_log =
  fixes X :: "'w ext" and mm :: address and me :: address and log :: "'w \<Rightarrow> (bytes32 \<times> u32) list"
  assumes appends: "mm_append X E mm me h d w = Some w' \<Longrightarrow> log w' = log w @ [(h, d)]"
    and log_calls: "quiet_calls X (\<lambda>w w'. log w' = log w)"
begin

sublocale quiet_calls X "\<lambda>w w'. log w' = log w"
  by (rule log_calls)

lemma settle_part_quiet:
  assumes "settle_part X E cfg p h (s, w) = Inr (s', w')" "live (get_order_status s h)"
  shows "leaf_quiet (log w) (log w') s s'"
  using assms(1)
proof (rule settle_part_store)
  fix a lk bal n cl
  assume s': "s' = (set_ad (p_ad_id p) (a\<lparr>ad_locked := lk, ad_balance := bal\<rparr>)
       (set_in_flight (p_ad_settlement_signer p) n (remove_claim h (set_order_status h Filled s))))\<lparr>st_claimables := cl\<rparr>"
  show ?thesis
    by (rule leaf_quiet_move [where h = h and st = Filled])
      (use settlement_quiet [OF assms(1)] assms(2) in
        \<open>simp_all add: s' leaf_simps not_ended_yet\<close>)
qed

lemma finalize_dispute_leaf:
  assumes "finalize_dispute X E p (s, w) = Inr (s', w')" "self E = me"
    and mm: "\<And>cfg. st_config s = Some cfg \<Longrightarrow> merkle_manager cfg = mm"
  obtains h out where "leaf_resolved h out (log w) (log w') s s'"
    "\<And>k. ruled X k (E, KOrder (KFinalizeDispute p), s, w) = (if k = h then [out] else [])"
proof -
  from assms(1) obtain cfg h out init w4 where 1: "st_config s = Some cfg"
    "h = hash_raw (prims E) (chain_id cfg) (self E) p" "dispute_outcome X E h (s, w) = Inr (out, init)"
    "log w4 = log w" "mm_append X E (merkle_manager cfg) (self E) h (ruling_leaf out) w4 = Some w'"
    by (rule finalize_dispute_quiet)
  have L: "log w' = log w @ [(h, ruling_leaf out)]" using 1 appends mm [OF 1(1)] assms(2) by metis
  from 1(3) obtain m raw where raw: "st_order_dispute s h = Some m" "dm_outcome_of X E m h w = Inr (raw, True, init)"
    "out = (if raw = NoOutcome then MutualRefund else raw)" by (rule dispute_outcome_asked)
  have same: "ruling_leaf out = ruling_leaf raw" by (simp add: raw(3))
  from assms(1) have "leaf_resolved h raw (log w) (log w') s s'"
  proof (rule finalize_dispute_store)
    fix cfg' h' outcome init a lk bal n cl at
    assume 2: "st_config s = Some cfg'" "h' = hash_raw (prims E) (chain_id cfg') (self E) p"
      "get_order_status s h' = Disputed"
      and s': "s' = set_in_flight (p_ad_settlement_signer p) n (set_order_status h' Resolved
       ((set_ad (p_ad_id p) (a\<lparr>ad_locked := lk, ad_balance := bal\<rparr>) s)\<lparr>st_claimables := cl\<rparr>))"
    show ?thesis unfolding leaf_resolved_def
      using 1(1,2) 2 L by (simp add: s' leaf_simps not_ended_yet same)
  qed
  moreover have "ruled X k (E, KOrder (KFinalizeDispute p), s, w) = (if k = h then [raw] else [])" for k
    using 1(1,2) raw(1,2) by (auto simp: ruled_def split: option.splits sum.splits bool.splits)
  ultimately show thesis by (rule that)
qed

lemma order_leaves:
  assumes "order_exec X E c (s, w) = Inr (s', w')" "\<And>p. c \<noteq> KFinalizeDispute p" "self E = me"
    and mm: "\<And>cfg. st_config s = Some cfg \<Longrightarrow> merkle_manager cfg = mm"
  shows "leaf_quiet (log w) (log w') s s' \<or> leaf_cancelled (log w) (log w') s s' \<or> leaf_recorded (log w) (log w') s s'"
proof (cases c)
  case (KLock p slot)
  with assms(1) obtain h where "lock_for_order X E p slot (s, w) = Inr (h, s', w')"
    by (auto simp: res_simps)
  then show ?thesis
  proof (rule lock_store)
    fix cfg a lk n tv delay
    assume c: "st_config s = Some cfg" "get_order_status s h = StNone"
      "mm_append X E (merkle_manager cfg) (self E) h LEAF_DOMAIN_ORDER w = Some w'"
      and s': "s' = set_in_flight (p_ad_settlement_signer p) n
       (open_order E h tv (get_registry_epoch s) (u32_clamp delay) slot
         (set_ad (p_ad_id p) (a\<lparr>ad_locked := lk\<rparr>) s))"
    have "leaf_quiet (log w) (log w') s s'"
      by (rule leaf_quiet_move [where h = h and st = Open])
        (use c assms(3) mm [OF c(1)] in \<open>simp_all add: s' leaf_simps appends not_ended_yet\<close>)
    then show ?thesis ..
  qed
next
  case (KUnlock p nu root pf cosig)
  with assms(1) obtain cfg h where h: "live (get_order_status s h)"
    "settle_part X E cfg p h (set_nullifier_used nu s, w) = Inr (s', w')"
    by (auto elim: unlock_settles)
  have "leaf_quiet (log w) (log w') (set_nullifier_used nu s) s'"
    by (rule settle_part_quiet [OF h(2)]) (simp add: h leaf_simps)
  then show ?thesis by (simp add: leaf_quiet_def leaf_simps)
next
  case (KClaimCancel p)
  with assms(1) obtain h f where "get_order_status s h = Open" "s' = open_claim E h f s" "w' = w"
    by (auto simp: claim_cancel_def on_store_def Let_def res_simps)
  then have "leaf_quiet (log w) (log w') s s'"
    by (intro leaf_quiet_move [where h = h and st = Claimed]) (simp_all add: leaf_simps not_ended_yet)
  then show ?thesis ..
next
  case (KFinalizeCancel p)
  with assms(1) obtain cfg h a lk n where c: "st_config s = Some cfg" "get_order_status s h = Claimed"
    "mm_append X E (merkle_manager cfg) (self E) h LEAF_DOMAIN_CANCEL w = Some w'"
    and s': "s' = set_in_flight (p_ad_settlement_signer p) n (remove_claim h (set_order_status h Cancelled
         (set_ad (p_ad_id p) (a\<lparr>ad_locked := lk\<rparr>) s)))"
    by (auto simp: finalize_cancel_def cancel_def res_simps)
  have "leaf_cancelled (log w) (log w') s s'" unfolding leaf_cancelled_def
    by (rule exI [of _ h])
      (use c assms(3) mm [OF c(1)] in \<open>simp add: s' leaf_simps appends not_ended_yet\<close>)
  then show ?thesis by blast
next
  case (KCancelNeverLocked p root nu pf)
  with assms(1) obtain cfg h where c: "st_config s = Some cfg" "get_order_status s h = StNone"
    "mm_append X E (merkle_manager cfg) (self E) h LEAF_DOMAIN_CANCEL w = Some w'"
    "s' = set_order_status h Cancelled s"
    by (auto simp: cancel_never_locked_def Let_def res_simps)
  have "leaf_cancelled (log w) (log w') s s'" unfolding leaf_cancelled_def
    by (rule exI [of _ h])
      (use c assms(3) mm [OF c(1)] in \<open>simp add: leaf_simps appends not_ended_yet\<close>)
  then show ?thesis by blast
next
  case (KDispute p filer ev)
  with assms(1) obtain h dl tok amt b where
    d: "open_dispute X E (self E) h (p_order_chain_id p) filer ev dl tok amt (s, w) = Inr (b, s', w')"
    by (auto simp: dispute_def res_simps)
  then show ?thesis
  proof (rule open_dispute_store)
    fix m
    assume "get_order_status s h \<in> {Open, Claimed}"
      "s' = remove_claim h (set_order_status h Disputed (set_order_dispute_manager h m s))"
    then have "leaf_quiet (log w) (log w') s s'" using open_dispute_quiet [OF d]
      by (intro leaf_quiet_move [where h = h and st = Disputed]) (auto simp: leaf_simps not_ended_yet)
    then show ?thesis ..
  qed
next
  case (KRespond p who ev)
  with assms(1) have "s' = s" "log w' = log w"
    by (auto simp: respond_to_dispute_def res_simps dest: record_response_quiet)
  then show ?thesis by (simp add: leaf_quiet_same)
next
  case (KFinalizeDispute p)
  then show ?thesis using assms(2) by simp
next
  case (KRepin p)
  with assms(1) have "repin_order X E p (s, w) = Inr (s', w')" by simp
  then have "leaf_quiet (log w) (log w') s s'"
    by (rule repin_store) (simp add: leaf_quiet_same leaf_simps)
  then show ?thesis ..
next
  case (KPresentSettled p root pf)
  with assms(1) have "present_settled X E p root pf (s, w) = Inr (s', w')" by simp
  then show ?thesis by (rule present_settled_settles) (blast dest: settle_part_quiet)
next
  case (KRecordSettled p)
  with assms(1) obtain cfg h where c: "st_config s = Some cfg" "get_order_status s h = Filled"
    "\<not> is_settled_recorded s h" "mm_append X E (merkle_manager cfg) (self E) h LEAF_DOMAIN_SETTLED w = Some w'"
    "s' = set_settled_recorded h s"
    by (auto simp: ad_record_settled_def record_settled_store res_simps)
  then have "leaf_recorded (log w) (log w') s s'" using assms(3) mm [OF c(1)]
    by (auto simp: leaf_recorded_def leaf_simps appends)
  then show ?thesis by blast
qed

lemma maker_leaves:
  assumes "maker_exec X E c (s, w) = Inr (s', w')"
  shows "leaf_quiet (log w) (log w') s s'"
proof -
  have "log w' = log w" using assms by (rule maker_quiet)
  moreover have "get_order_status s' = get_order_status s"
    using maker_call_same [OF assms] by (simp add: order_same_def)
  moreover have "is_settled_recorded s' = is_settled_recorded s"
    using assms by (cases c) (auto simp: on_store_def halt_settlement_def resume_settlement_def
        Let_def res_simps leaf_simps split: if_splits elim!: create_ad_store set_signer_store fund_ad_store withdraw_store close_ad_store)
  ultimately show ?thesis by (simp add: leaf_quiet_same)
qed

lemma claim_leaves:
  assumes "ad_claim X E r t (s, w) = Inr (s', w')"
  shows "leaf_quiet (log w) (log w') s s'"
proof -
  from assms obtain cfg where c: "claim X E cfg r t (s, w) = Inr (s', w')"
    by (auto simp: ad_claim_def res_simps)
  then have "s' = set_claimable r t 0 s"
    by (auto simp: claim_def Let_def res_simps split: if_splits)
  then show ?thesis using claim_quiet [OF c] by (simp add: leaf_quiet_same leaf_simps)
qed

lemma admin_leaves:
  assumes "admin_exec E c s = Inr s'"
  shows "leaf_quiet L L s s'"
  using admin_untouched [OF assms]
  by (intro leaf_quiet_same)
    (simp_all add: untouched_def is_settled_recorded_def get_order_status_def get_order_def fun_eq_iff)

lemma ad_exec_leaves:
  assumes "ad_exec X E c (s, w) = Inr (s', w')" "\<And>p. c \<noteq> KOrder (KFinalizeDispute p)" "self E = me"
    and "\<And>cfg. st_config s = Some cfg \<Longrightarrow> merkle_manager cfg = mm"
  shows "leaf_quiet (log w) (log w') s s' \<or> leaf_cancelled (log w) (log w') s s' \<or> leaf_recorded (log w) (log w') s s'"
proof (cases c)
  case (KAdmin k)
  with assms(1) have "leaf_quiet (log w) (log w') s s'" by (auto simp: on_store_def res_simps intro: admin_leaves)
  then show ?thesis ..
next
  case (KMaker k)
  with assms(1) have "leaf_quiet (log w) (log w') s s'" by (auto intro: maker_leaves)
  then show ?thesis ..
next
  case (KOrder k)
  with assms show ?thesis by (intro order_leaves) auto
next
  case (KClaim r t)
  with assms(1) have "leaf_quiet (log w) (log w') s s'" by (auto intro: claim_leaves)
  then show ?thesis ..
qed

lemma ad_exec_tells:
  assumes "tells s (log w) rs h" "ad_exec X E c (s, w) = Inr (s', w')" "self E = me"
    and mm: "\<And>cfg. st_config s = Some cfg \<Longrightarrow> merkle_manager cfg = mm"
  shows "tells s' (log w') (rs @ ruled X h (E, c, s, w)) h"
proof (cases "\<exists>p. c = KOrder (KFinalizeDispute p)")
  case True
  then obtain p where c: "c = KOrder (KFinalizeDispute p)" by blast
  with assms(2) have "finalize_dispute X E p (s, w) = Inr (s', w')" by simp
  then show ?thesis
  proof (rule finalize_dispute_leaf [OF _ assms(3) mm])
    fix k out
    assume "leaf_resolved k out (log w) (log w') s s'"
      "\<And>h. ruled X h (E, KOrder (KFinalizeDispute p), s, w) = (if h = k then [out] else [])"
    then show ?thesis using tells_resolved [OF assms(1)] by (simp add: c)
  qed
next
  case False
  then have "ruled X h (E, c, s, w) = []" by (intro not_ruled) blast
  then show ?thesis using tells_step [OF assms(1) ad_exec_leaves [OF assms(2) _ assms(3) mm]] False by simp
qed

text \<open>From the deployment on, with the rest of the world leaving the exit leaves of the order alone: the log
  tells how it ended.\<close>

lemma since_tells:
  assumes "ad_since X C me cid mm R w0 T sw" "\<And>w w'. R w w' \<Longrightarrow> exits_of h (log w') = exits_of h (log w)"
    "exits_of h (log w0) = []"
  shows "(\<forall>cfg. st_config (fst sw) = Some cfg \<longrightarrow> merkle_manager cfg = mm) \<and>
    tells (fst sw) (log (snd sw)) (rulings X h T) h"
  using assms(1)
proof (induction rule: ad_since.induct)
  case (since_init E adm vf wn s)
  then have "s = ad_empty\<lparr>st_config := Some \<lparr>admin = adm, verifier = vf,
      merkle_manager = mm, w_native_token = wn, chain_id = cid\<rparr>, st_initialized := True\<rparr>"
    by (simp add: ad_initialize_def ad_empty_def res_simps)
  then show ?case using assms(3)
    by (simp add: tells_def told_def is_settled_recorded_def get_order_status_def get_order_def ad_empty_def
        no_order_def or_default_def)
next
  case (since_call T s w E c s' w')
  then have mm: "\<And>cfg. st_config s = Some cfg \<Longrightarrow> merkle_manager cfg = mm"
    and t: "tells s (log w) (rulings X h T) h" by auto
  have "self E = me" using since_call.hyps(2) by (simp add: entry_def)
  from ad_exec_tells [OF t since_call.hyps(3) this mm]
  have "tells s' (log w') (rulings X h (T @ [(E, c, s, w)])) h" by simp
  moreover have "map_option wiring (st_config s') = map_option wiring (st_config s)"
    using ad_exec_rooted [OF since_call.hyps(3)] by (simp add: rooted_def)
  ultimately show ?case using mm
    by (cases "st_config s"; cases "st_config s'") (auto simp: wiring_def)
next
  case (since_world T s w w')
  then show ?case using assms(2) by (simp add: tells_def)
qed

end

end
