(* ===== verification/Evidence.thy ===== *)
theory Evidence
  imports Leaf_Log Legs Merkle_Properties Portal_Properties
begin

text \<open>
  The two chains together. On the ad chain the ad-manager appends its leaves to the merkle manager; the root
  anchor notarizes the manager's roots, and the order-portal ends orders on proofs against them. Every ending
  by evidence on the order leg agrees with how the ad leg ended.
\<close>

section \<open>The world with the merkle manager in it\<close>

text \<open>The merkle manager at \<open>mm\<close> and the log of what was appended to it, beside everything else.\<close>

record 'v managed =
  mw_log :: "(bytes32 \<times> u32) list"
  mw_store :: merkle_store
  mw_rest :: 'v

definition opt_rest :: "('v \<Rightarrow> 'v option) \<Rightarrow> 'v managed \<Rightarrow> 'v managed option" where
  "opt_rest f w = map_option (\<lambda>v. w\<lparr>mw_rest := v\<rparr>) (f (mw_rest w))"

definition call_rest :: "('v \<Rightarrow> call_failure + 'v) \<Rightarrow> 'v managed \<Rightarrow> call_failure + 'v managed" where
  "call_rest f w = map_sum id (\<lambda>v. w\<lparr>mw_rest := v\<rparr>) (f (mw_rest w))"

definition over_manager :: "address \<Rightarrow> 'v ext \<Rightarrow> 'v managed ext" where
  "over_manager mm X =
     \<lparr>tok_transfer = (\<lambda>E t a b i. opt_rest (tok_transfer X E t a b i)),
      tok_balance = (\<lambda>t a w. tok_balance X t a (mw_rest w)),
      tok_decimals = (\<lambda>t w. tok_decimals X t (mw_rest w)),
      mm_append = (\<lambda>E m caller h d w.
        if m = mm then
          (case append_order_hash (sub_env E mm) caller h d (mw_store w) of
             Inr st \<Rightarrow> Some (w\<lparr>mw_store := st, mw_log := mw_log w @ [(h, d)]\<rparr>)
           | Inl _ \<Rightarrow> None)
        else opt_rest (mm_append X E m caller h d) w),
      zk_verify = (\<lambda>v pi pf w. zk_verify X v pi pf (mw_rest w)),
      rv_root_valid = (\<lambda>E m c r md w. rv_root_valid X E m c r md (mw_rest w)),
      rv_registry = (\<lambda>m w. rv_registry X m (mw_rest w)),
      ra_is_anchored = (\<lambda>E a c r w. ra_is_anchored X E a c r (mw_rest w)),
      ra_anchor_delay = (\<lambda>a c w. ra_anchor_delay X a c (mw_rest w)),
      kr_has_usable_slot = (\<lambda>E r a w. kr_has_usable_slot X E r a (mw_rest w)),
      kr_is_approved_maker = (\<lambda>E r a m w. kr_is_approved_maker X E r a m (mw_rest w)),
      kr_commitment_at = (\<lambda>E r a i w. kr_commitment_at X E r a i (mw_rest w)),
      kr_expired_at = (\<lambda>r a i w. kr_expired_at X r a i (mw_rest w)),
      kr_repin_approval = (\<lambda>r a h w. kr_repin_approval X r a h (mw_rest w)),
      dm_open_dispute = (\<lambda>E m e h c f ev dl bf t amt w.
        map_sum id (\<lambda>(b, v). (b, w\<lparr>mw_rest := v\<rparr>)) (dm_open_dispute X E m e h c f ev dl bf t amt (mw_rest w))),
      dm_settle_bond = (\<lambda>E m e h out fb rf. call_rest (dm_settle_bond X E m e h out fb rf)),
      dm_record_response = (\<lambda>E m e h r ev. call_rest (dm_record_response X E m e h r ev)),
      dm_outcome_of = (\<lambda>E m h w. dm_outcome_of X E m h (mw_rest w)),
      dm_initiator_of = (\<lambda>m h w. dm_initiator_of X m h (mw_rest w)),
      dm_challenge_deadline_of = (\<lambda>m h w. dm_challenge_deadline_of X m h (mw_rest w))\<rparr>"

lemma opt_rest_Some: "opt_rest f w = Some w' \<longleftrightarrow> (\<exists>v. f (mw_rest w) = Some v \<and> w' = w\<lparr>mw_rest := v\<rparr>)"
  by (auto simp: opt_rest_def)

lemma call_rest_Inr: "call_rest f w = Inr w' \<longleftrightarrow> (\<exists>v. f (mw_rest w) = Inr v \<and> w' = w\<lparr>mw_rest := v\<rparr>)"
  by (cases "f (mw_rest w)") (auto simp: call_rest_def)

lemma over_manager_append:
  "mm_append (over_manager mm X) E mm caller h d w = Some w' \<longleftrightarrow>
     (\<exists>st. append_order_hash (sub_env E mm) caller h d (mw_store w) = Inr st \<and>
        w' = w\<lparr>mw_store := st, mw_log := mw_log w @ [(h, d)]\<rparr>)"
  by (auto simp: over_manager_def split: sum.splits)

text \<open>What a call may do to the manager: nothing but appends, each of them logged.\<close>

definition managed_ok :: "crypto \<Rightarrow> 'v managed \<Rightarrow> bool" where
  "managed_ok C w \<longleftrightarrow> mg_reach C (mw_log w) (mw_store w)"

lemma over_manager_rest:
  assumes "\<And>w v. Q w (w\<lparr>mw_rest := v\<rparr>)" "\<And>w w1 w'. Q w w1 \<Longrightarrow> Q w1 w' \<Longrightarrow> Q w w'"
  shows "quiet_calls (over_manager mm X) Q"
proof
  show "Q w w" for w using assms(1) [of w "mw_rest w"] by simp
  show "Q w w'" if "Q w w1" "Q w1 w'" for w w1 w' using that by (rule assms(2))
  show "Q w w'" if "tok_transfer (over_manager mm X) E t a b i w = Some w'" for E t a b i w w'
    using that assms(1) by (auto simp: over_manager_def opt_rest_Some)
  show "Q w w'" if "dm_open_dispute (over_manager mm X) E m e h c f ev dl bf t n w = Inr (bd, w')"
    for E m e h c f ev dl bf t n w bd w'
    using that assms(1) by (cases "dm_open_dispute X E m e h c f ev dl bf t n (mw_rest w)") (auto simp: over_manager_def)
  show "Q w w'" if "dm_settle_bond (over_manager mm X) E m e h out fb rf w = Inr w'" for E m e h out fb rf w w'
    using that assms(1) by (auto simp: over_manager_def call_rest_Inr)
  show "Q w w'" if "dm_record_response (over_manager mm X) E m e h r ev w = Inr w'" for E m e h r ev w w'
    using that assms(1) by (auto simp: over_manager_def call_rest_Inr)
qed

interpretation untouched: quiet_calls "over_manager mm X" "\<lambda>w w'. mw_log w' = mw_log w" for mm X
  by (rule over_manager_rest) simp_all

interpretation manager: leaf_log "over_manager mm X" mm me mw_log for mm X me
proof (rule leaf_log.intro)
  show "mw_log w' = mw_log w @ [(h, d)]" if "mm_append (over_manager mm X) E mm me h d w = Some w'" for E h d w w'
    using that by (auto simp: over_manager_append)
qed (rule untouched.quiet_calls_axioms)

interpretation managed: all_calls "over_manager mm X" "\<lambda>w w'. managed_ok C w \<longrightarrow> managed_ok C w'" "\<lambda>E. prims E = C"
  for mm X C
proof (intro all_calls.intro all_calls_axioms.intro impI)
  show "quiet_calls (over_manager mm X) (\<lambda>w w'. managed_ok C w \<longrightarrow> managed_ok C w')"
    by (rule over_manager_rest) (auto simp: managed_ok_def)
next
  fix E m h d and w w' :: "'a managed"
  assume E: "prims E = C" and a: "mm_append (over_manager mm X) E m (self E) h d w = Some w'" and w: "managed_ok C w"
  show "managed_ok C w'"
  proof (cases "m = mm")
    case True
    with a obtain st where st: "mg_exec (sub_env E mm) (GAppend (self E) h d) (mw_store w) = Inr st"
      "w' = w\<lparr>mw_store := st, mw_log := mw_log w @ [(h, d)]\<rparr>"
      by (auto simp: over_manager_append)
    with mg_reach_call [OF w [unfolded managed_ok_def] _ st(1)] show ?thesis
      using E by (simp add: managed_ok_def)
  next
    case False
    then show ?thesis using a w by (auto simp: over_manager_def opt_rest_Some managed_ok_def)
  qed
qed

text \<open>So the manager's log stays the log of its own reachable state.\<close>

lemma since_managed:
  assumes "ad_since (over_manager mm X) C me cid mm R w0 T sw" "managed_ok C w0"
    and "\<And>w w'. R w w' \<Longrightarrow> managed_ok C w \<Longrightarrow> managed_ok C w'"
  shows "managed_ok C (snd sw)"
  using assms(1)
proof (induction rule: ad_since.induct)
  case (since_call T s w E c s' w')
  then show ?case using managed.exec_frame [OF since_call.hyps(3)] by (simp add: entry_def)
qed (use assms(2,3) in auto)

section \<open>How the ad leg ended\<close>

lemma ruling_leaf_if: "ruling_leaf out = (if out = BridgerForfeit then LEAF_DOMAIN_FORFEIT else LEAF_DOMAIN_CANCEL)"
  by (cases out) simp_all

text \<open>C22: The leaves tell the ending: from the ad-manager's deployment on, the exit leaves of an order in the
  merkle manager's log say exactly how the order ended, and there is at most one of them. No leaf: the order
  is neither cancelled nor resolved. SETTLED: it was filled and recorded. CANCEL: it was cancelled, or
  resolved once, on an outcome of the dispute module other than the bridger's forfeit. FORFEIT: it was
  resolved once, on the bridger's forfeit. The rest of the world only leaves the order's leaves alone
  (appends are authorized by the escrow they name).\<close>

theorem leaves_tell_endings:
  assumes "ad_since (over_manager mm X) C me cid mm R w0 T (s, w)"
    and "\<And>v v'. R v v' \<Longrightarrow> exits_of h (mw_log v') = exits_of h (mw_log v)" "exits_of h (mw_log w0) = []"
  shows "(exits_of h (mw_log w) = [] \<and> get_order_status s h \<notin> {Cancelled, Resolved} \<and> \<not> is_settled_recorded s h \<and>
      rulings (over_manager mm X) h T = []) \<or>
    (exits_of h (mw_log w) = [LEAF_DOMAIN_SETTLED] \<and> get_order_status s h = Filled \<and> is_settled_recorded s h \<and>
      rulings (over_manager mm X) h T = []) \<or>
    (exits_of h (mw_log w) = [LEAF_DOMAIN_CANCEL] \<and> get_order_status s h = Cancelled \<and> rulings (over_manager mm X) h T = []) \<or>
    (exits_of h (mw_log w) = [LEAF_DOMAIN_CANCEL] \<and> get_order_status s h = Resolved \<and>
      (\<exists>out. out \<noteq> BridgerForfeit \<and> rulings (over_manager mm X) h T = [out])) \<or>
    (exits_of h (mw_log w) = [LEAF_DOMAIN_FORFEIT] \<and> get_order_status s h = Resolved \<and> rulings (over_manager mm X) h T = [BridgerForfeit])"
proof -
  have "told (get_order_status s h) (is_settled_recorded s h) (rulings (over_manager mm X) h T) (exits_of h (mw_log w))"
    using manager.since_tells [OF assms(1-3)] by (simp add: tells_def)
  then show ?thesis unfolding told_def ruling_leaf_if by (auto split: if_splits)
qed

section \<open>How the order leg may end\<close>

lemma roots_at:
  assumes "mg_reach C L m" "range_ok C L" "0 < n" "n \<le> length L"
  shows "mg_get_root_at_index m n = mmr_root_spec C (leaves_of C (take n L))"
  using mg_reach_range [OF assms(1,2)] assms(3,4)
  by (simp add: mmr_of_def mg_get_root_at_index_def leaves_of_def take_map)

text \<open>A leaf that an anchored root is proved to hold was appended.\<close>

lemma proved_leaf:
  assumes "managed_ok C w" "range_ok C (mw_log w)" "0 < n" "n \<le> length (mw_log w)"
    and "root = mg_get_root_at_index (mw_store w) n"
    and "root = mmr_root_spec C (leaves_of C (take n (mw_log w))) \<Longrightarrow>
      encode_leaf C h d \<in> set (leaves_of C (take n (mw_log w)))"
    and "\<And>k e. (k, e) \<in> set (mw_log w) \<Longrightarrow> encode_leaf C k e = encode_leaf C h d \<Longrightarrow> k = h \<and> e = d"
  shows "(h, d) \<in> set (mw_log w)"
proof -
  have "root = mmr_root_spec C (leaves_of C (take n (mw_log w)))"
    using roots_at [of C "mw_log w" "mw_store w" n] assms(1-5) by (simp add: managed_ok_def)
  then have "encode_leaf C h d \<in> set (leaves_of C (take n (mw_log w)))" by (rule assms(6))
  then obtain k e where "(k, e) \<in> set (take n (mw_log w))" "encode_leaf C k e = encode_leaf C h d"
    by (auto simp: leaves_of_def)
  then show ?thesis using assms(7) in_set_takeD by metis
qed

lemma exit_leaf_ending:
  assumes "tells s L rs h"
  shows "(h, LEAF_DOMAIN_CANCEL) \<in> set L \<Longrightarrow> get_order_status s h = Cancelled \<and> rs = [] \<or>
      get_order_status s h = Resolved \<and> (\<exists>out. out \<noteq> BridgerForfeit \<and> rs = [out])"
    and "(h, LEAF_DOMAIN_SETTLED) \<in> set L \<Longrightarrow> get_order_status s h = Filled \<and> rs = []"
    and "(h, LEAF_DOMAIN_FORFEIT) \<in> set L \<Longrightarrow> get_order_status s h = Resolved \<and> rs = [BridgerForfeit]"
proof -
  have leaves: "LEAF_DOMAIN_CANCEL \<noteq> LEAF_DOMAIN_SETTLED" "LEAF_DOMAIN_CANCEL \<noteq> LEAF_DOMAIN_FORFEIT"
    "LEAF_DOMAIN_SETTLED \<noteq> LEAF_DOMAIN_FORFEIT"
    by (simp_all add: LEAF_DOMAIN_SETTLED_def LEAF_DOMAIN_CANCEL_def LEAF_DOMAIN_FORFEIT_def)
  have mem: "(h, d) \<in> set L \<Longrightarrow> d \<in> EXITS \<Longrightarrow> d \<in> set (exits_of h L)" for d by (simp add: in_exits_of)
  consider (none) "exits_of h L = []"
    | (settled) "exits_of h L = [LEAF_DOMAIN_SETTLED]" "rs = []" "get_order_status s h = Filled"
    | (cancelled) "exits_of h L = [LEAF_DOMAIN_CANCEL]" "rs = []" "get_order_status s h = Cancelled"
    | (resolved) out where "exits_of h L = [ruling_leaf out]" "rs = [out]" "get_order_status s h = Resolved"
    using assms unfolding tells_def told_def by blast
  note t = this
  show "(h, LEAF_DOMAIN_CANCEL) \<in> set L \<Longrightarrow> get_order_status s h = Cancelled \<and> rs = [] \<or>
      get_order_status s h = Resolved \<and> (\<exists>out. out \<noteq> BridgerForfeit \<and> rs = [out])"
    using mem [of LEAF_DOMAIN_CANCEL] leaves by (cases rule: t) (auto simp: ruling_leaf_if split: if_splits)
  show "(h, LEAF_DOMAIN_SETTLED) \<in> set L \<Longrightarrow> get_order_status s h = Filled \<and> rs = []"
    using mem [of LEAF_DOMAIN_SETTLED] leaves by (cases rule: t) (auto simp: ruling_leaf_if split: if_splits)
  show "(h, LEAF_DOMAIN_FORFEIT) \<in> set L \<Longrightarrow> get_order_status s h = Resolved \<and> rs = [BridgerForfeit]"
    using mem [of LEAF_DOMAIN_FORFEIT] leaves by (cases rule: t) (auto simp: ruling_leaf_if split: if_splits)
qed

text \<open>C21: Composition across the chains: an ending of the order leg by evidence agrees with the ad leg. If
  the order-portal refunds the bridger, the ad-manager cancelled the order, or resolved it on an outcome of
  the dispute module other than the bridger's forfeit; if it pays the maker on a SETTLED leaf, the ad-manager
  paid the order's recipient and ruled nothing; if it pays the maker on a FORFEIT leaf, the ad-manager
  resolved the dispute on the bridger's forfeit. So the order leg never applies the opposite of a ruling.
  Relied on: the notaries anchor only roots the merkle manager had, a proof passes only for a leaf under the
  root it names, and the order's leaf is no other leaf's hash.\<close>

theorem evidence_agrees:
  assumes "ad_since (over_manager mm X) C me cid mm R w0 T (s, w)"
    and "\<And>v v'. R v v' \<Longrightarrow> exits_of h (mw_log v') = exits_of h (mw_log v)" "exits_of h (mw_log w0) = []"
    and "\<And>v v'. R v v' \<Longrightarrow> managed_ok C v \<Longrightarrow> managed_ok C v'" "managed_ok C w0" "range_ok C (mw_log w)"
    and "st_config s2 = Some cfg" "op_order_hash E cfg q = (Inr h :: (portal_error, bytes32) res)"
    and notary: "require_anchored X2 E (q_ad_chain_id q) root (s2, w2) = Inr () \<Longrightarrow>
      \<exists>n. 0 < n \<and> n \<le> length (mw_log w) \<and> root = mg_get_root_at_index (mw_store w) n"
    and circuit: "\<And>n d. zk_verify X2 (verifier cfg) (build_event_public_inputs (prims E) root h d) pf w2 \<Longrightarrow>
      0 < n \<Longrightarrow> root = mmr_root_spec C (leaves_of C (take n (mw_log w))) \<Longrightarrow>
      encode_leaf C h d \<in> set (leaves_of C (take n (mw_log w)))"
    and binding: "\<And>k e d. (k, e) \<in> set (mw_log w) \<Longrightarrow> encode_leaf C k e = encode_leaf C h d \<Longrightarrow> d \<in> EXITS \<Longrightarrow>
      k = h \<and> e = d"
  shows "(refund_by_cancel X2 E q root pf (s2, w2) = Inr r \<longrightarrow>
      get_order_status s h = Cancelled \<and> rulings (over_manager mm X) h T = [] \<or>
      get_order_status s h = Resolved \<and> (\<exists>out. out \<noteq> BridgerForfeit \<and> rulings (over_manager mm X) h T = [out])) \<and>
    (op_present_settled X2 E q root pf (s2, w2) = Inr r \<longrightarrow> get_order_status s h = Filled \<and> rulings (over_manager mm X) h T = []) \<and>
    (pay_maker_by_forfeit X2 E q root pf (s2, w2) = Inr r \<longrightarrow>
      get_order_status s h = Resolved \<and> rulings (over_manager mm X) h T = [BridgerForfeit])"
proof -
  have ok: "managed_ok C w" using since_managed [OF assms(1,5,4)] by simp
  have t: "tells s (mw_log w) (rulings (over_manager mm X) h T) h"
    using manager.since_tells [OF assms(1-3)] by simp
  have leaf: "(h, d) \<in> set (mw_log w)" if "by_leaf X2 E q root pf d (s2, w2) k = Inr r" "d \<in> EXITS" for d k
  proof -
    from that assms(7,8) have a: "require_anchored X2 E (q_ad_chain_id q) root (s2, w2) = Inr ()"
      and z: "zk_verify X2 (verifier cfg) (build_event_public_inputs (prims E) root h d) pf w2"
      by (auto simp: by_leaf_Ok)
    from notary [OF a] obtain n where "0 < n" "n \<le> length (mw_log w)" "root = mg_get_root_at_index (mw_store w) n"
      by blast
    note n = this
    show ?thesis by (rule proved_leaf [OF ok assms(6) n]) (use circuit [OF z n(1)] binding that(2) in auto)
  qed
  show ?thesis
    unfolding refund_by_cancel_def op_present_settled_def pay_maker_by_forfeit_def
    using exit_leaf_ending [OF t] leaf EXITS_simps(1-3) by blast
qed

section \<open>A run\<close>

text \<open>The ad-manager of \<open>Ad_Demo\<close> over a merkle manager of its own, with a dispute module that ruled the
  bridger's forfeit: the maker locks the order, disputes it and finalizes the dispute; the order leg of
  \<open>Portal_Demo\<close> then pays the maker on the FORFEIT leaf.\<close>

definition ev_env :: "u64 \<Rightarrow> env" where
  "ev_env t = (demo_env t)\<lparr>prims := mg_demo_crypto\<rparr>"

definition ev_ext :: "int managed ext" where
  "ev_ext = over_manager (ContractAddr 15) (demo_ext\<lparr>dm_outcome_of := (\<lambda>_ _ _ _. Inr (BridgerForfeit, True, None))\<rparr>)"

definition ev_setup :: "(u64 \<times> ad_call) list" where
  "ev_setup =
     [(100, KAdmin (KSetChain 7 40)),
      (100, KAdmin (KSetTokenRoute 20 21 7)),
      (100, KAdmin (KSetRouteTiming 7 demo_timing)),
      (100, KAdmin (KSetKeyRegistry (ContractAddr 11))),
      (100, KAdmin (KSetRootVerifier 7 (ContractAddr 12))),
      (100, KAdmin (KSetRootAnchor (ContractAddr 13))),
      (100, KAdmin (KSetDisputeManager (ContractAddr 17))),
      (200, KMaker (KCreateAd demo_maker ''a1'' 20 1000 7 50 2))]"

definition ev_ready :: ad_store where
  "ev_ready = demo_locked\<lparr>st_dispute_manager := Some (ContractAddr 17), st_orders := Map.empty,
     st_in_flight := Map.empty, am_ads := [''a1'' \<mapsto> demo_ad\<lparr>ad_locked := 0\<rparr>]\<rparr>"

definition ev_disputed :: ad_store where
  "ev_disputed = demo_locked\<lparr>st_dispute_manager := Some (ContractAddr 17), st_orders := [66 \<mapsto> demo_leg\<lparr>status := Disputed\<rparr>],
     st_order_dispute := [66 \<mapsto> ContractAddr 17]\<rparr>"

definition ev_resolved :: ad_store where
  "ev_resolved = ev_disputed\<lparr>st_orders := [66 \<mapsto> demo_leg\<lparr>status := Resolved\<rparr>], st_in_flight := Map.empty,
     am_ads := [''a1'' \<mapsto> demo_ad\<lparr>ad_locked := 0\<rparr>]\<rparr>"

definition ev_manager :: merkle_store where
  "ev_manager = mg_empty\<lparr>mg_admin := Some (AccountAddr 1), mg_init := True,
     mg_escapp := [demo_me \<mapsto> True], mg_managers := [demo_me \<mapsto> True]\<rparr>"

definition ev_world :: "int managed" where
  "ev_world = \<lparr>mw_log = [], mw_store = ev_manager, mw_rest = 0\<rparr>"

lemma ev_entry: "entry mg_demo_crypto demo_me (ev_env t)"
  by (simp add: entry_def ev_env_def demo_env_def demo_me_def demo_admin_def demo_maker_def)

lemma run_calls_since:
  assumes "ad_since X C me cid mm R w0 T sw" "\<And>t. entry C me (E t)" "run_calls X E cs sw = Some sw'"
  shows "\<exists>T'. ad_since X C me cid mm R w0 (T @ T') sw'"
  using assms
proof (induction cs arbitrary: sw T)
  case (Cons tc cs)
  obtain t c s w where tc: "tc = (t, c)" "sw = (s, w)" by (cases tc, cases sw)
  from Cons.prems(3) tc obtain s1 w1 where x: "ad_exec X (E t) c (s, w) = Inr (s1, w1)"
    and rest: "run_calls X E cs (s1, w1) = Some sw'" by (auto split: sum.splits)
  from since_call [OF Cons.prems(1) [unfolded tc(2)] Cons.prems(2) x]
  have "ad_since X C me cid mm R w0 (T @ [(E t, c, s, w)]) (s1, w1)" .
  from Cons.IH [OF this Cons.prems(2) rest] obtain T' where
    "ad_since X C me cid mm R w0 ((T @ [(E t, c, s, w)]) @ T') sw'" by blast
  then show ?case by (intro exI [of _ "(E t, c, s, w) # T'"]) simp
qed (auto intro: exI [of _ "[]"])

text \<open>A deployment, and the calls after it.\<close>

abbreviation ev_since :: "int managed ad_event list \<Rightarrow> ad_store \<times> int managed \<Rightarrow> bool" where
  "ev_since \<equiv> ad_since ev_ext mg_demo_crypto demo_me 9 (ContractAddr 15) (\<lambda>_ _. False) ev_world"

lemma ev_init_since: "ev_since [] (demo_init, ev_world)"
  by (rule since_init [OF ev_entry [of 0], where adm = demo_admin and vf = "ContractAddr 14" and wn = "ContractAddr 16"])
    (simp add: ad_initialize_def ad_empty_def demo_init_def demo_config_def require_auth_def ev_env_def demo_env_def)

lemma ev_manager_reach: "mg_reach mg_demo_crypto [] ev_manager"
proof -
  let ?s = "mg_empty\<lparr>mg_admin := Some (AccountAddr 1), mg_init := True\<rparr>"
  have "mg_initialize mg_demo_env (AccountAddr 1) mg_empty = Inr ?s"
    by (simp add: mg_initialize_def mg_demo_env_def mg_empty_def)
  then have "mg_reach mg_demo_crypto [] ?s" by (rule mg_reach_init)
  moreover have "mg_exec mg_demo_env (GSetEscrowAppender demo_me True) ?s = Inr ev_manager"
    by (simp add: mg_set_escrow_appender_def mg_empty_def gate_def gate_keyed_def is_active_def
        tl_init_def require_auth_def mg_demo_env_def ev_manager_def)
  ultimately show ?thesis
    using mg_reach_call [of mg_demo_crypto "[]" ?s mg_demo_env "GSetEscrowAppender demo_me True" ev_manager]
    by simp
qed

lemma ev_setup_runs: "run_calls ev_ext ev_env ev_setup (demo_init, ev_world) = Some (ev_ready, ev_world\<lparr>mw_rest := 1000\<rparr>)"
  by (simp add: ev_setup_def ev_ready_def ev_ext_def over_manager_def opt_rest_def demo_locked_def ev_env_def
      ev_world_def demo_defs run_defs lock_defs ad_set_dispute_manager_def)

text \<open>Each append goes through, whatever was appended before.\<close>

lemma ev_append_next:
  assumes "mg_reach mg_demo_crypto L m" "is_manager m demo_me" "length L < 50"
  obtains m' where "append_order_hash (sub_env (ev_env t) (ContractAddr 15)) demo_me h d m = Inr m'"
    "mg_reach mg_demo_crypto (L @ [(h, d)]) m'" "is_manager m' demo_me"
proof -
  let ?E = "sub_env (ev_env t) (ContractAddr 15)"
  have E: "prims ?E = mg_demo_crypto" "authed ?E demo_me" by (simp_all add: sub_env_def ev_env_def demo_env_def)
  have "range_ok mg_demo_crypto (L @ [(h, d)])" using assms(3) by (intro mg_demo_range_ok) simp
  from append_goes_through [OF assms(1) this E assms(2) mg_reach_init_flag [OF assms(1)]]
  obtain m' where m': "append_order_hash ?E demo_me h d m = Inr m'" "m' = m\<lparr>mg_mmr := mg_mmr m'\<rparr>" by auto
  have "mg_reach mg_demo_crypto (L @ appended (GAppend demo_me h d)) m'"
    by (rule mg_reach_call [OF assms(1) E(1)]) (simp add: m'(1))
  moreover have "is_manager m' demo_me" using assms(2) by (subst m'(2)) (simp add: is_manager_def)
  ultimately show thesis using that m'(1) by simp
qed

definition ev_locked :: ad_store where
  "ev_locked = demo_locked\<lparr>st_dispute_manager := Some (ContractAddr 17)\<rparr>"

lemmas ev_run_defs = ev_ext_def over_manager_def opt_rest_def call_rest_def demo_locked_def ev_env_def ev_ready_def
  ev_locked_def ev_disputed_def ev_resolved_def mg_demo_crypto_def

lemma ev_lock_runs:
  assumes "append_order_hash (sub_env (ev_env 300) (ContractAddr 15)) demo_me 66 LEAF_DOMAIN_ORDER ev_manager = Inr m"
  shows "ad_exec ev_ext (ev_env 300) (KOrder (KLock demo_order 0)) (ev_ready, ev_world\<lparr>mw_rest := 1000\<rparr>) =
    Inr (ev_locked, \<lparr>mw_log = [(66, LEAF_DOMAIN_ORDER)], mw_store = m, mw_rest = 1000\<rparr>)"
  using assms by (simp add: ev_run_defs ev_world_def demo_defs run_defs lock_defs)

lemma ev_dispute_runs:
  "ad_exec ev_ext (ev_env 400) (KOrder (KDispute demo_order demo_maker 5)) (ev_locked, w) = Inr (ev_disputed, w)"
  by (simp add: ev_run_defs demo_defs run_defs lock_defs unlock_defs cancel_defs dispute_def open_dispute_def
      require_party_def dispute_manager_def set_order_dispute_manager_def relayed_def)

lemma ev_finalize_runs:
  assumes "append_order_hash (sub_env (ev_env 12000) (ContractAddr 15)) demo_me 66 LEAF_DOMAIN_FORFEIT m = Inr m'"
  shows "ad_exec ev_ext (ev_env 12000) (KOrder (KFinalizeDispute demo_order))
      (ev_disputed, \<lparr>mw_log = L, mw_store = m, mw_rest = 1000\<rparr>) =
    Inr (ev_resolved, \<lparr>mw_log = L @ [(66, LEAF_DOMAIN_FORFEIT)], mw_store = m', mw_rest = 1000\<rparr>)"
  using assms
  by (simp add: ev_run_defs demo_defs run_defs lock_defs unlock_defs cancel_defs finalize_dispute_def
      dispute_outcome_def order_dispute_manager_def dispute_end_def dispute_challenge_deadline_def settle_bond_def
      resolve_def relayed_def)

text \<open>The run, with its two leaves.\<close>

lemma ev_run:
  obtains T m where "ev_since T (ev_resolved, \<lparr>mw_log = [(66, LEAF_DOMAIN_ORDER), (66, LEAF_DOMAIN_FORFEIT)], mw_store = m,
      mw_rest = 1000\<rparr>)"
proof -
  obtain T where T: "ev_since T (ev_ready, ev_world\<lparr>mw_rest := 1000\<rparr>)"
    using run_calls_since [OF ev_init_since ev_entry ev_setup_runs] by auto
  have "is_manager ev_manager demo_me" by (simp add: ev_manager_def is_manager_def mg_empty_def)
  from ev_append_next [OF ev_manager_reach this, of 300 66 LEAF_DOMAIN_ORDER] obtain m1 where
    1: "append_order_hash (sub_env (ev_env 300) (ContractAddr 15)) demo_me 66 LEAF_DOMAIN_ORDER ev_manager = Inr m1"
      "mg_reach mg_demo_crypto [(66, LEAF_DOMAIN_ORDER)] m1" "is_manager m1 demo_me" by auto
  from ev_append_next [OF 1(2,3), of 12000 66 LEAF_DOMAIN_FORFEIT] obtain m2 where
    2: "append_order_hash (sub_env (ev_env 12000) (ContractAddr 15)) demo_me 66 LEAF_DOMAIN_FORFEIT m1 = Inr m2" by auto
  note since_call [OF since_call [OF since_call [OF T ev_entry ev_lock_runs [OF 1(1)]] ev_entry ev_dispute_runs]
      ev_entry ev_finalize_runs [OF 2]]
  then show thesis using that by simp
qed

theorem leaves_tell_endings_witness:
  "\<exists>T s w. ev_since T (s, w) \<and> exits_of 66 (mw_log w) = [LEAF_DOMAIN_FORFEIT] \<and> get_order_status s 66 = Resolved \<and>
     rulings ev_ext 66 T = [BridgerForfeit]"
proof -
  obtain T m where reach: "ev_since T (ev_resolved, \<lparr>mw_log = [(66, LEAF_DOMAIN_ORDER), (66, LEAF_DOMAIN_FORFEIT)],
      mw_store = m, mw_rest = 1000\<rparr>)" by (rule ev_run)
  let ?w = "\<lparr>mw_log = [(66, LEAF_DOMAIN_ORDER), (66, LEAF_DOMAIN_FORFEIT)], mw_store = m, mw_rest = 1000\<rparr> :: int managed"
  have exits: "exits_of 66 (mw_log ?w) = [LEAF_DOMAIN_FORFEIT]" by (simp add: exits_of_def)
  have "get_order_status ev_resolved 66 = Resolved \<and> rulings ev_ext 66 T = [BridgerForfeit]"
    using leaves_tell_endings [OF reach [unfolded ev_ext_def], of 66] exits
    by (auto simp: ev_world_def ev_ext_def LEAF_DOMAIN_SETTLED_def LEAF_DOMAIN_CANCEL_def LEAF_DOMAIN_FORFEIT_def)
  then show ?thesis using reach exits by blast
qed

text \<open>The order leg, whose notaries anchored \<open>root\<close> and whose proof verifier knows the one true statement.\<close>

definition ev_penv :: "u64 \<Rightarrow> env" where
  "ev_penv t = (pd_env t)\<lparr>prims := mg_demo_crypto\<rparr>"

definition ev_portal :: "bytes32 \<Rightarrow> ledger ext" where
  "ev_portal root = ledger_ext
     \<lparr>ra_is_anchored := (\<lambda>E a c r w. r = root),
      zk_verify := (\<lambda>v pi pf w. pi = build_event_public_inputs mg_demo_crypto root 66 LEAF_DOMAIN_FORFEIT)\<rparr>"

lemma ev_forfeit_runs:
  "\<exists>r. pay_maker_by_forfeit (ev_portal root) (ev_penv 12500) pd_order root [] (pd_open, pd_funded) = Inr r"
  by (simp add: ev_portal_def ev_penv_def mg_demo_crypto_def pay_maker_by_forfeit_def pd_open_def pd_funded_def pd_world_def
      set_settled_recorded_def pd_defs pd_run_defs pd_create_defs pd_end_defs Let_def)

lemma event_inputs_leaf:
  "build_event_public_inputs C root h d = build_event_public_inputs C root h d' \<Longrightarrow> d = d'"
  by (auto simp: build_event_public_inputs_def Let_def be_bytes_inject)

text \<open>The roots after one and after two appends are different.\<close>

lemma mountains_low: "n < 2 ^ k \<Longrightarrow> k \<le> i \<Longrightarrow> mountains n i j = mountains n k j"
proof (induction i)
  case (Suc i)
  show ?case
  proof (cases "k = Suc i")
    case False
    then have "k \<le> i" using Suc.prems(2) by simp
    moreover from this have "n < 2 ^ i" using Suc.prems(1) by (meson less_le_trans one_le_numeral power_increasing)
    ultimately show ?thesis using Suc by simp
  qed simp
qed simp

lemma small_sizes: "pc 1 = 1" "pc 2 = 1" "sz 0 = 0" "sz 1 = 1" "sz 2 = 3"
proof -
  show 1: "pc 1 = 1" by (subst pc.simps) simp
  have "pc 2 = 2 mod 2 + pc (2 div 2)" by (subst pc.simps) simp
  then show "pc 2 = 1" using 1 by simp
  then show "sz 0 = 0" "sz 1 = 1" "sz 2 = 3" using 1 by (simp_all add: sz_def)
qed

lemma small_roots:
  "mmr_root_spec C [x] = poseidon C [DOMAIN_TAG, 1, poseidon C [1, fr_reduce C x]]"
  "mmr_root_spec C [x, y] = poseidon C [DOMAIN_TAG, 3, poseidon C [3, poseidon C [1, fr_reduce C x], poseidon C [2, fr_reduce C y]]]"
proof -
  have "mountains 1 120 0 = mountains 1 (Suc 0) 0" "mountains 2 120 0 = mountains 2 (Suc (Suc 0)) 0"
    by (rule mountains_low; simp)+
  then have m: "mountains 1 120 0 = [(0, 0)]" "mountains 2 120 0 = [(1, 0)]" by simp_all
  have l: "length [x] = 1" "length [x, y] = 2" by simp_all
  show "mmr_root_spec C [x] = poseidon C [DOMAIN_TAG, 1, poseidon C [1, fr_reduce C x]]"
    unfolding mmr_root_spec_def peaks_spec_def l m
    by (simp add: small_sizes [unfolded One_nat_def] value_at.simps idx_def hash_leaf_def)
  show "mmr_root_spec C [x, y] = poseidon C [DOMAIN_TAG, 3, poseidon C [3, poseidon C [1, fr_reduce C x], poseidon C [2, fr_reduce C y]]]"
    unfolding mmr_root_spec_def peaks_spec_def l m
    by (simp add: small_sizes [unfolded One_nat_def] value_at.simps idx_def hash_leaf_def hash_branch_def)
qed

lemma ev_roots_differ:
  "mmr_root_spec mg_demo_crypto (leaves_of mg_demo_crypto [(66, LEAF_DOMAIN_ORDER)]) \<noteq>
   mmr_root_spec mg_demo_crypto (leaves_of mg_demo_crypto [(66, LEAF_DOMAIN_ORDER), (66, LEAF_DOMAIN_FORFEIT)])"
  by (simp add: leaves_of_def small_roots encode_leaf_def mg_demo_crypto_def DOMAIN_TAG_def LEAF_DOMAIN_ORDER_def
      LEAF_DOMAIN_FORFEIT_def)

lemma ev_binding:
  assumes "(k, e) \<in> set [(66, LEAF_DOMAIN_ORDER), (66, LEAF_DOMAIN_FORFEIT)]" "d \<in> EXITS"
    and "encode_leaf mg_demo_crypto k e = encode_leaf mg_demo_crypto 66 d"
  shows "k = 66 \<and> e = d"
  using assms
  by (auto simp: EXITS_def encode_leaf_def mg_demo_crypto_def LEAF_DOMAIN_ORDER_def LEAF_DOMAIN_SETTLED_def
      LEAF_DOMAIN_CANCEL_def LEAF_DOMAIN_FORFEIT_def)

theorem evidence_agrees_witness:
  "\<exists>T s w root. ev_since T (s, w) \<and>
     (\<exists>r. pay_maker_by_forfeit (ev_portal root) (ev_penv 12500) pd_order root [] (pd_open, pd_funded) = Inr r) \<and>
     get_order_status s 66 = Resolved \<and> rulings ev_ext 66 T = [BridgerForfeit]"
proof -
  let ?L = "[(66, LEAF_DOMAIN_ORDER), (66, LEAF_DOMAIN_FORFEIT)]"
  obtain T m where reach: "ev_since T (ev_resolved, \<lparr>mw_log = ?L, mw_store = m, mw_rest = 1000\<rparr>)" by (rule ev_run)
  let ?w = "\<lparr>mw_log = ?L, mw_store = m, mw_rest = 1000\<rparr> :: int managed"
  let ?root = "mmr_root_spec mg_demo_crypto (leaves_of mg_demo_crypto ?L)"
  have cfg: "st_config pd_open = Some pd_config" by (simp add: pd_open_def pd_init_def)
  have hash: "op_order_hash (ev_penv 12500) pd_config pd_order = (Inr 66 :: (portal_error, bytes32) res)"
    by (simp add: op_order_hash_Ok op_hash_raw_def pd_typed_hash ev_penv_def mg_demo_crypto_def pd_order_def)
  have ok: "managed_ok mg_demo_crypto ev_world" by (simp add: managed_ok_def ev_world_def ev_manager_reach)
  have range: "range_ok mg_demo_crypto (mw_log ?w)" by (simp add: mg_demo_range_ok)
  have ends: "exits_of 66 (mw_log ev_world) = []" by (simp add: ev_world_def)
  have "managed_ok mg_demo_crypto ?w" using since_managed [OF reach [unfolded ev_ext_def] ok] by simp
  then have "mg_reach mg_demo_crypto ?L m" by (simp add: managed_ok_def)
  then have "mg_get_root_at_index m 2 = ?root" using roots_at [of mg_demo_crypto ?L m 2] range by simp
  then have notary: "\<exists>n. 0 < n \<and> n \<le> length (mw_log ?w) \<and> ?root = mg_get_root_at_index (mw_store ?w) n"
    by (intro exI [of _ 2]) simp
  have circuit: "encode_leaf mg_demo_crypto 66 d \<in> set (leaves_of mg_demo_crypto (take n (mw_log ?w)))"
    if "zk_verify (ev_portal ?root) (verifier pd_config) (build_event_public_inputs (prims (ev_penv 12500)) ?root 66 d) [] pd_funded"
      "0 < n" "?root = mmr_root_spec mg_demo_crypto (leaves_of mg_demo_crypto (take n (mw_log ?w)))" for n d
  proof -
    have d: "d = LEAF_DOMAIN_FORFEIT"
      using that(1) by (auto simp: ev_portal_def ev_penv_def dest: event_inputs_leaf)
    have "n \<noteq> 1" using that(3) ev_roots_differ by auto
    then have "take n (mw_log ?w) = ?L" using that(2) by (cases n; cases "n - 1") auto
    then show ?thesis using d by (simp add: leaves_of_def)
  qed
  have binding: "k = 66 \<and> e = d" if "(k, e) \<in> set (mw_log ?w)"
    "encode_leaf mg_demo_crypto k e = encode_leaf mg_demo_crypto 66 d" "d \<in> EXITS" for k e d
    by (rule ev_binding [OF _ that(3,2)]) (use that(1) in simp)
  have agrees: "pay_maker_by_forfeit (ev_portal ?root) (ev_penv 12500) pd_order ?root [] (pd_open, pd_funded) = Inr r \<longrightarrow>
      get_order_status ev_resolved 66 = Resolved \<and> rulings ev_ext 66 T = [BridgerForfeit]" for r
    unfolding ev_ext_def
    by (rule evidence_agrees [OF reach [unfolded ev_ext_def] _ ends _ ok range cfg hash notary circuit binding,
          THEN conjunct2, THEN conjunct2]) simp_all
  then show ?thesis using reach ev_forfeit_runs [of ?root] by blast
qed

end
