(* ===== verification/Spec2Isabelle.thy ===== *)
theory Spec2Isabelle
  imports Core_Properties Ad_Properties Merkle_Properties Dispute_Properties Portal_Properties Legs
    Root_Anchor_Properties Verifier_Properties Registrar Key_Properties
    Agent_Properties Cosigned Evidence
begin

text \<open>
  ProofBridge on Stellar: a bridge whose makers post liquidity on one chain (the \<^emph>\<open>ad leg\<close>) and whose
  bridgers fund orders on another (the \<^emph>\<open>order leg\<close>). This library models the Soroban contracts under
  \<open>src/stellar/contracts\<close> and the crate they share, \<open>src/stellar/lib/proofbridge-core\<close>, as functions on
  explicit states, and proves what they promise one by one and together.

  \<^bold>\<open>How the parts interact.\<close> A bridger creates an order on the order-portal; a signer of the maker locks it
  against an ad on the ad-manager. Each lock and each ending appends a leaf to the chain's merkle manager.
  Notaries anchor the roots of the other chain in the root anchor. An order ends by a co-signed unlock (a
  zero-knowledge proof checked by the proof verifier, and both parties' BLS signatures checked by the
  counterparty verifier against the keys in the key registry), by the deadline's cancel, by a dispute at the
  dispute manager, or, on the order leg, by a proof of the leaf with which the ad leg ended. The registrar
  approves key registrations from afar, and the agent account lets a maker's agents lock orders under a
  policy. All admin setters wait a day behind the shared timelock.

  \<^bold>\<open>Conventions.\<close> Machine integers are words of the source's width; \<open>usize\<close> and the MMR's \<open>u128\<close> indices
  are naturals with the wrap or the trap written out. The release profile sets \<open>overflow-checks\<close>, so every
  \<open>+\<close>, \<open>-\<close>, \<open>*\<close> of the sources is a checked operation of \<open>Prelude\<close> that traps. A call is a function into
  \<open>('e, 'a) res\<close>: the value, an error of the contract's own table, or a trap. A failed call leaves no state,
  as the host rolls it back. Storage is a record of maps, one field per key family; \<open>env\<close> (\<open>Host\<close>) holds the
  time, the contract's address, who authorizes, and the host's hash functions; what the contracts call is a
  record of functions \<open>'w ext\<close> over the state \<open>'w\<close> of everything else (\<open>External\<close>).

  \<^bold>\<open>The theories, by source.\<close>

  \<^item> Crate \<open>proofbridge-core\<close>: \<open>Core_Types\<close> (types.rs), \<open>Host\<close>, \<open>Timelock\<close> (timelock.rs), \<open>Escrow_Storage\<close>
    (escrow_storage.rs), \<open>External\<close>, \<open>Token_Ops\<close> (token.rs), \<open>Eip712\<close> (eip712.rs), \<open>Cross_Contract\<close>
    (cross_contract.rs), \<open>Timing\<close>, \<open>Fees\<close>, \<open>Decimal_Scaling\<close>, \<open>Dispute_Rules\<close> (dispute.rs), \<open>Rate_Limit\<close>,
    \<open>Secp\<close>, \<open>Escrow_Ops\<close> (escrow_ops.rs). \<open>Escrow_Facts\<close> and \<open>Escrow_Custody\<close> state what the shared
    operations do to either escrow's store and money; \<open>Core_Properties\<close> holds the crate's own properties.
  \<^item> ad-manager: \<open>Ad_Types\<close>, \<open>Ad_Checks\<close>, \<open>Ad_Admin\<close>, \<open>Ad_Orders\<close> hold the entry points of lib.rs and its
    helper modules; \<open>Ad_Calls\<close> is the contract as one machine. \<open>Ad_Book\<close> is the abstract specification (a book
    of orders and ads, without hashes, signatures or clocks); \<open>Ad_Refinement\<close> and \<open>Ad_Simulation\<close> show every
    call to be a step of it, \<open>Ad_Invariants\<close> and \<open>Ad_Properties\<close> what follows, \<open>Ad_Demo\<close> the runs.
  \<^item> merkle-manager: \<open>Mmr\<close> (mmr.rs) and \<open>Merkle_Manager\<close> (lib.rs, storage.rs). \<open>Mmr_Spec\<close> says what the
    range means over the list of leaves, \<open>Mmr_Refinement\<close> that the append computes it, \<open>Mmr_Proofs\<close> that
    the membership proofs check, \<open>Merkle_Properties\<close> what holds of every reachable state.
  \<^item> dispute-manager: \<open>Dispute_Manager\<close>; \<open>Custody\<close> states the token laws and \<open>Token_Ledger\<close> a ledger that
    keeps them; \<open>Dispute_Invariants\<close>, \<open>Dispute_Interface\<close>, \<open>Dispute_Properties\<close>.
  \<^item> order-portal: \<open>Portal_Types\<close>, \<open>Portal\<close>, \<open>Portal_Calls\<close>, \<open>Portal_Invariants\<close>, \<open>Portal_Demo\<close>,
    \<open>Portal_Properties\<close>.
  \<^item> root-anchor: \<open>Root_Anchor\<close>, \<open>Root_Anchor_Proofs\<close>, \<open>Root_Anchor_Properties\<close>.
  \<^item> counterparty-verifier: \<open>Curve\<close> (the host's curve operations), \<open>Counterparty_Verifier\<close>,
    \<open>Verifier_Properties\<close>. verifier: \<open>Zk_Verifier\<close>. registrar: \<open>Registrar\<close>.
  \<^item> bls-key-registry: \<open>Owner_Text\<close> and \<open>Owner_Auth\<close> (owner.rs), \<open>Key_Registry\<close> (storage.rs and the views),
    \<open>Key_Ops\<close> (lib.rs), \<open>Key_Proofs\<close>, \<open>Key_Effects\<close>, \<open>Key_Demo\<close>, \<open>Decimal_Text\<close>, \<open>Key_Properties\<close>.
  \<^item> agent-account: \<open>Agent_Types\<close> (policy.rs), \<open>Agent_Args\<close> (args.rs), \<open>Agent_Escrow\<close> (escrow.rs),
    \<open>Agent_Account\<close> (lib.rs, owner.rs, auth.rs), \<open>Agent_Calls\<close>, \<open>Agent_Proofs\<close>, \<open>Agent_Volumes\<close>,
    \<open>Agent_Rails\<close>, \<open>Agent_Demo\<close>, \<open>Agent_Properties\<close>.
  \<^item> Across contracts: \<open>Legs\<close> (the two legs' hashes and clocks), \<open>Cosigned\<close> (escrow, counterparty verifier, key
    registry and proof verifier), \<open>Leaf_Log\<close> and \<open>Evidence\<close> (ad-manager, merkle manager and order-portal).

  \<^bold>\<open>What the groups of lemmas show.\<close> The \<open>_Ok\<close> rules (collection \<open>res_simps\<close>) say when an operation goes through
  and with what result; the \<open>_store\<close> rules what it leaves in the store. Each contract's machine (an inductive
  predicate over its calls and the moves of the outside world) carries one invariant, proved call by call, from
  which the properties are read off: the locked and held amounts are exactly what the live orders and credits
  sum to; a status moves along the edges of the lifecycle and a terminal order never moves or pays again;
  nullifiers, nonces, announcements and keys are spent once; a usable root has a quorum; exits go through
  whatever the tokens, pauses or recipients do; what agents lock stays within the account's volume, and an
  instant change of a policy lets them do nothing more (\<open>Agent_Volumes\<close>, a simulation of the two accounts); a
  dispute's outcome is its arbiter's ruling (\<open>dispute_ledger\<close>), and the exit leaf of an order says which
  ruling it was resolved on (\<open>Leaf_Log\<close>, \<open>Evidence\<close>); the MMR's roots are those of the leaf list. Interfaces between contracts are locales: \<open>dispute_ledger\<close>,
  \<open>proof_checker\<close>, \<open>key_directory\<close>, \<open>root_verifier\<close>, \<open>settlement\<close>, \<open>quiet_calls\<close>, \<open>all_calls\<close>, \<open>leaf_log\<close>; each is
  interpreted on the model of the contract that provides it.

  \<^bold>\<open>Bounds.\<close> There is no fuel: every loop is a total function with its measure (the MMR's index loops up to
  height 128, the node recursion by its index, the text printers by their buffers). The merkle properties hold
  below \<open>width_bound\<close>, \<open>2 ^ 120\<close> leaves, so that twice the width and every node index stay in \<open>u128\<close>; no chain
  can reach it. The decimal printer's 39 digits hold any \<open>u128\<close>.

  \<^bold>\<open>Parameters and what is assumed of them.\<close> keccak256, SHA-256, XDR encoding, Poseidon and the field reduction
  (\<open>crypto\<close>), BLS12-381, ed25519 and secp256k1 (\<open>curve\<close>), the UltraHonk package (\<open>honk\<close>), the tokens and the
  other contracts (\<open>'w ext\<close>). Properties that need them to behave say so: tokens keep the laws of \<open>Custody\<close>
  (SEP-41), the order hash does not collide on the orders in play, leaf hashes are not zero, notaries anchor only
  roots that existed, the circuit proves only leaves under the root. Each such hypothesis is met in a witness.

  \<^bold>\<open>Not modelled.\<close> Events and storage rent (\<open>escrow_events.rs\<close>, \<open>ttl.rs\<close> and the TTL calls) do not change the
  modelled state; the host's archival of expired entries is left out with them. \<open>test-token\<close> is a token for test
  networks. The proof system behind the verifier is a package outside the repository. The EVM contracts
  and the deployment scripts are in other languages, the circuits and the relayer in other repositories. An
  upgrade's guard is modelled where a contract has one; the new code it installs is outside the model.
\<close>

end
